(* ===== verification/Prelude.thy ===== *)
theory Prelude
  imports Main
begin

text \<open>
  Shared vocabulary of the DirectPV development: Go's error values and the result of a fallible
  call, the signed and unsigned 64-bit integers of the API types with their wrap-around, and
  generic lemmas on lists and maps. Every other theory imports this one.

  A Go call that may fail and that may change the outside world (the Kubernetes API server, the
  host) is a function from a world to a result and a world. \<open>call\<close> is the idiom
  \<^verbatim>\<open>x, err := f(); if err != nil { ... }\<close>: it runs the error branch or the continuation.
\<close>

section \<open>Collections\<close>

named_theorems int64_simps \<open>arithmetic of in-range 64-bit values\<close>
named_theorems meta_simps \<open>projections of the object transformations\<close>

section \<open>Go errors\<close>

text \<open>
  \<open>errno\<close> are the errors of \<^verbatim>\<open>syscall.Errno\<close> the code distinguishes;
  \<open>api_reason\<close> the reasons of an API status that \<^verbatim>\<open>apierrors.IsNotFound\<close> and
  its kin test. \<open>Wrap\<close> is \<^verbatim>\<open>fmt.Errorf\<close> with a \<^verbatim>\<open>%w\<close> verb:
  the message is kept as the fixed part of the format. \<open>OutOfFuel\<close> is no Go error: it marks a
  model run whose loop bound was reached.
\<close>

datatype errno = EIO | EEXIST | ENOTEMPTY | ENOENT | EACCES | EPERM | EOther nat

datatype api_reason = NotFound | AlreadyExists | Conflict | OtherReason string

datatype error =
    Errno errno
  | ErrExist
  | ErrNotExist
  | PathError string error
  | Wrap string error
  | Join error error
  | ErrorString string
  | Status api_reason
  | Panic string
  | OutOfFuel

text \<open>\<^verbatim>\<open>errors.Unwrap\<close>: one step, \<open>None\<close> where there is nothing wrapped
  (a joined error has no single cause).\<close>

fun errors_Unwrap :: "error \<Rightarrow> error option" where
  "errors_Unwrap (PathError _ e) = Some e"
| "errors_Unwrap (Wrap _ e) = Some e"
| "errors_Unwrap _ = None"

text \<open>\<^verbatim>\<open>errors.Is(err, syscall.EIO)\<close> and its kin: the chain is searched.\<close>

fun errors_Is_errno :: "error \<Rightarrow> errno \<Rightarrow> bool" where
  "errors_Is_errno (Errno n) m = (n = m)"
| "errors_Is_errno (PathError _ e) m = errors_Is_errno e m"
| "errors_Is_errno (Wrap _ e) m = errors_Is_errno e m"
| "errors_Is_errno (Join e f) m = (errors_Is_errno e m \<or> errors_Is_errno f m)"
| "errors_Is_errno _ m = False"

text \<open>\<^verbatim>\<open>errors.Is(err, os.ErrExist)\<close>: \<^verbatim>\<open>Errno.Is\<close> answers for
  \<open>EEXIST\<close> and \<open>ENOTEMPTY\<close>; \<^verbatim>\<open>os.ErrNotExist\<close> is \<open>ENOENT\<close>.\<close>

fun errors_Is_ErrExist :: "error \<Rightarrow> bool" where
  "errors_Is_ErrExist ErrExist = True"
| "errors_Is_ErrExist (Errno n) = (n = EEXIST \<or> n = ENOTEMPTY)"
| "errors_Is_ErrExist (PathError _ e) = errors_Is_ErrExist e"
| "errors_Is_ErrExist (Wrap _ e) = errors_Is_ErrExist e"
| "errors_Is_ErrExist (Join e f) = (errors_Is_ErrExist e \<or> errors_Is_ErrExist f)"
| "errors_Is_ErrExist _ = False"

fun errors_Is_ErrNotExist :: "error \<Rightarrow> bool" where
  "errors_Is_ErrNotExist ErrNotExist = True"
| "errors_Is_ErrNotExist (Errno n) = (n = ENOENT)"
| "errors_Is_ErrNotExist (PathError _ e) = errors_Is_ErrNotExist e"
| "errors_Is_ErrNotExist (Wrap _ e) = errors_Is_ErrNotExist e"
| "errors_Is_ErrNotExist (Join e f) = (errors_Is_ErrNotExist e \<or> errors_Is_ErrNotExist f)"
| "errors_Is_ErrNotExist _ = False"

text \<open>\<^verbatim>\<open>errors.As(err, &perr)\<close> with \<^verbatim>\<open>perr\<close> a \<^verbatim>\<open>*fs.PathError\<close>.\<close>

fun errors_As_PathError :: "error \<Rightarrow> bool" where
  "errors_As_PathError (PathError _ _) = True"
| "errors_As_PathError (Wrap _ e) = errors_As_PathError e"
| "errors_As_PathError (Join e f) = (errors_As_PathError e \<or> errors_As_PathError f)"
| "errors_As_PathError _ = False"

text \<open>\<^verbatim>\<open>apierrors.IsNotFound\<close>, \<^verbatim>\<open>IsAlreadyExists\<close>, \<^verbatim>\<open>IsConflict\<close>:
  the reason of the first API status in the chain.\<close>

fun reason_for_error :: "error \<Rightarrow> api_reason option" where
  "reason_for_error (Status r) = Some r"
| "reason_for_error (PathError _ e) = reason_for_error e"
| "reason_for_error (Wrap _ e) = reason_for_error e"
| "reason_for_error (Join e f) =
     (case reason_for_error e of None \<Rightarrow> reason_for_error f | Some r \<Rightarrow> Some r)"
| "reason_for_error _ = None"

definition IsNotFound :: "error \<Rightarrow> bool" where
  "IsNotFound e = (reason_for_error e = Some NotFound)"

definition IsAlreadyExists :: "error \<Rightarrow> bool" where
  "IsAlreadyExists e = (reason_for_error e = Some AlreadyExists)"

definition IsConflict :: "error \<Rightarrow> bool" where
  "IsConflict e = (reason_for_error e = Some Conflict)"

section \<open>Fallible calls on a world\<close>

type_synonym 'a result = "error + 'a"
type_synonym ('w, 'a) io = "'w \<Rightarrow> 'a result \<times> 'w"

definition call :: "('e + 'a) \<times> 'w \<Rightarrow> ('e \<Rightarrow> 'w \<Rightarrow> 'r) \<Rightarrow> ('a \<Rightarrow> 'w \<Rightarrow> 'r) \<Rightarrow> 'r" where
  "call rw h k = (case rw of (Inl e, w) \<Rightarrow> h e w | (Inr x, w) \<Rightarrow> k x w)"

lemma call_Inl [simp]: "call (Inl e, w) h k = h e w"
  by (simp add: call_def)

lemma call_Inr [simp]: "call (Inr x, w) h k = k x w"
  by (simp add: call_def)

lemma call_split:
  "P (call rw h k) \<longleftrightarrow>
     (\<forall>e w. rw = (Inl e, w) \<longrightarrow> P (h e w)) \<and> (\<forall>x w. rw = (Inr x, w) \<longrightarrow> P (k x w))"
  by (cases rw) (auto simp: call_def split: sum.splits)

lemma callE:
  assumes "call rw h k = r"
  obtains (err) e w where "rw = (Inl e, w)" "h e w = r"
        | (ok) x w where "rw = (Inr x, w)" "k x w = r"
  using assms by (cases rw) (auto simp: call_def split: sum.splits)

lemma call_cong [fundef_cong]:
  assumes "rw = rw'"
    and "\<And>e w. rw' = (Inl e, w) \<Longrightarrow> h e w = h' e w"
    and "\<And>x w. rw' = (Inr x, w) \<Longrightarrow> k x w = k' x w"
  shows "call rw h k = call rw' h' k'"
  using assms by (cases rw') (auto simp: call_def split: sum.splits)

lemma not_isl_ok: "\<not> isl (fst p) \<Longrightarrow> \<exists>x w. p = (Inr x, w)"
  by (cases p) (auto simp: isl_def, metis sum.exhaust)

section \<open>64-bit integers\<close>

text \<open>
  \<^verbatim>\<open>int64\<close> values are integers in the two's complement range; \<open>i64\<close> is the
  wrap-around every \<^verbatim>\<open>int64\<close> operation ends with. \<open>u64\<close> is the same for
  \<^verbatim>\<open>uint64\<close>; the conversions \<^verbatim>\<open>uint64(x)\<close> and
  \<^verbatim>\<open>int64(x)\<close> are \<open>u64 x\<close> and \<open>i64 x\<close>.
\<close>

definition i64 :: "int \<Rightarrow> int" where
  "i64 x = (x + 2 ^ 63) mod 2 ^ 64 - 2 ^ 63"

definition u64 :: "int \<Rightarrow> int" where
  "u64 x = x mod 2 ^ 64"

definition in_i64 :: "int \<Rightarrow> bool" where
  "in_i64 x \<longleftrightarrow> - (2 ^ 63) \<le> x \<and> x < 2 ^ 63"

lemma i64_id [int64_simps]: "in_i64 x \<Longrightarrow> i64 x = x"
  by (simp add: i64_def in_i64_def)

lemma in_i64_i64 [simp]: "in_i64 (i64 x)"
proof -
  have "0 \<le> (x + 2 ^ 63) mod 2 ^ 64" and "(x + 2 ^ 63) mod 2 ^ 64 < 2 ^ 64" for x :: int
    by simp_all
  then show ?thesis by (simp add: in_i64_def i64_def)
qed

lemma i64_cong: "i64 x = i64 y \<longleftrightarrow> (x - y) mod 2 ^ 64 = 0"
proof -
  have "i64 x = i64 y \<longleftrightarrow> (x + 2 ^ 63) mod 2 ^ 64 = (y + 2 ^ 63) mod (2 ^ 64 :: int)"
    by (auto simp: i64_def)
  also have "\<dots> \<longleftrightarrow> (2 ^ 64 :: int) dvd (x - y)"
    by (simp add: mod_eq_dvd_iff)
  finally show ?thesis by (simp add: dvd_eq_mod_eq_0)
qed

lemma i64_i64_add: "i64 (i64 x + y) = i64 (x + y)"
  by (simp add: i64_def algebra_simps mod_simps)

lemma i64_i64_diff: "i64 (i64 x - y) = i64 (x - y)"
  using i64_i64_add [of x "- y"] by simp

lemma i64_diff_i64: "i64 (x - i64 y) = i64 (x - y)"
  by (simp add: i64_def algebra_simps mod_simps)

lemma u64_nonneg_id: "0 \<le> x \<Longrightarrow> in_i64 x \<Longrightarrow> u64 x = x"
  by (simp add: u64_def in_i64_def)

lemma i64_u64 [simp]: "i64 (u64 x) = i64 x"
  by (simp add: i64_def u64_def mod_simps)

lemma in_i64_0 [simp]: "in_i64 0"
  by (simp add: in_i64_def)

section \<open>Lists\<close>

text \<open>A loop over a slice with an index.\<close>

fun map_index_from :: "nat \<Rightarrow> (nat \<Rightarrow> 'a \<Rightarrow> 'b) \<Rightarrow> 'a list \<Rightarrow> 'b list" where
  "map_index_from n f [] = []"
| "map_index_from n f (x # xs) = f n x # map_index_from (Suc n) f xs"

lemma length_map_index_from [simp]: "length (map_index_from n f xs) = length xs"
  by (induction xs arbitrary: n) auto

lemma nth_map_index_from: "i < length xs \<Longrightarrow> map_index_from n f xs ! i = f (n + i) (xs ! i)"
proof (induction xs arbitrary: n i)
  case (Cons x xs)
  then show ?case by (cases i) auto
qed simp

lemma filter_id_notin: "x \<notin> set xs \<Longrightarrow> filter (\<lambda>y. y \<noteq> x) xs = xs"
  by (induction xs) auto

lemma filter_neq_removeAll: "filter (\<lambda>y. y \<noteq> x) xs = removeAll x xs"
  by (induction xs) auto

lemma length_filter_less_iff: "length (filter P xs) = length xs \<longleftrightarrow> (\<forall>x \<in> set xs. P x)"
  by (metis filter_True length_filter_less linorder_neq_iff)

section \<open>Maps in iteration order\<close>

text \<open>A Go map that the code ranges over is a list of its entries in iteration order;
  \<open>assign_key\<close> is \<^verbatim>\<open>m[k] = v\<close>.\<close>

fun assign_key :: "'k \<Rightarrow> 'v \<Rightarrow> ('k \<times> 'v) list \<Rightarrow> ('k \<times> 'v) list" where
  "assign_key k v [] = [(k, v)]"
| "assign_key k v ((k', v') # xs) = (if k' = k then (k, v) # xs else (k', v') # assign_key k v xs)"

lemma map_of_assign_key [simp]: "map_of (assign_key k v xs) = (map_of xs)(k \<mapsto> v)"
  by (induction xs) (auto simp: fun_eq_iff)

lemma keys_assign_key:
  "map fst (assign_key k v xs) = (if k \<in> set (map fst xs) then map fst xs else map fst xs @ [k])"
proof (induction xs)
  case (Cons x xs)
  then show ?case by (cases x) auto
qed simp

lemma distinct_assign_key: "distinct (map fst xs) \<Longrightarrow> distinct (map fst (assign_key k v xs))"
  by (simp add: keys_assign_key del: set_map)

lemma set_assign_key: "set (assign_key k v xs) \<subseteq> insert (k, v) (set xs)"
  by (induction xs) (auto split: if_splits)

lemma fst_assign_key: "fst ` set (assign_key k v xs) = insert k (fst ` set xs)"
  using arg_cong [OF keys_assign_key [of k v xs], of set] by auto

lemma assign_key_nonempty [simp]: "assign_key k v xs \<noteq> []"
  by (induction xs) (auto split: if_splits)

section \<open>Calls that leave something alone\<close>

text \<open>An operation that keeps an observation \<open>F\<close> of the world, and the rules by which composed
  operations do.\<close>

definition keeps :: "('w \<Rightarrow> 'f) \<Rightarrow> ('w \<Rightarrow> 'r \<times> 'w) \<Rightarrow> bool" where
  "keeps F f \<longleftrightarrow> (\<forall>w. F (snd (f w)) = F w)"

lemma keepsD: "keeps F f \<Longrightarrow> f w = (r, w') \<Longrightarrow> F w' = F w"
  unfolding keeps_def by (metis snd_conv)

lemma keepsI: "(\<And>w r w'. f w = (r, w') \<Longrightarrow> F w' = F w) \<Longrightarrow> keeps F f"
  unfolding keeps_def by (metis prod.collapse)

lemma keeps_value: "keeps F (\<lambda>w. (f w, w))"
  by (simp add: keeps_def)

lemma keeps_call:
  assumes "keeps F f" and "\<And>e. keeps F (h e)" and "\<And>x. keeps F (k x)"
  shows "keeps F (\<lambda>w. call (f w) h k)"
  unfolding keeps_def
proof
  fix w
  obtain r w1 where f: "f w = (r, w1)" by fastforce
  show "F (snd (call (f w) h k)) = F w"
    using keepsD [OF assms(1) f] assms(2,3) f by (cases r) (auto simp: keeps_def)
qed

lemma keeps_case:
  assumes "keeps F f" and "\<And>x. keeps F (k x)"
  shows "keeps F (\<lambda>w. case f w of (x, w') \<Rightarrow> k x w')"
  unfolding keeps_def
proof
  fix w
  obtain x w1 where f: "f w = (x, w1)" by fastforce
  show "F (snd (case f w of (x, w') \<Rightarrow> k x w')) = F w"
    using keepsD [OF assms(1) f] assms(2) f by (auto simp: keeps_def)
qed

lemma keeps_if: "keeps F f \<Longrightarrow> keeps F g \<Longrightarrow> keeps F (\<lambda>w. if b then f w else g w)"
  by (simp add: keeps_def)

lemmas keeps_rules = keeps_value keeps_call keeps_case keeps_if

end
