(* ===== verification/GoStd.thy ===== *)
theory GoStd
  imports Prelude
begin

text \<open>
  The parts of Go's standard library the sources call, on strings as byte lists (a Go string is a
  byte sequence; a \<open>char\<close> is one byte): \<^verbatim>\<open>strings\<close>, \<^verbatim>\<open>strconv\<close>,
  \<^verbatim>\<open>path\<close> and the UTF-8 decoding behind \<^verbatim>\<open>[]rune(s)\<close>, with the
  lemmas the components use: which strings \<open>path_Join\<close> leaves apart, and the decimal round
  trip of \<open>FormatUint\<close> and \<open>ParseUint\<close>.
\<close>

section \<open>Package strings\<close>

definition HasPrefix :: "string \<Rightarrow> string \<Rightarrow> bool" where
  "HasPrefix s p = (take (length p) s = p)"

definition TrimPrefix :: "string \<Rightarrow> string \<Rightarrow> string" where
  "TrimPrefix s p = (if HasPrefix s p then drop (length p) s else s)"

lemma HasPrefix_append [simp]: "HasPrefix (p @ s) p"
  by (simp add: HasPrefix_def)

lemma HasPrefix_iff: "HasPrefix s p \<longleftrightarrow> (\<exists>t. s = p @ t)"
  by (metis HasPrefix_append HasPrefix_def append_take_drop_id)

lemma TrimPrefix_append [simp]: "TrimPrefix (p @ s) p = s"
  by (simp add: TrimPrefix_def)

fun strings_Join :: "string list \<Rightarrow> string \<Rightarrow> string" where
  "strings_Join [] sep = []"
| "strings_Join [x] sep = x"
| "strings_Join (x # xs) sep = x @ sep @ strings_Join xs sep"

fun strings_Index :: "string \<Rightarrow> string \<Rightarrow> nat option" where
  "strings_Index [] p = (if p = [] then Some 0 else None)"
| "strings_Index (c # cs) p =
     (if HasPrefix (c # cs) p then Some 0 else map_option Suc (strings_Index cs p))"

definition strings_Contains :: "string \<Rightarrow> string \<Rightarrow> bool" where
  "strings_Contains s p = (strings_Index s p \<noteq> None)"

text \<open>\<^verbatim>\<open>strings.Split\<close> and \<^verbatim>\<open>strings.SplitN(s, sep, 2)\<close>; every
  separator in the sources is a non-empty literal (an empty one is answered with the whole string).\<close>

function (sequential) strings_Split :: "string \<Rightarrow> string \<Rightarrow> string list" where
  "strings_Split s sep =
     (case strings_Index s sep of
        None \<Rightarrow> [s]
      | Some i \<Rightarrow> if sep = [] then [s]
                  else take i s # strings_Split (drop (i + length sep) s) sep)"
  by pat_completeness auto

lemma strings_Index_bound: "strings_Index s p = Some i \<Longrightarrow> i + length p \<le> length s"
proof (induction s p arbitrary: i rule: strings_Index.induct)
  case (2 c cs p)
  show ?case
  proof (cases "HasPrefix (c # cs) p")
    case True
    with 2 show ?thesis
      by (metis HasPrefix_iff add_0 le_add1 length_append option.inject strings_Index.simps(2))
  next
    case False
    with 2 show ?thesis by auto
  qed
qed (auto split: if_splits)

termination strings_Split
proof (relation "measure (\<lambda>(s, sep). length s)")
  fix s sep :: string and i
  assume "strings_Index s sep = Some i" and "sep \<noteq> []"
  then have "0 < length sep" and "i + length sep \<le> length s"
    using strings_Index_bound by auto
  then have "length s - (i + length sep) < length s" by linarith
  then show "((drop (i + length sep) s, sep), s, sep) \<in> measure (\<lambda>(s, sep). length s)"
    by simp
qed simp

declare strings_Split.simps [simp del]

definition strings_SplitN2 :: "string \<Rightarrow> string \<Rightarrow> string list" where
  "strings_SplitN2 s sep =
     (case strings_Index s sep of
        None \<Rightarrow> [s]
      | Some i \<Rightarrow> [take i s, drop (i + length sep) s])"

text \<open>\<^verbatim>\<open>strings.Replace(s, old, new, 1)\<close>.\<close>

definition strings_Replace1 :: "string \<Rightarrow> string \<Rightarrow> string \<Rightarrow> string" where
  "strings_Replace1 s old new =
     (case strings_Index s old of
        None \<Rightarrow> s
      | Some i \<Rightarrow> take i s @ new @ drop (i + length old) s)"

lemma strings_Index_prefix: "HasPrefix s p \<Longrightarrow> strings_Index s p = Some 0"
  by (cases s) (auto simp: HasPrefix_def)

lemma strings_Replace1_prefix [simp]: "strings_Replace1 (p @ s) p q = q @ s"
  using strings_Index_prefix [of "p @ s" p] by (simp add: strings_Replace1_def)

section \<open>Runes\<close>

text \<open>
  \<open>decode_rune\<close> is \<^verbatim>\<open>utf8.DecodeRuneInString\<close> on a non-empty string: the rune
  and its width; an invalid sequence is one byte of \<^verbatim>\<open>RuneError\<close> (0xFFFD).
\<close>

type_synonym rune = nat

definition byte :: "char \<Rightarrow> nat" where
  "byte c = of_char c"

definition cont_byte :: "nat \<Rightarrow> nat \<Rightarrow> string \<Rightarrow> nat \<Rightarrow> bool" where
  "cont_byte lo hi s i = (i < length s \<and> lo \<le> byte (s ! i) \<and> byte (s ! i) \<le> hi)"

definition decode_rune :: "string \<Rightarrow> rune \<times> nat" where
  "decode_rune s =
     (let b = byte (hd s); c1 = byte (s ! 1) mod 64; c2 = byte (s ! 2) mod 64;
          c3 = byte (s ! 3) mod 64;
          lo1 = (if b = 224 then 160 else if b = 240 then 144 else 128);
          hi1 = (if b = 237 then 159 else if b = 244 then 143 else 191)
      in if b < 128 then (b, 1)
         else if 194 \<le> b \<and> b \<le> 223 \<and> cont_byte 128 191 s 1 then ((b mod 32) * 64 + c1, 2)
         else if 224 \<le> b \<and> b \<le> 239 \<and> cont_byte lo1 hi1 s 1 \<and> cont_byte 128 191 s 2
           then ((b mod 16) * 4096 + c1 * 64 + c2, 3)
         else if 240 \<le> b \<and> b \<le> 244 \<and> cont_byte lo1 hi1 s 1 \<and> cont_byte 128 191 s 2 \<and> cont_byte 128 191 s 3
           then ((b mod 8) * 262144 + c1 * 4096 + c2 * 64 + c3, 4)
         else (65533, 1))"

lemma decode_rune_width: "0 < snd (decode_rune s)"
  by (auto simp: decode_rune_def Let_def)

text \<open>\<^verbatim>\<open>[]rune(s)\<close>.\<close>

function runes :: "string \<Rightarrow> rune list" where
  "runes s = (if s = [] then [] else fst (decode_rune s) # runes (drop (snd (decode_rune s)) s))"
  by pat_completeness auto
termination
proof (relation "measure length")
  fix s :: string
  assume "s \<noteq> []"
  then show "(drop (snd (decode_rune s)) s, s) \<in> measure length"
    using decode_rune_width [of s] by simp
qed simp

declare runes.simps [simp del]

lemma runes_Nil [simp]: "runes [] = []"
  by (simp add: runes.simps)

lemma length_runes: "length (runes s) \<le> length s"
proof (induction s rule: runes.induct)
  case (1 s)
  show ?case
  proof (cases "s = []")
    case False
    then have "length (runes (drop (snd (decode_rune s)) s)) \<le> length s - snd (decode_rune s)"
      using "1.IH" by simp
    moreover have "0 < length s" and "0 < snd (decode_rune s)"
      using False decode_rune_width by auto
    ultimately have "Suc (length (runes (drop (snd (decode_rune s)) s))) \<le> length s"
      by linarith
    with False show ?thesis by (simp add: runes.simps [of s])
  qed simp
qed

text \<open>On ASCII strings a rune is a byte.\<close>

definition ascii :: "string \<Rightarrow> bool" where
  "ascii s = list_all (\<lambda>c. byte c < 128) s"

lemma runes_ascii: "ascii s \<Longrightarrow> runes s = map byte s"
proof (induction s)
  case (Cons c s)
  then have "byte c < 128" and "ascii s" by (auto simp: ascii_def)
  then have "decode_rune (c # s) = (byte c, 1)" by (simp add: decode_rune_def)
  with Cons.IH \<open>ascii s\<close> show ?case by (simp add: runes.simps [of "c # s"])
qed simp

text \<open>\<^verbatim>\<open>string(runes)\<close> on runes below 128, the only ones the sources encode.\<close>

definition string_of_ascii_runes :: "rune list \<Rightarrow> string" where
  "string_of_ascii_runes rs = map char_of rs"

section \<open>Package strconv\<close>

text \<open>\<^verbatim>\<open>strconv.FormatUint(n, 10)\<close>, \<^verbatim>\<open>strconv.ParseUint(s, 10, 64)\<close>
  (\<open>None\<close> for its syntax and range errors) and \<^verbatim>\<open>strconv.FormatBool\<close>.\<close>

definition digit_char :: "nat \<Rightarrow> char" where
  "digit_char d = char_of (48 + d)"

definition is_digit :: "char \<Rightarrow> bool" where
  "is_digit c = (48 \<le> byte c \<and> byte c \<le> 57)"

fun FormatUint :: "nat \<Rightarrow> string" where
  "FormatUint n = (if n < 10 then [digit_char n] else FormatUint (n div 10) @ [digit_char (n mod 10)])"

declare FormatUint.simps [simp del]

definition digits_value :: "string \<Rightarrow> nat" where
  "digits_value s = foldl (\<lambda>n c. 10 * n + (byte c - 48)) 0 s"

definition ParseUint :: "string \<Rightarrow> nat option" where
  "ParseUint s =
     (if s = [] \<or> \<not> list_all is_digit s \<or> 2 ^ 64 \<le> digits_value s then None
      else Some (digits_value s))"

definition FormatBool :: "bool \<Rightarrow> string" where
  "FormatBool b = (if b then ''true'' else ''false'')"

lemma byte_digit_char: "d < 10 \<Longrightarrow> byte (digit_char d) = 48 + d"
  by (simp add: byte_def digit_char_def)

lemma FormatUint_digits: "FormatUint n \<noteq> [] \<and> list_all is_digit (FormatUint n)"
proof (induction n rule: FormatUint.induct)
  case (1 n)
  show ?case
    by (cases "n < 10") (use 1 in \<open>auto simp: FormatUint.simps [of n] is_digit_def byte_digit_char\<close>)
qed

lemma digits_value_snoc: "digits_value (s @ [c]) = 10 * digits_value s + (byte c - 48)"
  by (simp add: digits_value_def)

lemma digits_value_FormatUint: "digits_value (FormatUint n) = n"
proof (induction n rule: FormatUint.induct)
  case (1 n)
  show ?case
  proof (cases "n < 10")
    case True
    then show ?thesis
      by (simp add: FormatUint.simps [of n] digits_value_def byte_digit_char)
  next
    case False
    with 1 show ?thesis
      by (simp add: FormatUint.simps [of n] digits_value_snoc byte_digit_char)
  qed
qed

lemma ParseUint_FormatUint: "n < 2 ^ 64 \<Longrightarrow> ParseUint (FormatUint n) = Some n"
  using FormatUint_digits [of n] by (simp add: ParseUint_def digits_value_FormatUint)

lemma FormatUint_inj: "FormatUint m = FormatUint n \<Longrightarrow> m = n"
  by (metis digits_value_FormatUint)

section \<open>Package path\<close>

text \<open>\<^verbatim>\<open>path.Clean\<close>: the components are taken left to right with a stack;
  empty components and \<^verbatim>\<open>.\<close> vanish, \<^verbatim>\<open>..\<close> drops the last component
  (and stays where there is none and the path is relative).\<close>

fun clean_step :: "bool \<Rightarrow> string list \<Rightarrow> string \<Rightarrow> string list" where
  "clean_step rooted st c =
     (if c = [] \<or> c = ''.'' then st
      else if c = ''..'' then
        (case st of
           [] \<Rightarrow> if rooted then [] else [c]
         | d # ds \<Rightarrow> if d = ''..'' then c # st else ds)
      else c # st)"

definition path_Clean :: "string \<Rightarrow> string" where
  "path_Clean p =
     (let rooted = HasPrefix p ''/'';
          cs = rev (foldl (clean_step rooted) [] (strings_Split p ''/''))
      in if rooted then ''/'' @ strings_Join cs ''/''
         else if cs = [] then ''.'' else strings_Join cs ''/'')"

definition path_Join :: "string list \<Rightarrow> string" where
  "path_Join es =
     (let es' = dropWhile (\<lambda>e. e = []) es
      in if es' = [] then [] else path_Clean (strings_Join es' ''/''))"

text \<open>Splitting at a slash, component by component.\<close>

definition plain :: "string \<Rightarrow> bool" where
  "plain c = (c \<noteq> [] \<and> c \<noteq> ''.'' \<and> c \<noteq> ''..'' \<and> CHR ''/'' \<notin> set c)"

lemma strings_Index_slash_None: "CHR ''/'' \<notin> set c \<Longrightarrow> strings_Index c ''/'' = None"
  by (induction c) (auto simp: HasPrefix_def)

lemma strings_Index_slash: "CHR ''/'' \<notin> set c \<Longrightarrow> strings_Index (c @ ''/'' @ r) ''/'' = Some (length c)"
  by (induction c) (auto simp: HasPrefix_def)

lemma strings_Split_plain: "CHR ''/'' \<notin> set c \<Longrightarrow> strings_Split c ''/'' = [c]"
  by (simp add: strings_Split.simps strings_Index_slash_None)

lemma strings_Split_slash:
  "CHR ''/'' \<notin> set c \<Longrightarrow> strings_Split (c @ ''/'' @ r) ''/'' = c # strings_Split r ''/''"
  using strings_Index_slash [of c r] by (simp add: strings_Split.simps [of "c @ _"])

lemma strings_Split_Join:
  "\<forall>c \<in> set cs. CHR ''/'' \<notin> set c \<Longrightarrow> cs \<noteq> [] \<Longrightarrow> strings_Split (strings_Join cs ''/'') ''/'' = cs"
proof (induction cs rule: induct_list012)
  case (2 c)
  then show ?case by (simp add: strings_Split_plain)
next
  case (3 c d cs)
  then show ?case using strings_Split_slash [of c "strings_Join (d # cs) ''/''"] by simp
qed simp

lemma clean_plain: "list_all plain cs \<Longrightarrow> foldl (clean_step b) st cs = rev cs @ st"
  by (induction cs arbitrary: st) (auto simp: plain_def)

lemma path_Join_rooted:
  assumes "list_all plain cs" and "cs \<noteq> []" and True: "plain c"
  shows "path_Join [''/'' @ strings_Join cs ''/'', c] = ''/'' @ strings_Join (cs @ [c]) ''/''"
proof -
  let ?all = "[] # (cs @ [c])"
  have "strings_Join [''/'' @ strings_Join cs ''/'', c] ''/'' = strings_Join ?all ''/''"
    using assms(2) by (induction cs rule: induct_list012) auto
  moreover have "strings_Split (strings_Join ?all ''/'') ''/'' = ?all"
    by (rule strings_Split_Join) (use assms True in \<open>auto simp: list_all_iff plain_def\<close>)
  moreover have "HasPrefix (strings_Join ?all ''/'') ''/''"
    using assms(2) by (cases cs) (auto simp: HasPrefix_def)
  moreover have "foldl (clean_step True) [] ?all = rev (cs @ [c])"
    using clean_plain [of "cs @ [c]" True "[]"] assms True by simp
  ultimately show ?thesis
    by (simp add: path_Join_def path_Clean_def Let_def)
qed

end
