(* ===== verification/Labels.thy ===== *)
theory Labels
  imports GoStd
begin

text \<open>
  The enumerations and label helpers shared by all API types, from
  \<^verbatim>\<open>pkg/consts/consts.go\<close>, \<^verbatim>\<open>pkg/apis/directpv.min.io/types/types.go\<close> and
  \<^verbatim>\<open>types/label.go\<close>: status and access-tier values, the label keys, reserved keys, and the
  normalisation of label values. Two functions of other packages are parameters, the fields of
  \<open>lib\<close>: Kubernetes' label validation and the title-casing of
  \<^verbatim>\<open>golang.org/x/text/cases\<close>. \<open>label_validator\<close> is the documented syntax of a
  Kubernetes label value, the hypothesis of the lemmas on valid labels.
\<close>

section \<open>Functions of other packages\<close>

record lib =
  IsValidLabelValue :: "string \<Rightarrow> string list"
  IsQualifiedName :: "string \<Rightarrow> string list"
  TitleCase :: "string \<Rightarrow> string"

section \<open>Constants\<close>

definition AppName :: string where "AppName = ''directpv''"
definition GroupName :: string where "GroupName = AppName @ ''.min.io''"
definition LatestAPIVersion :: string where "LatestAPIVersion = ''v1beta1''"
definition Identity :: string where "Identity = AppName @ ''-min-io''"
definition ControllerName :: string where "ControllerName = AppName @ ''-controller''"
definition DriverName :: string where "DriverName = AppName @ ''-driver''"
definition AppRootDir :: string where "AppRootDir = ''/var/lib/'' @ AppName"
definition MountRootDir :: string where "MountRootDir = AppRootDir @ ''/mnt''"
definition TmpMountDir :: string where "TmpMountDir = AppRootDir @ ''/tmp''"
definition LegacyAppRootDir :: string where "LegacyAppRootDir = ''/var/lib/direct-csi''"
definition NodeControllerName :: string where "NodeControllerName = ''node-controller''"

lemmas const_defs =
  AppName_def GroupName_def LatestAPIVersion_def Identity_def ControllerName_def DriverName_def
  AppRootDir_def MountRootDir_def TmpMountDir_def LegacyAppRootDir_def NodeControllerName_def

section \<open>Statuses and access tiers\<close>

text \<open>The Go types are strings; the named constants are these values.\<close>

type_synonym DriveStatusValue = string
type_synonym VolumeStatusValue = string
type_synonym AccessTier = string
type_synonym DriveID = string
type_synonym NodeID = string
type_synonym DriveName = string

abbreviation DriveStatusReady :: DriveStatusValue where "DriveStatusReady \<equiv> ''Ready''"
abbreviation DriveStatusLost :: DriveStatusValue where "DriveStatusLost \<equiv> ''Lost''"
abbreviation DriveStatusError :: DriveStatusValue where "DriveStatusError \<equiv> ''Error''"
abbreviation DriveStatusRemoved :: DriveStatusValue where "DriveStatusRemoved \<equiv> ''Removed''"
abbreviation DriveStatusMoving :: DriveStatusValue where "DriveStatusMoving \<equiv> ''Moving''"
abbreviation DriveStatusRepairing :: DriveStatusValue where "DriveStatusRepairing \<equiv> ''Repairing''"

definition ToDriveStatus :: "'a lib_scheme \<Rightarrow> string \<Rightarrow> DriveStatusValue result" where
  "ToDriveStatus L value =
     (let status = TitleCase L value
      in if status \<in> {DriveStatusReady, DriveStatusLost, DriveStatusError, DriveStatusRemoved, DriveStatusMoving}
         then Inr status
         else Inl (ErrorString ''unknown drive status''))"

abbreviation VolumeStatusPending :: VolumeStatusValue where "VolumeStatusPending \<equiv> ''Pending''"
abbreviation VolumeStatusReady :: VolumeStatusValue where "VolumeStatusReady \<equiv> ''Ready''"

definition ToVolumeStatus :: "'a lib_scheme \<Rightarrow> string \<Rightarrow> VolumeStatusValue result" where
  "ToVolumeStatus L value =
     (let status = TitleCase L value
      in if status \<in> {VolumeStatusReady, VolumeStatusPending} then Inr status
         else Inl (ErrorString ''unknown volume status''))"

abbreviation AccessTierDefault :: AccessTier where "AccessTierDefault \<equiv> ''Default''"
abbreviation AccessTierWarm :: AccessTier where "AccessTierWarm \<equiv> ''Warm''"
abbreviation AccessTierHot :: AccessTier where "AccessTierHot \<equiv> ''Hot''"
abbreviation AccessTierCold :: AccessTier where "AccessTierCold \<equiv> ''Cold''"

fun StringsToAccessTiers :: "'a lib_scheme \<Rightarrow> string list \<Rightarrow> AccessTier list result" where
  "StringsToAccessTiers L [] = Inr []"
| "StringsToAccessTiers L (value # values) =
     (let t = TitleCase L value
      in if t \<in> {AccessTierDefault, AccessTierWarm, AccessTierHot, AccessTierCold}
         then (case StringsToAccessTiers L values of Inl e \<Rightarrow> Inl e | Inr ts \<Rightarrow> Inr (t # ts))
         else Inl (ErrorString ''unknown access tier value''))"

definition AccessTiersToStrings :: "AccessTier list \<Rightarrow> string list" where
  "AccessTiersToStrings ts = map (\<lambda>t. t) ts"

section \<open>Label keys\<close>

type_synonym LabelKey = string
type_synonym LabelValue = string

definition NodeLabelKey :: LabelKey where "NodeLabelKey = GroupName @ ''/node''"
definition DriveNameLabelKey :: LabelKey where "DriveNameLabelKey = GroupName @ ''/drive-name''"
definition AccessTierLabelKey :: LabelKey where "AccessTierLabelKey = GroupName @ ''/access-tier''"
definition DriveLabelKey :: LabelKey where "DriveLabelKey = GroupName @ ''/drive''"
definition VersionLabelKey :: LabelKey where "VersionLabelKey = GroupName @ ''/version''"
definition CreatedByLabelKey :: LabelKey where "CreatedByLabelKey = GroupName @ ''/created-by''"
definition PodNameLabelKey :: LabelKey where "PodNameLabelKey = GroupName @ ''/pod.name''"
definition PodNSLabelKey :: LabelKey where "PodNSLabelKey = GroupName @ ''/pod.namespace''"
definition LatestVersionLabelKey :: LabelKey where
  "LatestVersionLabelKey = GroupName @ ''/'' @ LatestAPIVersion"
definition TopologyDriverIdentity :: LabelKey where "TopologyDriverIdentity = GroupName @ ''/identity''"
definition TopologyDriverNode :: LabelKey where "TopologyDriverNode = NodeLabelKey"
definition TopologyDriverRack :: LabelKey where "TopologyDriverRack = GroupName @ ''/rack''"
definition TopologyDriverZone :: LabelKey where "TopologyDriverZone = GroupName @ ''/zone''"
definition TopologyDriverRegion :: LabelKey where "TopologyDriverRegion = GroupName @ ''/region''"
definition MigratedLabelKey :: LabelKey where "MigratedLabelKey = GroupName @ ''/migrated''"
definition RequestIDLabelKey :: LabelKey where "RequestIDLabelKey = GroupName @ ''/request-id''"
definition SuspendLabelKey :: LabelKey where "SuspendLabelKey = GroupName @ ''/suspend''"
definition VolumeClaimIDLabelKey :: LabelKey where
  "VolumeClaimIDLabelKey = GroupName @ ''/volume-claim-id''"
definition VolumeClaimIDLabelKeyPrefix :: string where
  "VolumeClaimIDLabelKeyPrefix = GroupName @ ''/volume-claim-id-''"
definition ClaimIDLabelKey :: LabelKey where "ClaimIDLabelKey = GroupName @ ''/claim-id''"
definition ImageTagLabelKey :: LabelKey where "ImageTagLabelKey = GroupName @ ''/image-tag''"

lemmas label_key_defs =
  NodeLabelKey_def DriveNameLabelKey_def AccessTierLabelKey_def DriveLabelKey_def VersionLabelKey_def
  CreatedByLabelKey_def PodNameLabelKey_def PodNSLabelKey_def LatestVersionLabelKey_def
  TopologyDriverIdentity_def TopologyDriverNode_def TopologyDriverRack_def TopologyDriverZone_def
  TopologyDriverRegion_def MigratedLabelKey_def RequestIDLabelKey_def SuspendLabelKey_def
  VolumeClaimIDLabelKey_def VolumeClaimIDLabelKeyPrefix_def ClaimIDLabelKey_def ImageTagLabelKey_def

definition reservedLabelKeys :: "LabelKey list" where
  "reservedLabelKeys =
     [NodeLabelKey, DriveNameLabelKey, AccessTierLabelKey, DriveLabelKey, VersionLabelKey,
      CreatedByLabelKey, PodNameLabelKey, PodNSLabelKey, LatestVersionLabelKey,
      TopologyDriverIdentity, TopologyDriverRack, TopologyDriverZone, TopologyDriverRegion,
      MigratedLabelKey, RequestIDLabelKey, SuspendLabelKey, VolumeClaimIDLabelKey,
      ClaimIDLabelKey, ImageTagLabelKey]"

definition IsReserved :: "LabelKey \<Rightarrow> bool" where
  "IsReserved k = (k \<in> set reservedLabelKeys \<or> HasPrefix k VolumeClaimIDLabelKeyPrefix)"

section \<open>Label values\<close>

definition rune_alnum :: "rune \<Rightarrow> bool" where
  "rune_alnum r = ((65 \<le> r \<and> r \<le> 90) \<or> (97 \<le> r \<and> r \<le> 122) \<or> (48 \<le> r \<and> r \<le> 57))"

text \<open>The runes 45, 46, 95 and 120 are the characters - . _ and x.\<close>

definition normalizeLabelRune :: "nat \<Rightarrow> rune \<Rightarrow> rune" where
  "normalizeLabelRune i r =
     (if rune_alnum r then r
      else if i \<noteq> 0 \<and> r \<noteq> 46 \<and> r \<noteq> 95 \<and> r \<noteq> 45 then 45
      else 120)"

definition normalizeLabelValue :: "string \<Rightarrow> string" where
  "normalizeLabelValue value =
     (let value = (if 63 < length value then take 63 value else value)
      in string_of_ascii_runes (map_index_from 0 normalizeLabelRune (runes value)))"

definition ToLabelValue :: "'a lib_scheme \<Rightarrow> string \<Rightarrow> LabelValue" where
  "ToLabelValue L value =
     (if IsValidLabelValue L value = [] then value else normalizeLabelValue value)"

definition ToLabelValues :: "'a lib_scheme \<Rightarrow> string list \<Rightarrow> LabelValue list" where
  "ToLabelValues L slice = map (ToLabelValue L) slice"

text \<open>The map argument is listed in its iteration order.\<close>

definition ToLabelSelector :: "(LabelKey \<times> LabelValue list) list \<Rightarrow> string" where
  "ToLabelSelector labels =
     strings_Join
       (map (\<lambda>(key, values). key @ '' in ('' @ strings_Join values '','' @ '')'')
            (filter (\<lambda>(key, values). values \<noteq> []) labels)) '',''"

definition NewLabelKey :: "'a lib_scheme \<Rightarrow> string \<Rightarrow> LabelKey result" where
  "NewLabelKey L labelK =
     (let labelK = (if HasPrefix labelK GroupName then labelK else GroupName @ ''/'' @ labelK)
      in if IsQualifiedName L labelK \<noteq> [] then Inl (ErrorString ''invalid label key'')
         else Inr labelK)"

definition NewLabelValue :: "'a lib_scheme \<Rightarrow> string \<Rightarrow> LabelValue result" where
  "NewLabelValue L v =
     (if IsValidLabelValue L v \<noteq> [] then Inl (ErrorString ''invalid label value'') else Inr v)"

section \<open>The documented syntax of a label value\<close>

text \<open>At most 63 characters; empty, or letters, digits, \<^verbatim>\<open>-\<close>, \<^verbatim>\<open>_\<close> and
  \<^verbatim>\<open>.\<close> with a letter or digit at both ends.\<close>

definition char_alnum :: "char \<Rightarrow> bool" where
  "char_alnum c = rune_alnum (byte c)"

definition label_syntax :: "string \<Rightarrow> bool" where
  "label_syntax s =
     (length s \<le> 63 \<and>
      (s = [] \<or> (char_alnum (hd s) \<and> char_alnum (last s) \<and>
                 list_all (\<lambda>c. char_alnum c \<or> byte c \<in> {45, 46, 95}) s)))"

definition label_validator :: "(string \<Rightarrow> string list) \<Rightarrow> bool" where
  "label_validator V \<longleftrightarrow> (\<forall>s. V s = [] \<longleftrightarrow> label_syntax s)"

text \<open>A validator with that documented behaviour, used to exhibit the hypothesis.\<close>

definition sample_lib :: lib where
  "sample_lib =
     \<lparr> IsValidLabelValue = (\<lambda>s. if label_syntax s then [] else [''invalid label value'']),
       IsQualifiedName = (\<lambda>s. if s = [] then [''name part must be non-empty''] else []),
       TitleCase = (\<lambda>s. s) \<rparr>"

lemma sample_lib_validator: "label_validator (IsValidLabelValue sample_lib)"
  by (simp add: label_validator_def sample_lib_def)

lemma validatorD: "label_validator (IsValidLabelValue L) \<Longrightarrow> IsValidLabelValue L s = [] \<longleftrightarrow> label_syntax s"
  by (simp add: label_validator_def)

section \<open>Lemmas\<close>

lemma distinct_reservedLabelKeys: "distinct reservedLabelKeys"
  by (simp add: reservedLabelKeys_def label_key_defs const_defs)

lemma IsReserved_claim [simp]: "IsReserved (VolumeClaimIDLabelKeyPrefix @ claimID)"
  by (simp add: IsReserved_def)

lemma normalizeLabelRune_cases:
  "rune_alnum (normalizeLabelRune i r) \<or> (i \<noteq> 0 \<and> normalizeLabelRune i r = 45)"
  by (auto simp: normalizeLabelRune_def rune_alnum_def)

lemma normalizeLabelRune_small: "normalizeLabelRune i r < 128"
  using normalizeLabelRune_cases [of i r] by (auto simp: rune_alnum_def)

lemma length_normalizeLabelValue: "length (normalizeLabelValue v) \<le> 63"
proof -
  have "length (runes s) \<le> 63" if "length s \<le> 63" for s
    using length_runes [of s] that by linarith
  then show ?thesis
    by (simp add: normalizeLabelValue_def string_of_ascii_runes_def Let_def)
qed

lemma nth_normalizeLabelValue:
  assumes "i < length (normalizeLabelValue v)"
  shows "char_alnum (normalizeLabelValue v ! i) \<or> (i \<noteq> 0 \<and> byte (normalizeLabelValue v ! i) = 45)"
proof -
  let ?v = "if 63 < length v then take 63 v else v"
  let ?r = "normalizeLabelRune i (runes ?v ! i)"
  have i: "i < length (runes ?v)"
    using assms by (simp add: normalizeLabelValue_def string_of_ascii_runes_def Let_def)
  have "normalizeLabelValue v ! i = char_of ?r"
    using i nth_map_index_from [of i "runes ?v" 0 normalizeLabelRune]
    by (simp add: normalizeLabelValue_def string_of_ascii_runes_def Let_def)
  moreover have "byte (char_of ?r) = ?r"
    using normalizeLabelRune_small [of i "runes ?v ! i"] by (simp add: byte_def)
  ultimately show ?thesis
    using normalizeLabelRune_cases [of i "runes ?v ! i"] by (simp add: char_alnum_def)
qed

lemma normalizeLabelValue_chars:
  "list_all (\<lambda>c. char_alnum c \<or> byte c = 45) (normalizeLabelValue v)"
  using nth_normalizeLabelValue by (fastforce simp: list_all_length)

lemma normalizeLabelValue_hd: "normalizeLabelValue v \<noteq> [] \<Longrightarrow> char_alnum (hd (normalizeLabelValue v))"
  using nth_normalizeLabelValue [of 0 v] by (simp add: hd_conv_nth)

lemma normalizeLabelValue_syntax:
  "label_syntax (normalizeLabelValue v) \<longleftrightarrow>
     normalizeLabelValue v = [] \<or> byte (last (normalizeLabelValue v)) \<noteq> 45"
proof (cases "normalizeLabelValue v = []")
  case False
  then have "char_alnum (last (normalizeLabelValue v)) \<or> byte (last (normalizeLabelValue v)) = 45"
    using normalizeLabelValue_chars [of v] by (auto simp: list_all_iff)
  moreover have "list_all (\<lambda>c. char_alnum c \<or> byte c \<in> {45, 46, 95}) (normalizeLabelValue v)"
    using normalizeLabelValue_chars [of v] by (auto simp: list_all_iff)
  moreover have "\<not> rune_alnum 45" by (simp add: rune_alnum_def)
  ultimately show ?thesis
    using False length_normalizeLabelValue [of v] normalizeLabelValue_hd [of v]
    by (auto simp: label_syntax_def char_alnum_def)
qed (simp add: label_syntax_def)

lemma ToLabelValue_valid [simp]: "IsValidLabelValue L v = [] \<Longrightarrow> ToLabelValue L v = v"
  by (simp add: ToLabelValue_def)

lemma label_syntax_true [simp]: "label_syntax ''true''"
  by (simp add: label_syntax_def char_alnum_def rune_alnum_def byte_def)

lemma label_syntax_Nil [simp]: "label_syntax []"
  by (simp add: label_syntax_def)

lemma ToLabelValue_syntax:
  "label_validator (IsValidLabelValue L) \<Longrightarrow> label_syntax v \<Longrightarrow> ToLabelValue L v = v"
  by (simp add: validatorD)

text \<open>
  C39. Label normalisation. Under the documented syntax of label values,
  \<^verbatim>\<open>ToLabelValue\<close> keeps a valid value, and turns any other string into at most 63 letters,
  digits and dashes that start with a letter or digit; the result is itself a valid label value
  exactly when it does not end in a dash.
\<close>

theorem ToLabelValue_correct:
  assumes "label_validator (IsValidLabelValue L)"
  shows "(label_syntax v \<longrightarrow> ToLabelValue L v = v) \<and>
         (\<not> label_syntax v \<longrightarrow>
            length (ToLabelValue L v) \<le> 63 \<and>
            list_all (\<lambda>c. char_alnum c \<or> c = CHR ''-'') (ToLabelValue L v) \<and>
            (ToLabelValue L v \<noteq> [] \<longrightarrow> char_alnum (hd (ToLabelValue L v))) \<and>
            (label_syntax (ToLabelValue L v) \<longleftrightarrow>
               ToLabelValue L v = [] \<or> last (ToLabelValue L v) \<noteq> CHR ''-''))"
proof -
  have dash: "byte c = 45 \<longleftrightarrow> c = CHR ''-''" for c
    using of_char_eq_iff [of c "CHR ''-''"] by (simp add: byte_def)
  have inv: "\<not> label_syntax v \<Longrightarrow> ToLabelValue L v = normalizeLabelValue v"
    using assms by (simp add: ToLabelValue_def validatorD)
  show ?thesis
    using ToLabelValue_syntax [OF assms, of v] length_normalizeLabelValue [of v]
      normalizeLabelValue_chars [of v] normalizeLabelValue_hd [of v] normalizeLabelValue_syntax [of v]
    by (auto simp: inv dash)
qed

theorem ToLabelValue_correct_witness:
  "label_validator (IsValidLabelValue sample_lib) \<and> \<not> label_syntax ''a/b'' \<and>
   list_all (\<lambda>c. char_alnum c \<or> c = CHR ''-'') (ToLabelValue sample_lib ''a/b'')"
proof -
  have "\<not> label_syntax ''a/b''"
    by (simp add: label_syntax_def char_alnum_def rune_alnum_def byte_def)
  then show ?thesis
    using ToLabelValue_correct [OF sample_lib_validator, of "''a/b''"] sample_lib_validator by simp
qed

text \<open>
  The normalised value is not always a label value: \<^verbatim>\<open>ToLabelValue("a/")\<close> is
  \<^verbatim>\<open>"a-"\<close>, which ends in a dash, and applying it again gives \<^verbatim>\<open>"ax"\<close>,
  so reading a label back with \<^verbatim>\<open>getLabel\<close> can differ from what was stored.
\<close>

theorem ToLabelValue_not_idempotent:
  assumes "label_validator (IsValidLabelValue L)"
  shows "ToLabelValue L ''a/'' = ''a-'' \<and> \<not> label_syntax ''a-'' \<and>
         ToLabelValue L (ToLabelValue L ''a/'') = ''ax''"
proof -
  have "normalizeLabelValue ''a/'' = ''a-''" and "normalizeLabelValue ''a-'' = ''ax''"
    and "\<not> label_syntax ''a/''" and "\<not> label_syntax ''a-''"
    by code_simp+
  then show ?thesis using assms by (simp add: ToLabelValue_def validatorD)
qed

theorem ToLabelValue_not_idempotent_witness:
  "label_validator (IsValidLabelValue sample_lib) \<and> ToLabelValue sample_lib ''a/'' = ''a-''"
  using ToLabelValue_not_idempotent [OF sample_lib_validator] sample_lib_validator by simp

end
