(* ===== verification/Objects.thy ===== *)
theory Objects
  imports Labels
begin

text \<open>
  The custom resources of \<^verbatim>\<open>pkg/apis/directpv.min.io/v1beta1\<close>: drives
  (\<^verbatim>\<open>drive.go\<close>) and volumes (\<^verbatim>\<open>volume.go\<close>) with all their methods.
  Go embeds \<^verbatim>\<open>metav1.ObjectMeta\<close>; the records extend \<open>ObjectMeta\<close> likewise. A
  method with a pointer receiver returns the updated object, after its result if it has one.
  \<^verbatim>\<open>metav1.Now()\<close> is the argument \<open>now\<close>. A nil label map and an empty one are both
  the empty map, as \<^verbatim>\<open>GetLabels\<close> makes them.

  Interfaces: \<open>label_store\<close> (labels of drives and of volumes), \<open>volume_registry\<close> (the
  finalizers by which a drive records its volumes) and \<open>condition_list\<close> (error conditions,
  one per type).
\<close>

section \<open>Object metadata and conditions\<close>

record ObjectMeta =
  objName :: string
  ResourceVersion :: nat
  Finalizers :: "string list"
  objLabels :: "string \<rightharpoonup> string"
  DeletionTimestamp :: "nat option"

record Condition =
  condType :: string
  condStatus :: string
  condReason :: string
  condMessage :: string
  LastTransitionTime :: nat

abbreviation ConditionTrue :: string where "ConditionTrue \<equiv> ''True''"

fun utils_Contains :: "'a list \<Rightarrow> 'a \<Rightarrow> bool" where
  "utils_Contains [] v = False"
| "utils_Contains (s # ss) v = (if v = s then True else utils_Contains ss v)"

lemma utils_Contains_iff [simp]: "utils_Contains xs v \<longleftrightarrow> v \<in> set xs"
  by (induction xs) auto

text \<open>The loop of \<^verbatim>\<open>setErrorCondition\<close> and \<^verbatim>\<open>SetDriveLost\<close>: replace
  the first condition of the type, or append.\<close>

fun upsert_condition :: "Condition \<Rightarrow> Condition list \<Rightarrow> Condition list" where
  "upsert_condition c [] = [c]"
| "upsert_condition c (x # xs) =
     (if condType x = condType c then c # xs else x # upsert_condition c xs)"

section \<open>Drives\<close>

record DriveSpec =
  Unschedulable :: bool
  Relabel :: bool

record DriveStatus =
  dTotalCapacity :: int
  dAllocatedCapacity :: int
  dFreeCapacity :: int
  dFSUUID :: string
  dStatus :: DriveStatusValue
  dTopology :: "string \<rightharpoonup> string"
  dMake :: string
  dConditions :: "Condition list"

record Drive = ObjectMeta +
  driveSpec :: DriveSpec
  driveStatus :: DriveStatus

definition driveFinalizerDataProtection :: string where
  "driveFinalizerDataProtection = GroupName @ ''/data-protection''"

definition driveFinalizerVolumePrefix :: string where
  "driveFinalizerVolumePrefix = GroupName @ ''.volume/''"

definition NewDirectPVDrive ::
  "DriveID \<Rightarrow> DriveStatus \<Rightarrow> NodeID \<Rightarrow> DriveName \<Rightarrow> AccessTier \<Rightarrow> Drive" where
  "NewDirectPVDrive driveID status nodeID driveName accessTier =
     \<lparr> objName = driveID, ResourceVersion = 0,
       Finalizers = [driveFinalizerDataProtection],
       objLabels = [NodeLabelKey \<mapsto> nodeID, DriveNameLabelKey \<mapsto> driveName,
                    AccessTierLabelKey \<mapsto> accessTier, VersionLabelKey \<mapsto> LatestAPIVersion,
                    CreatedByLabelKey \<mapsto> DriverName],
       DeletionTimestamp = None,
       driveSpec = \<lparr> Unschedulable = False, Relabel = False \<rparr>,
       driveStatus = status \<rparr>"

definition Drive_Unschedulable :: "Drive \<Rightarrow> Drive" where
  "Drive_Unschedulable d = d\<lparr>driveSpec := (driveSpec d)\<lparr>Unschedulable := True\<rparr>\<rparr>"

definition Drive_Schedulable :: "Drive \<Rightarrow> Drive" where
  "Drive_Schedulable d = d\<lparr>driveSpec := (driveSpec d)\<lparr>Unschedulable := False\<rparr>\<rparr>"

definition IsUnschedulable :: "Drive \<Rightarrow> bool" where
  "IsUnschedulable d = Unschedulable (driveSpec d)"

definition Drive_GetDriveID :: "Drive \<Rightarrow> DriveID" where
  "Drive_GetDriveID d = objName d"

definition GetVolumeCount :: "Drive \<Rightarrow> int" where
  "GetVolumeCount d = int (length (Finalizers d)) - 1"

definition VolumeExist :: "Drive \<Rightarrow> string \<Rightarrow> bool" where
  "VolumeExist d volume = utils_Contains (Finalizers d) (driveFinalizerVolumePrefix @ volume)"

fun volumes_of_finalizers :: "string list \<Rightarrow> string list" where
  "volumes_of_finalizers [] = []"
| "volumes_of_finalizers (f # fs) =
     (if HasPrefix f driveFinalizerVolumePrefix
      then TrimPrefix f driveFinalizerVolumePrefix # volumes_of_finalizers fs
      else volumes_of_finalizers fs)"

definition GetVolumes :: "Drive \<Rightarrow> string list" where
  "GetVolumes d = volumes_of_finalizers (Finalizers d)"

definition ResetFinalizers :: "Drive \<Rightarrow> Drive" where
  "ResetFinalizers d = d\<lparr>Finalizers := [driveFinalizerDataProtection]\<rparr>"

definition RemoveFinalizers :: "Drive \<Rightarrow> bool \<times> Drive" where
  "RemoveFinalizers d =
     (if Finalizers d = [driveFinalizerDataProtection] then (True, d\<lparr>Finalizers := []\<rparr>)
      else (False, d))"

definition AddVolumeFinalizer :: "string \<Rightarrow> Drive \<Rightarrow> bool \<times> Drive" where
  "AddVolumeFinalizer volume d =
     (let value = driveFinalizerVolumePrefix @ volume
      in if value \<in> set (Finalizers d) then (False, d)
         else (True, d\<lparr>Finalizers := Finalizers d @ [value]\<rparr>))"

definition RemoveVolumeFinalizer :: "string \<Rightarrow> Drive \<Rightarrow> bool \<times> Drive" where
  "RemoveVolumeFinalizer volume d =
     (let value = driveFinalizerVolumePrefix @ volume;
          found = (value \<in> set (Finalizers d));
          finalizers = filter (\<lambda>f. f \<noteq> value) (Finalizers d)
      in (found, if found then d\<lparr>Finalizers := finalizers\<rparr> else d))"

definition Drive_GetLabels :: "Drive \<Rightarrow> string \<rightharpoonup> string" where
  "Drive_GetLabels d = objLabels d"

text \<open>Reading an absent key of a Go map of strings gives the empty string.\<close>

definition map_get :: "(string \<rightharpoonup> string) \<Rightarrow> string \<Rightarrow> string" where
  "map_get m k = (case m k of None \<Rightarrow> [] | Some v \<Rightarrow> v)"

definition Drive_getLabel :: "'a lib_scheme \<Rightarrow> LabelKey \<Rightarrow> Drive \<Rightarrow> LabelValue" where
  "Drive_getLabel L key d = ToLabelValue L (map_get (Drive_GetLabels d) key)"

definition Drive_SetLabel :: "LabelKey \<Rightarrow> LabelValue \<Rightarrow> Drive \<Rightarrow> bool \<times> Drive" where
  "Drive_SetLabel key value d =
     (if Drive_GetLabels d key = Some value then (False, d)
      else (True, d\<lparr>objLabels := (objLabels d)(key \<mapsto> value)\<rparr>))"

definition Drive_RemoveLabel :: "LabelKey \<Rightarrow> Drive \<Rightarrow> bool \<times> Drive" where
  "Drive_RemoveLabel key d =
     (Drive_GetLabels d key \<noteq> None, d\<lparr>objLabels := (objLabels d)(key := None)\<rparr>)"

definition Drive_SetDriveName :: "'a lib_scheme \<Rightarrow> DriveName \<Rightarrow> Drive \<Rightarrow> Drive" where
  "Drive_SetDriveName L name d = snd (Drive_SetLabel DriveNameLabelKey (ToLabelValue L name) d)"

definition Drive_GetDriveName :: "'a lib_scheme \<Rightarrow> Drive \<Rightarrow> DriveName" where
  "Drive_GetDriveName L d = Drive_getLabel L DriveNameLabelKey d"

definition Drive_SetNodeID :: "'a lib_scheme \<Rightarrow> NodeID \<Rightarrow> Drive \<Rightarrow> Drive" where
  "Drive_SetNodeID L name d = snd (Drive_SetLabel NodeLabelKey (ToLabelValue L name) d)"

definition Drive_GetNodeID :: "'a lib_scheme \<Rightarrow> Drive \<Rightarrow> NodeID" where
  "Drive_GetNodeID L d = Drive_getLabel L NodeLabelKey d"

definition HasVolumeClaimID :: "string \<Rightarrow> Drive \<Rightarrow> bool" where
  "HasVolumeClaimID claimID d =
     (if claimID = [] then False
      else map_get (Drive_GetLabels d) (VolumeClaimIDLabelKeyPrefix @ claimID) = FormatBool True)"

definition SetVolumeClaimID :: "string \<Rightarrow> Drive \<Rightarrow> Drive" where
  "SetVolumeClaimID claimID d =
     (if claimID = [] then d
      else snd (Drive_SetLabel (VolumeClaimIDLabelKeyPrefix @ claimID) (FormatBool True) d))"

definition RemoveVolumeClaimID :: "string \<Rightarrow> Drive \<Rightarrow> Drive" where
  "RemoveVolumeClaimID claimID d =
     (if claimID = [] then d
      else snd (Drive_RemoveLabel (VolumeClaimIDLabelKeyPrefix @ claimID) d))"

definition GetAccessTier :: "'a lib_scheme \<Rightarrow> Drive \<Rightarrow> AccessTier" where
  "GetAccessTier L d = Drive_getLabel L AccessTierLabelKey d"

abbreviation DriveConditionTypeMountError :: string where
  "DriveConditionTypeMountError \<equiv> ''MountError''"
abbreviation DriveConditionTypeMultipleMatches :: string where
  "DriveConditionTypeMultipleMatches \<equiv> ''MultipleMatches''"
abbreviation DriveConditionTypeIOError :: string where
  "DriveConditionTypeIOError \<equiv> ''IOError''"
abbreviation DriveConditionTypeRelabelError :: string where
  "DriveConditionTypeRelabelError \<equiv> ''RelabelError''"

definition setErrorCondition :: "nat \<Rightarrow> string \<Rightarrow> string \<Rightarrow> string \<Rightarrow> Drive \<Rightarrow> Drive" where
  "setErrorCondition now errType reason message d =
     (let c = \<lparr> condType = errType, condStatus = ConditionTrue, condReason = reason,
                condMessage = message, LastTransitionTime = now \<rparr>
      in d\<lparr>driveStatus := (driveStatus d)\<lparr>dConditions := upsert_condition c (dConditions (driveStatus d))\<rparr>\<rparr>)"

definition SetMountErrorCondition :: "nat \<Rightarrow> string \<Rightarrow> Drive \<Rightarrow> Drive" where
  "SetMountErrorCondition now message d =
     setErrorCondition now DriveConditionTypeMountError ''DriveHasMountError'' message d"

definition SetMultipleMatchesErrorCondition :: "nat \<Rightarrow> string \<Rightarrow> Drive \<Rightarrow> Drive" where
  "SetMultipleMatchesErrorCondition now message d =
     setErrorCondition now DriveConditionTypeMultipleMatches ''DriveHasMultipleMatches'' message d"

definition SetIOErrorCondition :: "nat \<Rightarrow> Drive \<Rightarrow> Drive" where
  "SetIOErrorCondition now d =
     setErrorCondition now DriveConditionTypeIOError ''DriveHasIOError'' ''Drive has I/O error'' d"

definition SetRelabelErrorCondition :: "nat \<Rightarrow> string \<Rightarrow> Drive \<Rightarrow> Drive" where
  "SetRelabelErrorCondition now message d =
     setErrorCondition now DriveConditionTypeRelabelError ''DriveHasRelabelError'' message d"

definition is_error_type :: "string \<Rightarrow> bool" where
  "is_error_type t =
     (t \<in> {DriveConditionTypeMountError, DriveConditionTypeMultipleMatches,
            DriveConditionTypeIOError, DriveConditionTypeRelabelError})"

fun latest_error_condition :: "Condition option \<Rightarrow> Condition list \<Rightarrow> Condition option" where
  "latest_error_condition latest [] = latest"
| "latest_error_condition latest (c # cs) =
     latest_error_condition
       (if is_error_type (condType c) \<and>
           (case latest of None \<Rightarrow> True | Some l \<Rightarrow> LastTransitionTime l < LastTransitionTime c)
        then Some c else latest) cs"

definition GetLatestErrorConditionType :: "Drive \<Rightarrow> string" where
  "GetLatestErrorConditionType d =
     (case latest_error_condition None (dConditions (driveStatus d)) of
        None \<Rightarrow> [] | Some c \<Rightarrow> condType c)"

definition Drive_SetMigratedLabel :: "Drive \<Rightarrow> Drive" where
  "Drive_SetMigratedLabel d = snd (Drive_SetLabel MigratedLabelKey ''true'' d)"

definition Drive_IsMigrated :: "'a lib_scheme \<Rightarrow> Drive \<Rightarrow> bool" where
  "Drive_IsMigrated L d = (Drive_getLabel L MigratedLabelKey d = ''true'')"

definition Drive_IsSuspended :: "'a lib_scheme \<Rightarrow> Drive \<Rightarrow> bool" where
  "Drive_IsSuspended L d = (Drive_getLabel L SuspendLabelKey d = FormatBool True)"

definition Drive_Suspend :: "'a lib_scheme \<Rightarrow> Drive \<Rightarrow> bool \<times> Drive" where
  "Drive_Suspend L d = Drive_SetLabel SuspendLabelKey (ToLabelValue L (FormatBool True)) d"

definition Drive_Resume :: "Drive \<Rightarrow> bool \<times> Drive" where
  "Drive_Resume d = Drive_RemoveLabel SuspendLabelKey d"

section \<open>Volumes\<close>

record VolumeStatus =
  vDataPath :: string
  vStagingTargetPath :: string
  vTargetPath :: string
  vFSUUID :: string
  vTotalCapacity :: int
  vAvailableCapacity :: int
  vUsedCapacity :: int
  vStatus :: VolumeStatusValue
  vConditions :: "Condition list"

record Volume = ObjectMeta +
  volumeStatus :: VolumeStatus

definition volumeFinalizerPVProtection :: string where
  "volumeFinalizerPVProtection = GroupName @ ''/pv-protection''"

definition volumeFinalizerPurgeProtection :: string where
  "volumeFinalizerPurgeProtection = GroupName @ ''/purge-protection''"

definition NewDirectPVVolume ::
  "string \<Rightarrow> string \<Rightarrow> NodeID \<Rightarrow> DriveID \<Rightarrow> DriveName \<Rightarrow> int \<Rightarrow> Volume" where
  "NewDirectPVVolume name fsuuid nodeID driveID driveName sz =
     \<lparr> objName = name, ResourceVersion = 0,
       Finalizers = [volumeFinalizerPVProtection, volumeFinalizerPurgeProtection],
       objLabels = [DriveLabelKey \<mapsto> driveID, NodeLabelKey \<mapsto> nodeID,
                    DriveNameLabelKey \<mapsto> driveName, VersionLabelKey \<mapsto> LatestAPIVersion,
                    CreatedByLabelKey \<mapsto> ControllerName],
       DeletionTimestamp = None,
       volumeStatus =
         \<lparr> vDataPath = [], vStagingTargetPath = [], vTargetPath = [], vFSUUID = fsuuid,
           vTotalCapacity = sz, vAvailableCapacity = sz, vUsedCapacity = 0,
           vStatus = VolumeStatusPending, vConditions = [] \<rparr> \<rparr>"

definition IsStaged :: "Volume \<Rightarrow> bool" where
  "IsStaged v = (vStagingTargetPath (volumeStatus v) \<noteq> [])"

definition IsPublished :: "Volume \<Rightarrow> bool" where
  "IsPublished v = (vTargetPath (volumeStatus v) \<noteq> [])"

abbreviation VolumeConditionTypeLost :: string where "VolumeConditionTypeLost \<equiv> ''Lost''"
abbreviation VolumeConditionReasonDriveLost :: string where
  "VolumeConditionReasonDriveLost \<equiv> ''DriveLost''"

definition VolumeConditionMessageDriveLost :: string where
  "VolumeConditionMessageDriveLost =
     ''Associated drive was removed. Refer https://github.com/minio/directpv/blob/master/docs/troubleshooting.md''"

definition IsDriveLost :: "Volume \<Rightarrow> bool" where
  "IsDriveLost v =
     list_ex (\<lambda>c. condType c = VolumeConditionTypeLost \<and> condStatus c = ConditionTrue \<and>
                  condReason c = VolumeConditionReasonDriveLost \<and>
                  condMessage c = VolumeConditionMessageDriveLost) (vConditions (volumeStatus v))"

definition SetDriveLost :: "nat \<Rightarrow> Volume \<Rightarrow> Volume" where
  "SetDriveLost now v =
     (let c = \<lparr> condType = VolumeConditionTypeLost, condStatus = ConditionTrue,
                condReason = VolumeConditionReasonDriveLost,
                condMessage = VolumeConditionMessageDriveLost, LastTransitionTime = now \<rparr>
      in v\<lparr>volumeStatus := (volumeStatus v)\<lparr>vConditions := upsert_condition c (vConditions (volumeStatus v))\<rparr>\<rparr>)"

definition IsReleased :: "Volume \<Rightarrow> bool" where
  "IsReleased v = (Finalizers v = [volumeFinalizerPurgeProtection])"

definition Volume_GetLabels :: "Volume \<Rightarrow> string \<rightharpoonup> string" where
  "Volume_GetLabels v = objLabels v"

definition removeFinalizer :: "string \<Rightarrow> Volume \<Rightarrow> Volume" where
  "removeFinalizer value v =
     (let finalizers = filter (\<lambda>f. f \<noteq> value) (Finalizers v)
      in if length finalizers \<noteq> length (Finalizers v) then v\<lparr>Finalizers := finalizers\<rparr> else v)"

definition RemovePurgeProtection :: "Volume \<Rightarrow> Volume" where
  "RemovePurgeProtection v = removeFinalizer volumeFinalizerPurgeProtection v"

definition RemovePVProtection :: "Volume \<Rightarrow> Volume" where
  "RemovePVProtection v = removeFinalizer volumeFinalizerPVProtection v"

definition CopyLabels :: "Volume \<Rightarrow> Volume \<Rightarrow> Volume" where
  "CopyLabels vol v = v\<lparr>objLabels := objLabels v ++ objLabels vol\<rparr>"

definition Volume_SetLabel :: "LabelKey \<Rightarrow> LabelValue \<Rightarrow> Volume \<Rightarrow> bool \<times> Volume" where
  "Volume_SetLabel key value v =
     (if Volume_GetLabels v key = Some value then (False, v)
      else (True, v\<lparr>objLabels := (objLabels v)(key \<mapsto> value)\<rparr>))"

definition Volume_RemoveLabel :: "LabelKey \<Rightarrow> Volume \<Rightarrow> bool \<times> Volume" where
  "Volume_RemoveLabel key v =
     (Volume_GetLabels v key \<noteq> None, v\<lparr>objLabels := (objLabels v)(key := None)\<rparr>)"

definition Volume_getLabel :: "'a lib_scheme \<Rightarrow> LabelKey \<Rightarrow> Volume \<Rightarrow> LabelValue" where
  "Volume_getLabel L key v = ToLabelValue L (map_get (Volume_GetLabels v) key)"

definition Volume_SetDriveID :: "'a lib_scheme \<Rightarrow> DriveID \<Rightarrow> Volume \<Rightarrow> Volume" where
  "Volume_SetDriveID L name v = snd (Volume_SetLabel DriveLabelKey (ToLabelValue L name) v)"

definition Volume_GetDriveID :: "'a lib_scheme \<Rightarrow> Volume \<Rightarrow> DriveID" where
  "Volume_GetDriveID L v = Volume_getLabel L DriveLabelKey v"

definition Volume_SetDriveName :: "'a lib_scheme \<Rightarrow> DriveName \<Rightarrow> Volume \<Rightarrow> Volume" where
  "Volume_SetDriveName L name v = snd (Volume_SetLabel DriveNameLabelKey (ToLabelValue L name) v)"

definition Volume_GetDriveName :: "'a lib_scheme \<Rightarrow> Volume \<Rightarrow> DriveName" where
  "Volume_GetDriveName L v = Volume_getLabel L DriveNameLabelKey v"

definition Volume_SetNodeID :: "'a lib_scheme \<Rightarrow> NodeID \<Rightarrow> Volume \<Rightarrow> Volume" where
  "Volume_SetNodeID L name v = snd (Volume_SetLabel NodeLabelKey (ToLabelValue L name) v)"

definition Volume_GetNodeID :: "'a lib_scheme \<Rightarrow> Volume \<Rightarrow> NodeID" where
  "Volume_GetNodeID L v = Volume_getLabel L NodeLabelKey v"

definition SetVersionLabel :: "Volume \<Rightarrow> Volume" where
  "SetVersionLabel v = snd (Volume_SetLabel VersionLabelKey LatestAPIVersion v)"

definition SetCreatedByLabel :: "Volume \<Rightarrow> Volume" where
  "SetCreatedByLabel v = snd (Volume_SetLabel CreatedByLabelKey ControllerName v)"

definition Volume_SetMigratedLabel :: "Volume \<Rightarrow> Volume" where
  "Volume_SetMigratedLabel v = snd (Volume_SetLabel MigratedLabelKey ''true'' v)"

definition Volume_IsMigrated :: "'a lib_scheme \<Rightarrow> Volume \<Rightarrow> bool" where
  "Volume_IsMigrated L v = (Volume_getLabel L MigratedLabelKey v = ''true'')"

definition SetPodName :: "'a lib_scheme \<Rightarrow> string \<Rightarrow> Volume \<Rightarrow> Volume" where
  "SetPodName L name v = snd (Volume_SetLabel PodNameLabelKey (ToLabelValue L name) v)"

definition GetPodName :: "'a lib_scheme \<Rightarrow> Volume \<Rightarrow> string" where
  "GetPodName L v = Volume_getLabel L PodNameLabelKey v"

definition SetPodNS :: "'a lib_scheme \<Rightarrow> string \<Rightarrow> Volume \<Rightarrow> Volume" where
  "SetPodNS L name v = snd (Volume_SetLabel PodNSLabelKey (ToLabelValue L name) v)"

definition GetPodNS :: "'a lib_scheme \<Rightarrow> Volume \<Rightarrow> string" where
  "GetPodNS L v = Volume_getLabel L PodNSLabelKey v"

definition GetTenantName :: "'a lib_scheme \<Rightarrow> Volume \<Rightarrow> string" where
  "GetTenantName L v = Volume_getLabel L (GroupName @ ''/tenant'') v"

definition Volume_IsSuspended :: "'a lib_scheme \<Rightarrow> Volume \<Rightarrow> bool" where
  "Volume_IsSuspended L v = (Volume_getLabel L SuspendLabelKey v = FormatBool True)"

definition SetClaimID :: "string \<Rightarrow> Volume \<Rightarrow> Volume" where
  "SetClaimID claimID v =
     (if claimID = [] then v else snd (Volume_SetLabel ClaimIDLabelKey claimID v))"

definition GetClaimID :: "'a lib_scheme \<Rightarrow> Volume \<Rightarrow> string" where
  "GetClaimID L v = Volume_getLabel L ClaimIDLabelKey v"

definition Volume_Suspend :: "'a lib_scheme \<Rightarrow> Volume \<Rightarrow> bool \<times> Volume" where
  "Volume_Suspend L v = Volume_SetLabel SuspendLabelKey (ToLabelValue L (FormatBool True)) v"

definition Volume_Resume :: "Volume \<Rightarrow> bool \<times> Volume" where
  "Volume_Resume v = Volume_RemoveLabel SuspendLabelKey v"


section \<open>Labels of an object: the interface\<close>

text \<open>What the callers of \<^verbatim>\<open>SetLabel\<close> and \<^verbatim>\<open>RemoveLabel\<close> rely on:
  which label changed, and whether anything did.\<close>

locale label_store =
  fixes labels :: "'o \<Rightarrow> string \<rightharpoonup> string"
    and set_label :: "string \<Rightarrow> string \<Rightarrow> 'o \<Rightarrow> bool \<times> 'o"
    and remove_label :: "string \<Rightarrow> 'o \<Rightarrow> bool \<times> 'o"
  assumes labels_set: "labels (snd (set_label k v x)) = (labels x)(k \<mapsto> v)"
    and set_changed: "fst (set_label k v x) \<longleftrightarrow> labels x k \<noteq> Some v"
    and set_unchanged: "\<not> fst (set_label k v x) \<Longrightarrow> snd (set_label k v x) = x"
    and labels_remove: "labels (snd (remove_label k x)) = (labels x)(k := None)"
    and remove_found: "fst (remove_label k x) \<longleftrightarrow> labels x k \<noteq> None"
begin

lemmas label_specs = labels_set set_changed labels_remove remove_found

lemma set_again: "fst (set_label k v (snd (set_label k v x))) = False"
  by (simp add: label_specs)

lemma remove_again: "fst (remove_label k (snd (remove_label k x))) = False"
  by (simp add: label_specs)

lemma set_remove: "labels x k = None \<Longrightarrow> labels (snd (remove_label k (snd (set_label k v x)))) = labels x"
  by (auto simp: label_specs)

lemma set_other: "k' \<noteq> k \<Longrightarrow> labels (snd (set_label k v x)) k' = labels x k'"
  by (simp add: label_specs)

end

interpretation drv_labels: label_store objLabels Drive_SetLabel Drive_RemoveLabel
  by unfold_locales
    (auto simp: Drive_SetLabel_def Drive_RemoveLabel_def Drive_GetLabels_def split: if_splits)

interpretation vol_labels: label_store objLabels Volume_SetLabel Volume_RemoveLabel
  by unfold_locales
    (auto simp: Volume_SetLabel_def Volume_RemoveLabel_def Volume_GetLabels_def split: if_splits)

lemmas obj_label_simps [meta_simps] = drv_labels.label_specs vol_labels.label_specs

section \<open>Frame lemmas of the label operations\<close>

lemma Drive_SetLabel_frame [simp]:
  "objName (snd (Drive_SetLabel k v d)) = objName d"
  "ResourceVersion (snd (Drive_SetLabel k v d)) = ResourceVersion d"
  "Finalizers (snd (Drive_SetLabel k v d)) = Finalizers d"
  "DeletionTimestamp (snd (Drive_SetLabel k v d)) = DeletionTimestamp d"
  "driveSpec (snd (Drive_SetLabel k v d)) = driveSpec d"
  "driveStatus (snd (Drive_SetLabel k v d)) = driveStatus d"
  by (simp_all add: Drive_SetLabel_def)

lemma Drive_RemoveLabel_frame [simp]:
  "objName (snd (Drive_RemoveLabel k d)) = objName d"
  "ResourceVersion (snd (Drive_RemoveLabel k d)) = ResourceVersion d"
  "Finalizers (snd (Drive_RemoveLabel k d)) = Finalizers d"
  "DeletionTimestamp (snd (Drive_RemoveLabel k d)) = DeletionTimestamp d"
  "driveSpec (snd (Drive_RemoveLabel k d)) = driveSpec d"
  "driveStatus (snd (Drive_RemoveLabel k d)) = driveStatus d"
  by (simp_all add: Drive_RemoveLabel_def)

lemma Volume_SetLabel_frame [simp]:
  "objName (snd (Volume_SetLabel k v x)) = objName x"
  "ResourceVersion (snd (Volume_SetLabel k v x)) = ResourceVersion x"
  "Finalizers (snd (Volume_SetLabel k v x)) = Finalizers x"
  "DeletionTimestamp (snd (Volume_SetLabel k v x)) = DeletionTimestamp x"
  "volumeStatus (snd (Volume_SetLabel k v x)) = volumeStatus x"
  by (simp_all add: Volume_SetLabel_def)

lemma Volume_RemoveLabel_frame [simp]:
  "objName (snd (Volume_RemoveLabel k x)) = objName x"
  "ResourceVersion (snd (Volume_RemoveLabel k x)) = ResourceVersion x"
  "Finalizers (snd (Volume_RemoveLabel k x)) = Finalizers x"
  "DeletionTimestamp (snd (Volume_RemoveLabel k x)) = DeletionTimestamp x"
  "volumeStatus (snd (Volume_RemoveLabel k x)) = volumeStatus x"
  by (simp_all add: Volume_RemoveLabel_def)

lemma map_get_simps [simp]:
  "map_get (m(k \<mapsto> v)) k = v"
  "map_get (m(k := None)) k = []"
  "k' \<noteq> k \<Longrightarrow> map_get (m(k := x)) k' = map_get m k'"
  by (simp_all add: map_get_def)

section \<open>The volumes recorded on a drive: the interface\<close>

text \<open>A drive records its volumes as finalizers. Callers rely on: a volume is added once, removed
  entirely, listed in order, and counted. The invariant is the shape every operation keeps: the data
  protection finalizer first, then distinct volume finalizers.\<close>

locale volume_registry =
  fixes volumes :: "'d \<Rightarrow> string list"
    and add :: "string \<Rightarrow> 'd \<Rightarrow> bool \<times> 'd"
    and remove :: "string \<Rightarrow> 'd \<Rightarrow> bool \<times> 'd"
    and exist :: "'d \<Rightarrow> string \<Rightarrow> bool"
    and count :: "'d \<Rightarrow> int"
    and reset :: "'d \<Rightarrow> 'd"
    and invar :: "'d \<Rightarrow> bool"
  assumes exist_iff: "exist d v \<longleftrightarrow> v \<in> set (volumes d)"
    and added_iff: "fst (add v d) \<longleftrightarrow> v \<notin> set (volumes d)"
    and volumes_add: "v \<notin> set (volumes d) \<Longrightarrow> volumes (snd (add v d)) = volumes d @ [v]"
    and add_present: "v \<in> set (volumes d) \<Longrightarrow> snd (add v d) = d"
    and removed_iff: "fst (remove v d) \<longleftrightarrow> v \<in> set (volumes d)"
    and volumes_remove: "volumes (snd (remove v d)) = filter (\<lambda>u. u \<noteq> v) (volumes d)"
    and volumes_reset: "volumes (reset d) = []"
    and count_volumes: "invar d \<Longrightarrow> count d = int (length (volumes d))"
    and invar_distinct: "invar d \<Longrightarrow> distinct (volumes d)"
    and invar_add: "invar d \<Longrightarrow> invar (snd (add v d))"
    and invar_remove: "invar d \<Longrightarrow> invar (snd (remove v d))"
    and invar_reset: "invar (reset d)"
begin

lemmas registry_specs = exist_iff added_iff removed_iff volumes_remove volumes_reset
lemmas registry_invars = invar_add invar_remove invar_reset

lemma exist_add: "exist (snd (add v d)) v"
  by (cases "v \<in> set (volumes d)") (auto simp: registry_specs volumes_add add_present)

lemma exist_add_other: "u \<noteq> v \<Longrightarrow> exist (snd (add v d)) u \<longleftrightarrow> exist d u"
  by (cases "v \<in> set (volumes d)") (auto simp: registry_specs volumes_add add_present)

lemma not_exist_remove: "\<not> exist (snd (remove v d)) v"
  by (simp add: registry_specs)

lemma exist_remove_other: "u \<noteq> v \<Longrightarrow> exist (snd (remove v d)) u \<longleftrightarrow> exist d u"
  by (auto simp: registry_specs)

lemma add_remove: "\<not> exist d v \<Longrightarrow> volumes (snd (remove v (snd (add v d)))) = volumes d"
  by (simp add: registry_specs volumes_add filter_id_notin)

lemma count_add: "invar d \<Longrightarrow> \<not> exist d v \<Longrightarrow> count (snd (add v d)) = count d + 1"
  by (simp add: exist_iff count_volumes invar_add volumes_add)

lemma count_remove:
  assumes "invar d" and "exist d v"
  shows "count (snd (remove v d)) = count d - 1"
proof -
  have "length (filter (\<lambda>u. u \<noteq> v) (volumes d)) = length (remove1 v (volumes d))"
    using invar_distinct [OF assms(1)] by (simp add: distinct_remove1_removeAll filter_neq_removeAll)
  moreover have "int (length (volumes d) - Suc 0) = int (length (volumes d)) - 1"
    using assms(2) by (cases "volumes d") (auto simp: exist_iff)
  ultimately show ?thesis
    using assms by (simp add: count_volumes invar_remove volumes_remove exist_iff length_remove1)
qed

end

definition drive_finalizers_wf :: "Drive \<Rightarrow> bool" where
  "drive_finalizers_wf d =
     (Finalizers d \<noteq> [] \<and> hd (Finalizers d) = driveFinalizerDataProtection \<and>
      distinct (tl (Finalizers d)) \<and>
      list_all (\<lambda>f. HasPrefix f driveFinalizerVolumePrefix) (tl (Finalizers d)))"

lemma data_protection_not_volume [simp]:
  "\<not> HasPrefix driveFinalizerDataProtection driveFinalizerVolumePrefix"
  by (simp add: HasPrefix_def driveFinalizerDataProtection_def driveFinalizerVolumePrefix_def const_defs)

lemma data_protection_neq_volume [simp]:
  "driveFinalizerDataProtection \<noteq> driveFinalizerVolumePrefix @ v"
  using data_protection_not_volume by (metis HasPrefix_append)

lemma volumes_of_finalizers_append [simp]:
  "volumes_of_finalizers (xs @ ys) = volumes_of_finalizers xs @ volumes_of_finalizers ys"
  by (induction xs) auto

lemma in_volumes_of_finalizers:
  "v \<in> set (volumes_of_finalizers fs) \<longleftrightarrow> driveFinalizerVolumePrefix @ v \<in> set fs"
  by (induction fs) (auto simp: HasPrefix_iff)

lemma volumes_of_finalizers_filter:
  "volumes_of_finalizers (filter (\<lambda>f. f \<noteq> driveFinalizerVolumePrefix @ v) fs) =
     filter (\<lambda>u. u \<noteq> v) (volumes_of_finalizers fs)"
  by (induction fs) (auto simp: HasPrefix_iff)

lemma volumes_of_finalizers_all:
  "list_all (\<lambda>f. HasPrefix f driveFinalizerVolumePrefix) fs \<Longrightarrow>
     fs = map ((@) driveFinalizerVolumePrefix) (volumes_of_finalizers fs)"
  by (induction fs) (auto simp: HasPrefix_iff)

lemma drive_finalizers_wf_iff:
  "drive_finalizers_wf d \<longleftrightarrow>
     distinct (GetVolumes d) \<and>
     Finalizers d = driveFinalizerDataProtection # map ((@) driveFinalizerVolumePrefix) (GetVolumes d)"
proof (cases "Finalizers d")
  case (Cons f fs)
  let ?vs = "volumes_of_finalizers fs"
  have inj: "inj_on ((@) driveFinalizerVolumePrefix) X" for X
    by (simp add: inj_on_def)
  have all: "list_all (\<lambda>f. HasPrefix f driveFinalizerVolumePrefix) fs \<longleftrightarrow>
      fs = map ((@) driveFinalizerVolumePrefix) ?vs"
    using volumes_of_finalizers_all [of fs] by (metis HasPrefix_append list.pred_set imageE set_map)
  show ?thesis
  proof (cases "f = driveFinalizerDataProtection")
    case True
    then have "GetVolumes d = ?vs" using Cons by (simp add: GetVolumes_def)
    moreover have "distinct fs \<longleftrightarrow> distinct ?vs" if "fs = map ((@) driveFinalizerVolumePrefix) ?vs"
      using inj that by (metis distinct_map)
    ultimately show ?thesis
      using Cons True all by (auto simp: drive_finalizers_wf_def)
  qed (use Cons in \<open>auto simp: drive_finalizers_wf_def\<close>)
qed (simp add: drive_finalizers_wf_def)

interpretation drv_volumes:
  volume_registry GetVolumes AddVolumeFinalizer RemoveVolumeFinalizer VolumeExist GetVolumeCount
    ResetFinalizers drive_finalizers_wf
proof (unfold_locales, goal_cases)
  case (1 d v) show ?case by (simp add: VolumeExist_def GetVolumes_def in_volumes_of_finalizers)
next
  case (2 v d) show ?case by (simp add: AddVolumeFinalizer_def GetVolumes_def in_volumes_of_finalizers Let_def)
next
  case (3 v d) then show ?case by (simp add: AddVolumeFinalizer_def GetVolumes_def in_volumes_of_finalizers Let_def)
next
  case (4 v d) then show ?case by (simp add: AddVolumeFinalizer_def GetVolumes_def in_volumes_of_finalizers Let_def)
next
  case (5 v d) show ?case by (simp add: RemoveVolumeFinalizer_def GetVolumes_def in_volumes_of_finalizers Let_def)
next
  case (6 v d) show ?case
    by (simp add: RemoveVolumeFinalizer_def GetVolumes_def in_volumes_of_finalizers
        volumes_of_finalizers_filter Let_def filter_id_notin)
next
  case (7 d) show ?case by (simp add: ResetFinalizers_def GetVolumes_def)
next
  case (8 d) then show ?case by (metis GetVolumeCount_def drive_finalizers_wf_iff length_Cons length_map add_diff_cancel_right' of_nat_Suc add.commute)
next
  case (9 d) then show ?case by (simp add: drive_finalizers_wf_iff)
next
  case (10 d v) then show ?case
    by (cases "Finalizers d") (auto simp: drive_finalizers_wf_def AddVolumeFinalizer_def Let_def)
next
  case (11 d v) then show ?case
    by (cases "Finalizers d")
      (auto simp: drive_finalizers_wf_def RemoveVolumeFinalizer_def Let_def list_all_iff HasPrefix_iff)
next
  case (12 d) show ?case by (simp add: ResetFinalizers_def drive_finalizers_wf_def)
qed

section \<open>Conditions: the interface\<close>

text \<open>Every setter of a condition keeps one condition per type and leaves the other types alone.\<close>

lemma upsert_types: "map condType (upsert_condition c cs) =
    (if condType c \<in> condType ` set cs then map condType cs else map condType cs @ [condType c])"
  by (induction cs) auto

lemma upsert_distinct: "distinct (map condType cs) \<Longrightarrow> distinct (map condType (upsert_condition c cs))"
  by (simp add: upsert_types)

lemma upsert_in: "c \<in> set (upsert_condition c cs)"
  by (induction cs) auto

lemma upsert_set:
  "distinct (map condType cs) \<Longrightarrow>
     set (upsert_condition c cs) = insert c {x \<in> set cs. condType x \<noteq> condType c}"
  by (induction cs) (auto simp: image_iff)

locale condition_setter =
  fixes conditions :: "'o \<Rightarrow> Condition list"
    and set_condition :: "nat \<Rightarrow> 'o \<Rightarrow> 'o"
    and the_condition :: "nat \<Rightarrow> Condition"
  assumes conditions_set: "conditions (set_condition now x) = upsert_condition (the_condition now) (conditions x)"
    and set_time: "LastTransitionTime (the_condition now) = now"
begin

lemma set_distinct:
  "distinct (map condType (conditions x)) \<Longrightarrow> distinct (map condType (conditions (set_condition now x)))"
  by (simp add: conditions_set upsert_distinct)

lemma set_member: "the_condition now \<in> set (conditions (set_condition now x))"
  by (simp add: conditions_set upsert_in)

lemma set_others:
  "distinct (map condType (conditions x)) \<Longrightarrow> c \<in> set (conditions (set_condition now x)) \<Longrightarrow>
     condType c \<noteq> condType (the_condition now) \<Longrightarrow> c \<in> set (conditions x)"
  by (auto simp: conditions_set upsert_set)

end

definition error_condition :: "string \<Rightarrow> string \<Rightarrow> string \<Rightarrow> nat \<Rightarrow> Condition" where
  "error_condition t reason message now =
     \<lparr> condType = t, condStatus = ConditionTrue, condReason = reason, condMessage = message,
       LastTransitionTime = now \<rparr>"

interpretation drv_errors:
  condition_setter "\<lambda>d. dConditions (driveStatus d)" "\<lambda>now. setErrorCondition now t reason message"
    "error_condition t reason message" for t reason message
  by unfold_locales (simp_all add: setErrorCondition_def error_condition_def Let_def)

interpretation vol_lost:
  condition_setter "\<lambda>v. vConditions (volumeStatus v)" SetDriveLost
    "error_condition VolumeConditionTypeLost VolumeConditionReasonDriveLost VolumeConditionMessageDriveLost"
  by unfold_locales (simp_all add: SetDriveLost_def error_condition_def Let_def)

lemma IsDriveLost_SetDriveLost: "IsDriveLost (SetDriveLost now v)"
  using vol_lost.set_member [of now v]
  by (auto simp: IsDriveLost_def list_ex_iff error_condition_def intro!: bexI)

lemma latest_error_condition_Some:
  "latest_error_condition latest cs = Some c \<Longrightarrow>
     (latest = Some c \<or> (c \<in> set cs \<and> is_error_type (condType c))) \<and>
     (\<forall>l. latest = Some l \<longrightarrow> LastTransitionTime l \<le> LastTransitionTime c) \<and>
     (\<forall>x \<in> set cs. is_error_type (condType x) \<longrightarrow> LastTransitionTime x \<le> LastTransitionTime c)"
proof (induction latest cs rule: latest_error_condition.induct)
  case (2 latest x xs)
  show ?case
    using "2.IH" "2.prems" by (cases latest) (force split: if_splits)+
qed simp

lemma latest_error_condition_None:
  "latest_error_condition latest cs = None \<longleftrightarrow> latest = None \<and> (\<forall>x \<in> set cs. \<not> is_error_type (condType x))"
  by (induction latest cs rule: latest_error_condition.induct) (auto split: option.splits)

text \<open>
  Setting an error condition at a time later than every earlier one makes it the latest: the
  type that \<^verbatim>\<open>GetLatestErrorConditionType\<close> reports is the one just set.
\<close>

theorem setErrorCondition_latest:
  assumes "is_error_type t"
    and "distinct (map condType (dConditions (driveStatus d)))"
    and "\<And>c. c \<in> set (dConditions (driveStatus d)) \<Longrightarrow> LastTransitionTime c < now"
  shows "GetLatestErrorConditionType (setErrorCondition now t reason message d) = t"
proof -
  let ?c = "error_condition t reason message now"
  let ?cs = "dConditions (driveStatus (setErrorCondition now t reason message d))"
  have mem: "?c \<in> set ?cs" by (rule drv_errors.set_member)
  have err: "is_error_type (condType ?c)" and time: "LastTransitionTime ?c = now"
    using assms(1) by (simp_all add: error_condition_def)
  then obtain c where c: "latest_error_condition None ?cs = Some c"
    using mem latest_error_condition_None [of None ?cs] by (cases "latest_error_condition None ?cs") auto
  then have "c \<in> set ?cs" and "now \<le> LastTransitionTime c"
    using latest_error_condition_Some [OF c] mem err time by auto
  then have "condType c = condType ?c"
    using drv_errors.set_others [OF assms(2)] assms(3) by (metis not_less)
  with c show ?thesis
    by (simp add: GetLatestErrorConditionType_def error_condition_def)
qed

definition sample_drive :: Drive where
  "sample_drive =
     NewDirectPVDrive ''drive-1''
       \<lparr> dTotalCapacity = 1000, dAllocatedCapacity = 0, dFreeCapacity = 1000, dFSUUID = ''drive-1'',
         dStatus = DriveStatusReady, dTopology = Map.empty, dMake = [],
         dConditions = [] \<rparr> ''node-1'' ''sda'' AccessTierDefault"

theorem setErrorCondition_latest_witness:
  "GetLatestErrorConditionType
     (setErrorCondition 5 DriveConditionTypeIOError ''r'' ''m''
        (setErrorCondition 2 DriveConditionTypeMountError ''r'' ''m'' sample_drive)) =
   DriveConditionTypeIOError"
  by (rule setErrorCondition_latest)
    (simp_all add: is_error_type_def setErrorCondition_def sample_drive_def NewDirectPVDrive_def)

end
