(* ===== verification/NodeObjects.thy ===== *)
theory NodeObjects
  imports Objects
begin

text \<open>
  The two remaining custom resources: nodes with their probed devices
  (\<^verbatim>\<open>v1beta1/node.go\<close>) and initialisation requests
  (\<^verbatim>\<open>v1beta1/init_request.go\<close>). \<^verbatim>\<open>uuid.New()\<close> is the argument
  \<open>uuid\<close>.
\<close>

record NodeDevice =
  devName :: string
  devID :: string
  devMajorMinor :: string
  devSize :: int
  devMake :: string
  devFSType :: string
  devFSUUID :: string
  devDeniedReason :: string

record NodeObj = ObjectMeta +
  nodeRefresh :: bool
  nodeDevices :: "NodeDevice list"
  nodeConditions :: "Condition list"

definition GetDevicesByNames :: "string list \<Rightarrow> NodeObj \<Rightarrow> NodeDevice list" where
  "GetDevicesByNames names node =
     (if names = [] then nodeDevices node
      else filter (\<lambda>dev. utils_Contains names (devName dev)) (nodeDevices node))"

definition NewDirectPVNode :: "NodeID \<Rightarrow> NodeDevice list \<Rightarrow> NodeObj" where
  "NewDirectPVNode nodeID devices =
     \<lparr> objName = nodeID, ResourceVersion = 0, Finalizers = [],
       objLabels = [NodeLabelKey \<mapsto> nodeID, VersionLabelKey \<mapsto> LatestAPIVersion,
                    CreatedByLabelKey \<mapsto> NodeControllerName],
       DeletionTimestamp = None,
       nodeRefresh = False, nodeDevices = devices, nodeConditions = [] \<rparr>"

record InitDevice =
  initID :: string
  initName :: string
  initForce :: bool

record InitDeviceResult =
  resultName :: string
  resultError :: string

abbreviation InitStatusPending :: string where "InitStatusPending \<equiv> ''Pending''"
abbreviation InitStatusProcessed :: string where "InitStatusProcessed \<equiv> ''Processed''"
abbreviation InitStatusError :: string where "InitStatusError \<equiv> ''Error''"

record InitRequest = ObjectMeta +
  reqDevices :: "InitDevice list"
  reqStatus :: string
  reqResults :: "InitDeviceResult list"

definition NewDirectPVInitRequest :: "string \<Rightarrow> string \<Rightarrow> NodeID \<Rightarrow> InitDevice list \<Rightarrow> InitRequest" where
  "NewDirectPVInitRequest uuid requestID nodeID devices =
     \<lparr> objName = uuid, ResourceVersion = 0, Finalizers = [],
       objLabels = [NodeLabelKey \<mapsto> nodeID, VersionLabelKey \<mapsto> LatestAPIVersion,
                    CreatedByLabelKey \<mapsto> NodeControllerName, RequestIDLabelKey \<mapsto> requestID],
       DeletionTimestamp = None,
       reqDevices = devices, reqStatus = InitStatusPending, reqResults = [] \<rparr>"

definition InitRequest_getLabel :: "'a lib_scheme \<Rightarrow> LabelKey \<Rightarrow> InitRequest \<Rightarrow> LabelValue" where
  "InitRequest_getLabel L key req = ToLabelValue L (map_get (objLabels req) key)"

definition InitRequest_GetNodeID :: "'a lib_scheme \<Rightarrow> InitRequest \<Rightarrow> NodeID" where
  "InitRequest_GetNodeID L req = InitRequest_getLabel L NodeLabelKey req"

end
