(* ===== verification/Api.thy ===== *)
theory Api
  imports NodeObjects
begin

text \<open>
  The Kubernetes API server, the code every handler of DirectPV talks to and which is not part of
  the repository. It is a parameter of the model: \<open>client\<close> is the record of the typed clients
  (\<^verbatim>\<open>client.DriveClient()\<close> and its kin) whose operations run on an abstract world, together
  with \<^verbatim>\<open>retry.RetryOnConflict\<close> and the clock. What the handlers rely on is stated as
  the locale \<open>object_api\<close>, the documented contract of the server for one kind of object:
  reads return the stored object; an update is accepted only on the current resource version and
  gives a later one;
  an object with finalizers is only marked by a delete and vanishes when its last finalizer does.
  \<open>cluster\<close> puts the clients for drives and volumes together: an operation on one kind leaves
  the other alone, and a failed request changes nothing.

  The last section is a store with exactly that documented behaviour; the locales are
  interpreted on it, and the witnesses of the development run on it.
\<close>

section \<open>The clients\<close>

record ListOptions =
  Limit :: int
  LabelSelector :: string
  Continue :: string

record ('w, 'o) api =
  api_Get :: "string \<Rightarrow> ('w, 'o) io"
  api_Create :: "'o \<Rightarrow> ('w, 'o) io"
  api_Update :: "'o \<Rightarrow> ('w, 'o) io"
  api_Delete :: "string \<Rightarrow> ('w, unit) io"
  api_List :: "ListOptions \<Rightarrow> ('w, 'o list \<times> string) io"

text \<open>\<open>pageFuel\<close> bounds the pages a list loop of the model reads.\<close>

record 'w client = lib +
  DriveClient :: "('w, Drive) api"
  VolumeClient :: "('w, Volume) api"
  NodeClient :: "('w, NodeObj) api"
  InitRequestClient :: "('w, InitRequest) api"
  RetryOnConflict :: "('w, unit) io \<Rightarrow> ('w, unit) io"
  Now :: "'w \<Rightarrow> nat"
  pageFuel :: nat

section \<open>gRPC status errors\<close>

datatype code =
    codes_InvalidArgument | codes_NotFound | codes_Internal | codes_FailedPrecondition
  | codes_OutOfRange | codes_ResourceExhausted | codes_AlreadyExists | codes_Unimplemented | codes_Aborted

text \<open>\<open>StatusError\<close> is \<^verbatim>\<open>status.Errorf\<close>, with the fixed part of the
  message; \<open>PlainError\<close> an error the handler hands on as it is.\<close>

datatype rpc_error = StatusError code string | PlainError error

section \<open>The contract of one kind of object\<close>

locale object_api =
  fixes A :: "('w, 'a ObjectMeta_scheme) api"
    and store :: "'w \<Rightarrow> string \<Rightarrow> 'a ObjectMeta_scheme option"
  assumes store_name: "store w n = Some x \<Longrightarrow> objName x = n"
    and get_frame: "api_Get A n w = (r, w') \<Longrightarrow> store w' = store w"
    and get_found: "api_Get A n w = (Inr x, w') \<Longrightarrow> store w n = Some x"
    and get_not_found: "api_Get A n w = (Inl e, w') \<Longrightarrow> IsNotFound e \<Longrightarrow> store w n = None"
    and create_ok: "api_Create A x w = (Inr y, w') \<Longrightarrow>
      store w (objName x) = None \<and> store w' = (store w)(objName x \<mapsto> y) \<and>
      (\<exists>rv. y = x\<lparr>ResourceVersion := rv\<rparr>)"
    and create_err: "api_Create A x w = (Inl e, w') \<Longrightarrow> store w' = store w"
    and create_exists: "api_Create A x w = (Inl e, w') \<Longrightarrow> IsAlreadyExists e \<Longrightarrow>
      store w (objName x) \<noteq> None"
    and update_ok: "api_Update A x w = (Inr y, w') \<Longrightarrow>
      \<exists>cur rv. store w (objName x) = Some cur \<and> ResourceVersion x = ResourceVersion cur \<and>
        ResourceVersion cur < rv \<and> y = x\<lparr>ResourceVersion := rv\<rparr> \<and>
        store w' = (store w)(objName x :=
          (if Finalizers x = [] \<and> DeletionTimestamp x \<noteq> None then None else Some y))"
    and update_err: "api_Update A x w = (Inl e, w') \<Longrightarrow> store w' = store w"
    and delete_ok: "api_Delete A n w = (Inr u, w') \<Longrightarrow>
      \<exists>cur. store w n = Some cur \<and>
        (if Finalizers cur = [] then store w' = (store w)(n := None)
         else \<exists>ts rv. ResourceVersion cur < rv \<and>
           store w' = (store w)(n \<mapsto> cur\<lparr>DeletionTimestamp := Some ts, ResourceVersion := rv\<rparr>))"
    and delete_err: "api_Delete A n w = (Inl e, w') \<Longrightarrow> store w' = store w"
    and list_frame: "api_List A opts w = (rl, w') \<Longrightarrow> store w' = store w"
    and list_sound: "api_List A opts w = (Inr (items, cont), w') \<Longrightarrow> x \<in> set items \<Longrightarrow>
      store w (objName x) = Some x"
begin

lemma get_name: "api_Get A n w = (Inr x, w') \<Longrightarrow> objName x = n"
  using get_found store_name by blast

text \<open>Reading, changing and writing back: what the store then holds.\<close>

lemma update_stored:
  assumes "api_Update A x w = (Inr y, w')" and "Finalizers x \<noteq> [] \<or> DeletionTimestamp x = None"
  shows "store w' (objName x) = Some y" and "\<exists>rv. y = x\<lparr>ResourceVersion := rv\<rparr>"
  using update_ok [OF assms(1)] assms(2) by auto

lemma update_others:
  "api_Update A x w = (r, w') \<Longrightarrow> n \<noteq> objName x \<Longrightarrow> store w' n = store w n"
  by (cases r) (use update_ok update_err in \<open>fastforce+\<close>)

text \<open>Optimistic concurrency: a second update with the version of the first is refused.\<close>

lemma stale_update_refused:
  assumes "api_Update A x w = (Inr y, w')" and "Finalizers x \<noteq> [] \<or> DeletionTimestamp x = None"
    and "objName x' = objName x" and "ResourceVersion x' = ResourceVersion x"
  shows "\<exists>e. fst (api_Update A x' w') = Inl e"
proof (rule ccontr)
  assume "\<nexists>e. fst (api_Update A x' w') = Inl e"
  then obtain y' w'' where u: "api_Update A x' w' = (Inr y', w'')"
    by (metis prod.collapse sum.exhaust)
  obtain cur rv where c: "store w (objName x) = Some cur" "ResourceVersion x = ResourceVersion cur"
      "ResourceVersion cur < rv" "y = x\<lparr>ResourceVersion := rv\<rparr>"
    using update_ok [OF assms(1)] by auto
  obtain cur' where "store w' (objName x') = Some cur'" "ResourceVersion x' = ResourceVersion cur'"
    using update_ok [OF u] by auto
  with update_stored(1) [OF assms(1,2)] assms(3,4) c show False by auto
qed

end

text \<open>One request to a client.\<close>

definition api_step :: "('w, 'o) api \<Rightarrow> 'w \<Rightarrow> 'w \<Rightarrow> bool" where
  "api_step A w w' \<longleftrightarrow>
     (\<exists>n. w' = snd (api_Get A n w)) \<or> (\<exists>x. w' = snd (api_Create A x w)) \<or>
     (\<exists>x. w' = snd (api_Update A x w)) \<or> (\<exists>n. w' = snd (api_Delete A n w)) \<or>
     (\<exists>opts. w' = snd (api_List A opts w))"

lemma api_stepI:
  "api_Get A n w = (rg, w') \<Longrightarrow> api_step A w w'"
  "api_Create A x w = (rc, w') \<Longrightarrow> api_step A w w'"
  "api_Update A x w = (ru, w') \<Longrightarrow> api_step A w w'"
  "api_Delete A n w = (rd, w') \<Longrightarrow> api_step A w w'"
  "api_List A opts w = (rl, w') \<Longrightarrow> api_step A w w'"
  unfolding api_step_def by (metis snd_conv)+

text \<open>\<^verbatim>\<open>retry.RetryOnConflict\<close> runs the function once, or again after a conflict.\<close>

inductive retried :: "('w, unit) io \<Rightarrow> 'w \<Rightarrow> unit result \<times> 'w \<Rightarrow> bool" for f where
  once: "retried f w (f w)"
| again: "f w = (Inl e, w1) \<Longrightarrow> IsConflict e \<Longrightarrow> retried f w1 r \<Longrightarrow> retried f w r"

lemma retried_ok: "retried f w r \<Longrightarrow> (\<And>e w1. f w = (Inl e, w1) \<Longrightarrow> \<not> IsConflict e) \<Longrightarrow> r = f w"
  by (induction rule: retried.induct) auto

lemma retried_preserves:
  assumes "retried f w r" and "\<And>w. P w \<Longrightarrow> P (snd (f w))" and "P w"
  shows "P (snd r)"
  using assms(1,3)
proof (induction rule: retried.induct)
  case (once w)
  then show ?case using assms(2) by simp
next
  case (again w e w1 r)
  then have "P (snd (f w))" using assms(2) by blast
  with again show ?case by simp
qed

text \<open>If failed attempts change nothing, what happens is one attempt in a state like the first.\<close>

lemma retried_attempt:
  assumes "retried f w r" and "\<And>w e w'. f w = (Inl e, w') \<Longrightarrow> F w' = F w"
  shows "\<exists>v. f v = r \<and> F v = F w"
  using assms(1)
proof (induction rule: retried.induct)
  case (again w e w1 r)
  then show ?case using assms(2) by metis
qed blast

section \<open>The cluster\<close>

locale cluster =
  d: object_api "DriveClient C" dstore + v: object_api "VolumeClient C" vstore
  for C :: "('w, 'b) client_scheme" and dstore :: "'w \<Rightarrow> string \<Rightarrow> Drive option"
    and vstore :: "'w \<Rightarrow> string \<Rightarrow> Volume option" +
  assumes drive_step_volumes: "api_step (DriveClient C) w w' \<Longrightarrow> vstore w' = vstore w"
    and volume_step_drives: "api_step (VolumeClient C) w w' \<Longrightarrow> dstore w' = dstore w"
    and validator: "label_validator (IsValidLabelValue C)"
    and retry: "retried f w (RetryOnConflict C f w)"
begin

lemma drive_ops_volumes:
  "api_Get (DriveClient C) n w = (rg, w') \<Longrightarrow> vstore w' = vstore w"
  "api_Create (DriveClient C) x w = (rc, w') \<Longrightarrow> vstore w' = vstore w"
  "api_Update (DriveClient C) x w = (ru, w') \<Longrightarrow> vstore w' = vstore w"
  "api_Delete (DriveClient C) n w = (rd, w') \<Longrightarrow> vstore w' = vstore w"
  "api_List (DriveClient C) opts w = (rl, w') \<Longrightarrow> vstore w' = vstore w"
  by (rule drive_step_volumes, erule api_stepI)+

lemma volume_ops_drives:
  "api_Get (VolumeClient C) n w = (rg, w') \<Longrightarrow> dstore w' = dstore w"
  "api_Create (VolumeClient C) y w = (rc, w') \<Longrightarrow> dstore w' = dstore w"
  "api_Update (VolumeClient C) y w = (ru, w') \<Longrightarrow> dstore w' = dstore w"
  "api_Delete (VolumeClient C) n w = (rd, w') \<Longrightarrow> dstore w' = dstore w"
  "api_List (VolumeClient C) opts w = (rl, w') \<Longrightarrow> dstore w' = dstore w"
  by (rule volume_step_drives, erule api_stepI)+

lemmas frames = drive_ops_volumes volume_ops_drives d.get_frame v.get_frame d.list_frame v.list_frame

end

section \<open>A store with the documented behaviour\<close>

definition lookup_obj :: "'a ObjectMeta_scheme list \<Rightarrow> string \<Rightarrow> 'a ObjectMeta_scheme option" where
  "lookup_obj xs n = find (\<lambda>x. objName x = n) xs"

definition replace_obj :: "'a ObjectMeta_scheme \<Rightarrow> 'a ObjectMeta_scheme list \<Rightarrow> 'a ObjectMeta_scheme list" where
  "replace_obj y xs = map (\<lambda>x. if objName x = objName y then y else x) xs"

definition remove_obj :: "string \<Rightarrow> 'a ObjectMeta_scheme list \<Rightarrow> 'a ObjectMeta_scheme list" where
  "remove_obj n xs = filter (\<lambda>x. objName x \<noteq> n) xs"

fun first_objs :: "'a ObjectMeta_scheme list \<Rightarrow> 'a ObjectMeta_scheme list" where
  "first_objs [] = []"
| "first_objs (x # xs) = x # remove_obj (objName x) (first_objs xs)"

definition store_api ::
  "('w \<Rightarrow> 'a ObjectMeta_scheme list) \<Rightarrow> ('a ObjectMeta_scheme list \<Rightarrow> 'w \<Rightarrow> 'w) \<Rightarrow>
   ('w, 'a ObjectMeta_scheme) api" where
  "store_api objs put =
     \<lparr> api_Get = (\<lambda>n w.
         (case lookup_obj (objs w) n of None \<Rightarrow> Inl (Status NotFound) | Some x \<Rightarrow> Inr x, w)),
       api_Create = (\<lambda>x w.
         if lookup_obj (objs w) (objName x) \<noteq> None then (Inl (Status AlreadyExists), w)
         else (let y = x\<lparr>ResourceVersion := 1\<rparr> in (Inr y, put (objs w @ [y]) w))),
       api_Update = (\<lambda>x w.
         case lookup_obj (objs w) (objName x) of
           None \<Rightarrow> (Inl (Status NotFound), w)
         | Some cur \<Rightarrow>
             if ResourceVersion x \<noteq> ResourceVersion cur then (Inl (Status Conflict), w)
             else (let y = x\<lparr>ResourceVersion := Suc (ResourceVersion cur)\<rparr>
                   in (Inr y,
                       put (if Finalizers x = [] \<and> DeletionTimestamp x \<noteq> None
                            then remove_obj (objName x) (objs w) else replace_obj y (objs w)) w))),
       api_Delete = (\<lambda>n w.
         case lookup_obj (objs w) n of
           None \<Rightarrow> (Inl (Status NotFound), w)
         | Some cur \<Rightarrow>
             (Inr (),
              put (if Finalizers cur = [] then remove_obj n (objs w)
                   else replace_obj (cur\<lparr>DeletionTimestamp := Some 1,
                          ResourceVersion := Suc (ResourceVersion cur)\<rparr>) (objs w)) w)),
       api_List = (\<lambda>opts w. (Inr (first_objs (objs w), []), w)) \<rparr>"

lemma first_objs_lookup: "x \<in> set (first_objs xs) \<Longrightarrow> lookup_obj xs (objName x) = Some x"
  by (induction xs) (auto simp: lookup_obj_def remove_obj_def)

lemma first_objs_subset: "set (first_objs xs) \<subseteq> set xs"
  by (induction xs) (auto simp: remove_obj_def)

lemma first_objs_distinct: "distinct (map objName xs) \<Longrightarrow> first_objs xs = xs"
proof (induction xs)
  case (Cons x xs)
  then have "remove_obj (objName x) xs = xs" by (auto simp: remove_obj_def simp: image_iff intro!: filter_True)
  with Cons show ?case by simp
qed simp

lemma lookup_obj_name: "lookup_obj xs n = Some x \<Longrightarrow> objName x = n"
  by (auto simp: lookup_obj_def find_Some_iff)

lemma lookup_obj_append_None:
  "lookup_obj xs (objName y) = None \<Longrightarrow>
     lookup_obj (xs @ [y]) = (lookup_obj xs)(objName y \<mapsto> y)"
  by (induction xs) (auto simp: lookup_obj_def fun_eq_iff split: if_splits)

lemma lookup_obj_remove: "lookup_obj (remove_obj n xs) = (lookup_obj xs)(n := None)"
  by (induction xs) (auto simp: lookup_obj_def remove_obj_def fun_eq_iff)

lemma lookup_obj_replace:
  "lookup_obj xs (objName y) \<noteq> None \<Longrightarrow> lookup_obj (replace_obj y xs) = (lookup_obj xs)(objName y \<mapsto> y)"
proof
  fix n
  assume y: "lookup_obj xs (objName y) \<noteq> None"
  have "lookup_obj (replace_obj y xs) n = lookup_obj xs n" if "n \<noteq> objName y"
    using that by (induction xs) (auto simp: lookup_obj_def replace_obj_def)
  moreover have "lookup_obj (replace_obj y xs) (objName y) = Some y"
    using y by (induction xs) (auto simp: lookup_obj_def replace_obj_def split: if_splits)
  ultimately show "lookup_obj (replace_obj y xs) n = ((lookup_obj xs)(objName y \<mapsto> y)) n"
    by simp
qed

lemma object_api_store:
  assumes put: "\<And>xs w. objs (put xs w) = xs"
  shows "object_api (store_api objs put) (\<lambda>w. lookup_obj (objs w))"
proof (unfold_locales, goal_cases)
  case (1 w n x) then show ?case by (rule lookup_obj_name)
next
  case (2 n w r w') then show ?case by (simp add: store_api_def)
next
  case (3 n w x w') then show ?case by (auto simp: store_api_def split: option.splits)
next
  case (4 n w e w') then show ?case by (auto simp: store_api_def split: option.splits)
next
  case (5 x w y w') then show ?case
    using lookup_obj_append_None [of "objs w" "x\<lparr>ResourceVersion := 1\<rparr>"]
    by (auto simp: store_api_def Let_def put split: if_splits)
next
  case (6 x w e w') then show ?case by (auto simp: store_api_def Let_def split: if_splits)
next
  case (7 x w e w') then show ?case
    by (auto simp: store_api_def Let_def IsAlreadyExists_def split: if_splits)
next
  case (8 x w y w')
  then obtain cur where cur: "lookup_obj (objs w) (objName x) = Some cur"
      and y: "y = x\<lparr>ResourceVersion := Suc (ResourceVersion cur)\<rparr>"
    by (auto simp: store_api_def Let_def split: option.splits if_splits)
  have "lookup_obj (replace_obj y (objs w)) = (lookup_obj (objs w))(objName x \<mapsto> y)"
    using lookup_obj_replace [of "objs w" y] cur y by simp
  with 8 cur y show ?case
    by (intro exI [of _ cur] exI [of _ "Suc (ResourceVersion cur)"])
      (auto simp: store_api_def Let_def put lookup_obj_remove split: if_splits)
next
  case (9 x w e w') then show ?case by (auto simp: store_api_def Let_def split: option.splits if_splits)
next
  case (10 n w u w')
  then obtain cur where cur: "lookup_obj (objs w) n = Some cur"
    by (auto simp: store_api_def split: option.splits)
  then have "objName cur = n" by (rule lookup_obj_name)
  let ?y = "cur\<lparr>DeletionTimestamp := Some 1, ResourceVersion := Suc (ResourceVersion cur)\<rparr>"
  have r: "lookup_obj (replace_obj ?y (objs w)) = (lookup_obj (objs w))(n \<mapsto> ?y)"
    using lookup_obj_replace [of "objs w" ?y] cur \<open>objName cur = n\<close> by simp
  show ?case
  proof (cases "Finalizers cur = []")
    case True
    with 10 cur show ?thesis by (auto simp: store_api_def put lookup_obj_remove)
  next
    case False
    with 10 cur have "w' = put (replace_obj ?y (objs w)) w" by (auto simp: store_api_def)
    then have "lookup_obj (objs w') = (lookup_obj (objs w))(n \<mapsto> ?y)" using put r by simp
    then have "\<exists>ts rv. ResourceVersion cur < rv \<and> lookup_obj (objs w') =
        (lookup_obj (objs w))(n \<mapsto> cur\<lparr>DeletionTimestamp := Some ts, ResourceVersion := rv\<rparr>)"
      by (intro exI [of _ 1] exI [of _ "Suc (ResourceVersion cur)"]) simp
    with cur False show ?thesis by simp
  qed
next
  case (11 n w e w') then show ?case by (auto simp: store_api_def split: option.splits)
next
  case (12 opts w r w') then show ?case by (simp add: store_api_def)
next
  case (13 opts w items cont w' x) then show ?case by (auto simp: store_api_def first_objs_lookup)
qed

text \<open>The world of the witnesses: the objects of the cluster; the host part is added where it is used.\<close>

record world =
  wDrives :: "Drive list"
  wVolumes :: "Volume list"
  wNodes :: "NodeObj list"
  wInitRequests :: "InitRequest list"

definition store_client :: "('b world_scheme) client" where
  "store_client =
     \<lparr> IsValidLabelValue = IsValidLabelValue sample_lib,
       IsQualifiedName = IsQualifiedName sample_lib,
       TitleCase = TitleCase sample_lib,
       DriveClient = store_api wDrives (\<lambda>xs w. w\<lparr>wDrives := xs\<rparr>),
       VolumeClient = store_api wVolumes (\<lambda>xs w. w\<lparr>wVolumes := xs\<rparr>),
       NodeClient = store_api wNodes (\<lambda>xs w. w\<lparr>wNodes := xs\<rparr>),
       InitRequestClient = store_api wInitRequests (\<lambda>xs w. w\<lparr>wInitRequests := xs\<rparr>),
       RetryOnConflict = (\<lambda>f. f),
       Now = (\<lambda>_. 1),
       pageFuel = 1 \<rparr>"

definition world_drives :: "'b world_scheme \<Rightarrow> string \<Rightarrow> Drive option" where
  "world_drives w = lookup_obj (wDrives w)"

definition world_volumes :: "'b world_scheme \<Rightarrow> string \<Rightarrow> Volume option" where
  "world_volumes w = lookup_obj (wVolumes w)"

interpretation store_drives: object_api "DriveClient store_client" world_drives
  using object_api_store [of wDrives "\<lambda>xs w. w\<lparr>wDrives := xs\<rparr>"]
  by (simp add: store_client_def world_drives_def [abs_def])

interpretation store_volumes: object_api "VolumeClient store_client" world_volumes
  using object_api_store [of wVolumes "\<lambda>xs w. w\<lparr>wVolumes := xs\<rparr>"]
  by (simp add: store_client_def world_volumes_def [abs_def])

lemma store_api_step_put:
  assumes "api_step (store_api objs put) w w'" and "\<And>xs w. f (put xs w) = f w"
  shows "f w' = f w"
  using assms by (auto simp: api_step_def store_api_def Let_def split: option.splits)

text \<open>Every client with the requests of the reference store is a cluster.\<close>

lemma cluster_of_store:
  assumes dc: "DriveClient C = DriveClient store_client" and vc: "VolumeClient C = VolumeClient store_client"
    and vl: "IsValidLabelValue C = IsValidLabelValue sample_lib" and rt: "RetryOnConflict C = (\<lambda>f. f)"
  shows "cluster C world_drives world_volumes"
proof (intro cluster.intro cluster_axioms.intro, goal_cases)
  case 1
  show ?case unfolding dc by (rule store_drives.object_api_axioms)
next
  case 2
  show ?case unfolding vc by (rule store_volumes.object_api_axioms)
next
  case (3 w w')
  then have "api_step (store_api wDrives (\<lambda>xs w. w\<lparr>wDrives := xs\<rparr>)) w w'" by (simp add: dc store_client_def)
  then show ?case by (rule store_api_step_put) (simp add: world_volumes_def)
next
  case (4 w w')
  then have "api_step (store_api wVolumes (\<lambda>xs w. w\<lparr>wVolumes := xs\<rparr>)) w w'" by (simp add: vc store_client_def)
  then show ?case by (rule store_api_step_put) (simp add: world_drives_def)
next
  case 5
  show ?case unfolding vl by (rule sample_lib_validator)
next
  case (6 f w)
  then show ?case by (simp add: rt retried.once)
qed

interpretation store_cluster: cluster store_client world_drives world_volumes
  by (rule cluster_of_store) (simp_all add: store_client_def)

end
