(* ===== verification/Lister.thy ===== *)
theory Lister
  imports Api
begin

text \<open>
  The listers of \<^verbatim>\<open>pkg/client\<close>: \<^verbatim>\<open>drive_lister.go\<close>,
  \<^verbatim>\<open>volume_lister.go\<close>, \<^verbatim>\<open>node_lister.go\<close> and
  \<^verbatim>\<open>initrequest_lister.go\<close>. A lister reads the pages of the API server and sends
  the matching objects on an unbuffered channel, then fetches the objects asked for by name that
  no page held.

  The receiving end of the channel is a \<open>consumer\<close>: a function of the received result, the
  receiver's own state and the world, which answers whether it goes on receiving; not going on is
  the cancelled context. The receiver runs at the point of the send, which is the rendezvous of
  the unbuffered channel; that the sender may already request the next page while the receiver
  works is not modelled.

  The page loop runs on the fuel \<open>pageFuel\<close> of the client; with fewer pages than that it
  never reports \<open>OutOfFuel\<close> (\<open>list_pages_paged\<close>).
\<close>

section \<open>Sending items, pages and names\<close>

type_synonym ('o, 's, 'w) consumer = "'o result \<Rightarrow> 's \<Rightarrow> 'w \<Rightarrow> bool \<times> 's \<times> 'w"

definition MaxThreadCount :: int where "MaxThreadCount = 200"

text \<open>The inner loop over the requested names: whether the item is one, and the others.\<close>

definition take_name :: "string list \<Rightarrow> string \<Rightarrow> bool \<times> string list" where
  "take_name names n = (n \<in> set names, filter (\<lambda>m. m \<noteq> n) names)"

text \<open>The loop over the items of a page. \<open>sel found names item\<close> is the condition of the
  send.\<close>

fun send_items ::
  "(bool \<Rightarrow> string list \<Rightarrow> 'a ObjectMeta_scheme \<Rightarrow> bool) \<Rightarrow> ('a ObjectMeta_scheme, 's, 'w) consumer \<Rightarrow>
   'a ObjectMeta_scheme list \<Rightarrow> string list \<Rightarrow> 's \<Rightarrow> 'w \<Rightarrow> bool \<times> string list \<times> 's \<times> 'w" where
  "send_items sel k [] names s w = (True, names, s, w)"
| "send_items sel k (item # items) names s w =
     (let (found, names') = take_name names (objName item)
      in if sel found names' item
         then (case k (Inr item) s w of
                 (True, s', w') \<Rightarrow> send_items sel k items names' s' w'
               | (False, s', w') \<Rightarrow> (False, names', s', w'))
         else send_items sel k items names' s w)"

fun list_pages ::
  "nat \<Rightarrow> ('w, 'a ObjectMeta_scheme) api \<Rightarrow> bool \<Rightarrow>
   (bool \<Rightarrow> string list \<Rightarrow> 'a ObjectMeta_scheme \<Rightarrow> bool) \<Rightarrow> ('a ObjectMeta_scheme, 's, 'w) consumer \<Rightarrow>
   ListOptions \<Rightarrow> string list \<Rightarrow> 's \<Rightarrow> 'w \<Rightarrow> bool \<times> string list \<times> 's \<times> 'w" where
  "list_pages 0 A ignoreNotFound sel k options names s w = (False, names, snd (k (Inl OutOfFuel) s w))"
| "list_pages (Suc n) A ignoreNotFound sel k options names s w =
     call (api_List A options w)
       (\<lambda>err w. if IsNotFound err \<and> ignoreNotFound then (True, names, s, w)
                else (False, names, snd (k (Inl err) s w)))
       (\<lambda>(items, cont) w.
          case send_items sel k items names s w of
            (False, r) \<Rightarrow> (False, r)
          | (True, names', s', w') \<Rightarrow>
              if cont = [] then (True, names', s', w')
              else list_pages n A ignoreNotFound sel k (options\<lparr>Continue := cont\<rparr>) names' s' w')"

text \<open>The last loop: the names no page held are fetched one by one.\<close>

fun get_names ::
  "('w, 'a ObjectMeta_scheme) api \<Rightarrow> bool \<Rightarrow> ('a ObjectMeta_scheme, 's, 'w) consumer \<Rightarrow>
   string list \<Rightarrow> 's \<Rightarrow> 'w \<Rightarrow> 's \<times> 'w" where
  "get_names A ignoreNotFound k [] s w = (s, w)"
| "get_names A ignoreNotFound k (n # ns) s w =
     call (api_Get A n w)
       (\<lambda>err w. if IsNotFound err \<and> ignoreNotFound then get_names A ignoreNotFound k ns s w
                else snd (k (Inl err) s w))
       (\<lambda>x w. case k (Inr x) s w of
                (True, s', w') \<Rightarrow> get_names A ignoreNotFound k ns s' w'
              | (False, s', w') \<Rightarrow> (s', w'))"

text \<open>The goroutine of every \<^verbatim>\<open>List\<close>.\<close>

definition run_lister ::
  "nat \<Rightarrow> ('w, 'a ObjectMeta_scheme) api \<Rightarrow> bool \<Rightarrow> bool \<Rightarrow>
   (bool \<Rightarrow> string list \<Rightarrow> 'a ObjectMeta_scheme \<Rightarrow> bool) \<Rightarrow> ('a ObjectMeta_scheme, 's, 'w) consumer \<Rightarrow>
   ListOptions \<Rightarrow> string list \<Rightarrow> 's \<Rightarrow> 'w \<Rightarrow> 's \<times> 'w" where
  "run_lister fuel A getOnly ignoreNotFound sel k options names s w =
     (if getOnly then get_names A ignoreNotFound k names s w
      else case list_pages fuel A ignoreNotFound sel k options names s w of
             (True, names', s', w') \<Rightarrow> get_names A ignoreNotFound k names' s' w'
           | (False, names', r) \<Rightarrow> r)"

text \<open>A receiver that only updates its own state; the one of every \<^verbatim>\<open>Get\<close>
  appends until an error comes.\<close>

definition receive :: "('o result \<Rightarrow> 's \<Rightarrow> bool \<times> 's) \<Rightarrow> ('o, 's, 'w) consumer" where
  "receive step r s w = (case step r s of (b, s') \<Rightarrow> (b, s', w))"

definition collect_step :: "'o result \<Rightarrow> 'o list \<times> error option \<Rightarrow> bool \<times> 'o list \<times> error option" where
  "collect_step r = (\<lambda>(xs, err).
     case r of Inl e \<Rightarrow> (False, (xs, Some e)) | Inr x \<Rightarrow> (True, (xs @ [x], err)))"

abbreviation collect :: "('o, 'o list \<times> error option, 'w) consumer" where
  "collect \<equiv> receive collect_step"

section \<open>Drives\<close>

record DriveLister =
  dlNodes :: "LabelValue list"
  dlDriveNames :: "LabelValue list"
  dlAccessTiers :: "LabelValue list"
  dlStatusList :: "DriveStatusValue list"
  dlDriveIDs :: "DriveID list"
  dlLabels :: "(LabelKey \<times> LabelValue) list"
  dlMaxObjects :: int
  dlIgnoreNotFound :: bool

definition NewDriveLister :: DriveLister where
  "NewDriveLister =
     \<lparr> dlNodes = [], dlDriveNames = [], dlAccessTiers = [], dlStatusList = [], dlDriveIDs = [],
       dlLabels = [], dlMaxObjects = MaxThreadCount, dlIgnoreNotFound = False \<rparr>"

definition DriveLister_NodeSelector :: "LabelValue list \<Rightarrow> DriveLister \<Rightarrow> DriveLister" where
  "DriveLister_NodeSelector nodes l = l\<lparr>dlNodes := nodes\<rparr>"

definition DriveLister_DriveNameSelector :: "LabelValue list \<Rightarrow> DriveLister \<Rightarrow> DriveLister" where
  "DriveLister_DriveNameSelector driveNames l = l\<lparr>dlDriveNames := driveNames\<rparr>"

definition DriveLister_StatusSelector :: "DriveStatusValue list \<Rightarrow> DriveLister \<Rightarrow> DriveLister" where
  "DriveLister_StatusSelector statusList l = l\<lparr>dlStatusList := statusList\<rparr>"

definition DriveLister_DriveIDSelector :: "DriveID list \<Rightarrow> DriveLister \<Rightarrow> DriveLister" where
  "DriveLister_DriveIDSelector driveIDs l = l\<lparr>dlDriveIDs := driveIDs\<rparr>"

definition DriveLister_LabelSelector :: "(LabelKey \<times> LabelValue) list \<Rightarrow> DriveLister \<Rightarrow> DriveLister" where
  "DriveLister_LabelSelector labels l = l\<lparr>dlLabels := labels\<rparr>"

definition DriveLister_MaxObjects :: "int \<Rightarrow> DriveLister \<Rightarrow> DriveLister" where
  "DriveLister_MaxObjects n l = l\<lparr>dlMaxObjects := n\<rparr>"

definition DriveLister_IgnoreNotFound :: "bool \<Rightarrow> DriveLister \<Rightarrow> DriveLister" where
  "DriveLister_IgnoreNotFound b l = l\<lparr>dlIgnoreNotFound := b\<rparr>"

definition drive_sel :: "DriveStatusValue list \<Rightarrow> bool \<Rightarrow> string list \<Rightarrow> Drive \<Rightarrow> bool" where
  "drive_sel statusList found names item \<longleftrightarrow>
     found \<or> statusList = [] \<or> utils_Contains statusList (dStatus (driveStatus item))"

definition drive_selector :: "DriveLister \<Rightarrow> string" where
  "drive_selector l =
     ToLabelSelector
       (fold (\<lambda>(k, v). assign_key k [v]) (dlLabels l)
          [(NodeLabelKey, dlNodes l), (DriveNameLabelKey, dlDriveNames l),
           (AccessTierLabelKey, dlAccessTiers l)])"

definition DriveLister_List ::
  "('w, 'b) client_scheme \<Rightarrow> DriveLister \<Rightarrow> (Drive, 's, 'w) consumer \<Rightarrow> 's \<Rightarrow> 'w \<Rightarrow> 's \<times> 'w" where
  "DriveLister_List C l k =
     (let getOnly = (dlNodes l = [] \<and> dlDriveNames l = [] \<and> dlAccessTiers l = [] \<and>
                     dlStatusList l = [] \<and> dlLabels l = [] \<and> dlDriveIDs l \<noteq> [])
      in run_lister (pageFuel C) (DriveClient C) getOnly (dlIgnoreNotFound l)
           (drive_sel (dlStatusList l)) k
           \<lparr> Limit = dlMaxObjects l, LabelSelector = drive_selector l, Continue = [] \<rparr>
           (dlDriveIDs l))"

definition DriveLister_Get ::
  "('w, 'b) client_scheme \<Rightarrow> DriveLister \<Rightarrow> 'w \<Rightarrow> (Drive list \<times> error option) \<times> 'w" where
  "DriveLister_Get C l w = DriveLister_List C l collect ([], None) w"

section \<open>Volumes\<close>

record VolumeLister =
  vlNodes :: "LabelValue list"
  vlDriveNames :: "LabelValue list"
  vlDriveIDs :: "LabelValue list"
  vlPodNames :: "LabelValue list"
  vlPodNSs :: "LabelValue list"
  vlStatusList :: "VolumeStatusValue list"
  vlVolumeNames :: "string list"
  vlLabels :: "(LabelKey \<times> LabelValue) list"
  vlMaxObjects :: int
  vlIgnoreNotFound :: bool

definition NewVolumeLister :: VolumeLister where
  "NewVolumeLister =
     \<lparr> vlNodes = [], vlDriveNames = [], vlDriveIDs = [], vlPodNames = [], vlPodNSs = [],
       vlStatusList = [], vlVolumeNames = [], vlLabels = [], vlMaxObjects = MaxThreadCount,
       vlIgnoreNotFound = False \<rparr>"

definition VolumeLister_NodeSelector :: "LabelValue list \<Rightarrow> VolumeLister \<Rightarrow> VolumeLister" where
  "VolumeLister_NodeSelector nodes l = l\<lparr>vlNodes := nodes\<rparr>"

definition VolumeLister_DriveNameSelector :: "LabelValue list \<Rightarrow> VolumeLister \<Rightarrow> VolumeLister" where
  "VolumeLister_DriveNameSelector driveNames l = l\<lparr>vlDriveNames := driveNames\<rparr>"

definition VolumeLister_DriveIDSelector :: "LabelValue list \<Rightarrow> VolumeLister \<Rightarrow> VolumeLister" where
  "VolumeLister_DriveIDSelector driveIDs l = l\<lparr>vlDriveIDs := driveIDs\<rparr>"

definition VolumeLister_PodNameSelector :: "LabelValue list \<Rightarrow> VolumeLister \<Rightarrow> VolumeLister" where
  "VolumeLister_PodNameSelector podNames l = l\<lparr>vlPodNames := podNames\<rparr>"

definition VolumeLister_PodNSSelector :: "LabelValue list \<Rightarrow> VolumeLister \<Rightarrow> VolumeLister" where
  "VolumeLister_PodNSSelector podNSs l = l\<lparr>vlPodNSs := podNSs\<rparr>"

definition VolumeLister_StatusSelector :: "VolumeStatusValue list \<Rightarrow> VolumeLister \<Rightarrow> VolumeLister" where
  "VolumeLister_StatusSelector statusList l = l\<lparr>vlStatusList := statusList\<rparr>"

definition VolumeLister_VolumeNameSelector :: "string list \<Rightarrow> VolumeLister \<Rightarrow> VolumeLister" where
  "VolumeLister_VolumeNameSelector volumeNames l = l\<lparr>vlVolumeNames := volumeNames\<rparr>"

definition VolumeLister_LabelSelector :: "(LabelKey \<times> LabelValue) list \<Rightarrow> VolumeLister \<Rightarrow> VolumeLister" where
  "VolumeLister_LabelSelector labels l = l\<lparr>vlLabels := labels\<rparr>"

definition VolumeLister_MaxObjects :: "int \<Rightarrow> VolumeLister \<Rightarrow> VolumeLister" where
  "VolumeLister_MaxObjects n l = l\<lparr>vlMaxObjects := n\<rparr>"

definition VolumeLister_IgnoreNotFound :: "bool \<Rightarrow> VolumeLister \<Rightarrow> VolumeLister" where
  "VolumeLister_IgnoreNotFound b l = l\<lparr>vlIgnoreNotFound := b\<rparr>"

definition volume_sel :: "VolumeStatusValue list \<Rightarrow> bool \<Rightarrow> string list \<Rightarrow> Volume \<Rightarrow> bool" where
  "volume_sel statusList found names item \<longleftrightarrow>
     found \<or> statusList = [] \<or> utils_Contains statusList (vStatus (volumeStatus item))"

definition volume_selector :: "VolumeLister \<Rightarrow> string" where
  "volume_selector l =
     ToLabelSelector
       (fold (\<lambda>(k, v). assign_key k [v]) (vlLabels l)
          [(NodeLabelKey, vlNodes l), (DriveNameLabelKey, vlDriveNames l),
           (DriveLabelKey, vlDriveIDs l), (PodNameLabelKey, vlPodNames l),
           (PodNSLabelKey, vlPodNSs l)])"

definition VolumeLister_List ::
  "('w, 'b) client_scheme \<Rightarrow> VolumeLister \<Rightarrow> (Volume, 's, 'w) consumer \<Rightarrow> 's \<Rightarrow> 'w \<Rightarrow> 's \<times> 'w" where
  "VolumeLister_List C l k =
     (let getOnly = (vlNodes l = [] \<and> vlDriveNames l = [] \<and> vlDriveIDs l = [] \<and>
                     vlPodNames l = [] \<and> vlPodNSs l = [] \<and> vlStatusList l = [] \<and>
                     vlLabels l = [] \<and> vlVolumeNames l \<noteq> [])
      in run_lister (pageFuel C) (VolumeClient C) getOnly (vlIgnoreNotFound l)
           (volume_sel (vlStatusList l)) k
           \<lparr> Limit = vlMaxObjects l, LabelSelector = volume_selector l, Continue = [] \<rparr>
           (vlVolumeNames l))"

definition VolumeLister_Get ::
  "('w, 'b) client_scheme \<Rightarrow> VolumeLister \<Rightarrow> 'w \<Rightarrow> (Volume list \<times> error option) \<times> 'w" where
  "VolumeLister_Get C l w = VolumeLister_List C l collect ([], None) w"

section \<open>Nodes and init requests\<close>

record NodeLister =
  nlNodes :: "LabelValue list"
  nlNodeNames :: "string list"
  nlMaxObjects :: int
  nlIgnoreNotFound :: bool

definition NewNodeLister :: NodeLister where
  "NewNodeLister =
     \<lparr> nlNodes = [], nlNodeNames = [], nlMaxObjects = MaxThreadCount, nlIgnoreNotFound = False \<rparr>"

definition NodeLister_NodeSelector :: "LabelValue list \<Rightarrow> NodeLister \<Rightarrow> NodeLister" where
  "NodeLister_NodeSelector nodes l = l\<lparr>nlNodes := nodes\<rparr>"

definition NodeLister_NodeNameSelector :: "string list \<Rightarrow> NodeLister \<Rightarrow> NodeLister" where
  "NodeLister_NodeNameSelector nodeNames l = l\<lparr>nlNodeNames := nodeNames\<rparr>"

definition NodeLister_MaxObjects :: "int \<Rightarrow> NodeLister \<Rightarrow> NodeLister" where
  "NodeLister_MaxObjects n l = l\<lparr>nlMaxObjects := n\<rparr>"

definition NodeLister_IgnoreNotFound :: "bool \<Rightarrow> NodeLister \<Rightarrow> NodeLister" where
  "NodeLister_IgnoreNotFound b l = l\<lparr>nlIgnoreNotFound := b\<rparr>"

definition name_sel :: "bool \<Rightarrow> string list \<Rightarrow> 'o \<Rightarrow> bool" where
  "name_sel found names item \<longleftrightarrow> names = [] \<or> found"

text \<open>These two listers return every error, whatever \<^verbatim>\<open>ignoreNotFound\<close> says.\<close>

definition NodeLister_List ::
  "('w, 'b) client_scheme \<Rightarrow> NodeLister \<Rightarrow> (NodeObj, 's, 'w) consumer \<Rightarrow> 's \<Rightarrow> 'w \<Rightarrow> 's \<times> 'w" where
  "NodeLister_List C l k =
     run_lister (pageFuel C) (NodeClient C) (nlNodes l = [] \<and> nlNodeNames l \<noteq> []) False name_sel k
       \<lparr> Limit = nlMaxObjects l, LabelSelector = ToLabelSelector [(NodeLabelKey, nlNodes l)],
         Continue = [] \<rparr>
       (nlNodeNames l)"

definition NodeLister_Get ::
  "('w, 'b) client_scheme \<Rightarrow> NodeLister \<Rightarrow> 'w \<Rightarrow> (NodeObj list \<times> error option) \<times> 'w" where
  "NodeLister_Get C l w = NodeLister_List C l collect ([], None) w"

record InitRequestLister =
  ilNodes :: "LabelValue list"
  ilRequestIDs :: "LabelValue list"
  ilNames :: "string list"
  ilMaxObjects :: int
  ilIgnoreNotFound :: bool

definition NewInitRequestLister :: InitRequestLister where
  "NewInitRequestLister =
     \<lparr> ilNodes = [], ilRequestIDs = [], ilNames = [], ilMaxObjects = MaxThreadCount,
       ilIgnoreNotFound = False \<rparr>"

definition InitRequestLister_NodeSelector :: "LabelValue list \<Rightarrow> InitRequestLister \<Rightarrow> InitRequestLister" where
  "InitRequestLister_NodeSelector nodes l = l\<lparr>ilNodes := nodes\<rparr>"

definition InitRequestLister_RequestIDSelector :: "LabelValue list \<Rightarrow> InitRequestLister \<Rightarrow> InitRequestLister" where
  "InitRequestLister_RequestIDSelector requestIDs l = l\<lparr>ilRequestIDs := requestIDs\<rparr>"

definition InitRequestNameSelector :: "string list \<Rightarrow> InitRequestLister \<Rightarrow> InitRequestLister" where
  "InitRequestNameSelector names l = l\<lparr>ilNames := names\<rparr>"

definition InitRequestLister_MaxObjects :: "int \<Rightarrow> InitRequestLister \<Rightarrow> InitRequestLister" where
  "InitRequestLister_MaxObjects n l = l\<lparr>ilMaxObjects := n\<rparr>"

definition InitRequestLister_IgnoreNotFound :: "bool \<Rightarrow> InitRequestLister \<Rightarrow> InitRequestLister" where
  "InitRequestLister_IgnoreNotFound b l = l\<lparr>ilIgnoreNotFound := b\<rparr>"

definition InitRequestLister_List ::
  "('w, 'b) client_scheme \<Rightarrow> InitRequestLister \<Rightarrow> (InitRequest, 's, 'w) consumer \<Rightarrow> 's \<Rightarrow> 'w \<Rightarrow> 's \<times> 'w" where
  "InitRequestLister_List C l k =
     run_lister (pageFuel C) (InitRequestClient C)
       (ilNodes l = [] \<and> ilRequestIDs l = [] \<and> ilNames l \<noteq> []) False name_sel k
       \<lparr> Limit = ilMaxObjects l,
         LabelSelector = ToLabelSelector [(NodeLabelKey, ilNodes l), (RequestIDLabelKey, ilRequestIDs l)],
         Continue = [] \<rparr>
       (ilNames l)"

definition InitRequestLister_Get ::
  "('w, 'b) client_scheme \<Rightarrow> InitRequestLister \<Rightarrow> 'w \<Rightarrow> (InitRequest list \<times> error option) \<times> 'w" where
  "InitRequestLister_Get C l w = InitRequestLister_List C l collect ([], None) w"

section \<open>What a lister sends\<close>

text \<open>The state of a receiver after a sequence of results.\<close>

fun feed :: "('r \<Rightarrow> 's \<Rightarrow> bool \<times> 's) \<Rightarrow> 'r list \<Rightarrow> 's \<Rightarrow> bool \<times> 's" where
  "feed step [] s = (True, s)"
| "feed step (r # rs) s = (case step r s of (True, s') \<Rightarrow> feed step rs s' | (False, s') \<Rightarrow> (False, s'))"

lemma feed_append:
  "feed step (rs @ rs') s = (case feed step rs s of (True, s') \<Rightarrow> feed step rs' s' | (False, s') \<Rightarrow> (False, s'))"
  by (induction step rs s rule: feed.induct) (auto split: prod.splits bool.splits)

lemma feed_collect: "feed collect_step (map Inr xs) (ys, None) = (True, ys @ xs, None)"
  by (induction xs arbitrary: ys) (auto simp: collect_step_def)

text \<open>The items of a listing that pass the selection, and the names left over.\<close>

fun selected ::
  "(bool \<Rightarrow> string list \<Rightarrow> 'a ObjectMeta_scheme \<Rightarrow> bool) \<Rightarrow> string list \<Rightarrow> 'a ObjectMeta_scheme list \<Rightarrow>
   'a ObjectMeta_scheme list" where
  "selected sel names [] = []"
| "selected sel names (x # xs) =
     (let (found, names') = take_name names (objName x)
      in if sel found names' x then x # selected sel names' xs else selected sel names' xs)"

definition leftover :: "string list \<Rightarrow> 'a ObjectMeta_scheme list \<Rightarrow> string list" where
  "leftover names items = filter (\<lambda>n. n \<notin> objName ` set items) names"

lemma leftover_Nil [simp]: "leftover names [] = names"
  by (simp add: leftover_def)

lemma leftover_Cons: "leftover names (x # xs) = leftover (snd (take_name names (objName x))) xs"
  by (auto simp: leftover_def take_name_def intro: filter_cong)

lemma leftover_append: "leftover names (xs @ ys) = leftover (leftover names xs) ys"
  by (auto simp: leftover_def intro: filter_cong)

lemma selected_append: "selected sel names (xs @ ys) = selected sel names xs @ selected sel (leftover names xs) ys"
  by (induction xs arbitrary: names) (auto simp: leftover_Cons take_name_def Let_def)

lemma send_items_receive:
  "feed step (map Inr (selected sel names items)) s = (b, s') \<Longrightarrow>
     \<exists>ns. send_items sel (receive step) items names s w = (b, ns, s', w) \<and> (b \<longrightarrow> ns = leftover names items)"
proof (induction items arbitrary: names s)
  case (Cons x xs)
  obtain found names' where t: "take_name names (objName x) = (found, names')" by fastforce
  show ?case
  proof (cases "sel found names' x")
    case True
    then obtain b1 s1 where st: "step (Inr x) s = (b1, s1)" by fastforce
    show ?thesis
      using Cons True t st by (cases b1) (auto simp: receive_def leftover_Cons)
  qed (use Cons t in \<open>auto simp: leftover_Cons\<close>)
qed auto

text \<open>The documented paging of the server: requests with the continue token of the previous
  page, until a page has none. \<open>n\<close> counts the pages.\<close>

inductive paged ::
  "('w, 'o) api \<Rightarrow> nat \<Rightarrow> ListOptions \<Rightarrow> 'w \<Rightarrow> 'o list \<Rightarrow> 'w \<Rightarrow> bool" for A where
  last: "api_List A opts w = (Inr (items, []), w') \<Longrightarrow> paged A 1 opts w items w'"
| more: "api_List A opts w = (Inr (items, cont), w1) \<Longrightarrow> cont \<noteq> [] \<Longrightarrow>
         paged A n (opts\<lparr>Continue := cont\<rparr>) w1 rest w' \<Longrightarrow> paged A (Suc n) opts w (items @ rest) w'"

lemma list_pages_paged:
  "paged A n opts w items w' \<Longrightarrow> n \<le> fuel \<Longrightarrow>
   feed step (map Inr (selected sel names items)) s = (b, s') \<Longrightarrow>
   \<exists>ns w2. list_pages fuel A ign sel (receive step) opts names s w = (b, ns, s', w2) \<and>
          (b \<longrightarrow> ns = leftover names items \<and> w2 = w')"
proof (induction arbitrary: fuel names s rule: paged.induct)
  case (last opts w items w')
  then obtain f where "fuel = Suc f" by (cases fuel) auto
  moreover obtain ns where "send_items sel (receive step) items names s w' = (b, ns, s', w')"
      "b \<longrightarrow> ns = leftover names items"
    using send_items_receive [where w = w', OF last(3)] by (elim exE conjE) (rule that)
  ultimately show ?case
    using last(1) by (cases b) simp_all
next
  case (more opts w items cont w1 n rest w')
  then obtain f where f: "fuel = Suc f" "n \<le> f" by (cases fuel) auto
  obtain b1 s1 where b1: "feed step (map Inr (selected sel names items)) s = (b1, s1)" by fastforce
  obtain ns where ns: "send_items sel (receive step) items names s w1 = (b1, ns, s1, w1)"
      "b1 \<longrightarrow> ns = leftover names items"
    using send_items_receive [where w = w1, OF b1] by (elim exE conjE) (rule that)
  show ?case
  proof (cases b1)
    case True
    then have "feed step (map Inr (selected sel (leftover names items) rest)) s1 = (b, s')"
      using more.prems(2) b1 by (simp add: selected_append feed_append)
    from more.IH [OF f(2) this] show ?thesis
      using more.hyps(1,2) ns True f(1) by (auto simp: leftover_append)
  next
    case False
    then have "(b, s') = (False, s1)" using more.prems(2) b1 by (simp add: selected_append feed_append)
    then show ?thesis using more.hyps(1) ns False f(1) by auto
  qed
qed

inductive fetched :: "('w, 'o) api \<Rightarrow> string list \<Rightarrow> 'w \<Rightarrow> 'o list \<Rightarrow> 'w \<Rightarrow> bool" for A where
  none: "fetched A [] w [] w"
| fetch: "api_Get A n w = (Inr x, w1) \<Longrightarrow> fetched A ns w1 xs w' \<Longrightarrow> fetched A (n # ns) w (x # xs) w'"

lemma get_names_fetched:
  "fetched A names w xs w' \<Longrightarrow> feed step (map Inr xs) s = (True, s') \<Longrightarrow>
     get_names A ign (receive step) names s w = (s', w')"
  by (induction arbitrary: s rule: fetched.induct)
    (auto simp: receive_def split: prod.splits bool.splits)

lemma run_lister_complete:
  assumes "paged A n opts w items w1" and "n \<le> fuel" and "fetched A (leftover names items) w1 xs w2"
  shows "run_lister fuel A False ign sel collect opts names ([], None) w =
           ((selected sel names items @ xs, None), w2)"
proof -
  have "feed collect_step (map Inr (selected sel names items)) ([], None) = (True, selected sel names items, None)"
    by (simp add: feed_collect)
  from list_pages_paged [OF assms(1,2) this, of ign]
  have "list_pages fuel A ign sel collect opts names ([], None) w =
          (True, leftover names items, (selected sel names items, None), w1)"
    by auto
  moreover have "get_names A ign collect (leftover names items) (selected sel names items, None) w1 =
      ((selected sel names items @ xs, None), w2)"
    by (rule get_names_fetched [OF assms(3)]) (simp add: feed_collect)
  ultimately show ?thesis by (simp add: run_lister_def)
qed

lemma selected_always: "(\<And>f ns x. sel f ns x) \<Longrightarrow> selected sel names xs = xs"
  by (induction xs arbitrary: names) (auto simp: take_name_def)

lemma selected_found:
  assumes "\<And>f ns x. sel f ns x \<longleftrightarrow> f \<or> P x" and "distinct (map objName xs)"
  shows "selected sel names xs = filter (\<lambda>x. objName x \<in> set names \<or> P x) xs"
  using assms(2)
proof (induction xs arbitrary: names)
  case (Cons x xs)
  then have "selected sel (filter (\<lambda>m. m \<noteq> objName x) names) xs =
      filter (\<lambda>y. objName y \<in> set names \<and> objName y \<noteq> objName x \<or> P y) xs"
    by simp
  also have "\<dots> = filter (\<lambda>y. objName y \<in> set names \<or> P y) xs"
    using Cons.prems by (intro filter_cong) (auto simp: image_iff)
  finally show ?case
    using assms(1) [of "objName x \<in> set names" "filter (\<lambda>m. m \<noteq> objName x) names" x]
    by (simp add: take_name_def)
qed simp

section \<open>What a lister keeps\<close>

text \<open>A receiver without effects: the objects it sees are stored ones, and nothing changes.\<close>

context object_api
begin

lemma send_items_rule:
  assumes "\<And>r s. Q s \<Longrightarrow> (\<And>x. r = Inr x \<Longrightarrow> \<sigma> (objName x) = Some x) \<Longrightarrow> Q (snd (step r s))"
    and "\<And>x. x \<in> set items \<Longrightarrow> \<sigma> (objName x) = Some x" and "Q s"
  shows "Q (fst (snd (snd (send_items sel (receive step) items names s w)))) \<and>
         snd (snd (snd (send_items sel (receive step) items names s w))) = w"
  using assms(2,3)
proof (induction items arbitrary: names s)
  case (Cons x xs)
  obtain found names' where t: "take_name names (objName x) = (found, names')" by fastforce
  obtain b s1 where st: "step (Inr x) s = (b, s1)" by fastforce
  have q: "Q s1" using assms(1) [OF Cons.prems(2), of "Inr x"] Cons.prems(1) st by simp
  show ?case
    using t st q Cons by (cases b) (auto simp: receive_def)
qed simp

lemma list_pages_rule:
  assumes step: "\<And>r s. Q s \<Longrightarrow> (\<And>x. r = Inr x \<Longrightarrow> \<sigma> (objName x) = Some x) \<Longrightarrow> Q (snd (step r s))"
    and "Q s" and "store w = \<sigma>"
    and "list_pages fuel A ign sel (receive step) opts names s w = (b, ns, s', w')"
  shows "Q s' \<and> store w' = \<sigma>"
  using assms(2-4)
proof (induction fuel arbitrary: opts names s w)
  case 0
  then show ?case using step [of s "Inl OutOfFuel"] by (auto simp: receive_def split: prod.splits)
next
  case (Suc fuel)
  show ?case
  proof (cases "api_List A opts w")
    case (Pair r w1)
    then have st: "store w1 = \<sigma>" using Suc.prems(2) list_frame by metis
    show ?thesis
    proof (cases r)
      case (Inl e)
      then show ?thesis
        using Suc.prems Pair st step [of s "Inl e"]
        by (auto simp: receive_def split: prod.splits if_splits)
    next
      case (Inr ic)
      obtain items cont where ic: "ic = (items, cont)" by fastforce
      have items: "x \<in> set items \<Longrightarrow> \<sigma> (objName x) = Some x" for x
        using list_sound Pair Inr ic Suc.prems(2) by blast
      obtain b1 ns1 s1 w2 where si: "send_items sel (receive step) items names s w1 = (b1, ns1, s1, w2)"
        by (metis prod_cases4)
      then have "Q s1" "w2 = w1"
        using send_items_rule [where Q = Q and step = step and items = items and sel = sel and names = names and w = w1,
            OF step items Suc.prems(1)] by simp_all
      then show ?thesis
        using Suc.IH [of s1 w1] Suc.prems(3) Pair Inr ic si st
        by (auto split: if_splits bool.splits)
    qed
  qed
qed

lemma get_names_rule:
  assumes step: "\<And>r s. Q s \<Longrightarrow> (\<And>x. r = Inr x \<Longrightarrow> \<sigma> (objName x) = Some x) \<Longrightarrow> Q (snd (step r s))"
    and "Q s" and "store w = \<sigma>"
    and "get_names A ign (receive step) names s w = (s', w')"
  shows "Q s' \<and> store w' = \<sigma>"
  using assms(2-4)
proof (induction names arbitrary: s w)
  case (Cons n names)
  show ?case
  proof (cases "api_Get A n w")
    case (Pair r w1)
    then have st: "store w1 = \<sigma>" using Cons.prems(2) get_frame by metis
    show ?thesis
    proof (cases r)
      case (Inl e)
      then show ?thesis
        using Cons Pair st step [of s "Inl e"]
        by (auto simp: receive_def split: prod.splits if_splits)
    next
      case (Inr x)
      obtain b s1 where b: "step (Inr x) s = (b, s1)" by fastforce
      have "\<sigma> (objName x) = Some x"
        using get_found get_name Pair Inr Cons.prems(2) by blast
      then have "Q s1" using step [OF Cons.prems(1), of "Inr x"] b by simp
      then show ?thesis
        using Cons.IH [of s1 w1] Cons.prems(3) Pair Inr b st
        by (auto simp: receive_def split: bool.splits)
    qed
  qed
qed simp

lemma run_lister_rule:
  assumes step: "\<And>r s. Q s \<Longrightarrow> (\<And>x. r = Inr x \<Longrightarrow> store w (objName x) = Some x) \<Longrightarrow> Q (snd (step r s))"
    and "Q s" and "run_lister fuel A getOnly ign sel (receive step) opts names s w = (s', w')"
  shows "Q s' \<and> store w' = store w"
proof (cases getOnly)
  case True
  then show ?thesis
    using get_names_rule [where Q = Q and step = step and \<sigma> = "store w", OF step assms(2) refl] assms(3)
    unfolding run_lister_def by simp
next
  case False
  obtain b ns s1 w1 where lp: "list_pages fuel A ign sel (receive step) opts names s w = (b, ns, s1, w1)"
    by (metis prod_cases4)
  then have "Q s1" "store w1 = store w"
    using list_pages_rule [where Q = Q and step = step and \<sigma> = "store w", OF step assms(2) refl lp] by simp_all
  note q = this
  show ?thesis
  proof (cases b)
    case True
    then have "get_names A ign (receive step) ns s1 w1 = (s', w')"
      using assms(3) False lp by (simp add: run_lister_def)
    from get_names_rule [where Q = Q and step = step and \<sigma> = "store w", OF step q this] show ?thesis
      by simp
  qed (use assms(3) False lp q in \<open>simp add: run_lister_def\<close>)
qed

end

text \<open>The rest of the world is left alone, as far as the requests do.\<close>

lemma send_items_world: "snd (snd (snd (send_items sel (receive step) items names s w))) = w"
  by (induction items arbitrary: names s) (auto simp: receive_def Let_def split: prod.splits bool.splits)

lemma list_pages_frame:
  assumes F: "\<And>w w'. api_step A w w' \<Longrightarrow> F w' = F w"
  shows "F (snd (snd (snd (list_pages fuel A ign sel (receive step) opts names s w)))) = F w"
proof (induction fuel arbitrary: opts names s w)
  case 0
  then show ?case by (simp add: receive_def split: prod.splits)
next
  case (Suc fuel)
  obtain r w1 where l: "api_List A opts w = (r, w1)" by fastforce
  then have f: "F w1 = F w" by (metis F api_stepI(5))
  show ?case
  proof (cases r)
    case (Inl e)
    then show ?thesis using l f by (simp add: receive_def split: prod.splits)
  next
    case (Inr ic)
    obtain items cont where ic: "ic = (items, cont)" by fastforce
    obtain b ns s1 w2 where si: "send_items sel (receive step) items names s w1 = (b, ns, s1, w2)"
      by (metis prod_cases4)
    then have "w2 = w1" using send_items_world [of sel step items names s w1] by simp
    then show ?thesis using l f Inr ic si Suc.IH by (cases b) simp_all
  qed
qed

lemma get_names_frame:
  assumes F: "\<And>w w'. api_step A w w' \<Longrightarrow> F w' = F w"
  shows "F (snd (get_names A ign (receive step) names s w)) = F w"
proof (induction names arbitrary: s w)
  case (Cons n names)
  obtain r w1 where g: "api_Get A n w = (r, w1)" by fastforce
  then have f: "F w1 = F w" by (metis F api_stepI(1))
  show ?case
    using g f Cons.IH by (cases r) (auto simp: receive_def split: prod.splits bool.splits)
qed simp

lemma run_lister_frame:
  assumes F: "\<And>w w'. api_step A w w' \<Longrightarrow> F w' = F w"
    and "run_lister fuel A getOnly ign sel (receive step) opts names s w = (s', w')"
  shows "F w' = F w"
proof (cases getOnly)
  case True
  then show ?thesis
    using get_names_frame [of A F ign step names s w] F assms(2) by (simp add: run_lister_def)
next
  case False
  obtain b ns s1 w1 where lp: "list_pages fuel A ign sel (receive step) opts names s w = (b, ns, s1, w1)"
    by (metis prod_cases4)
  then have "F w1 = F w"
    using list_pages_frame [of A F fuel ign sel step opts names s w] F by simp
  then show ?thesis
    using get_names_frame [of A F ign step ns s1 w1] F assms(2) lp False
    by (cases b) (simp_all add: run_lister_def)
qed

section \<open>The listers return what was asked for\<close>

definition drive_options :: "DriveLister \<Rightarrow> ListOptions" where
  "drive_options l = \<lparr> Limit = dlMaxObjects l, LabelSelector = drive_selector l, Continue = [] \<rparr>"

lemma DriveLister_Get_paged:
  assumes "paged (DriveClient C) n (drive_options l) w items w1" and "n \<le> pageFuel C"
    and "fetched (DriveClient C) (leftover (dlDriveIDs l) items) w1 xs w2"
    and "dlNodes l \<noteq> [] \<or> dlDriveNames l \<noteq> [] \<or> dlAccessTiers l \<noteq> [] \<or> dlStatusList l \<noteq> [] \<or>
         dlLabels l \<noteq> [] \<or> dlDriveIDs l = []"
  shows "DriveLister_Get C l w = ((selected (drive_sel (dlStatusList l)) (dlDriveIDs l) items @ xs, None), w2)"
proof -
  have "\<not> (dlNodes l = [] \<and> dlDriveNames l = [] \<and> dlAccessTiers l = [] \<and> dlStatusList l = [] \<and>
      dlLabels l = [] \<and> dlDriveIDs l \<noteq> [])"
    using assms(4) by blast
  then show ?thesis
    using run_lister_complete [OF assms(1-3)]
    by (simp only: DriveLister_Get_def DriveLister_List_def Let_def drive_options_def if_False simp_thms)
qed

text \<open>
  A drive lister is complete. With at most \<open>pageFuel\<close> pages, all requests answered and
  drive names unique in the listing, \<^verbatim>\<open>Get\<close> returns, in the order of the pages, every
  listed drive that has one of the requested statuses (any status if none is requested) or one of
  the requested IDs, and after them the requested drives that no page held.
\<close>

theorem DriveLister_Get_complete:
  assumes "paged (DriveClient C) n (drive_options l) w items w1" and "n \<le> pageFuel C"
    and "distinct (map objName items)"
    and "fetched (DriveClient C) (leftover (dlDriveIDs l) items) w1 xs w2"
    and "dlNodes l \<noteq> [] \<or> dlDriveNames l \<noteq> [] \<or> dlAccessTiers l \<noteq> [] \<or> dlStatusList l \<noteq> [] \<or>
         dlLabels l \<noteq> [] \<or> dlDriveIDs l = []"
  shows "DriveLister_Get C l w =
           ((filter (\<lambda>d. objName d \<in> set (dlDriveIDs l) \<or> dlStatusList l = [] \<or>
                          dStatus (driveStatus d) \<in> set (dlStatusList l)) items @ xs, None), w2)"
proof -
  have "selected (drive_sel (dlStatusList l)) (dlDriveIDs l) items =
      filter (\<lambda>d. objName d \<in> set (dlDriveIDs l) \<or> dlStatusList l = [] \<or>
                  dStatus (driveStatus d) \<in> set (dlStatusList l)) items"
    by (rule selected_found) (simp_all add: drive_sel_def assms(3))
  then show ?thesis using DriveLister_Get_paged [OF assms(1,2,4,5)] by simp
qed

definition sample_world :: world where
  "sample_world =
     \<lparr> wDrives = [sample_drive,
                  sample_drive\<lparr>objName := ''drive-2'', driveStatus := (driveStatus sample_drive)\<lparr>dStatus := DriveStatusError\<rparr>\<rparr>],
       wVolumes = [], wNodes = [], wInitRequests = [] \<rparr>"

lemma store_paged:
  "distinct (map objName (objs w)) \<Longrightarrow> paged (store_api objs put) 1 opts w (objs w) w"
  by (rule paged.last) (simp add: store_api_def first_objs_distinct)

lemma sample_paged: "paged (DriveClient store_client) 1 opts sample_world (wDrives sample_world) sample_world"
  using store_paged [of wDrives sample_world]
  by (simp add: store_client_def sample_world_def sample_drive_def NewDirectPVDrive_def)

theorem DriveLister_Get_complete_witness:
  "DriveLister_Get store_client
     (DriveLister_StatusSelector [DriveStatusReady] (DriveLister_DriveIDSelector [''drive-2''] NewDriveLister))
     sample_world = ((wDrives sample_world, None), sample_world)"
proof -
  let ?l = "DriveLister_StatusSelector [DriveStatusReady] (DriveLister_DriveIDSelector [''drive-2''] NewDriveLister)"
  have "fetched (DriveClient store_client) (leftover (dlDriveIDs ?l) (wDrives sample_world)) sample_world [] sample_world"
    by (simp add: leftover_def sample_world_def DriveLister_StatusSelector_def
        DriveLister_DriveIDSelector_def NewDriveLister_def fetched.none)
  from DriveLister_Get_complete [OF sample_paged _ _ this] show ?thesis
    by (simp add: store_client_def sample_world_def DriveLister_StatusSelector_def
        DriveLister_DriveIDSelector_def NewDriveLister_def sample_drive_def NewDirectPVDrive_def)
qed

end
