(* ===== verification/Utils.thy ===== *)
theory Utils
  imports Objects
begin

text \<open>
  The string sets and device name helpers of \<^verbatim>\<open>pkg/utils/utils.go\<close>, and the fields
  of a line as \<^verbatim>\<open>strings.Fields\<close> splits them. A \<^verbatim>\<open>StringSet\<close> is the
  list of its elements in iteration order.
\<close>

section \<open>Device names\<close>

definition TrimDevPrefix :: "string \<Rightarrow> string" where
  "TrimDevPrefix name = TrimPrefix name ''/dev/''"

definition AddDevPrefix :: "string \<Rightarrow> string" where
  "AddDevPrefix name = (if HasPrefix name ''/dev/'' then name else ''/dev/'' @ name)"

lemma TrimDevPrefix_AddDevPrefix: "TrimDevPrefix (AddDevPrefix name) = TrimDevPrefix name"
  by (auto simp: TrimDevPrefix_def AddDevPrefix_def TrimPrefix_def HasPrefix_def)

definition lower_hex :: "char \<Rightarrow> bool" where
  "lower_hex c = (c \<in> set ''0123456789abcdef'')"

definition IsUUID :: "string \<Rightarrow> bool" where
  "IsUUID s =
     (length s = 36 \<and>
      list_all (\<lambda>i. if i \<in> {8, 13, 18, 23} then s ! i = CHR ''-'' else lower_hex (s ! i)) [0 ..< 36])"

section \<open>String sets\<close>

type_synonym StringSet = "string list"

definition StringSet_Set :: "string \<Rightarrow> StringSet \<Rightarrow> StringSet" where
  "StringSet_Set value s = (if value \<in> set s then s else s @ [value])"

definition StringSet_Exist :: "StringSet \<Rightarrow> string \<Rightarrow> bool" where
  "StringSet_Exist s value = (value \<in> set s)"

definition StringSet_ToSlice :: "StringSet \<Rightarrow> string list" where
  "StringSet_ToSlice s = s"

definition StringSet_Equal :: "StringSet \<Rightarrow> StringSet \<Rightarrow> bool" where
  "StringSet_Equal s s2 =
     (if length s \<noteq> length s2 then False else list_all (\<lambda>value. StringSet_Exist s2 value) s)"

definition StringSet_IsEmpty :: "StringSet \<Rightarrow> bool" where
  "StringSet_IsEmpty s = (length s = 0)"

text \<open>The interface its callers use, and that the element lists implement it.\<close>

locale string_set =
  fixes elems :: "'s \<Rightarrow> string set"
    and add :: "string \<Rightarrow> 's \<Rightarrow> 's"
    and exist :: "'s \<Rightarrow> string \<Rightarrow> bool"
    and eq :: "'s \<Rightarrow> 's \<Rightarrow> bool"
    and is_empty :: "'s \<Rightarrow> bool"
    and empty :: 's
    and invar :: "'s \<Rightarrow> bool"
  assumes elems_empty: "elems empty = {}" and invar_empty: "invar empty"
    and elems_add: "elems (add v s) = insert v (elems s)" and invar_add: "invar s \<Longrightarrow> invar (add v s)"
    and exist_iff: "exist s v \<longleftrightarrow> v \<in> elems s"
    and eq_iff: "invar s \<Longrightarrow> invar t \<Longrightarrow> eq s t \<longleftrightarrow> elems s = elems t"
    and is_empty_iff: "is_empty s \<longleftrightarrow> elems s = {}"
begin

lemma fold_add: "elems (fold (\<lambda>x. add (f x)) xs s) = elems s \<union> f ` set xs"
  by (induction xs arbitrary: s) (auto simp: elems_add)

lemma invar_fold_add: "invar s \<Longrightarrow> invar (fold (\<lambda>x. add (f x)) xs s)"
  by (induction xs arbitrary: s) (auto simp: invar_add)

end

lemma distinct_set_eq:
  assumes "distinct s" and "distinct t"
  shows "length s = length t \<and> set s \<subseteq> set t \<longleftrightarrow> set s = set t"
  using assms by (metis card_subset_eq distinct_card order_refl List.finite_set)

interpretation go_set: string_set set StringSet_Set StringSet_Exist StringSet_Equal StringSet_IsEmpty "[]" distinct
proof (unfold_locales, goal_cases)
  case (6 s t)
  then show ?case
    using distinct_set_eq [of s t]
    by (auto simp: StringSet_Equal_def StringSet_Exist_def list_all_iff subset_iff)
qed (auto simp: StringSet_Set_def StringSet_Exist_def StringSet_IsEmpty_def)

section \<open>Fields of a line\<close>

text \<open>\<^verbatim>\<open>unicode.IsSpace\<close>.\<close>

definition IsSpace :: "rune \<Rightarrow> bool" where
  "IsSpace r =
     (if r \<le> 255 then (9 \<le> r \<and> r \<le> 13) \<or> r = 32 \<or> r = 133 \<or> r = 160
      else r = 5760 \<or> (8192 \<le> r \<and> r \<le> 8202) \<or> r = 8232 \<or> r = 8233 \<or> r = 8239 \<or> r = 8287 \<or> r = 12288)"

function fields_from :: "string \<Rightarrow> string \<Rightarrow> string list" where
  "fields_from cur s =
     (if s = [] then (if cur = [] then [] else [cur])
      else if IsSpace (fst (decode_rune s)) then
        (if cur = [] then fields_from [] (drop (snd (decode_rune s)) s)
         else cur # fields_from [] (drop (snd (decode_rune s)) s))
      else fields_from (cur @ take (snd (decode_rune s)) s) (drop (snd (decode_rune s)) s))"
  by pat_completeness auto
termination
proof (relation "measure (\<lambda>(cur, s). length s)")
  fix cur s :: string
  assume "s \<noteq> []"
  then show "(([], drop (snd (decode_rune s)) s), cur, s) \<in> measure (\<lambda>(cur, s). length s)"
      "(([], drop (snd (decode_rune s)) s), cur, s) \<in> measure (\<lambda>(cur, s). length s)"
      "((cur @ take (snd (decode_rune s)) s, drop (snd (decode_rune s)) s), cur, s) \<in> measure (\<lambda>(cur, s). length s)"
    using decode_rune_width [of s] by simp_all
qed simp

declare fields_from.simps [simp del]

definition strings_Fields :: "string \<Rightarrow> string list" where
  "strings_Fields s = fields_from [] s"

text \<open>Words without blanks, joined by single blanks, are split into the words again.\<close>

definition word :: "string \<Rightarrow> bool" where
  "word s \<longleftrightarrow> s \<noteq> [] \<and> ascii s \<and> list_all (\<lambda>c. \<not> IsSpace (byte c)) s"

lemma decode_ascii: "byte c < 128 \<Longrightarrow> decode_rune (c # s) = (byte c, 1)"
  by (simp add: decode_rune_def)

lemma fields_word:
  "ascii u \<Longrightarrow> list_all (\<lambda>c. \<not> IsSpace (byte c)) u \<Longrightarrow> fields_from cur (u @ s) = fields_from (cur @ u) s"
proof (induction u arbitrary: cur)
  case (Cons c u)
  then have "fields_from cur ((c # u) @ s) = fields_from (cur @ [c]) (u @ s)"
    by (subst fields_from.simps) (simp add: ascii_def decode_ascii)
  then show ?case using Cons by (simp add: ascii_def)
qed simp

lemma fields_end: "cur \<noteq> [] \<Longrightarrow> fields_from cur [] = [cur]"
  by (simp add: fields_from.simps)

lemma fields_blank: "cur \<noteq> [] \<Longrightarrow> byte c < 128 \<Longrightarrow> IsSpace (byte c) \<Longrightarrow>
    fields_from cur (c # s) = cur # fields_from [] s"
  by (subst fields_from.simps) (simp add: decode_ascii)


end
