(* ===== verification/Mounts.thy ===== *)
theory Mounts
  imports Utils "HOL-Library.Word"
begin

unbundle bit_operations_syntax

text \<open>
  The mount table, \<^verbatim>\<open>pkg/sys/mount.go\<close> and \<^verbatim>\<open>mount_linux.go\<close>: parsing
  of \<^verbatim>\<open>/proc/<pid>/mountinfo\<close>, the table indexed by mount point, mount source,
  device number and root, its filters, and the flags of mount and unmount.

  A table is a \<open>MountInfo\<close> record of one map and four index maps, as in the source. The
  interface \<open>mount_table\<close> says what a client may rely on: the table is a set of entries and a
  filter is the subset with the given field. It is interpreted on the indexed table, whose
  invariant \<open>mount_info_wf\<close> ties the indexes to the map.

  \<^verbatim>\<open>xxhash.Sum64String\<close> is the argument \<open>hash\<close>.
\<close>

section \<open>The table\<close>

record MountEntry =
  xxHash :: nat
  MountID :: string
  ParentID :: string
  MajorMinor :: string
  Root :: string
  MountPoint :: string
  MountOptions :: StringSet
  OptionalFields :: "string list"
  FilesystemType :: string
  MountSource :: string

record MountInfo =
  infoMap :: "(nat \<times> MountEntry) list"
  mountPointMap :: "string \<Rightarrow> nat list"
  mountSourceMap :: "string \<Rightarrow> nat list"
  majorMinorMap :: "string \<Rightarrow> nat list"
  rootMap :: "string \<Rightarrow> nat list"

definition empty_info :: MountInfo where
  "empty_info =
     \<lparr> infoMap = [], mountPointMap = (\<lambda>_. []), mountSourceMap = (\<lambda>_. []),
       majorMinorMap = (\<lambda>_. []), rootMap = (\<lambda>_. []) \<rparr>"

definition MountInfo_IsEmpty :: "MountInfo \<Rightarrow> bool" where
  "MountInfo_IsEmpty info = (length (infoMap info) = 0)"

definition MountInfo_Length :: "MountInfo \<Rightarrow> nat" where
  "MountInfo_Length info = length (infoMap info)"

definition MountInfo_List :: "MountInfo \<Rightarrow> MountEntry list" where
  "MountInfo_List info = map snd (infoMap info)"

text \<open>Entering a mount under a hash, in the map and the indexes.\<close>

definition push_hash :: "string \<Rightarrow> nat \<Rightarrow> (string \<Rightarrow> nat list) \<Rightarrow> string \<Rightarrow> nat list" where
  "push_hash k h m = m(k := m k @ [h])"

definition filter_step_info :: "MountInfo \<Rightarrow> nat \<Rightarrow> MountInfo \<Rightarrow> MountInfo" where
  "filter_step_info info h acc =
     (case map_of (infoMap info) h of
        None \<Rightarrow> acc
      | Some mount \<Rightarrow>
          \<lparr> infoMap = assign_key h mount (infoMap acc),
            mountPointMap = push_hash (MountPoint mount) (xxHash mount) (mountPointMap acc),
            mountSourceMap = push_hash (MountSource mount) h (mountSourceMap acc),
            majorMinorMap = push_hash (MajorMinor mount) (xxHash mount) (majorMinorMap acc),
            rootMap = push_hash (Root mount) (xxHash mount) (rootMap acc) \<rparr>)"

definition MountInfo_filter :: "MountInfo \<Rightarrow> nat list \<Rightarrow> MountInfo" where
  "MountInfo_filter info hashes = fold (filter_step_info info) hashes empty_info"

definition FilterByMountPoint :: "string \<Rightarrow> MountInfo \<Rightarrow> MountInfo" where
  "FilterByMountPoint value info = MountInfo_filter info (mountPointMap info value)"

definition FilterByMountSource :: "string \<Rightarrow> MountInfo \<Rightarrow> MountInfo" where
  "FilterByMountSource value info = MountInfo_filter info (mountSourceMap info value)"

definition FilterByMajorMinor :: "string \<Rightarrow> MountInfo \<Rightarrow> MountInfo" where
  "FilterByMajorMinor value info = MountInfo_filter info (majorMinorMap info value)"

definition FilterByRoot :: "string \<Rightarrow> MountInfo \<Rightarrow> MountInfo" where
  "FilterByRoot value info = MountInfo_filter info (rootMap info value)"

section \<open>Parsing\<close>

text \<open>\<open>parseMount\<close>: too few tokens give nil (\<open>None\<close>); an index beyond the tokens
  panics. \<^verbatim>\<open>strings.TrimSpace\<close> removes only what \<^verbatim>\<open>strings.Fields\<close>
  skips.\<close>

definition optional_fields :: "string list \<Rightarrow> string list" where
  "optional_fields tokens = takeWhile (\<lambda>t. t \<noteq> ''-'') (drop 6 tokens)"

definition set_options :: "string \<Rightarrow> StringSet \<Rightarrow> StringSet" where
  "set_options token s = fold StringSet_Set (strings_Split token '','') s"

definition parseMount :: "string \<Rightarrow> nat \<Rightarrow> MountEntry option result" where
  "parseMount s h =
     (let tokens = strings_Fields s
      in if length tokens < 8 then Inr None
         else
           let fields = optional_fields tokens;
               i = 6 + length fields
           in if length tokens \<le> i + 3 then Inl (Panic ''index out of range'')
              else Inr (Some
                \<lparr> xxHash = h, MountID = tokens ! 0, ParentID = tokens ! 1, MajorMinor = tokens ! 2,
                  Root = tokens ! 3, MountPoint = tokens ! 4,
                  MountOptions = set_options (tokens ! (i + 3)) (set_options (tokens ! 5) []),
                  OptionalFields = fields,
                  FilesystemType = tokens ! (i + 1), MountSource = tokens ! (i + 2) \<rparr>))"

text \<open>The terminated lines of a file; what follows the last newline is dropped with the
  end-of-file error that comes with it.\<close>

fun lines_from :: "string \<Rightarrow> string \<Rightarrow> string list" where
  "lines_from cur [] = []"
| "lines_from cur (c # cs) =
     (if c = CHR 0x0A then (cur @ [c]) # lines_from [] cs else lines_from (cur @ [c]) cs)"

definition add_mount :: "MountEntry \<Rightarrow> MountInfo \<Rightarrow> MountInfo" where
  "add_mount mount info =
     \<lparr> infoMap = assign_key (xxHash mount) mount (infoMap info),
       mountPointMap = push_hash (MountPoint mount) (xxHash mount) (mountPointMap info),
       mountSourceMap = push_hash (MountSource mount) (xxHash mount) (mountSourceMap info),
       majorMinorMap = push_hash (MajorMinor mount) (xxHash mount) (majorMinorMap info),
       rootMap = push_hash (Root mount) (xxHash mount) (rootMap info) \<rparr>"

fun parse_lines :: "(string \<Rightarrow> nat) \<Rightarrow> string list \<Rightarrow> MountInfo \<Rightarrow> MountInfo result" where
  "parse_lines hash [] info = Inr info"
| "parse_lines hash (s # ss) info =
     (if map_of (infoMap info) (hash s) \<noteq> None then parse_lines hash ss info
      else case parseMount s (hash s) of
             Inl e \<Rightarrow> Inl e
           | Inr None \<Rightarrow> parse_lines hash ss info
           | Inr (Some mount) \<Rightarrow> parse_lines hash ss (add_mount mount info))"

text \<open>A reader is the content it delivers, and the error that ends it unless it is the end of
  the file.\<close>

type_synonym reader = "string \<times> error option"

definition parseMountInfo :: "(string \<Rightarrow> nat) \<Rightarrow> reader \<Rightarrow> MountInfo option \<Rightarrow> MountInfo result" where
  "parseMountInfo hash r info =
     (let info0 = (case info of None \<Rightarrow> empty_info | Some i \<Rightarrow> i)
      in case parse_lines hash (lines_from [] (fst r)) info0 of
           Inl e \<Rightarrow> Inl e
         | Inr i \<Rightarrow> (case snd r of None \<Rightarrow> Inr i | Some e \<Rightarrow> Inl e))"

definition newMountInfo :: "(string \<Rightarrow> nat) \<Rightarrow> (string \<Rightarrow> ('w, reader) io) \<Rightarrow> ('w, MountInfo) io" where
  "newMountInfo hash os_Open w =
     call (os_Open ''/proc/self/mountinfo'' w)
       (\<lambda>e w. (Inl e, w))
       (\<lambda>file w.
          case parseMountInfo hash file None of
            Inl e \<Rightarrow> (Inl e, w)
          | Inr info \<Rightarrow>
              call (os_Open ''/proc/1/mountinfo'' w)
                (\<lambda>e w. (Inr info, w))
                (\<lambda>file w. (parseMountInfo hash file (Some info), w)))"

section \<open>Mount and unmount\<close>

definition mountFlagMap :: "string \<rightharpoonup> 64 word" where
  "mountFlagMap = map_of
     [(''remount'', 0x20), (''bind'', 0x1000), (''shared'', 0x100000), (''private'', 0x40000),
      (''slave'', 0x80000), (''unbindable'', 0x20000), (''move'', 0x2000), (''dirsync'', 0x80),
      (''mand'', 0x40), (''noatime'', 0x400), (''nodev'', 0x4), (''nodiratime'', 0x800),
      (''noexec'', 0x8), (''nosuid'', 0x2), (''ro'', 0x1), (''relatime'', 0x200000),
      (''recursive'', 0x4000), (''silent'', 0x8000), (''strictatime'', 0x1000000), (''sync'', 0x10)]"

definition mount_flag :: "string \<Rightarrow> 64 word" where
  "mount_flag k = (case mountFlagMap k of None \<Rightarrow> 0 | Some v \<Rightarrow> v)"

fun mount_flags :: "64 word \<Rightarrow> string list \<Rightarrow> 64 word result" where
  "mount_flags acc [] = Inr acc"
| "mount_flags acc (flag # flags) =
     (case mountFlagMap flag of
        None \<Rightarrow> Inl (ErrorString ''unknown flag'')
      | Some value \<Rightarrow> mount_flags (acc OR value) flags)"

definition sys_mount ::
  "('w, MountInfo) io \<Rightarrow> (string \<Rightarrow> string \<Rightarrow> string \<Rightarrow> 64 word \<Rightarrow> string \<Rightarrow> ('w, unit) io) \<Rightarrow>
   string \<Rightarrow> string \<Rightarrow> string \<Rightarrow> string list \<Rightarrow> string \<Rightarrow> ('w, unit) io" where
  "sys_mount getInfo syscall_Mount device target fsType flags superBlockFlags w =
     call (getInfo w)
       (\<lambda>e w. (Inl e, w))
       (\<lambda>mountInfo w.
          let info = FilterByMountPoint target mountInfo
          in if \<not> MountInfo_IsEmpty info then
               (if \<not> MountInfo_IsEmpty (FilterByMountSource device info) then (Inr (), w)
                else (Inl (ErrorString ''mount point already mounted''), w))
             else case mount_flags 0 flags of
                    Inl e \<Rightarrow> (Inl e, w)
                  | Inr mountFlags \<Rightarrow> syscall_Mount device target fsType mountFlags superBlockFlags w)"

definition sys_bindMount ::
  "(string \<Rightarrow> string \<Rightarrow> string \<Rightarrow> 64 word \<Rightarrow> string \<Rightarrow> ('w, unit) io) \<Rightarrow>
   string \<Rightarrow> string \<Rightarrow> string \<Rightarrow> bool \<Rightarrow> bool \<Rightarrow> string \<Rightarrow> ('w, unit) io" where
  "sys_bindMount syscall_Mount source target fsType recursive readOnly superBlockFlags =
     (let flags = mount_flag ''bind'';
          flags1 = (if recursive then flags OR mount_flag ''recursive'' else flags);
          flags2 = (if readOnly then flags1 OR mount_flag ''ro'' else flags1)
      in syscall_Mount source target fsType flags2 superBlockFlags)"

definition sys_unmount ::
  "('w, MountInfo) io \<Rightarrow> (string \<Rightarrow> 32 word \<Rightarrow> ('w, unit) io) \<Rightarrow>
   string \<Rightarrow> bool \<Rightarrow> bool \<Rightarrow> bool \<Rightarrow> ('w, unit) io" where
  "sys_unmount getInfo syscall_Unmount target force detach expire w =
     call (getInfo w)
       (\<lambda>e w. (Inl e, w))
       (\<lambda>mountInfo w.
          if MountInfo_IsEmpty (FilterByMountPoint target mountInfo) then (Inr (), w)
          else let flags = (0 :: 32 word);
                   flags1 = (if force then flags OR 1 else flags);
                   flags2 = (if detach then flags1 OR 2 else flags1);
                   flags3 = (if expire then flags2 OR 4 else flags2)
               in syscall_Unmount target flags3 w)"

section \<open>The interface of a mount table\<close>

locale mount_table =
  fixes entries :: "'i \<Rightarrow> MountEntry set"
    and by_point by_source by_device by_root :: "string \<Rightarrow> 'i \<Rightarrow> 'i"
    and is_empty :: "'i \<Rightarrow> bool"
    and invar :: "'i \<Rightarrow> bool"
  assumes by_point: "invar i \<Longrightarrow> entries (by_point v i) = {e \<in> entries i. MountPoint e = v} \<and> invar (by_point v i)"
    and by_source: "invar i \<Longrightarrow> entries (by_source v i) = {e \<in> entries i. MountSource e = v} \<and> invar (by_source v i)"
    and by_device: "invar i \<Longrightarrow> entries (by_device v i) = {e \<in> entries i. MajorMinor e = v} \<and> invar (by_device v i)"
    and by_root: "invar i \<Longrightarrow> entries (by_root v i) = {e \<in> entries i. Root e = v} \<and> invar (by_root v i)"
    and is_empty_iff: "is_empty i \<longleftrightarrow> entries i = {}"
begin

lemmas filters = by_point by_source by_device by_root

lemma mounted_on: "invar i \<Longrightarrow> \<not> is_empty (by_point t i) \<longleftrightarrow> (\<exists>e \<in> entries i. MountPoint e = t)"
  by (auto simp: is_empty_iff by_point)

lemma mounted_from:
  "invar i \<Longrightarrow> \<not> is_empty (by_source s (by_point t i)) \<longleftrightarrow> (\<exists>e \<in> entries i. MountPoint e = t \<and> MountSource e = s)"
  by (auto simp: is_empty_iff by_point by_source)

lemma root_mounted_on:
  "invar i \<Longrightarrow> \<not> is_empty (by_point t (by_root r i)) \<longleftrightarrow> (\<exists>e \<in> entries i. MountPoint e = t \<and> Root e = r)"
  by (auto simp: is_empty_iff by_point by_root)

lemma filters_commute: "invar i \<Longrightarrow> entries (by_source s (by_point t i)) = entries (by_point t (by_source s i))"
  by (auto simp: by_point by_source)

end

section \<open>The indexed table implements it\<close>

definition index_ok :: "(MountEntry \<Rightarrow> string) \<Rightarrow> (string \<Rightarrow> nat list) \<Rightarrow> (nat \<rightharpoonup> MountEntry) \<Rightarrow> bool" where
  "index_ok f idx m \<longleftrightarrow> (\<forall>v. set (idx v) = {h. \<exists>e. m h = Some e \<and> f e = v})"

definition mount_info_wf :: "MountInfo \<Rightarrow> bool" where
  "mount_info_wf info \<longleftrightarrow>
     distinct (map fst (infoMap info)) \<and>
     (\<forall>h e. map_of (infoMap info) h = Some e \<longrightarrow> xxHash e = h) \<and>
     index_ok MountPoint (mountPointMap info) (map_of (infoMap info)) \<and>
     index_ok MountSource (mountSourceMap info) (map_of (infoMap info)) \<and>
     index_ok MajorMinor (majorMinorMap info) (map_of (infoMap info)) \<and>
     index_ok Root (rootMap info) (map_of (infoMap info))"

definition mount_entries :: "MountInfo \<Rightarrow> MountEntry set" where
  "mount_entries info = snd ` set (infoMap info)"

lemma mount_entries_map: "mount_info_wf info \<Longrightarrow> mount_entries info = ran (map_of (infoMap info))"
  by (simp add: mount_entries_def mount_info_wf_def ran_distinct)

lemma index_push:
  assumes "index_ok f idx m" and "m h = None \<or> m h = Some e"
  shows "index_ok f (push_hash (f e) h idx) (m(h \<mapsto> e))"
  unfolding index_ok_def
proof
  fix v
  show "set (push_hash (f e) h idx v) = {h'. \<exists>e'. (m(h \<mapsto> e)) h' = Some e' \<and> f e' = v}"
    using assms by (cases "v = f e") (auto simp: index_ok_def push_hash_def)
qed

lemma index_ok_empty [simp]: "index_ok f (\<lambda>_. []) Map.empty"
  by (simp add: index_ok_def)

lemma empty_info_wf [simp]: "mount_info_wf empty_info"
  by (simp add: mount_info_wf_def empty_info_def)

lemma empty_info_map [simp]: "map_of (infoMap empty_info) = Map.empty"
  by (simp add: empty_info_def)

lemma add_mount_wf:
  assumes "mount_info_wf info"
    and "map_of (infoMap info) (xxHash e) = None \<or> map_of (infoMap info) (xxHash e) = Some e"
  shows "mount_info_wf (add_mount e info)"
    and "map_of (infoMap (add_mount e info)) = (map_of (infoMap info))(xxHash e \<mapsto> e)"
proof -
  show m: "map_of (infoMap (add_mount e info)) = (map_of (infoMap info))(xxHash e \<mapsto> e)"
    by (simp add: add_mount_def)
  have "index_ok f (push_hash (f e) (xxHash e) idx) ((map_of (infoMap info))(xxHash e \<mapsto> e))"
    if "index_ok f idx (map_of (infoMap info))" for f idx
    using that assms(2) by (rule index_push)
  then show "mount_info_wf (add_mount e info)"
    using assms(1) by (simp add: mount_info_wf_def add_mount_def distinct_assign_key)
qed

lemma filter_step_add:
  assumes "mount_info_wf info"
  shows "filter_step_info info h acc =
           (case map_of (infoMap info) h of None \<Rightarrow> acc | Some e \<Rightarrow> add_mount e acc)"
  using assms by (auto simp: filter_step_info_def add_mount_def mount_info_wf_def split: option.splits)

lemma fold_filter_step:
  assumes "mount_info_wf info" and "mount_info_wf acc"
    and "map_of (infoMap acc) \<subseteq>\<^sub>m map_of (infoMap info)"
  shows "mount_info_wf (fold (filter_step_info info) hs acc) \<and>
         map_of (infoMap (fold (filter_step_info info) hs acc)) =
           (\<lambda>h. if h \<in> set hs then map_of (infoMap info) h else map_of (infoMap acc) h)"
  using assms(2,3)
proof (induction hs arbitrary: acc)
  case (Cons h hs)
  show ?case
  proof (cases "map_of (infoMap info) h")
    case None
    then have "map_of (infoMap acc) h = None"
      using Cons.prems(2) by (metis domIff map_le_implies_dom_le subsetD)
    then show ?thesis
      using Cons None filter_step_add [OF assms(1), of h acc] by (auto simp: fun_eq_iff)
  next
    case (Some e)
    then have h: "xxHash e = h" using assms(1) by (auto simp: mount_info_wf_def)
    have "map_of (infoMap acc) h = None \<or> map_of (infoMap acc) h = Some e"
      using Cons.prems(2) Some by (metis domIff map_le_def)
    note add = add_mount_wf [OF Cons.prems(1), of e, unfolded h, OF this]
    have "map_of (infoMap (add_mount e acc)) \<subseteq>\<^sub>m map_of (infoMap info)"
      using add(2) Cons.prems(2) Some by (auto simp: map_le_def)
    from Cons.IH [OF add(1) this] show ?thesis
      using filter_step_add [OF assms(1), of h acc] Some add(2) by (auto simp: fun_eq_iff)
  qed
qed simp

lemma MountInfo_filter_spec:
  assumes "mount_info_wf info"
  shows "mount_info_wf (MountInfo_filter info hs)"
    and "map_of (infoMap (MountInfo_filter info hs)) = (\<lambda>h. if h \<in> set hs then map_of (infoMap info) h else None)"
  using fold_filter_step [OF assms empty_info_wf, of hs] by (auto simp: MountInfo_filter_def fun_eq_iff)

lemma filter_by_index:
  assumes "mount_info_wf info" and "index_ok f idx (map_of (infoMap info))"
  shows "mount_entries (MountInfo_filter info (idx v)) = {e \<in> mount_entries info. f e = v}"
  using assms(2) MountInfo_filter_spec [OF assms(1), of "idx v"]
  by (auto simp: mount_entries_map assms(1) index_ok_def ran_def)

lemma mount_info_wf_indexes:
  assumes "mount_info_wf info"
  shows "index_ok MountPoint (mountPointMap info) (map_of (infoMap info))"
    and "index_ok MountSource (mountSourceMap info) (map_of (infoMap info))"
    and "index_ok MajorMinor (majorMinorMap info) (map_of (infoMap info))"
    and "index_ok Root (rootMap info) (map_of (infoMap info))"
  using assms by (simp_all add: mount_info_wf_def)

interpretation proc_mounts:
  mount_table mount_entries FilterByMountPoint FilterByMountSource FilterByMajorMinor FilterByRoot
    MountInfo_IsEmpty mount_info_wf
proof (unfold_locales, goal_cases)
  case (1 i v) then show ?case
    by (simp add: FilterByMountPoint_def filter_by_index mount_info_wf_indexes MountInfo_filter_spec)
next
  case (2 i v) then show ?case
    by (simp add: FilterByMountSource_def filter_by_index mount_info_wf_indexes MountInfo_filter_spec)
next
  case (3 i v) then show ?case
    by (simp add: FilterByMajorMinor_def filter_by_index mount_info_wf_indexes MountInfo_filter_spec)
next
  case (4 i v) then show ?case
    by (simp add: FilterByRoot_def filter_by_index mount_info_wf_indexes MountInfo_filter_spec)
next
  case (5 i) then show ?case by (simp add: MountInfo_IsEmpty_def mount_entries_def)
qed

lemma set_MountInfo_List: "set (MountInfo_List info) = mount_entries info"
  by (simp add: MountInfo_List_def mount_entries_def)

text \<open>
  C40. The indexed mount table refines a set of entries. On a well-formed table each filter, by
  mount point, by mount source, by device number and by root, returns exactly the entries with that
  value, and the filtered table is well-formed again, so filters compose.
\<close>

theorem MountInfo_filters_refine:
  assumes "mount_info_wf info"
  shows "mount_entries (FilterByMountPoint v info) = {e \<in> mount_entries info. MountPoint e = v} \<and>
         mount_entries (FilterByMountSource v info) = {e \<in> mount_entries info. MountSource e = v} \<and>
         mount_entries (FilterByMajorMinor v info) = {e \<in> mount_entries info. MajorMinor e = v} \<and>
         mount_entries (FilterByRoot v info) = {e \<in> mount_entries info. Root e = v} \<and>
         mount_info_wf (FilterByMountPoint v info) \<and> mount_info_wf (FilterByMountSource v info) \<and>
         mount_info_wf (FilterByMajorMinor v info) \<and> mount_info_wf (FilterByRoot v info)"
  using proc_mounts.filters [OF assms] by simp

section \<open>Parsing is correct\<close>

lemma parseMount_hash: "parseMount s h = Inr (Some e) \<Longrightarrow> xxHash e = h"
  by (auto simp: parseMount_def Let_def split: if_splits)

lemma parse_lines_spec:
  assumes "mount_info_wf info" and "inj_on hash (set ls)" and "parse_lines hash ls info = Inr info'"
  shows "mount_info_wf info' \<and>
         (\<forall>h e. map_of (infoMap info') h = Some e \<longleftrightarrow>
            map_of (infoMap info) h = Some e \<or>
            (map_of (infoMap info) h = None \<and> (\<exists>l \<in> set ls. hash l = h \<and> parseMount l h = Inr (Some e))))"
  using assms
proof (induction ls arbitrary: info)
  case (Cons l ls)
  have inj: "inj_on hash (set ls)" and other: "\<And>l'. l' \<in> set ls \<Longrightarrow> hash l' = hash l \<Longrightarrow> parseMount l' (hash l) = parseMount l (hash l)"
    using Cons.prems(2) by (auto simp: inj_on_def)
  show ?case
  proof (cases "map_of (infoMap info) (hash l)")
    case (Some e)
    with Cons.IH [OF Cons.prems(1) inj] Cons.prems(3) show ?thesis by auto
  next
    case None
    then obtain p where p: "parseMount l (hash l) = Inr p"
      using Cons.prems(3) by (cases "parseMount l (hash l)") auto
    show ?thesis
    proof (cases p)
      case None': None
      then have "parse_lines hash ls info = Inr info'" using Cons.prems(3) None p by simp
      from Cons.IH [OF Cons.prems(1) inj this] show ?thesis using p None' other by auto
    next
      case (Some e)
      have h: "xxHash e = hash l" using p Some parseMount_hash by blast
      have rest: "parse_lines hash ls (add_mount e info) = Inr info'"
        using Cons.prems(3) None p Some by simp
      note add = add_mount_wf [OF Cons.prems(1), of e, unfolded h, OF disjI1 [OF None]]
      from Cons.IH [OF add(1) inj rest] show ?thesis
        using add(2) None p Some other by (auto split: if_splits)
    qed
  qed
qed simp

text \<open>
  Parsing builds the table of the lines. For a hash without collisions on the file,
  \<^verbatim>\<open>parseMountInfo\<close> on a fresh table that succeeds gives a well-formed table whose
  entries are exactly the mounts of the file's lines.
\<close>

theorem parseMountInfo_correct:
  assumes "parseMountInfo hash (content, None) None = Inr info"
    and "inj_on hash (set (lines_from [] content))"
  shows "mount_info_wf info \<and>
         mount_entries info = {e. \<exists>l \<in> set (lines_from [] content). parseMount l (hash l) = Inr (Some e)}"
proof -
  have p: "parse_lines hash (lines_from [] content) empty_info = Inr info"
    using assms(1) by (simp add: parseMountInfo_def split: sum.splits)
  note spec = parse_lines_spec [OF empty_info_wf assms(2) p]
  then show ?thesis by (auto simp: mount_entries_map ran_def)
qed

lemma strings_Fields_Join:
  "list_all word ws \<Longrightarrow> strings_Fields (strings_Join ws '' '' @ [CHR 0x0A]) = ws"
proof (induction ws rule: induct_list012)
  case 1
  show ?case by (simp add: strings_Fields_def fields_from.simps decode_rune_def IsSpace_def byte_def)
next
  case (2 x)
  have "fields_from x [CHR 0x0A] = [x]"
    using 2 by (simp add: fields_blank word_def byte_def IsSpace_def) (simp add: fields_from.simps)
  then show ?case using 2 by (simp add: strings_Fields_def fields_word word_def)
next
  case (3 x y zs)
  have "fields_from x (CHR '' '' # s) = x # fields_from [] s" for s
    using 3(3) by (simp add: fields_blank word_def byte_def IsSpace_def)
  then show ?case using 3 by (simp add: strings_Fields_def fields_word word_def)
qed

definition mount_tokens :: "MountEntry \<Rightarrow> string \<Rightarrow> string \<Rightarrow> string list" where
  "mount_tokens e options super =
     [MountID e, ParentID e, MajorMinor e, Root e, MountPoint e, options] @ OptionalFields e @
     [''-'', FilesystemType e, MountSource e, super]"

text \<open>
  Round trip: a line of the \<^verbatim>\<open>mountinfo\<close> format, with any number of optional
  fields before the separator, parses to the mount it was written from; the options are the union
  of the mount's and the super block's.
\<close>

theorem parseMount_line:
  assumes "list_all word (mount_tokens e options super)" and "''-'' \<notin> set (OptionalFields e)"
    and "xxHash e = h" and "MountOptions e = set_options super (set_options options [])"
  shows "parseMount (strings_Join (mount_tokens e options super) '' '' @ [CHR 0x0A]) h = Inr (Some e)"
proof -
  let ?ts = "mount_tokens e options super"
  have "optional_fields ?ts = OptionalFields e"
    using assms(2) by (auto simp: optional_fields_def mount_tokens_def takeWhile_append)
  moreover have "?ts ! (6 + length (OptionalFields e) + 1) = FilesystemType e"
      "?ts ! (6 + length (OptionalFields e) + 2) = MountSource e"
      "?ts ! (6 + length (OptionalFields e) + 3) = super"
      "length ?ts = 10 + length (OptionalFields e)"
    by (simp_all add: mount_tokens_def nth_append)
  moreover have "?ts ! 0 = MountID e" "?ts ! 1 = ParentID e" "?ts ! 2 = MajorMinor e" "?ts ! 3 = Root e"
      "?ts ! 4 = MountPoint e" "?ts ! 5 = options"
    by (simp_all add: mount_tokens_def)
  ultimately show ?thesis
    using assms by (simp add: parseMount_def Let_def strings_Fields_Join)
qed

definition sample_entry :: "string \<Rightarrow> string \<Rightarrow> MountEntry" where
  "sample_entry source target =
     \<lparr> xxHash = length target, MountID = ''36'', ParentID = ''35'', MajorMinor = ''8:16'', Root = ''/'',
       MountPoint = target, MountOptions = [''rw'', ''noatime'', ''prjquota''],
       OptionalFields = [''shared:1''], FilesystemType = ''xfs'', MountSource = source \<rparr>"

definition sample_mounts :: MountInfo where
  "sample_mounts = add_mount (sample_entry ''/dev/sdb'' ''/a'') empty_info"

lemma sample_mounts_wf: "mount_info_wf sample_mounts"
  unfolding sample_mounts_def by (rule add_mount_wf(1)) simp_all

theorem MountInfo_filters_refine_witness:
  "mount_entries (FilterByMountPoint ''/a'' sample_mounts) = {sample_entry ''/dev/sdb'' ''/a''}"
proof -
  have "mount_entries sample_mounts = {sample_entry ''/dev/sdb'' ''/a''}"
    by (simp add: sample_mounts_def mount_entries_def add_mount_def empty_info_def)
  moreover have "MountPoint (sample_entry ''/dev/sdb'' ''/a'') = ''/a''" by (simp add: sample_entry_def)
  ultimately show ?thesis
    using conjunct1 [OF MountInfo_filters_refine [OF sample_mounts_wf, of "''/a''"]] by auto
qed

definition sample_line :: string where
  "sample_line = ''36 35 8:16 / /a rw,noatime shared:1 - xfs /dev/sdb rw,prjquota'' @ [CHR 0x0A]"

theorem parseMountInfo_correct_witness:
  "\<exists>info. parseMountInfo (\<lambda>s. 2) (sample_line, None) None = Inr info \<and>
     mount_entries info = {e. parseMount sample_line 2 = Inr (Some e)}"
proof -
  have "\<not> isl (parseMountInfo (\<lambda>s. 2) (sample_line, None) None)" by code_simp
  then obtain info where i: "parseMountInfo (\<lambda>s. 2) (sample_line, None) None = Inr info"
    by (cases "parseMountInfo (\<lambda>s. 2) (sample_line, None) None") auto
  have l: "lines_from [] sample_line = [sample_line]" by code_simp
  show ?thesis
    using parseMountInfo_correct [OF i] i unfolding l by simp
qed

theorem parseMount_line_witness:
  "parseMount (strings_Join (mount_tokens (sample_entry ''/dev/sdb'' ''/a'') ''rw,noatime'' ''rw,prjquota'') '' '' @ [CHR 0x0A]) 2 =
     Inr (Some (sample_entry ''/dev/sdb'' ''/a''))"
  by (rule parseMount_line) (simp add: sample_entry_def, code_simp?)+

text \<open>
  A line of at least eight tokens is not always long enough: without the separator, or with
  fewer than three tokens after it, the parser indexes beyond the tokens and panics instead of
  returning nil.
\<close>

theorem parseMount_panics:
  assumes "8 \<le> length (strings_Fields s)" and "''-'' \<notin> set (strings_Fields s)"
  shows "parseMount s h = Inl (Panic ''index out of range'')"
proof -
  have "optional_fields (strings_Fields s) = drop 6 (strings_Fields s)"
    using assms(2) by (auto simp: optional_fields_def takeWhile_eq_all_conv dest: in_set_dropD)
  then show ?thesis using assms(1) by (simp add: parseMount_def Let_def)
qed

theorem parseMount_panics_witness:
  "parseMount ''1 2 3 4 5 6 7 8'' 0 = Inl (Panic ''index out of range'')"
  by (rule parseMount_panics) code_simp+

section \<open>Mounting is guarded\<close>

text \<open>
  \<^verbatim>\<open>mount\<close> and \<^verbatim>\<open>unmount\<close> act once. On a well-formed table,
  mounting a device on a target where it is mounted already is a success without a system call;
  a target that is in use by other devices is refused without a system call; only a free target is
  mounted, and with known flags only. Unmounting a free target is a success without a system call.
\<close>

theorem mount_unmount_guarded:
  assumes "getInfo w = (Inr info, w1)" and "mount_info_wf info"
  shows "sys_mount getInfo sysMount device target fsType flags super w =
           (if \<exists>e \<in> mount_entries info. MountPoint e = target \<and> MountSource e = device then (Inr (), w1)
            else if \<exists>e \<in> mount_entries info. MountPoint e = target
              then (Inl (ErrorString ''mount point already mounted''), w1)
            else case mount_flags 0 flags of
                   Inl e \<Rightarrow> (Inl e, w1)
                 | Inr mountFlags \<Rightarrow> sysMount device target fsType mountFlags super w1) \<and>
         ((\<forall>e \<in> mount_entries info. MountPoint e \<noteq> target) \<longrightarrow>
           sys_unmount getInfo sysUnmount target force detach expire w = (Inr (), w1))"
proof -
  have on: "MountInfo_IsEmpty (FilterByMountPoint target info) \<longleftrightarrow> \<not> (\<exists>e \<in> mount_entries info. MountPoint e = target)"
    using proc_mounts.mounted_on [OF assms(2), of target] by blast
  have from_dev: "MountInfo_IsEmpty (FilterByMountSource device (FilterByMountPoint target info)) \<longleftrightarrow>
      \<not> (\<exists>e \<in> mount_entries info. MountPoint e = target \<and> MountSource e = device)"
    using proc_mounts.mounted_from [OF assms(2), of device target] by blast
  have "sys_mount getInfo sysMount device target fsType flags super w =
      (if \<exists>e \<in> mount_entries info. MountPoint e = target then
         (if \<exists>e \<in> mount_entries info. MountPoint e = target \<and> MountSource e = device then (Inr (), w1)
          else (Inl (ErrorString ''mount point already mounted''), w1))
       else case mount_flags 0 flags of
              Inl e \<Rightarrow> (Inl e, w1)
            | Inr mountFlags \<Rightarrow> sysMount device target fsType mountFlags super w1)"
    unfolding sys_mount_def assms(1) call_Inr Let_def on from_dev not_not ..
  moreover have "sys_unmount getInfo sysUnmount target force detach expire w = (Inr (), w1)"
    if "\<forall>e \<in> mount_entries info. MountPoint e \<noteq> target"
    unfolding sys_unmount_def assms(1) call_Inr on using that by (simp add: Ball_def)
  ultimately show ?thesis by auto
qed

theorem mount_unmount_guarded_witness:
  "sys_mount (\<lambda>w. (Inr sample_mounts, w)) (\<lambda>_ _ _ _ _ w. (Inr (), w + 1)) ''/dev/sdc'' ''/a'' ''xfs'' [] [] (0 :: nat) =
     (Inl (ErrorString ''mount point already mounted''), 0)"
proof -
  have e: "mount_entries sample_mounts = {sample_entry ''/dev/sdb'' ''/a''}"
    by (simp add: sample_mounts_def mount_entries_def add_mount_def empty_info_def)
  have "MountPoint (sample_entry ''/dev/sdb'' ''/a'') = ''/a''" "MountSource (sample_entry ''/dev/sdb'' ''/a'') = ''/dev/sdb''"
    by (simp_all add: sample_entry_def)
  then show ?thesis
    using conjunct1 [OF mount_unmount_guarded [where getInfo = "\<lambda>w. (Inr sample_mounts, w)" and w = "0 :: nat"
          and info = sample_mounts and ?w1.0 = 0 and sysMount = "\<lambda>_ _ _ _ _ w. (Inr (), w + 1)" and device = "''/dev/sdc''"
          and target = "''/a''" and fsType = "''xfs''" and flags = "[]" and super = "[]", OF refl sample_mounts_wf]]
    unfolding e by simp
qed

end
