(* ===== verification/Host.thy ===== *)
theory Host
  imports Lister Mounts
begin

text \<open>
  The host a node service runs on. \<open>env\<close> extends the client record with the functions the
  handlers hold as struct fields (\<^verbatim>\<open>driveEventHandler\<close>,
  \<^verbatim>\<open>volumeEventHandler\<close>, \<^verbatim>\<open>node.Server\<close>) and with the operating
  system calls they make directly. The paths below the mount root
  (\<^verbatim>\<open>pkg/types/types.go\<close>) and the functions the fields hold in production
  (\<^verbatim>\<open>sys.Mkdir\<close>, \<^verbatim>\<open>xfs.Mount\<close>, \<^verbatim>\<open>rmdir\<close>) are defined here.

  \<open>host_cluster\<close> is what the handlers rely on: no operation of the host changes the drive and
  volume objects.
\<close>

section \<open>Paths\<close>

definition GetDriveMountDir :: "string \<Rightarrow> string" where
  "GetDriveMountDir fsuuid = path_Join [MountRootDir, fsuuid]"

definition GetDriveMetaDir :: "string \<Rightarrow> string" where
  "GetDriveMetaDir fsuuid = path_Join [GetDriveMountDir fsuuid, ''.'' @ AppName]"

definition GetDriveMetaFile :: "string \<Rightarrow> string" where
  "GetDriveMetaFile fsuuid = path_Join [GetDriveMetaDir fsuuid, ''meta.info'']"

definition GetVolumeRootDir :: "string \<Rightarrow> string" where
  "GetVolumeRootDir fsuuid = path_Join [GetDriveMountDir fsuuid, ''.FSUUID.'' @ fsuuid]"

definition GetVolumeDir :: "string \<Rightarrow> string \<Rightarrow> string" where
  "GetVolumeDir fsuuid volumeName = path_Join [GetVolumeRootDir fsuuid, volumeName]"

definition LegacyDriveMountDir :: "string \<Rightarrow> string" where
  "LegacyDriveMountDir fsuuid = path_Join [LegacyAppRootDir, ''mnt'', fsuuid]"

definition GetDeviceByFSUUID :: "(string \<Rightarrow> ('w, string) io) \<Rightarrow> string \<Rightarrow> ('w, string) io" where
  "GetDeviceByFSUUID EvalSymlinks fsuuid = EvalSymlinks (''/dev/disk/by-uuid/'' @ fsuuid)"

section \<open>The environment of a node service\<close>

text \<open>\<^verbatim>\<open>uint64\<close> limits are integers kept in range with \<open>u64\<close>.\<close>

record Quota =
  HardLimit :: int
  SoftLimit :: int
  CurrentSpace :: int

definition capacity_quota :: "int \<Rightarrow> Quota" where
  "capacity_quota sz = \<lparr> HardLimit = u64 sz, SoftLimit = u64 sz, CurrentSpace = 0 \<rparr>"

definition no_quota :: Quota where
  "no_quota = \<lparr> HardLimit = 0, SoftLimit = 0, CurrentSpace = 0 \<rparr>"

record 'w env = "'w client" +
  nodeID :: NodeID
  getMounts :: "('w, MountInfo) io"
  unmount :: "string \<Rightarrow> ('w, unit) io"
  mkdir :: "string \<Rightarrow> ('w, unit) io"
  bindMount :: "string \<Rightarrow> string \<Rightarrow> bool \<Rightarrow> ('w, unit) io"
  getDeviceByFSUUID :: "string \<Rightarrow> ('w, string) io"
  getQuota :: "string \<Rightarrow> string \<Rightarrow> ('w, Quota) io"
  setQuota :: "string \<Rightarrow> string \<Rightarrow> string \<Rightarrow> Quota \<Rightarrow> bool \<Rightarrow> ('w, unit) io"
  rmdir :: "string \<Rightarrow> ('w, unit) io"
  exists :: "string \<Rightarrow> ('w, unit) io"
  xfs_Mount :: "string \<Rightarrow> string \<Rightarrow> ('w, unit) io"
  os_Rename :: "string \<Rightarrow> string \<Rightarrow> ('w, unit) io"
  os_RemoveAll :: "string \<Rightarrow> ('w, unit) io"
  getPodLabels :: "string \<Rightarrow> string \<Rightarrow> ('w, (string \<times> string) list) io"

text \<open>One operation of the host.\<close>

definition host_step :: "('w, 'b) env_scheme \<Rightarrow> 'w \<Rightarrow> 'w \<Rightarrow> bool" where
  "host_step E w w' \<longleftrightarrow>
     w' = snd (getMounts E w) \<or> (\<exists>a. w' = snd (unmount E a w)) \<or> (\<exists>a. w' = snd (mkdir E a w)) \<or>
     (\<exists>a b c. w' = snd (bindMount E a b c w)) \<or> (\<exists>a. w' = snd (getDeviceByFSUUID E a w)) \<or>
     (\<exists>a b. w' = snd (getQuota E a b w)) \<or> (\<exists>a b c q u. w' = snd (setQuota E a b c q u w)) \<or>
     (\<exists>a. w' = snd (rmdir E a w)) \<or> (\<exists>a. w' = snd (exists E a w)) \<or>
     (\<exists>a b. w' = snd (xfs_Mount E a b w)) \<or> (\<exists>a b. w' = snd (os_Rename E a b w)) \<or>
     (\<exists>a. w' = snd (os_RemoveAll E a w)) \<or> (\<exists>a b. w' = snd (getPodLabels E a b w))"

lemma host_stepI:
  "getMounts E w = (r1, w') \<Longrightarrow> host_step E w w'"
  "unmount E a w = (r2, w') \<Longrightarrow> host_step E w w'"
  "mkdir E a w = (r2, w') \<Longrightarrow> host_step E w w'"
  "bindMount E a b c w = (r2, w') \<Longrightarrow> host_step E w w'"
  "getDeviceByFSUUID E a w = (r3, w') \<Longrightarrow> host_step E w w'"
  "getQuota E a b w = (r4, w') \<Longrightarrow> host_step E w w'"
  "setQuota E a b n q u w = (r2, w') \<Longrightarrow> host_step E w w'"
  "rmdir E a w = (r2, w') \<Longrightarrow> host_step E w w'"
  "exists E a w = (r2, w') \<Longrightarrow> host_step E w w'"
  "xfs_Mount E a b w = (r2, w') \<Longrightarrow> host_step E w w'"
  "os_Rename E a b w = (r2, w') \<Longrightarrow> host_step E w w'"
  "os_RemoveAll E a w = (r2, w') \<Longrightarrow> host_step E w w'"
  "getPodLabels E a b w = (r5, w') \<Longrightarrow> host_step E w w'"
  unfolding host_step_def by (metis snd_conv)+

locale host_cluster = cluster E dstore vstore
  for E :: "('w, 'b) env_scheme" and dstore vstore +
  assumes host_drives: "host_step E w w' \<Longrightarrow> dstore w' = dstore w"
    and host_volumes: "host_step E w w' \<Longrightarrow> vstore w' = vstore w"
begin

lemmas host_ops_drives = host_stepI [THEN host_drives]
lemmas host_ops_volumes = host_stepI [THEN host_volumes]

end

section \<open>A host for the witnesses\<close>

text \<open>The objects of the cluster and a list of mounts: bind mounts add to it, unmounts remove
  from it. Devices are found under \<^verbatim>\<open>/dev\<close> by their UUID.\<close>

record hworld = world +
  wMounts :: "(string \<times> string) list"

definition mount_of :: "nat \<Rightarrow> string \<times> string \<Rightarrow> MountEntry" where
  "mount_of h m =
     \<lparr> xxHash = h, MountID = [], ParentID = [], MajorMinor = [], Root = ''/'', MountPoint = snd m,
       MountOptions = [], OptionalFields = [], FilesystemType = ''xfs'', MountSource = fst m \<rparr>"

definition mount_table_of :: "(string \<times> string) list \<Rightarrow> MountInfo" where
  "mount_table_of ms = fold add_mount (map_index_from 0 mount_of ms) empty_info"

text \<open>The device behind a path: that of the last mount on it, else a fixed one.\<close>

definition bind_source :: "string \<Rightarrow> (string \<times> string) list \<Rightarrow> string" where
  "bind_source s ms =
     (case filter (\<lambda>m. snd m = s) (rev ms) of [] \<Rightarrow> ''/dev/sda'' | m # _ \<Rightarrow> fst m)"

definition store_env :: "('b hworld_scheme) env" where
  "store_env =
     \<lparr> IsValidLabelValue = IsValidLabelValue sample_lib,
       IsQualifiedName = IsQualifiedName sample_lib,
       TitleCase = TitleCase sample_lib,
       DriveClient = DriveClient store_client,
       VolumeClient = VolumeClient store_client,
       NodeClient = NodeClient store_client,
       InitRequestClient = InitRequestClient store_client,
       RetryOnConflict = RetryOnConflict store_client,
       Now = Now store_client, pageFuel = 1,
       nodeID = ''node-1'',
       getMounts = (\<lambda>w. (Inr (mount_table_of (wMounts w)), w)),
       unmount = (\<lambda>t w. (Inr (), w\<lparr>wMounts := filter (\<lambda>m. snd m \<noteq> t) (wMounts w)\<rparr>)),
       mkdir = (\<lambda>p w. (Inr (), w)),
       bindMount = (\<lambda>s t ro w. (Inr (), w\<lparr>wMounts := wMounts w @ [(bind_source s (wMounts w), t)]\<rparr>)),
       getDeviceByFSUUID = (\<lambda>u w. (Inr (''/dev/'' @ u), w)),
       getQuota = (\<lambda>d v w. (Inr no_quota, w)),
       setQuota = (\<lambda>d p v q u w. (Inr (), w)),
       rmdir = (\<lambda>u w. (Inr (), w)),
       exists = (\<lambda>p w. (Inr (), w)),
       xfs_Mount = (\<lambda>s t w. (Inr (), w\<lparr>wMounts := wMounts w @ [(s, t)]\<rparr>)),
       os_Rename = (\<lambda>a b w. (Inr (), w)),
       os_RemoveAll = (\<lambda>p w. (Inr (), w)),
       getPodLabels = (\<lambda>ns n w. (Inr [], w)) \<rparr>"

lemma store_env_cluster: "cluster store_env world_drives world_volumes"
  by (rule cluster_of_store) (simp_all add: store_env_def store_client_def)

interpretation store_host: host_cluster store_env world_drives world_volumes
proof (intro host_cluster.intro host_cluster_axioms.intro store_env_cluster, goal_cases)
  case (1 w w')
  then show ?case by (auto simp: host_step_def store_env_def world_drives_def)
next
  case (2 w w')
  then show ?case by (auto simp: host_step_def store_env_def world_volumes_def)
qed

section \<open>Functions behind the fields\<close>

text \<open>\<^verbatim>\<open>sys.Mkdir\<close>: an existing directory is confirmed by a stat of its parent,
  since mkdir on a failing disk answers "file exists".\<close>

definition sys_Mkdir ::
  "(string \<Rightarrow> ('w, unit) io) \<Rightarrow> (string \<Rightarrow> ('w, unit) io) \<Rightarrow> (string \<Rightarrow> string) \<Rightarrow> string \<Rightarrow> ('w, unit) io" where
  "sys_Mkdir os_Mkdir os_Stat path_Dir name w =
     call (os_Mkdir name w)
       (\<lambda>err w. if errors_Is_ErrExist err
                then call (os_Stat (path_Dir name) w) (\<lambda>err w. (Inl err, w)) (\<lambda>_ w. (Inl ErrExist, w))
                else (Inl err, w))
       (\<lambda>_ w. (Inr (), w))"

text \<open>\<^verbatim>\<open>path.Base\<close>: the last component without trailing slashes.\<close>

definition path_Base :: "string \<Rightarrow> string" where
  "path_Base p =
     (if p = [] then ''.''
      else let stripped = rev (dropWhile (\<lambda>c. c = CHR ''/'') (rev p));
               base = rev (takeWhile (\<lambda>c. c \<noteq> CHR ''/'') (rev stripped))
           in if base = [] then ''/'' else base)"

text \<open>\<^verbatim>\<open>xfs.Mount\<close>; the writes to \<^verbatim>\<open>/sys/fs/xfs\<close> only log their
  errors.\<close>

definition xfs_mount ::
  "(string \<Rightarrow> ('w, unit) io) \<Rightarrow> (string \<Rightarrow> string \<Rightarrow> string \<Rightarrow> string list \<Rightarrow> string \<Rightarrow> ('w, unit) io) \<Rightarrow>
   (string \<Rightarrow> string \<Rightarrow> ('w, unit) io) \<Rightarrow> string \<Rightarrow> string \<Rightarrow> ('w, unit) io" where
  "xfs_mount Mkdir Mount WriteFile device target w =
     (let go_on = (\<lambda>w.
        call (Mount device target ''xfs'' [''noatime''] ''prjquota'' w)
          (\<lambda>err w. (Inl err, w))
          (\<lambda>_ w.
             let name = path_Base device
             in if name = ''/'' \<or> name = ''.'' then (Inr (), w)
                else let w1 = snd (WriteFile (''/sys/fs/xfs/'' @ name @ ''/error/metadata/EIO/max_retries'') ''0'' w);
                         w2 = snd (WriteFile (''/sys/fs/xfs/'' @ name @ ''/error/metadata/ENOSPC/max_retries'') ''0'' w1);
                         w3 = snd (WriteFile (''/sys/fs/xfs/'' @ name @ ''/error/metadata/default/max_retries'') ''0'' w2)
                     in (Inr (), w3)))
      in call (Mkdir target w)
           (\<lambda>err w. if \<not> errors_Is_ErrExist err then (Inl err, w) else go_on w)
           (\<lambda>_ w. go_on w))"

definition xfs_bindMount ::
  "(string \<Rightarrow> string \<Rightarrow> string \<Rightarrow> 64 word \<Rightarrow> string \<Rightarrow> ('w, unit) io) \<Rightarrow>
   string \<Rightarrow> string \<Rightarrow> bool \<Rightarrow> ('w, unit) io" where
  "xfs_bindMount syscall_Mount source target readOnly =
     sys_bindMount syscall_Mount source target ''xfs'' False readOnly ''prjquota''"

text \<open>The \<^verbatim>\<open>rmdir\<close> field of the drive handler.\<close>

definition rmdir_mount_points :: "(string \<Rightarrow> ('w, unit) io) \<Rightarrow> string \<Rightarrow> ('w, unit) io" where
  "rmdir_mount_points os_Remove fsuuid w =
     (let legacy = (\<lambda>w.
        call (os_Remove (LegacyDriveMountDir fsuuid) w)
          (\<lambda>err w. if \<not> errors_Is_ErrNotExist err then (Inl err, w) else (Inr (), w))
          (\<lambda>_ w. (Inr (), w)))
      in call (os_Remove (GetDriveMountDir fsuuid) w)
           (\<lambda>err w. if \<not> errors_Is_ErrNotExist err then (Inl err, w) else legacy w)
           (\<lambda>_ w. legacy w))"

section \<open>Paths of different volumes are different\<close>

lemma MountRootDir_components: "MountRootDir = ''/'' @ strings_Join [''var'', ''lib'', ''directpv'', ''mnt''] ''/''"
  by (simp add: MountRootDir_def AppRootDir_def AppName_def)

lemma plain_FSUUID: "plain u \<Longrightarrow> plain (''.FSUUID.'' @ u)"
  by (simp add: plain_def)

lemma GetDriveMountDir_components:
  "plain u \<Longrightarrow> GetDriveMountDir u = ''/'' @ strings_Join [''var'', ''lib'', ''directpv'', ''mnt'', u] ''/''"
  unfolding GetDriveMountDir_def MountRootDir_components by (subst path_Join_rooted) (simp_all add: plain_def)

lemma GetVolumeRootDir_components:
  "plain u \<Longrightarrow> GetVolumeRootDir u =
     ''/'' @ strings_Join [''var'', ''lib'', ''directpv'', ''mnt'', u, ''.FSUUID.'' @ u] ''/''"
  unfolding GetVolumeRootDir_def
  by (subst GetDriveMountDir_components, assumption, subst path_Join_rooted) (simp_all add: plain_def)

lemma GetVolumeDir_components:
  "plain u \<Longrightarrow> plain v \<Longrightarrow> GetVolumeDir u v =
     ''/'' @ strings_Join [''var'', ''lib'', ''directpv'', ''mnt'', u, ''.FSUUID.'' @ u, v] ''/''"
  unfolding GetVolumeDir_def
  by (subst GetVolumeRootDir_components, assumption, subst path_Join_rooted) (simp_all add: plain_def)

lemma rooted_Join_inj:
  assumes "list_all plain cs" and "list_all plain ds" and "cs \<noteq> []" and "ds \<noteq> []"
    and "''/'' @ strings_Join cs ''/'' = ''/'' @ strings_Join ds ''/''"
  shows "cs = ds"
proof -
  have "strings_Split (strings_Join cs ''/'') ''/'' = cs" "strings_Split (strings_Join ds ''/'') ''/'' = ds"
    using assms(1-4) by (auto intro!: strings_Split_Join simp: list_all_iff plain_def)
  then show ?thesis using assms(5) by (metis same_append_eq)
qed

text \<open>
  Data directories do not overlap: two volumes whose drive UUIDs and names are single path
  components have the same data directory only if they have the same drive UUID and the same name;
  and no data directory is a drive's mount point or meta directory.
\<close>

theorem GetVolumeDir_injective:
  assumes "plain u" and "plain v" and "plain u'" and "plain v'"
  shows "(GetVolumeDir u v = GetVolumeDir u' v' \<longleftrightarrow> u = u' \<and> v = v') \<and>
         GetVolumeDir u v \<noteq> GetDriveMountDir u' \<and> GetVolumeDir u v \<noteq> GetDriveMetaDir u'"
proof -
  have p: "list_all plain [''var'', ''lib'', ''directpv'', ''mnt'']" by (simp add: plain_def)
  have "GetDriveMetaDir u' = ''/'' @ strings_Join [''var'', ''lib'', ''directpv'', ''mnt'', u', ''.directpv''] ''/''"
    unfolding GetDriveMetaDir_def GetDriveMountDir_components [OF assms(3)]
    by (subst path_Join_rooted) (use assms(3) in \<open>simp_all add: plain_def AppName_def\<close>)
  moreover have "list_all plain [''var'', ''lib'', ''directpv'', ''mnt'', u', ''.directpv'']"
    using assms(3) by (simp add: plain_def)
  ultimately show ?thesis
    using assms p plain_FSUUID
      rooted_Join_inj [of "[''var'', ''lib'', ''directpv'', ''mnt'', u, ''.FSUUID.'' @ u, v]" "[''var'', ''lib'', ''directpv'', ''mnt'', u', ''.FSUUID.'' @ u', v']"]
      rooted_Join_inj [of "[''var'', ''lib'', ''directpv'', ''mnt'', u, ''.FSUUID.'' @ u, v]" "[''var'', ''lib'', ''directpv'', ''mnt'', u']"]
      rooted_Join_inj [of "[''var'', ''lib'', ''directpv'', ''mnt'', u, ''.FSUUID.'' @ u, v]" "[''var'', ''lib'', ''directpv'', ''mnt'', u', ''.directpv'']"]
    unfolding GetVolumeDir_components [OF assms(1,2)] GetVolumeDir_components [OF assms(3,4)] GetDriveMountDir_components [OF assms(3)]
    by (auto simp del: strings_Join.simps)
qed

theorem GetVolumeDir_injective_witness:
  "GetVolumeDir ''u1'' ''pvc-1'' \<noteq> GetVolumeDir ''u1'' ''pvc-2''"
  using GetVolumeDir_injective [of "''u1''" "''pvc-1''" "''u1''" "''pvc-2''"] by (simp add: plain_def)

end
