(* ===== verification/Csi_Controller.thy ===== *)
theory Csi_Controller
  imports Lister
begin

text \<open>
  The CSI controller service, \<^verbatim>\<open>pkg/csi/controller\<close>: capability checks, drive
  selection (\<^verbatim>\<open>utils.go\<close>) and the handlers \<^verbatim>\<open>CreateVolume\<close>,
  \<^verbatim>\<open>DeleteVolume\<close> and \<^verbatim>\<open>ControllerExpandVolume\<close>
  (\<^verbatim>\<open>server.go\<close>). A request is a record of what the handlers read of it; a map of
  the request is a list of its entries in iteration order. Events and log lines are left out.

  \<^verbatim>\<open>crypto/rand\<close> is the field \<open>randInt\<close> of the environment.
\<close>

section \<open>Requests and responses\<close>

record VolumeCapability =
  capAccessMode :: "int option"
  capFsType :: string

abbreviation SINGLE_NODE_WRITER :: int where "SINGLE_NODE_WRITER \<equiv> 1"

type_synonym Topology = "(string \<times> string) list"

record CreateVolumeRequest =
  cvName :: string
  cvCapacityRange :: "int option"
  cvVolumeCapabilities :: "VolumeCapability list"
  cvParameters :: "(string \<times> string) list"
  cvPreferred :: "Topology list"
  cvRequisite :: "Topology list"
  cvContentSource :: "string option"

record CreateVolumeResponse =
  crVolumeId :: string
  crCapacityBytes :: int
  crVolumeContext :: "(string \<times> string) list"
  crContentSource :: "string option"
  crTopology :: "string \<rightharpoonup> string"

record ControllerExpandVolumeRequest =
  ceVolumeId :: string
  ceCapacityRange :: "int option"

record ControllerExpandVolumeResponse =
  ceCapacityBytes :: int
  ceNodeExpansionRequired :: bool

record ValidateVolumeCapabilitiesResponse =
  vvMessage :: string
  vvConfirmed :: "VolumeCapability list option"

record 'w controller = "'w client" +
  randInt :: "int \<Rightarrow> ('w, int) io"

section \<open>Capabilities\<close>

datatype rpc_type = CREATE_DELETE_VOLUME | EXPAND_VOLUME

definition ControllerGetCapabilities :: "rpc_type list" where
  "ControllerGetCapabilities = [CREATE_DELETE_VOLUME, EXPAND_VOLUME]"

definition unsupported_mode :: "VolumeCapability \<Rightarrow> bool" where
  "unsupported_mode vcap =
     (case capAccessMode vcap of None \<Rightarrow> False | Some mode \<Rightarrow> mode \<noteq> SINGLE_NODE_WRITER)"

fun first_unsupported :: "VolumeCapability list \<Rightarrow> string" where
  "first_unsupported [] = []"
| "first_unsupported (vcap # caps) =
     (if unsupported_mode vcap then ''unsupported access mode'' else first_unsupported caps)"

definition ValidateVolumeCapabilities :: "VolumeCapability list \<Rightarrow> ValidateVolumeCapabilitiesResponse" where
  "ValidateVolumeCapabilities caps =
     (let message = first_unsupported caps
      in \<lparr> vvMessage = message, vvConfirmed = (if message = [] then Some caps else None) \<rparr>)"

section \<open>Choosing a drive\<close>

text \<open>The loop over the parameters in \<^verbatim>\<open>matchDrive\<close>.\<close>

fun match_parameters :: "'a lib_scheme \<Rightarrow> Drive \<Rightarrow> (string \<times> string) list \<Rightarrow> bool" where
  "match_parameters L drive [] = True"
| "match_parameters L drive ((key, value) # params) =
     (if \<not> HasPrefix key GroupName then match_parameters L drive params
      else if key = AccessTierLabelKey then
        (case StringsToAccessTiers L [value] of
           Inr (tier # tiers) \<Rightarrow>
             if GetAccessTier L drive \<noteq> tier then False else match_parameters L drive params
         | _ \<Rightarrow> match_parameters L drive params)
      else if key = VolumeClaimIDLabelKey then
        (if HasVolumeClaimID value drive then False else match_parameters L drive params)
      else if map_get (Drive_GetLabels drive) key \<noteq> value then False
      else match_parameters L drive params)"

fun match_segments :: "(string \<rightharpoonup> string) \<Rightarrow> Topology \<Rightarrow> bool" where
  "match_segments t [] = True"
| "match_segments t ((key, value) # segs) =
     (case t key of
        None \<Rightarrow> False
      | Some driveValue \<Rightarrow> if value \<noteq> driveValue then False else match_segments t segs)"

fun matchTopologies :: "Drive \<Rightarrow> Topology list \<Rightarrow> bool" where
  "matchTopologies drive [] = True"
| "matchTopologies drive (topology # ts) =
     (if match_segments (dTopology (driveStatus drive)) topology then matchTopologies drive ts else False)"

definition matchDrive :: "'a lib_scheme \<Rightarrow> Drive \<Rightarrow> CreateVolumeRequest \<Rightarrow> bool" where
  "matchDrive L drive req =
     (if DeletionTimestamp drive \<noteq> None then False
      else if dStatus (driveStatus drive) \<noteq> DriveStatusReady then False
      else if IsUnschedulable drive then False
      else if (case cvCapacityRange req of None \<Rightarrow> False
               | Some requiredBytes \<Rightarrow> dFreeCapacity (driveStatus drive) < requiredBytes) then False
      else if \<not> match_parameters L drive (cvParameters req) then False
      else if cvPreferred req \<noteq> [] \<and> matchTopologies drive (cvPreferred req) then True
      else if cvRequisite req \<noteq> [] \<and> matchTopologies drive (cvRequisite req) then True
      else cvPreferred req = [] \<and> cvRequisite req = [])"

text \<open>The receiver of \<^verbatim>\<open>getFilteredDrives\<close>: the drives so far, and the value of
  an early return.\<close>

definition filter_step ::
  "'a lib_scheme \<Rightarrow> CreateVolumeRequest \<Rightarrow> Drive result \<Rightarrow> Drive list \<times> Drive list result option \<Rightarrow>
   bool \<times> Drive list \<times> Drive list result option" where
  "filter_step L req r = (\<lambda>(drives, out).
     case r of
       Inl e \<Rightarrow> (False, (drives, Some (Inl e)))
     | Inr drive \<Rightarrow>
         if VolumeExist drive (cvName req) then (False, (drives, Some (Inr [drive])))
         else (True, (if matchDrive L drive req then drives @ [drive] else drives, out)))"

definition getFilteredDrives ::
  "('w, 'b) client_scheme \<Rightarrow> CreateVolumeRequest \<Rightarrow> ('w, Drive list) io" where
  "getFilteredDrives C req w =
     (case DriveLister_List C NewDriveLister (receive (filter_step C req)) ([], None) w of
        ((drives, None), w') \<Rightarrow> (Inr drives, w')
      | ((drives, Some r), w') \<Rightarrow> (r, w'))"

text \<open>The loop that keeps the drives of maximal free capacity.\<close>

fun max_free :: "int \<Rightarrow> Drive list \<Rightarrow> Drive list \<Rightarrow> Drive list" where
  "max_free maxFree best [] = best"
| "max_free maxFree best (drive # drives) =
     (if dFreeCapacity (driveStatus drive) = maxFree then max_free maxFree (best @ [drive]) drives
      else if dFreeCapacity (driveStatus drive) > maxFree
        then max_free (dFreeCapacity (driveStatus drive)) [drive] drives
      else max_free maxFree best drives)"

fun getNodeNamesFromTopology :: "Topology list \<Rightarrow> string list" where
  "getNodeNamesFromTopology [] = []"
| "getNodeNamesFromTopology (topology # ts) =
     (case find (\<lambda>(key, value). key = TopologyDriverNode) topology of
        None \<Rightarrow> getNodeNamesFromTopology ts
      | Some (key, value) \<Rightarrow> value # getNodeNamesFromTopology ts)"

definition selectDrive ::
  "('w, 'b) controller_scheme \<Rightarrow> CreateVolumeRequest \<Rightarrow> 'w \<Rightarrow> (rpc_error + Drive) \<times> 'w" where
  "selectDrive C req w =
     call (getFilteredDrives C req w)
       (\<lambda>e w. (Inl (StatusError codes_Internal []), w))
       (\<lambda>drives w.
          if drives = [] then
            (if cvPreferred req \<noteq> [] \<or> cvRequisite req \<noteq> [] then
               (let preferred = getNodeNamesFromTopology (cvPreferred req);
                    requestedNodes = (if preferred = [] then getNodeNamesFromTopology (cvRequisite req)
                                      else preferred)
                in (Inl (StatusError codes_ResourceExhausted
                       (''no drive found for requested topology; requested node(s): '' @
                        strings_Join requestedNodes '','')), w))
             else if cvCapacityRange req \<noteq> None then
               (Inl (StatusError codes_OutOfRange ''no drive found for requested size''), w)
             else (Inl (StatusError codes_FailedPrecondition ''no drive found''), w))
          else
            let maxFreeCapacityDrives = max_free (- 1) [] drives
            in if length maxFreeCapacityDrives = 1 then (Inr (hd maxFreeCapacityDrives), w)
               else if maxFreeCapacityDrives = [] then
                 (Inl (PlainError (Panic ''crypto/rand: argument to Int is <= 0'')), w)
               else call (randInt C (int (length maxFreeCapacityDrives)) w)
                      (\<lambda>e w. (Inl (StatusError codes_Internal ''random number generation failed''), w))
                      (\<lambda>n w. (Inr (maxFreeCapacityDrives ! nat n), w)))"

section \<open>Creating a volume\<close>

definition hex_digit :: "char \<Rightarrow> bool" where
  "hex_digit c = (c \<in> set ''0123456789abcdefABCDEF'')"

definition volumeClaimIDRegex :: "string \<Rightarrow> bool" where
  "volumeClaimIDRegex s =
     (length s = 36 \<and>
      list_all (\<lambda>i. if i \<in> {8, 13, 18, 23} then s ! i = CHR ''-'' else hex_digit (s ! i)) [0 ..< 36])"

text \<open>The loop over the parameters: the last volume claim ID, or the error of a bad value.\<close>

fun check_parameters :: "'a lib_scheme \<Rightarrow> string \<Rightarrow> (string \<times> string) list \<Rightarrow> rpc_error + string" where
  "check_parameters L claimID [] = Inr claimID"
| "check_parameters L claimID ((key, value) # params) =
     (if key = AccessTierLabelKey then
        (case StringsToAccessTiers L [value] of
           Inl e \<Rightarrow> Inl (StatusError codes_InvalidArgument ''unknown access-tier'')
         | Inr _ \<Rightarrow> check_parameters L claimID params)
      else if key = VolumeClaimIDLabelKey then
        (if \<not> volumeClaimIDRegex value then Inl (StatusError codes_InvalidArgument ''invalid volume claim ID'')
         else check_parameters L value params)
      else check_parameters L claimID params)"

definition requested_size :: "CreateVolumeRequest \<Rightarrow> Drive \<Rightarrow> int" where
  "requested_size req drive =
     (case cvCapacityRange req of None \<Rightarrow> dFreeCapacity (driveStatus drive) | Some requiredBytes \<Rightarrow> requiredBytes)"

definition new_volume :: "'a lib_scheme \<Rightarrow> CreateVolumeRequest \<Rightarrow> string \<Rightarrow> Drive \<Rightarrow> Volume" where
  "new_volume L req claimID drive =
     SetClaimID claimID
       (NewDirectPVVolume (cvName req) (dFSUUID (driveStatus drive)) (Drive_GetNodeID L drive)
          (Drive_GetDriveID drive) (Drive_GetDriveName L drive) (requested_size req drive))"

text \<open>Create the volume object, or take over the existing one.\<close>

definition overwrite_volume :: "Volume \<Rightarrow> Volume \<Rightarrow> Volume" where
  "overwrite_volume newVolume volume =
     (CopyLabels newVolume volume)\<lparr>Finalizers := Finalizers newVolume, volumeStatus := volumeStatus newVolume\<rparr>"

definition create_or_reuse ::
  "('w, 'b) client_scheme \<Rightarrow> Volume \<Rightarrow> 'w \<Rightarrow> (rpc_error + unit) \<times> 'w" where
  "create_or_reuse C newVolume w =
     call (api_Create (VolumeClient C) newVolume w)
       (\<lambda>e w.
          if \<not> IsAlreadyExists e then (Inl (StatusError codes_Internal ''unable to create volume''), w)
          else call (api_Get (VolumeClient C) (objName newVolume) w)
                 (\<lambda>e w. (Inl (StatusError codes_NotFound []), w))
                 (\<lambda>volume w.
                    call (api_Update (VolumeClient C) (overwrite_volume newVolume volume) w)
                      (\<lambda>e w. (Inl (PlainError e), w))
                      (\<lambda>_ w. (Inr (), w))))
       (\<lambda>_ w. (Inr (), w))"

text \<open>Reserving: the finalizer, the claim ID and the capacity.\<close>

definition add_capacity :: "int \<Rightarrow> Drive \<Rightarrow> Drive" where
  "add_capacity sz d =
     d\<lparr>driveStatus := (driveStatus d)\<lparr>
         dFreeCapacity := i64 (dFreeCapacity (driveStatus d) - sz),
         dAllocatedCapacity := i64 (dAllocatedCapacity (driveStatus d) + sz)\<rparr>\<rparr>"

definition reserve :: "string \<Rightarrow> string \<Rightarrow> int \<Rightarrow> Drive \<Rightarrow> bool \<times> Drive" where
  "reserve volume claimID sz d =
     (case AddVolumeFinalizer volume d of
        (True, d') \<Rightarrow> (True, add_capacity sz (SetVolumeClaimID claimID d'))
      | (False, d') \<Rightarrow> (False, d'))"

definition create_response :: "CreateVolumeRequest \<Rightarrow> Drive \<Rightarrow> CreateVolumeResponse" where
  "create_response req drive =
     \<lparr> crVolumeId = cvName req, crCapacityBytes = requested_size req drive,
       crVolumeContext = cvParameters req, crContentSource = cvContentSource req,
       crTopology = dTopology (driveStatus drive) \<rparr>"

definition CreateVolume ::
  "('w, 'b) controller_scheme \<Rightarrow> CreateVolumeRequest \<Rightarrow> 'w \<Rightarrow> (rpc_error + CreateVolumeResponse) \<times> 'w" where
  "CreateVolume C req w =
     (if cvName req = [] then (Inl (StatusError codes_InvalidArgument ''empty volume name in the request''), w)
      else if list_ex unsupported_mode (cvVolumeCapabilities req) then
        (Inl (StatusError codes_InvalidArgument ''unsupported access mode''), w)
      else if cvVolumeCapabilities req \<noteq> [] \<and> capFsType (hd (cvVolumeCapabilities req)) \<noteq> ''xfs'' then
        (Inl (StatusError codes_InvalidArgument ''unsupported filesystem type''), w)
      else
        case check_parameters C [] (cvParameters req) of
          Inl e \<Rightarrow> (Inl e, w)
        | Inr claimID \<Rightarrow>
            call (selectDrive C req w)
              (\<lambda>e w. (Inl e, w))
              (\<lambda>drive w.
                 call (create_or_reuse C (new_volume C req claimID drive) w)
                   (\<lambda>e w. (Inl e, w))
                   (\<lambda>_ w.
                      case reserve (cvName req) claimID (requested_size req drive) drive of
                        (True, drive') \<Rightarrow>
                          call (api_Update (DriveClient C) drive' w)
                            (\<lambda>e w. (Inl (StatusError codes_Internal ''unable to update reserved drive''), w))
                            (\<lambda>_ w. (Inr (create_response req drive), w))
                      | (False, _) \<Rightarrow> (Inr (create_response req drive), w))))"

section \<open>Deleting and expanding a volume\<close>

definition DeleteVolume ::
  "('w, 'b) client_scheme \<Rightarrow> string \<Rightarrow> 'w \<Rightarrow> (rpc_error + unit) \<times> 'w" where
  "DeleteVolume C volumeID w =
     (if volumeID = [] then (Inl (StatusError codes_InvalidArgument ''empty volume ID in the request''), w)
      else call (api_Get (VolumeClient C) volumeID w)
        (\<lambda>e w. if IsNotFound e then (Inr (), w)
               else (Inl (StatusError codes_Internal ''unable to get volume''), w))
        (\<lambda>volume w.
           if IsStaged volume \<or> IsPublished volume then
             (Inl (StatusError codes_FailedPrecondition ''volume is not yet unstaged for deletion''), w)
           else call (api_Update (VolumeClient C) (RemovePVProtection volume) w)
             (\<lambda>e w. (Inl (StatusError codes_Internal ''unable to update volume''), w))
             (\<lambda>_ w. call (api_Delete (VolumeClient C) (objName volume) w)
                (\<lambda>e w. (Inl (StatusError codes_Internal ''unable to delete volume''), w))
                (\<lambda>_ w. (Inr (), w)))))"

definition ControllerExpandVolume ::
  "('w, 'b) client_scheme \<Rightarrow> ControllerExpandVolumeRequest \<Rightarrow> 'w \<Rightarrow>
   (rpc_error + ControllerExpandVolumeResponse) \<times> 'w" where
  "ControllerExpandVolume C req w =
     (if ceVolumeId req = [] then (Inl (StatusError codes_InvalidArgument ''empty volume ID in the request''), w)
      else case ceCapacityRange req of
        None \<Rightarrow> (Inl (StatusError codes_InvalidArgument ''invalid capacity range in the request''), w)
      | Some requiredBytes \<Rightarrow>
          call (api_Get (VolumeClient C) (ceVolumeId req) w)
            (\<lambda>e w. (Inl (StatusError (if IsNotFound e then codes_NotFound else codes_Internal)
                          ''unable to get volume''), w))
            (\<lambda>volume w.
               if vTotalCapacity (volumeStatus volume) \<ge> requiredBytes then
                 (Inr \<lparr> ceCapacityBytes = requiredBytes, ceNodeExpansionRequired = False \<rparr>, w)
               else call (api_Get (DriveClient C) (Volume_GetDriveID C volume) w)
                 (\<lambda>e w. (Inl (StatusError codes_Internal ''unable to get drive''), w))
                 (\<lambda>drive w.
                    let sz = i64 (requiredBytes - vTotalCapacity (volumeStatus volume))
                    in if sz > dFreeCapacity (driveStatus drive) then
                         (Inl (StatusError codes_OutOfRange
                                 ''required bytes is greater than free capacity of drive''), w)
                       else call (api_Update (DriveClient C) (add_capacity sz drive) w)
                         (\<lambda>e w. (Inl (StatusError codes_Internal ''unable to update reserved drive''), w))
                         (\<lambda>_ w. (Inr \<lparr> ceCapacityBytes = requiredBytes,
                                        ceNodeExpansionRequired = True \<rparr>, w)))))"

section \<open>Drive selection is correct\<close>

lemma feed_filter:
  "feed (filter_step L req) (map Inr items) (ds, None) =
     (case find (\<lambda>d. VolumeExist d (cvName req)) items of
        None \<Rightarrow> (True, ds @ filter (\<lambda>d. matchDrive L d req) items, None)
      | Some d \<Rightarrow> (False, ds @ filter (\<lambda>d. matchDrive L d req)
                                (takeWhile (\<lambda>d. \<not> VolumeExist d (cvName req)) items), Some (Inr [d])))"
  by (induction items arbitrary: ds) (auto simp: filter_step_def split: option.splits)

definition drive_listing :: "('w, 'b) client_scheme \<Rightarrow> 'w \<Rightarrow> Drive list \<Rightarrow> bool" where
  "drive_listing C w items \<longleftrightarrow>
     (\<exists>n w'. n \<le> pageFuel C \<and> paged (DriveClient C) n (drive_options NewDriveLister) w items w')"

lemma getFilteredDrives_listing:
  assumes "drive_listing C w items"
  shows "fst (getFilteredDrives C req w) =
           Inr (case find (\<lambda>d. VolumeExist d (cvName req)) items of
                  None \<Rightarrow> filter (\<lambda>d. matchDrive C d req) items | Some d \<Rightarrow> [d])"
proof -
  from assms obtain n w1 where n: "n \<le> pageFuel C"
      and p: "paged (DriveClient C) n (drive_options NewDriveLister) w items w1"
    by (auto simp: drive_listing_def)
  have sel: "selected (drive_sel []) [] items = items"
    by (rule selected_always) (simp add: drive_sel_def)
  obtain b s where b: "feed (filter_step C req) (map Inr items) ([], None) = (b, s)"
    by (rule prod.exhaust)
  obtain ns w2 where lp: "list_pages (pageFuel C) (DriveClient C) False (drive_sel [])
        (receive (filter_step C req)) (drive_options NewDriveLister) [] ([], None) w = (b, ns, s, w2)"
      "b \<longrightarrow> ns = leftover [] items"
    using list_pages_paged [where ign = False, OF p n, of "filter_step C req" "drive_sel []" "[]" "([], None)" b s] b sel
    by auto
  then have "DriveLister_List C NewDriveLister (receive (filter_step C req)) ([], None) w = (s, w2)"
    by (cases b) (simp_all add: DriveLister_List_def NewDriveLister_def run_lister_def drive_options_def leftover_def)
  then show ?thesis
    using b by (auto simp: getFilteredDrives_def feed_filter split: option.splits prod.splits)
qed

lemma max_free_spec:
  assumes "\<forall>x \<in> set best. dFreeCapacity (driveStatus x) = m"
  shows "set (max_free m best ds) \<subseteq> set best \<union> set ds \<and>
         (\<forall>x \<in> set (max_free m best ds). \<forall>y \<in> set ds.
            dFreeCapacity (driveStatus y) \<le> dFreeCapacity (driveStatus x) \<and> m \<le> dFreeCapacity (driveStatus x))"
  using assms
proof (induction m best ds rule: max_free.induct)
  case (2 m best d ds)
  consider "dFreeCapacity (driveStatus d) = m" | "dFreeCapacity (driveStatus d) > m"
    | "dFreeCapacity (driveStatus d) < m" by linarith
  then show ?case
  proof cases
    case 1
    then show ?thesis using "2.IH"(1) "2.prems" by (cases ds) auto
  next
    case 2
    then show ?thesis using "2.IH"(2) by (cases ds) fastforce+
  next
    case 3
    then show ?thesis using "2.IH"(3) "2.prems" by (cases ds) fastforce+
  qed
qed simp

lemma max_free_Nil: "max_free m best ds = [] \<longleftrightarrow> best = [] \<and> (\<forall>y \<in> set ds. dFreeCapacity (driveStatus y) < m)"
  by (induction m best ds rule: max_free.induct) auto

text \<open>What the code relies on from \<^verbatim>\<open>rand.Int\<close>: a number below the bound.\<close>

definition random_source :: "(int \<Rightarrow> ('w, int) io) \<Rightarrow> bool" where
  "random_source f \<longleftrightarrow> (\<forall>k w. 0 < k \<longrightarrow> (\<exists>n w'. f k w = (Inr n, w') \<and> 0 \<le> n \<and> n < k))"

definition no_drive_code :: "CreateVolumeRequest \<Rightarrow> code" where
  "no_drive_code req =
     (if cvPreferred req \<noteq> [] \<or> cvRequisite req \<noteq> [] then codes_ResourceExhausted
      else if cvCapacityRange req \<noteq> None then codes_OutOfRange else codes_FailedPrecondition)"

lemma selectDrive_none:
  assumes "getFilteredDrives C req w = (Inr [], w1)"
  shows "\<exists>m. fst (selectDrive C req w) = Inl (StatusError (no_drive_code req) m)"
  using assms by (auto simp: selectDrive_def no_drive_code_def Let_def)

lemma selectDrive_some:
  assumes "getFilteredDrives C req w = (Inr drives, w1)" and "random_source (randInt C)"
    and "drives \<noteq> []" and "\<And>y. y \<in> set drives \<Longrightarrow> 0 \<le> dFreeCapacity (driveStatus y)"
  shows "\<exists>d. fst (selectDrive C req w) = Inr d \<and> d \<in> set drives \<and>
           (\<forall>y \<in> set drives. dFreeCapacity (driveStatus y) \<le> dFreeCapacity (driveStatus d))"
proof -
  let ?m = "max_free (- 1) [] drives"
  have spec: "d \<in> set ?m \<Longrightarrow> d \<in> set drives \<and>
      (\<forall>y \<in> set drives. dFreeCapacity (driveStatus y) \<le> dFreeCapacity (driveStatus d))" for d
    using max_free_spec [of "[]" "- 1" drives] by auto
  have ne: "?m \<noteq> []"
    using max_free_Nil [of "- 1" "[]" drives] assms(3,4) by (cases drives) force+
  show ?thesis
  proof (cases "length ?m = 1")
    case True
    then have "hd ?m \<in> set ?m" using ne by simp
    then show ?thesis using assms(1,3) True spec by (simp add: selectDrive_def)
  next
    case len: False
    obtain n w2 where n: "randInt C (int (length ?m)) w1 = (Inr n, w2)" "0 \<le> n" "n < int (length ?m)"
      using assms(2) ne unfolding random_source_def by (metis length_greater_0_conv of_nat_0_less_iff)
    then have "?m ! nat n \<in> set ?m" by (simp add: nat_less_iff)
    then show ?thesis using assms(1,3) len ne n spec by (simp add: selectDrive_def)
  qed
qed

text \<open>
  C5. Drive selection. On a complete listing of drives with non-negative free capacity,
  \<^verbatim>\<open>selectDrive\<close> returns the drive that already records the volume, if there is one;
  otherwise a drive that matches the request and whose free capacity is maximal among all matching
  drives. It fails exactly if no drive records the volume and none matches, with the status code of
  the request's most specific constraint.
\<close>

theorem selectDrive_correct:
  assumes "drive_listing C w items" and "random_source (randInt C)"
    and "\<And>x. x \<in> set items \<Longrightarrow> 0 \<le> dFreeCapacity (driveStatus x)"
  shows "case fst (selectDrive C req w) of
           Inr d \<Rightarrow> d \<in> set items \<and>
             (if \<exists>x \<in> set items. VolumeExist x (cvName req) then VolumeExist d (cvName req)
              else matchDrive C d req \<and>
                   (\<forall>x \<in> set items. matchDrive C x req \<longrightarrow>
                      dFreeCapacity (driveStatus x) \<le> dFreeCapacity (driveStatus d)))
         | Inl e \<Rightarrow> (\<forall>x \<in> set items. \<not> VolumeExist x (cvName req) \<and> \<not> matchDrive C x req) \<and>
                   (\<exists>m. e = StatusError (no_drive_code req) m)"
proof -
  obtain drives w1 where g: "getFilteredDrives C req w = (Inr drives, w1)"
      and drives: "drives = (case find (\<lambda>d. VolumeExist d (cvName req)) items of
                  None \<Rightarrow> filter (\<lambda>d. matchDrive C d req) items | Some d \<Rightarrow> [d])"
    using getFilteredDrives_listing [OF assms(1), of req] by (metis prod.collapse)
  have sub: "set drives \<subseteq> set items"
    using drives by (auto simp: find_Some_iff split: option.splits)
  have ex: "(\<exists>x \<in> set items. VolumeExist x (cvName req)) \<Longrightarrow> \<exists>d. drives = [d] \<and> VolumeExist d (cvName req)"
    using drives by (auto simp: find_Some_iff find_None_iff split: option.splits)
  have nex: "\<not> (\<exists>x \<in> set items. VolumeExist x (cvName req)) \<Longrightarrow> drives = filter (\<lambda>d. matchDrive C d req) items"
    using drives by (auto simp: find_Some_iff split: option.splits)
  show ?thesis
  proof (cases "drives = []")
    case True
    then have "\<forall>x \<in> set items. \<not> VolumeExist x (cvName req) \<and> \<not> matchDrive C x req"
      using ex nex by (metis filter_empty_conv list.distinct(1))
    then show ?thesis using selectDrive_none [of C req w w1] g True by auto
  next
    case False
    then obtain d where "fst (selectDrive C req w) = Inr d" "d \<in> set drives"
        "\<forall>y \<in> set drives. dFreeCapacity (driveStatus y) \<le> dFreeCapacity (driveStatus d)"
      using selectDrive_some [OF g assms(2)] assms(3) sub by blast
    then show ?thesis
      using sub ex nex by (cases "\<exists>x \<in> set items. VolumeExist x (cvName req)") auto
  qed
qed

section \<open>The object transformations\<close>

lemma Drive_SetVolumeClaimID_frame [simp]:
  "objName (SetVolumeClaimID c d) = objName d"
  "ResourceVersion (SetVolumeClaimID c d) = ResourceVersion d"
  "Finalizers (SetVolumeClaimID c d) = Finalizers d"
  "DeletionTimestamp (SetVolumeClaimID c d) = DeletionTimestamp d"
  "driveSpec (SetVolumeClaimID c d) = driveSpec d"
  "driveStatus (SetVolumeClaimID c d) = driveStatus d"
  by (simp_all add: SetVolumeClaimID_def)

lemma AddVolumeFinalizer_frame [simp]:
  "objName (snd (AddVolumeFinalizer v d)) = objName d"
  "ResourceVersion (snd (AddVolumeFinalizer v d)) = ResourceVersion d"
  "objLabels (snd (AddVolumeFinalizer v d)) = objLabels d"
  "DeletionTimestamp (snd (AddVolumeFinalizer v d)) = DeletionTimestamp d"
  "driveSpec (snd (AddVolumeFinalizer v d)) = driveSpec d"
  "driveStatus (snd (AddVolumeFinalizer v d)) = driveStatus d"
  by (simp_all add: AddVolumeFinalizer_def Let_def)

lemma add_capacity_frame [simp]:
  "objName (add_capacity sz d) = objName d"
  "ResourceVersion (add_capacity sz d) = ResourceVersion d"
  "Finalizers (add_capacity sz d) = Finalizers d"
  "objLabels (add_capacity sz d) = objLabels d"
  "DeletionTimestamp (add_capacity sz d) = DeletionTimestamp d"
  "driveSpec (add_capacity sz d) = driveSpec d"
  "dTotalCapacity (driveStatus (add_capacity sz d)) = dTotalCapacity (driveStatus d)"
  "dFreeCapacity (driveStatus (add_capacity sz d)) = i64 (dFreeCapacity (driveStatus d) - sz)"
  "dAllocatedCapacity (driveStatus (add_capacity sz d)) = i64 (dAllocatedCapacity (driveStatus d) + sz)"
  "dFSUUID (driveStatus (add_capacity sz d)) = dFSUUID (driveStatus d)"
  "dStatus (driveStatus (add_capacity sz d)) = dStatus (driveStatus d)"
  "dTopology (driveStatus (add_capacity sz d)) = dTopology (driveStatus d)"
  by (simp_all add: add_capacity_def)

lemma reserve_added [simp]: "fst (reserve v c sz d) \<longleftrightarrow> \<not> VolumeExist d v"
  by (auto simp: reserve_def drv_volumes.exist_iff split: prod.splits bool.splits)
    (metis drv_volumes.added_iff fst_conv)+

lemma reserve_present: "VolumeExist d v \<Longrightarrow> reserve v c sz d = (False, d)"
  by (simp add: reserve_def AddVolumeFinalizer_def VolumeExist_def Let_def)

lemma snd_reserve:
  "\<not> VolumeExist d v \<Longrightarrow> snd (reserve v c sz d) = add_capacity sz (SetVolumeClaimID c (snd (AddVolumeFinalizer v d)))"
  by (simp add: reserve_def AddVolumeFinalizer_def VolumeExist_def Let_def)

lemma reserve_frame [simp]:
  "objName (snd (reserve v c sz d)) = objName d"
  "ResourceVersion (snd (reserve v c sz d)) = ResourceVersion d"
  "DeletionTimestamp (snd (reserve v c sz d)) = DeletionTimestamp d"
  "dTotalCapacity (driveStatus (snd (reserve v c sz d))) = dTotalCapacity (driveStatus d)"
  by (cases "VolumeExist d v"; simp add: snd_reserve reserve_present)+

lemma Finalizers_reserve: "\<not> VolumeExist d v \<Longrightarrow> Finalizers (snd (reserve v c sz d)) \<noteq> []"
  by (simp add: snd_reserve AddVolumeFinalizer_def VolumeExist_def Let_def)

lemma GetVolumes_reserve:
  "\<not> VolumeExist d v \<Longrightarrow> GetVolumes (snd (reserve v c sz d)) = GetVolumes d @ [v]"
proof -
  assume a: "\<not> VolumeExist d v"
  have "GetVolumes (snd (reserve v c sz d)) = GetVolumes (snd (AddVolumeFinalizer v d))"
    using a by (simp add: snd_reserve GetVolumes_def)
  then show ?thesis using a by (simp add: drv_volumes.exist_iff drv_volumes.volumes_add)
qed

lemma objName_new_volume [simp]: "objName (new_volume L req c d) = cvName req"
  by (simp add: new_volume_def SetClaimID_def NewDirectPVVolume_def)

lemma Finalizers_new_volume [simp]:
  "Finalizers (new_volume L req c d) = [volumeFinalizerPVProtection, volumeFinalizerPurgeProtection]"
  by (simp add: new_volume_def SetClaimID_def NewDirectPVVolume_def)

lemma new_volume_status [simp]:
  "vTotalCapacity (volumeStatus (new_volume L req c d)) = requested_size req d"
  "vStatus (volumeStatus (new_volume L req c d)) = VolumeStatusPending"
  "vStagingTargetPath (volumeStatus (new_volume L req c d)) = []"
  "vTargetPath (volumeStatus (new_volume L req c d)) = []"
  "vFSUUID (volumeStatus (new_volume L req c d)) = dFSUUID (driveStatus d)"
  "DeletionTimestamp (new_volume L req c d) = None"
  by (simp_all add: new_volume_def SetClaimID_def NewDirectPVVolume_def)

lemma label_keys_distinct [simp]:
  "ClaimIDLabelKey \<noteq> DriveLabelKey" "DriveLabelKey \<noteq> NodeLabelKey"
  "DriveLabelKey \<noteq> DriveNameLabelKey" "DriveLabelKey \<noteq> VersionLabelKey" "DriveLabelKey \<noteq> CreatedByLabelKey"
  by (simp_all add: label_key_defs const_defs)

lemma new_volume_drive_label [simp]: "objLabels (new_volume L req c d) DriveLabelKey = Some (objName d)"
  by (simp add: new_volume_def SetClaimID_def NewDirectPVVolume_def Drive_GetDriveID_def
      vol_labels.label_specs label_keys_distinct [symmetric])

lemma overwrite_volume_simps [simp]:
  "objName (overwrite_volume nv v) = objName v"
  "ResourceVersion (overwrite_volume nv v) = ResourceVersion v"
  "Finalizers (overwrite_volume nv v) = Finalizers nv"
  "volumeStatus (overwrite_volume nv v) = volumeStatus nv"
  "objLabels (overwrite_volume nv v) = objLabels v ++ objLabels nv"
  "DeletionTimestamp (overwrite_volume nv v) = DeletionTimestamp v"
  by (simp_all add: overwrite_volume_def CopyLabels_def)

context cluster
begin

lemma create_or_reuse_drives: "create_or_reuse C nv w = (r, w') \<Longrightarrow> dstore w' = dstore w"
  unfolding create_or_reuse_def by (elim callE) (auto split: if_splits elim!: callE dest!: volume_ops_drives)

lemma create_or_reuse_effect:
  assumes "create_or_reuse C nv w = (Inr u, w')" and "Finalizers nv \<noteq> []"
  shows "\<exists>v. vstore w' = (vstore w)(objName nv \<mapsto> v) \<and> volumeStatus v = volumeStatus nv \<and>
             Finalizers v = Finalizers nv \<and> objLabels nv \<subseteq>\<^sub>m objLabels v"
  using assms(1) unfolding create_or_reuse_def
proof (elim callE, goal_cases)
  case (1 e w1)
  then obtain volume w2 y where g: "api_Get (VolumeClient C) (objName nv) w1 = (Inr volume, w2)"
      and u: "api_Update (VolumeClient C) (overwrite_volume nv volume) w2 = (Inr y, w')"
    by (auto split: if_splits elim!: callE)
  have st: "vstore w2 = vstore w"
    using v.create_err [OF 1(1)] v.get_frame [OF g] by simp
  have nm: "objName volume = objName nv" using g by (rule v.get_name)
  obtain rv where y: "y = (overwrite_volume nv volume)\<lparr>ResourceVersion := rv\<rparr>"
      and "vstore w' = (vstore w2)(objName nv \<mapsto> y)"
    using v.update_ok [OF u] assms(2) nm by auto
  then show ?case using st by (intro exI [of _ y]) (auto simp: map_le_def)
next
  case (2 y w1)
  then show ?case using v.create_ok [OF 2(1)] by auto
qed

end

section \<open>The cluster behind the controller\<close>

locale controller_cluster = cluster C dstore vstore
  for C :: "('w, 'b) controller_scheme" and dstore vstore +
  assumes rand_range: "random_source (randInt C)"
    and rand_drives: "randInt C k w = (r, w') \<Longrightarrow> dstore w' = dstore w"
    and rand_volumes: "randInt C k w = (r, w') \<Longrightarrow> vstore w' = vstore w"
begin

lemma getFilteredDrives_stored:
  assumes "getFilteredDrives C req w = (r, w')"
  shows "dstore w' = dstore w" and "vstore w' = vstore w"
    and "r = Inr drives \<Longrightarrow> d \<in> set drives \<Longrightarrow>
           dstore w (objName d) = Some d \<and> (VolumeExist d (cvName req) \<or> matchDrive C d req)"
proof -
  define ok where "ok d \<longleftrightarrow> dstore w (objName d) = Some d \<and> (VolumeExist d (cvName req) \<or> matchDrive C d req)" for d
  let ?Q = "\<lambda>(ds, out). (\<forall>d \<in> set ds. ok d) \<and> (\<forall>ds'. out = Some (Inr ds') \<longrightarrow> (\<forall>d \<in> set ds'. ok d))"
  have okI: "VolumeExist d (cvName req) \<Longrightarrow> dstore w (objName d) = Some d \<Longrightarrow> ok d"
      "matchDrive C d req \<Longrightarrow> dstore w (objName d) = Some d \<Longrightarrow> ok d" for d
    by (simp_all add: ok_def)
  obtain ds out where l: "DriveLister_List C NewDriveLister (receive (filter_step C req)) ([], None) w = ((ds, out), w')"
    using assms by (auto simp: getFilteredDrives_def split: prod.splits option.splits)
  then have rl: "run_lister (pageFuel C) (DriveClient C) False False (drive_sel [])
      (receive (filter_step C req)) (drive_options NewDriveLister) [] ([], None) w = ((ds, out), w')"
    by (simp add: DriveLister_List_def NewDriveLister_def drive_options_def)
  have step: "?Q s \<Longrightarrow> (\<And>x. r = Inr x \<Longrightarrow> dstore w (objName x) = Some x) \<Longrightarrow> ?Q (snd (filter_step C req r s))" for r s
    by (cases r) (auto simp: filter_step_def okI split: if_splits)
  have "?Q (ds, out) \<and> dstore w' = dstore w"
    by (rule d.run_lister_rule [where Q = ?Q, OF step _ rl]) auto
  then show "dstore w' = dstore w"
    and "r = Inr drives \<Longrightarrow> d \<in> set drives \<Longrightarrow>
           dstore w (objName d) = Some d \<and> (VolumeExist d (cvName req) \<or> matchDrive C d req)"
    using l assms unfolding ok_def [symmetric]
    by (auto simp: getFilteredDrives_def split: option.splits)
  show "vstore w' = vstore w"
    by (rule run_lister_frame [OF _ rl]) (rule drive_step_volumes)
qed

lemma selectDrive_stored:
  assumes "selectDrive C req w = (r, w')"
  shows "dstore w' = dstore w" and "vstore w' = vstore w"
    and "r = Inr d \<Longrightarrow> dstore w (objName d) = Some d \<and> (VolumeExist d (cvName req) \<or> matchDrive C d req)"
proof -
  obtain r1 w1 where g: "getFilteredDrives C req w = (r1, w1)" by fastforce
  note f = getFilteredDrives_stored [OF g]
  have "dstore w' = dstore w \<and> vstore w' = vstore w"
  proof (cases r1)
    case (Inr drives)
    then show ?thesis
      using assms g f(1,2) rand_drives rand_volumes unfolding selectDrive_def Let_def
      by (auto split: if_splits elim!: callE)
  qed (use assms g f(1,2) in \<open>simp add: selectDrive_def\<close>)
  then show "dstore w' = dstore w" and "vstore w' = vstore w" by simp_all
  assume r: "r = Inr d"
  obtain drives where r1: "r1 = Inr drives"
    using assms g r by (cases r1) (auto simp: selectDrive_def)
  let ?m = "max_free (- 1) [] drives"
  have "d \<in> set ?m"
  proof (cases "length ?m = 1")
    case True
    then show ?thesis using assms g r r1 by (cases ?m) (auto simp: selectDrive_def split: if_splits)
  next
    case False
    then obtain n w2 where n: "randInt C (int (length ?m)) w1 = (Inr n, w2)" and "?m \<noteq> []" "d = ?m ! nat n"
      using assms g r r1 by (auto simp: selectDrive_def Let_def split: if_splits elim!: callE)
    moreover have "\<exists>n w2. randInt C (int (length ?m)) w1 = (Inr n, w2) \<and> 0 \<le> n \<and> n < int (length ?m)"
      using rand_range \<open>?m \<noteq> []\<close> by (simp add: random_source_def)
    ultimately show ?thesis by (auto simp: nat_less_iff)
  qed
  then have "d \<in> set drives" using max_free_spec [of "[]" "- 1" drives] by auto
  then show "dstore w (objName d) = Some d \<and> (VolumeExist d (cvName req) \<or> matchDrive C d req)"
    using f(3) r1 by blast
qed

lemma CreateVolume_ok:
  assumes "CreateVolume C req w = (Inr resp, w')"
  obtains claimID d w1 w2 where "check_parameters C [] (cvParameters req) = Inr claimID"
    and "selectDrive C req w = (Inr d, w1)"
    and "create_or_reuse C (new_volume C req claimID d) w1 = (Inr (), w2)"
    and "resp = create_response req d"
    and "\<not> VolumeExist d (cvName req) \<longrightarrow>
           (\<exists>y. api_Update (DriveClient C) (snd (reserve (cvName req) claimID (requested_size req d) d)) w2 = (Inr y, w'))"
    and "VolumeExist d (cvName req) \<longrightarrow> w' = w2"
proof -
  obtain claimID where c: "check_parameters C [] (cvParameters req) = Inr claimID"
    using assms by (auto simp: CreateVolume_def split: if_splits sum.splits)
  obtain d w1 w2 where s: "selectDrive C req w = (Inr d, w1)"
      and k: "create_or_reuse C (new_volume C req claimID d) w1 = (Inr (), w2)"
      and r: "(case reserve (cvName req) claimID (requested_size req d) d of
                 (True, drive') \<Rightarrow>
                   call (api_Update (DriveClient C) drive' w2)
                     (\<lambda>e w. (Inl (StatusError codes_Internal ''unable to update reserved drive''), w))
                     (\<lambda>_ w. (Inr (create_response req d), w))
               | (False, _) \<Rightarrow> (Inr (create_response req d), w2)) = (Inr resp, w')"
    using assms c by (auto simp: CreateVolume_def split: if_splits elim!: callE)
  show thesis
  proof (cases "VolumeExist d (cvName req)")
    case True
    then show thesis using that [OF c s k] r by (simp add: reserve_present)
  next
    case False
    then obtain d' where d': "reserve (cvName req) claimID (requested_size req d) d = (True, d')"
      by (metis reserve_added prod.collapse)
    then show thesis using that [OF c s k] r False by (auto elim!: callE)
  qed
qed

lemma CreateVolume_effects:
  assumes "CreateVolume C req w = (Inr resp, w')"
  shows "\<exists>d v claimID. check_parameters C [] (cvParameters req) = Inr claimID \<and>
           dstore w (objName d) = Some d \<and> (VolumeExist d (cvName req) \<or> matchDrive C d req) \<and>
           resp = create_response req d \<and>
           vstore w' = (vstore w)(cvName req \<mapsto> v) \<and>
           volumeStatus v = volumeStatus (new_volume C req claimID d) \<and>
           Finalizers v = [volumeFinalizerPVProtection, volumeFinalizerPurgeProtection] \<and>
           objLabels (new_volume C req claimID d) \<subseteq>\<^sub>m objLabels v \<and>
           (if VolumeExist d (cvName req) then dstore w' = dstore w
            else \<exists>rv. dstore w' = (dstore w)(objName d \<mapsto>
                   (snd (reserve (cvName req) claimID (requested_size req d) d))\<lparr>ResourceVersion := rv\<rparr>))"
proof -
  obtain claimID d w1 w2 where c: "check_parameters C [] (cvParameters req) = Inr claimID"
    and s: "selectDrive C req w = (Inr d, w1)"
    and k: "create_or_reuse C (new_volume C req claimID d) w1 = (Inr (), w2)"
    and resp: "resp = create_response req d"
    and new: "\<not> VolumeExist d (cvName req) \<longrightarrow>
           (\<exists>y. api_Update (DriveClient C) (snd (reserve (cvName req) claimID (requested_size req d) d)) w2 = (Inr y, w'))"
    and old: "VolumeExist d (cvName req) \<longrightarrow> w' = w2"
    by (rule CreateVolume_ok [OF assms])
  note sel = selectDrive_stored [OF s]
  obtain v where v: "vstore w2 = (vstore w)(cvName req \<mapsto> v)"
      "volumeStatus v = volumeStatus (new_volume C req claimID d)"
      "Finalizers v = [volumeFinalizerPVProtection, volumeFinalizerPurgeProtection]"
      "objLabels (new_volume C req claimID d) \<subseteq>\<^sub>m objLabels v"
    using create_or_reuse_effect [OF k] sel(2) by auto
  have ds: "dstore w2 = dstore w" using create_or_reuse_drives [OF k] sel(1) by simp
  show ?thesis
  proof (cases "VolumeExist d (cvName req)")
    case True
    then show ?thesis using c sel(3) resp v ds old by auto
  next
    case False
    then obtain y where u: "api_Update (DriveClient C) (snd (reserve (cvName req) claimID (requested_size req d) d)) w2 = (Inr y, w')"
      using new by blast
    have "vstore w' = vstore w2" using u by (rule drive_ops_volumes)
    moreover obtain rv where "dstore w' = (dstore w)(objName d \<mapsto>
        (snd (reserve (cvName req) claimID (requested_size req d) d))\<lparr>ResourceVersion := rv\<rparr>)"
      using d.update_ok [OF u] Finalizers_reserve [OF False] ds by auto
    ultimately show ?thesis using c sel(3) resp v False by auto
  qed
qed

text \<open>A failed request reserves nothing.\<close>

lemma CreateVolume_failed:
  assumes "CreateVolume C req w = (Inl e, w')"
  shows "dstore w' = dstore w"
  using assms unfolding CreateVolume_def
  by (auto split: if_splits sum.splits prod.splits bool.splits elim!: callE
      dest!: selectDrive_stored(1) create_or_reuse_drives d.update_err)

end

section \<open>The reference store as the controller's cluster\<close>

definition store_controller :: "('b world_scheme) controller" where
  "store_controller =
     \<lparr> IsValidLabelValue = IsValidLabelValue sample_lib,
       IsQualifiedName = IsQualifiedName sample_lib,
       TitleCase = TitleCase sample_lib,
       DriveClient = DriveClient store_client,
       VolumeClient = VolumeClient store_client,
       NodeClient = NodeClient store_client,
       InitRequestClient = InitRequestClient store_client,
       RetryOnConflict = RetryOnConflict store_client,
       Now = Now store_client, pageFuel = 1,
       randInt = (\<lambda>k w. (Inr (k - 1), w)) \<rparr>"

lemma store_controller_cluster: "cluster store_controller world_drives world_volumes"
  by (rule cluster_of_store) (simp_all add: store_controller_def store_client_def)

interpretation store_ctl: controller_cluster store_controller world_drives world_volumes
proof (intro controller_cluster.intro controller_cluster_axioms.intro store_controller_cluster, goal_cases)
  case 1
  show ?case by (simp add: random_source_def store_controller_def)
qed (simp_all add: store_controller_def)

section \<open>Capacity is accounted for\<close>

text \<open>The accounting every drive object satisfies: nothing negative, and what is free and what is
  allocated fits the drive.\<close>

definition capacity_ok :: "Drive \<Rightarrow> bool" where
  "capacity_ok d =
     (0 \<le> dFreeCapacity (driveStatus d) \<and> 0 \<le> dAllocatedCapacity (driveStatus d) \<and>
      dFreeCapacity (driveStatus d) + dAllocatedCapacity (driveStatus d) \<le> dTotalCapacity (driveStatus d) \<and>
      dTotalCapacity (driveStatus d) < 2 ^ 63)"

lemma add_capacity_ok:
  assumes "capacity_ok d" and "0 \<le> sz" and "sz \<le> dFreeCapacity (driveStatus d)"
  shows "capacity_ok (add_capacity sz d)"
    and "dFreeCapacity (driveStatus (add_capacity sz d)) = dFreeCapacity (driveStatus d) - sz"
    and "dAllocatedCapacity (driveStatus (add_capacity sz d)) = dAllocatedCapacity (driveStatus d) + sz"
  using assms by (simp_all add: capacity_ok_def i64_id in_i64_def)

lemma capacity_ok_SetVolumeClaimID [simp]: "capacity_ok (SetVolumeClaimID c d) = capacity_ok d"
  by (simp add: capacity_ok_def)

lemma capacity_ok_AddVolumeFinalizer [simp]: "capacity_ok (snd (AddVolumeFinalizer v d)) = capacity_ok d"
  by (simp add: capacity_ok_def)

lemma capacity_ok_rv [simp]: "capacity_ok (d\<lparr>ResourceVersion := rv\<rparr>) = capacity_ok d"
  by (simp add: capacity_ok_def)

lemma requested_size_fits:
  assumes "matchDrive L d req" shows "requested_size req d \<le> dFreeCapacity (driveStatus d)"
  using assms by (auto simp: matchDrive_def requested_size_def split: if_splits option.splits)

lemma reserve_ok:
  assumes "capacity_ok d" and "\<not> VolumeExist d v" and "0 \<le> sz" and "sz \<le> dFreeCapacity (driveStatus d)"
  shows "capacity_ok (snd (reserve v c sz d))"
    and "dFreeCapacity (driveStatus (snd (reserve v c sz d))) = dFreeCapacity (driveStatus d) - sz"
    and "dAllocatedCapacity (driveStatus (snd (reserve v c sz d))) = dAllocatedCapacity (driveStatus d) + sz"
    and "VolumeExist (snd (reserve v c sz d)) v"
  using add_capacity_ok [of "SetVolumeClaimID c (snd (AddVolumeFinalizer v d))" sz] assms
  by (simp_all add: snd_reserve drv_volumes.exist_iff GetVolumes_reserve [OF assms(2), unfolded snd_reserve [OF assms(2)]])

text \<open>
  C4. \<^verbatim>\<open>CreateVolume\<close> on a volume that no drive records yet. When it succeeds,
  the volume object exists with both protection finalizers, bound to one drive, with the capacity
  of the response; that drive now records the volume, its free capacity went down and its allocated
  capacity went up by exactly that capacity without going below zero or beyond the drive's size; no
  other drive and no other volume changed.
\<close>

theorem CreateVolume_correct:
  assumes "controller_cluster C dstore vstore" and "CreateVolume C req w = (Inr resp, w')"
    and "\<forall>n d. dstore w n = Some d \<longrightarrow> capacity_ok d \<and> \<not> VolumeExist d (cvName req)"
    and "\<forall>b. cvCapacityRange req = Some b \<longrightarrow> 0 \<le> b"
  shows "\<exists>d d' v. dstore w (objName d) = Some d \<and> matchDrive C d req \<and>
           dstore w' = (dstore w)(objName d \<mapsto> d') \<and> vstore w' = (vstore w)(cvName req \<mapsto> v) \<and>
           GetVolumes d' = GetVolumes d @ [cvName req] \<and> capacity_ok d' \<and>
           dFreeCapacity (driveStatus d') = dFreeCapacity (driveStatus d) - crCapacityBytes resp \<and>
           dAllocatedCapacity (driveStatus d') = dAllocatedCapacity (driveStatus d) + crCapacityBytes resp \<and>
           vTotalCapacity (volumeStatus v) = crCapacityBytes resp \<and>
           (\<forall>b. cvCapacityRange req = Some b \<longrightarrow> crCapacityBytes resp = b) \<and>
           objLabels v DriveLabelKey = Some (objName d) \<and>
           Finalizers v = [volumeFinalizerPVProtection, volumeFinalizerPurgeProtection]"
proof -
  obtain d v claimID where d: "dstore w (objName d) = Some d" "VolumeExist d (cvName req) \<or> matchDrive C d req"
      and resp: "resp = create_response req d"
      and v: "vstore w' = (vstore w)(cvName req \<mapsto> v)" "volumeStatus v = volumeStatus (new_volume C req claimID d)"
        "Finalizers v = [volumeFinalizerPVProtection, volumeFinalizerPurgeProtection]"
        "objLabels (new_volume C req claimID d) \<subseteq>\<^sub>m objLabels v"
      and ds: "if VolumeExist d (cvName req) then dstore w' = dstore w
            else \<exists>rv. dstore w' = (dstore w)(objName d \<mapsto>
                   (snd (reserve (cvName req) claimID (requested_size req d) d))\<lparr>ResourceVersion := rv\<rparr>)"
    using controller_cluster.CreateVolume_effects [OF assms(1,2)] by blast
  have ok: "capacity_ok d" and new: "\<not> VolumeExist d (cvName req)" using assms(3) d(1) by blast+
  with d ds obtain rv where match: "matchDrive C d req" and
      st: "dstore w' = (dstore w)(objName d \<mapsto>
            (snd (reserve (cvName req) claimID (requested_size req d) d))\<lparr>ResourceVersion := rv\<rparr>)" by auto
  have fits: "0 \<le> requested_size req d" "requested_size req d \<le> dFreeCapacity (driveStatus d)"
    using assms(4) ok requested_size_fits [OF match] by (auto simp: requested_size_def capacity_ok_def split: option.splits)
  note res = reserve_ok [OF ok new fits] GetVolumes_reserve [OF new]
  have "objLabels v DriveLabelKey = Some (objName d)"
    using v(4) unfolding map_le_def by (metis domI new_volume_drive_label)
  then show ?thesis
    using d(1) match v st res
    by (intro exI [of _ d] exI [of _ "(snd (reserve (cvName req) claimID (requested_size req d) d))\<lparr>ResourceVersion := rv\<rparr>"] exI [of _ v])
      (auto simp: resp create_response_def requested_size_def GetVolumes_def)
qed

definition sample_request :: CreateVolumeRequest where
  "sample_request =
     \<lparr> cvName = ''pvc-1'', cvCapacityRange = Some 100,
       cvVolumeCapabilities = [\<lparr> capAccessMode = Some SINGLE_NODE_WRITER, capFsType = ''xfs'' \<rparr>],
       cvParameters = [], cvPreferred = [], cvRequisite = [], cvContentSource = None \<rparr>"

lemma sample_create: "\<exists>resp w'. CreateVolume store_controller sample_request sample_world = (Inr resp, w')"
  by (rule not_isl_ok) code_simp

lemma sample_world_drives:
  "world_drives sample_world n = Some d \<Longrightarrow> capacity_ok d \<and> \<not> VolumeExist d v"
proof -
  assume "world_drives sample_world n = Some d"
  then have "d \<in> set (wDrives sample_world)"
    unfolding world_drives_def lookup_obj_def by (metis find_Some_iff nth_mem)
  moreover have "Finalizers d = [driveFinalizerDataProtection] \<and> capacity_ok d" if "d \<in> set (wDrives sample_world)" for d
    using that by (auto simp: sample_world_def sample_drive_def NewDirectPVDrive_def capacity_ok_def)
  ultimately show ?thesis
    using data_protection_neq_volume [of v] by (auto simp: VolumeExist_def simp del: data_protection_neq_volume)
qed

theorem CreateVolume_correct_witness:
  "\<exists>resp w' d d'. CreateVolume store_controller sample_request sample_world = (Inr resp, w') \<and>
     world_drives sample_world (objName d) = Some d \<and>
     world_drives w' = (world_drives sample_world)(objName d \<mapsto> d') \<and> capacity_ok d' \<and> crCapacityBytes resp = 100 \<and>
     dFreeCapacity (driveStatus d') = dFreeCapacity (driveStatus d) - 100"
proof -
  obtain resp w' where c: "CreateVolume store_controller sample_request sample_world = (Inr resp, w')"
    using sample_create by blast
  have cap: "cvCapacityRange sample_request = Some 100" by (simp add: sample_request_def)
  have b: "\<forall>b. cvCapacityRange sample_request = Some b \<longrightarrow> 0 \<le> b" by (simp add: cap)
  have ds: "\<forall>n d. world_drives sample_world n = Some d \<longrightarrow> capacity_ok d \<and> \<not> VolumeExist d (cvName sample_request)"
    using sample_world_drives by blast
  from CreateVolume_correct [OF store_ctl.controller_cluster_axioms, OF c ds b]
  obtain d d' where "world_drives sample_world (objName d) = Some d"
      and "world_drives w' = (world_drives sample_world)(objName d \<mapsto> d')" and "capacity_ok d'"
      and "dFreeCapacity (driveStatus d') = dFreeCapacity (driveStatus d) - crCapacityBytes resp"
      and "\<forall>b. cvCapacityRange sample_request = Some b \<longrightarrow> crCapacityBytes resp = b"
    by blast
  then show ?thesis using c cap by auto
qed

section \<open>Deleting\<close>

lemma removeFinalizer_frame [simp]:
  "objName (removeFinalizer f v) = objName v"
  "ResourceVersion (removeFinalizer f v) = ResourceVersion v"
  "Finalizers (removeFinalizer f v) = filter (\<lambda>x. x \<noteq> f) (Finalizers v)"
  "objLabels (removeFinalizer f v) = objLabels v"
  "DeletionTimestamp (removeFinalizer f v) = DeletionTimestamp v"
  "volumeStatus (removeFinalizer f v) = volumeStatus v"
  by (auto simp: removeFinalizer_def Let_def length_filter_less_iff intro: filter_True [symmetric])

text \<open>
  C6. \<^verbatim>\<open>DeleteVolume\<close>. If it succeeds, either the volume did not exist and nothing
  changed, or it was neither staged nor published, and it lost its PV protection and is gone, or
  marked for deletion with the other finalizers left. No drive and no other volume changed: the
  capacity is given back only by the volume controller.
\<close>

theorem DeleteVolume_correct:
  assumes "cluster C dstore vstore" and "DeleteVolume C volumeID w = (Inr u, w')"
  shows "dstore w' = dstore w \<and>
         (case vstore w volumeID of
            None \<Rightarrow> vstore w' = vstore w
          | Some v \<Rightarrow>
              \<not> IsStaged v \<and> \<not> IsPublished v \<and>
              (if \<forall>f \<in> set (Finalizers v). f = volumeFinalizerPVProtection
               then vstore w' = (vstore w)(volumeID := None)
               else \<exists>ts rv. vstore w' = (vstore w)(volumeID \<mapsto>
                      (RemovePVProtection v)\<lparr>DeletionTimestamp := Some ts, ResourceVersion := rv\<rparr>)))"
proof (cases "fst (api_Get (VolumeClient C) volumeID w)")
  case (Inl e)
  then obtain w1 where g: "api_Get (VolumeClient C) volumeID w = (Inl e, w1)" by (metis prod.collapse)
  then have "IsNotFound e" and "w' = w1" using assms(2) by (auto simp: DeleteVolume_def split: if_splits)
  then show ?thesis
    using g cluster.volume_ops_drives(1) [OF assms(1) g] object_api.get_frame object_api.get_not_found
      cluster.axioms(2) [OF assms(1)] by fastforce
next
  case (Inr v)
  note va = cluster.axioms(2) [OF assms(1)]
  obtain w1 where g: "api_Get (VolumeClient C) volumeID w = (Inr v, w1)" using Inr by (metis prod.collapse)
  then obtain w2 y where ns: "\<not> IsStaged v" "\<not> IsPublished v"
      and u: "api_Update (VolumeClient C) (RemovePVProtection v) w1 = (Inr y, w2)"
      and d: "api_Delete (VolumeClient C) (objName v) w2 = (Inr (), w')"
    using assms(2) by (auto simp: DeleteVolume_def split: if_splits elim!: callE)
  have drives: "dstore w' = dstore w"
    using cluster.volume_ops_drives [OF assms(1)] g u d by metis
  have v: "vstore w volumeID = Some v" "objName v = volumeID" and w1: "vstore w1 = vstore w"
    using object_api.get_found [OF va g] object_api.get_name [OF va g] object_api.get_frame [OF va g] by simp_all
  let ?x = "RemovePVProtection v"
  have x: "objName ?x = volumeID" "Finalizers ?x = filter (\<lambda>f. f \<noteq> volumeFinalizerPVProtection) (Finalizers v)"
    by (simp_all add: RemovePVProtection_def v)
  obtain rv where rv: "y = ?x\<lparr>ResourceVersion := rv\<rparr>" and
      w2: "vstore w2 = (vstore w)(volumeID := (if Finalizers ?x = [] \<and> DeletionTimestamp ?x \<noteq> None then None else Some y))"
    using object_api.update_ok [OF va u] x w1 by auto
  obtain cur where c: "vstore w2 volumeID = Some cur" and
      "if Finalizers cur = [] then vstore w' = (vstore w2)(volumeID := None)
       else \<exists>ts rv. ResourceVersion cur < rv \<and>
         vstore w' = (vstore w2)(volumeID \<mapsto> cur\<lparr>DeletionTimestamp := Some ts, ResourceVersion := rv\<rparr>)"
    using object_api.delete_ok [OF va d] v by auto
  then have w': "if Finalizers cur = [] then vstore w' = (vstore w2)(volumeID := None)
           else \<exists>ts rv. vstore w' = (vstore w2)(volumeID \<mapsto> cur\<lparr>DeletionTimestamp := Some ts, ResourceVersion := rv\<rparr>)"
    by (cases "Finalizers cur = []") auto
  have cur: "cur = y" using c w2 by (auto split: if_splits)
  have fin: "Finalizers y = [] \<longleftrightarrow> (\<forall>f \<in> set (Finalizers v). f = volumeFinalizerPVProtection)"
    by (simp add: rv x filter_empty_conv)
  show ?thesis
    using drives v ns w' w2 rv fin unfolding cur by (auto split: if_splits)
qed

text \<open>A cluster in which drive \<^verbatim>\<open>drive-1\<close> records a volume of 100 bytes.\<close>

definition sample_volume :: Volume where
  "sample_volume = NewDirectPVVolume ''pvc-1'' ''drive-1'' ''node-1'' ''drive-1'' ''sda'' 100"

definition volume_world :: world where
  "volume_world =
     \<lparr> wDrives = [snd (reserve ''pvc-1'' [] 100 sample_drive)], wVolumes = [sample_volume],
       wNodes = [], wInitRequests = [] \<rparr>"

theorem DeleteVolume_correct_witness:
  "\<exists>w' ts rv. DeleteVolume store_client ''pvc-1'' volume_world = (Inr (), w') \<and>
     world_volumes w' = (world_volumes volume_world)(''pvc-1'' \<mapsto>
       (RemovePVProtection sample_volume)\<lparr>DeletionTimestamp := Some ts, ResourceVersion := rv\<rparr>)"
proof -
  have "\<exists>u w'. DeleteVolume store_client ''pvc-1'' volume_world = (Inr u, w')"
    by (rule not_isl_ok) code_simp
  then obtain w' where d: "DeleteVolume store_client ''pvc-1'' volume_world = (Inr (), w')" by auto
  have v: "world_volumes volume_world ''pvc-1'' = Some sample_volume"
    by (simp add: world_volumes_def volume_world_def lookup_obj_def sample_volume_def NewDirectPVVolume_def)
  have f: "\<not> (\<forall>f \<in> set (Finalizers sample_volume). f = volumeFinalizerPVProtection)"
    by (simp add: sample_volume_def NewDirectPVVolume_def volumeFinalizerPVProtection_def
        volumeFinalizerPurgeProtection_def)
  have "\<exists>ts rv. world_volumes w' = (world_volumes volume_world)(''pvc-1'' \<mapsto>
       (RemovePVProtection sample_volume)\<lparr>DeletionTimestamp := Some ts, ResourceVersion := rv\<rparr>)"
    using DeleteVolume_correct [OF store_cluster.cluster_axioms, OF d] unfolding v option.case if_not_P [OF f] by blast
  then show ?thesis using d by blast
qed

lemma volume_world_drive: "world_drives volume_world n = Some d \<Longrightarrow> d = snd (reserve ''pvc-1'' [] 100 sample_drive)"
  by (auto simp: world_drives_def volume_world_def lookup_obj_def split: if_splits)

lemma volume_world_wf: "\<forall>n d. world_drives volume_world n = Some d \<longrightarrow> drive_finalizers_wf d \<and> capacity_ok d"
proof (intro allI impI)
  fix n d
  assume "world_drives volume_world n = Some d"
  then have "d = snd (reserve ''pvc-1'' [] 100 sample_drive)" by (rule volume_world_drive)
  moreover have "drive_finalizers_wf (snd (reserve ''pvc-1'' [] 100 sample_drive))" by code_simp
  moreover have "capacity_ok (snd (reserve ''pvc-1'' [] 100 sample_drive))" by code_simp
  ultimately show "drive_finalizers_wf d \<and> capacity_ok d" by simp
qed

lemma volume_world_volume: "world_volumes volume_world ''pvc-1'' = Some sample_volume"
  by (simp add: world_volumes_def volume_world_def lookup_obj_def sample_volume_def NewDirectPVVolume_def)

section \<open>Expanding\<close>

lemma drive_wf_finalizers: "drive_finalizers_wf d \<Longrightarrow> Finalizers d \<noteq> []"
  by (simp add: drive_finalizers_wf_def)

lemma ControllerExpandVolume_ok:
  assumes "cluster C dstore vstore" and "ControllerExpandVolume C req w = (Inr resp, w')"
    and "\<forall>n d. dstore w n = Some d \<longrightarrow> drive_finalizers_wf d"
  shows "\<exists>v b. vstore w (ceVolumeId req) = Some v \<and> ceCapacityRange req = Some b \<and> vstore w' = vstore w \<and>
           (if vTotalCapacity (volumeStatus v) \<ge> b
            then dstore w' = dstore w \<and> resp = \<lparr> ceCapacityBytes = b, ceNodeExpansionRequired = False \<rparr>
            else resp = \<lparr> ceCapacityBytes = b, ceNodeExpansionRequired = True \<rparr> \<and>
              (\<exists>d rv. dstore w (Volume_GetDriveID C v) = Some d \<and>
                 i64 (b - vTotalCapacity (volumeStatus v)) \<le> dFreeCapacity (driveStatus d) \<and>
                 dstore w' = (dstore w)(Volume_GetDriveID C v \<mapsto>
                   (add_capacity (i64 (b - vTotalCapacity (volumeStatus v))) d)\<lparr>ResourceVersion := rv\<rparr>)))"
proof -
  note va = cluster.axioms(2) [OF assms(1)] and da = cluster.axioms(1) [OF assms(1)]
  obtain b v w1 where b: "ceCapacityRange req = Some b"
      and g: "api_Get (VolumeClient C) (ceVolumeId req) w = (Inr v, w1)"
    using assms(2) by (auto simp: ControllerExpandVolume_def split: if_splits option.splits elim!: callE)
  have v: "vstore w (ceVolumeId req) = Some v" and w1: "vstore w1 = vstore w" "dstore w1 = dstore w"
    using object_api.get_found [OF va g] object_api.get_frame [OF va g] cluster.volume_ops_drives(1) [OF assms(1) g]
    by simp_all
  let ?sz = "i64 (b - vTotalCapacity (volumeStatus v))"
  show ?thesis
  proof (cases "vTotalCapacity (volumeStatus v) \<ge> b")
    case True
    then have "w' = w1 \<and> resp = \<lparr> ceCapacityBytes = b, ceNodeExpansionRequired = False \<rparr>"
      using assms(2) b g by (auto simp: ControllerExpandVolume_def split: if_splits)
    then show ?thesis using True v b w1 by auto
  next
    case False
    then obtain d w2 y where gd: "api_Get (DriveClient C) (Volume_GetDriveID C v) w1 = (Inr d, w2)"
        and fits: "?sz \<le> dFreeCapacity (driveStatus d)"
        and u: "api_Update (DriveClient C) (add_capacity ?sz d) w2 = (Inr y, w')"
        and resp: "resp = \<lparr> ceCapacityBytes = b, ceNodeExpansionRequired = True \<rparr>"
      using assms(2) b g by (auto simp: ControllerExpandVolume_def Let_def split: if_splits elim!: callE)
    have d: "dstore w (Volume_GetDriveID C v) = Some d" "objName d = Volume_GetDriveID C v"
      using object_api.get_found [OF da gd] object_api.get_name [OF da gd] w1(2) by simp_all
    have w2: "vstore w2 = vstore w" "dstore w2 = dstore w"
      using cluster.drive_ops_volumes(1) [OF assms(1) gd] object_api.get_frame [OF da gd] w1 by simp_all
    have "vstore w' = vstore w" using cluster.drive_ops_volumes(3) [OF assms(1) u] w2 by simp
    moreover have "Finalizers d \<noteq> []" using assms(3) d drive_wf_finalizers by blast
    ultimately show ?thesis
      using False v b d resp fits object_api.update_ok [OF da u] w2 by auto
  qed
qed

text \<open>
  C7. \<^verbatim>\<open>ControllerExpandVolume\<close>. When it succeeds, the volume object is untouched
  and either it already has the required capacity and nothing changes, or exactly the missing
  bytes are moved from free to allocated on the volume's drive, within the free capacity, and the
  node expansion is asked for.
\<close>

theorem ControllerExpandVolume_correct:
  assumes "cluster C dstore vstore" and "ControllerExpandVolume C req w = (Inr resp, w')"
    and "\<forall>n d. dstore w n = Some d \<longrightarrow> drive_finalizers_wf d \<and> capacity_ok d"
    and "vstore w (ceVolumeId req) = Some v" and "0 \<le> vTotalCapacity (volumeStatus v)"
    and "ceCapacityRange req = Some b" and "in_i64 b"
  shows "vstore w' = vstore w \<and> ceCapacityBytes resp = b \<and>
         (if b \<le> vTotalCapacity (volumeStatus v) then dstore w' = dstore w \<and> \<not> ceNodeExpansionRequired resp
          else ceNodeExpansionRequired resp \<and>
            (\<exists>d d'. dstore w (Volume_GetDriveID C v) = Some d \<and>
               dstore w' = (dstore w)(Volume_GetDriveID C v \<mapsto> d') \<and> capacity_ok d' \<and>
               GetVolumes d' = GetVolumes d \<and>
               dFreeCapacity (driveStatus d') =
                 dFreeCapacity (driveStatus d) - (b - vTotalCapacity (volumeStatus v)) \<and>
               dAllocatedCapacity (driveStatus d') =
                 dAllocatedCapacity (driveStatus d) + (b - vTotalCapacity (volumeStatus v))))"
proof -
  have wf: "\<forall>n d. dstore w n = Some d \<longrightarrow> drive_finalizers_wf d" using assms(3) by blast
  note e = ControllerExpandVolume_ok [OF assms(1,2) wf]
  let ?t = "vTotalCapacity (volumeStatus v)"
  have sz: "b > ?t \<Longrightarrow> i64 (b - ?t) = b - ?t" using assms(5,7) by (simp add: i64_id in_i64_def)
  show ?thesis
  proof (cases "b \<le> ?t")
    case True
    then show ?thesis using e assms(4,6) by auto
  next
    case False
    then obtain d rv where d: "dstore w (Volume_GetDriveID C v) = Some d" "b - ?t \<le> dFreeCapacity (driveStatus d)"
        "dstore w' = (dstore w)(Volume_GetDriveID C v \<mapsto> (add_capacity (b - ?t) d)\<lparr>ResourceVersion := rv\<rparr>)"
        "vstore w' = vstore w" "resp = \<lparr> ceCapacityBytes = b, ceNodeExpansionRequired = True \<rparr>"
      using e assms(4,6) sz by auto
    have "capacity_ok d" using assms(3) d(1) by blast
    with d(2) False have "capacity_ok (add_capacity (b - ?t) d)"
        "dFreeCapacity (driveStatus (add_capacity (b - ?t) d)) = dFreeCapacity (driveStatus d) - (b - ?t)"
        "dAllocatedCapacity (driveStatus (add_capacity (b - ?t) d)) = dAllocatedCapacity (driveStatus d) + (b - ?t)"
      by (auto intro!: add_capacity_ok simp del: add_capacity_frame)
    then show ?thesis
      using False d by (intro conjI) (auto simp: GetVolumes_def)
  qed
qed

theorem ControllerExpandVolume_correct_witness:
  "\<exists>resp w' d'. ControllerExpandVolume store_client \<lparr> ceVolumeId = ''pvc-1'', ceCapacityRange = Some 300 \<rparr> volume_world
       = (Inr resp, w') \<and> ceNodeExpansionRequired resp \<and>
     world_drives w' (Volume_GetDriveID (store_client :: world client) sample_volume) = Some d' \<and> capacity_ok d'"
proof -
  let ?req = "\<lparr> ceVolumeId = ''pvc-1'', ceCapacityRange = Some 300 \<rparr>"
  have "\<exists>resp w'. ControllerExpandVolume store_client ?req volume_world = (Inr resp, w')"
    by (rule not_isl_ok) code_simp
  then obtain resp w' where e: "ControllerExpandVolume store_client ?req volume_world = (Inr resp, w')" by blast
  have v: "world_volumes volume_world (ceVolumeId ?req) = Some sample_volume" by (simp add: volume_world_volume)
  have t: "vTotalCapacity (volumeStatus sample_volume) = 100"
    by (simp add: sample_volume_def NewDirectPVVolume_def)
  show ?thesis
    using ControllerExpandVolume_correct [OF store_cluster.cluster_axioms, OF e volume_world_wf v, of 300] e t
    by (auto simp: in_i64_def)
qed

section \<open>Repeated requests\<close>

lemma selectDrive_recorded:
  assumes "drive_listing C w items" and "x \<in> set items" and "VolumeExist x (cvName req)"
    and "selectDrive C req w = (Inr d, w1)"
  shows "VolumeExist d (cvName req)"
proof -
  obtain d' where d': "find (\<lambda>d. VolumeExist d (cvName req)) items = Some d'" "VolumeExist d' (cvName req)"
    using assms(2,3) by (metis (mono_tags, lifting) find_None_iff find_Some_iff not_None_eq)
  obtain w2 where "getFilteredDrives C req w = (Inr [d'], w2)"
    using getFilteredDrives_listing [OF assms(1), of req] d'(1) by (metis option.case(2) prod.collapse)
  then have "d = d'" using assms(4) by (auto simp: selectDrive_def Let_def split: if_splits)
  then show ?thesis using d'(2) by simp
qed

text \<open>
  A repeated \<^verbatim>\<open>CreateVolume\<close> for a volume that a drive records already succeeds
  with any requested capacity: it overwrites the status of the volume with that capacity, without
  comparing it with the old one or with the drive's free capacity, and reserves nothing. The CSI
  specification asks for \<^verbatim>\<open>ALREADY_EXISTS\<close> there.
\<close>

theorem CreateVolume_retry_unchecked:
  assumes "controller_cluster C dstore vstore" and "drive_listing C w items"
    and "CreateVolume C req w = (Inr resp, w')" and "cvCapacityRange req = Some b"
    and "x \<in> set items" and "VolumeExist x (cvName req)"
  shows "dstore w' = dstore w \<and> (\<exists>v. vstore w' = (vstore w)(cvName req \<mapsto> v) \<and> vTotalCapacity (volumeStatus v) = b)"
proof -
  obtain claimID d w1 w2 where s: "selectDrive C req w = (Inr d, w1)"
    and k: "create_or_reuse C (new_volume C req claimID d) w1 = (Inr (), w2)"
    and old: "VolumeExist d (cvName req) \<longrightarrow> w' = w2"
    by (rule controller_cluster.CreateVolume_ok [OF assms(1,3)])
  have d: "VolumeExist d (cvName req)"
    by (rule selectDrive_recorded [OF assms(2,5,6) s])
  note sel = controller_cluster.selectDrive_stored [OF assms(1) s]
  note cl = controller_cluster.axioms(1) [OF assms(1)]
  obtain v where "vstore w2 = (vstore w1)(cvName req \<mapsto> v)"
      "volumeStatus v = volumeStatus (new_volume C req claimID d)"
    using cluster.create_or_reuse_effect [OF cl k] by auto
  then show ?thesis
    using d old sel(1,2) cluster.create_or_reuse_drives [OF cl k] assms(4)
    by (auto simp: requested_size_def)
qed

theorem CreateVolume_retry_unchecked_witness:
  "\<exists>resp w' v. CreateVolume store_controller (sample_request\<lparr>cvCapacityRange := Some 5000\<rparr>) volume_world = (Inr resp, w') \<and>
     world_drives w' = world_drives volume_world \<and> world_volumes w' ''pvc-1'' = Some v \<and> vTotalCapacity (volumeStatus v) = 5000"
proof -
  let ?req = "sample_request\<lparr>cvCapacityRange := Some 5000\<rparr>"
  let ?d = "snd (reserve ''pvc-1'' [] 100 sample_drive)"
  have "\<exists>resp w'. CreateVolume store_controller ?req volume_world = (Inr resp, w')"
    by (rule not_isl_ok) code_simp
  then obtain resp w' where c: "CreateVolume store_controller ?req volume_world = (Inr resp, w')" by blast
  have "paged (DriveClient store_controller) 1 opts volume_world [?d] volume_world" for opts
    using store_paged [of wDrives volume_world]
    by (simp add: store_controller_def store_client_def volume_world_def)
  then have l: "drive_listing store_controller volume_world [?d]"
    by (auto simp: drive_listing_def store_controller_def)
  have ex: "VolumeExist ?d (cvName ?req)" by code_simp
  have "world_drives w' = world_drives volume_world \<and> (\<exists>v. world_volumes w' = (world_volumes volume_world)(cvName ?req \<mapsto> v) \<and> vTotalCapacity (volumeStatus v) = 5000)"
    by (rule CreateVolume_retry_unchecked [OF store_ctl.controller_cluster_axioms, OF l c _ _ ex]) simp_all
  then show ?thesis using c by (auto simp: sample_request_def)
qed

text \<open>
  A repeated \<^verbatim>\<open>ControllerExpandVolume\<close>, sent again before the node has
  expanded the volume, reserves the missing bytes a second time: after two successful calls the
  drive's free capacity is down by twice the difference. The CSI specification requires the call to
  be idempotent.
\<close>

theorem ControllerExpandVolume_reserves_twice:
  assumes "cluster C dstore vstore" and "ControllerExpandVolume C req w = (Inr resp, w')"
    and "ControllerExpandVolume C req w' = (Inr resp', w'')"
    and "\<forall>n d. dstore w n = Some d \<longrightarrow> drive_finalizers_wf d"
    and "vstore w (ceVolumeId req) = Some v" and "ceCapacityRange req = Some b"
    and "vTotalCapacity (volumeStatus v) < b"
    and "dstore w (Volume_GetDriveID C v) = Some d"
  shows "\<exists>d''. dstore w'' (Volume_GetDriveID C v) = Some d'' \<and>
           dFreeCapacity (driveStatus d'') =
             i64 (dFreeCapacity (driveStatus d) - 2 * (b - vTotalCapacity (volumeStatus v)))"
proof -
  let ?t = "vTotalCapacity (volumeStatus v)" and ?n = "Volume_GetDriveID C v"
  obtain rv where w': "vstore w' = vstore w"
      "dstore w' = (dstore w)(?n \<mapsto> (add_capacity (i64 (b - ?t)) d)\<lparr>ResourceVersion := rv\<rparr>)"
    using ControllerExpandVolume_ok [OF assms(1,2,4)] assms(5-8) by auto
  have "\<forall>n d. dstore w' n = Some d \<longrightarrow> drive_finalizers_wf d"
    using assms(4,8) w'(2) by (auto simp: drive_finalizers_wf_def split: if_splits)
  from ControllerExpandVolume_ok [OF assms(1,3) this]
  obtain rv' where "dstore w'' ?n =
      Some ((add_capacity (i64 (b - ?t)) ((add_capacity (i64 (b - ?t)) d)\<lparr>ResourceVersion := rv\<rparr>))\<lparr>ResourceVersion := rv'\<rparr>)"
    using assms(5-8) w' by auto
  moreover have "i64 (i64 (f - i64 z) - i64 z) = i64 (f - 2 * z)" for f z
    by (simp add: i64_i64_diff i64_diff_i64)
  ultimately show ?thesis by simp
qed

theorem ControllerExpandVolume_reserves_twice_witness:
  "\<exists>resp resp' w' w'' d''.
     ControllerExpandVolume store_client \<lparr> ceVolumeId = ''pvc-1'', ceCapacityRange = Some 300 \<rparr> volume_world = (Inr resp, w') \<and>
     ControllerExpandVolume store_client \<lparr> ceVolumeId = ''pvc-1'', ceCapacityRange = Some 300 \<rparr> w' = (Inr resp', w'') \<and>
     world_drives w'' ''drive-1'' = Some d'' \<and> dFreeCapacity (driveStatus d'') = 500"
proof -
  let ?req = "\<lparr> ceVolumeId = ''pvc-1'', ceCapacityRange = Some 300 \<rparr>"
  let ?run = "ControllerExpandVolume store_client ?req"
  have "\<exists>resp w'. ?run volume_world = (Inr resp, w')" by (rule not_isl_ok) code_simp
  then obtain resp w' where e: "?run volume_world = (Inr resp, w')" by blast
  have "\<exists>resp w''. ?run (snd (?run volume_world)) = (Inr resp, w'')" by (rule not_isl_ok) code_simp
  then obtain resp' w'' where e': "?run w' = (Inr resp', w'')" using e by auto
  have wf: "\<forall>n d. world_drives volume_world n = Some d \<longrightarrow> drive_finalizers_wf d" using volume_world_wf by blast
  have id: "Volume_GetDriveID (store_client :: world client) sample_volume = ''drive-1''" by code_simp
  have d: "world_drives volume_world ''drive-1'' = Some (snd (reserve ''pvc-1'' [] 100 sample_drive))"
    by (simp add: world_drives_def volume_world_def lookup_obj_def sample_drive_def NewDirectPVDrive_def)
  have f: "dFreeCapacity (driveStatus (snd (reserve ''pvc-1'' [] 100 sample_drive))) = 900" by code_simp
  have t: "vTotalCapacity (volumeStatus sample_volume) = 100"
    by (simp add: sample_volume_def NewDirectPVVolume_def)
  show ?thesis
    using ControllerExpandVolume_reserves_twice [OF store_cluster.cluster_axioms, OF e e' wf, of sample_volume 300] e e' d f t
      volume_world_volume
    by (auto simp: id i64_id in_i64_def)
qed

theorem selectDrive_correct_witness:
  "case fst (selectDrive store_controller sample_request sample_world) of
     Inr d \<Rightarrow> d \<in> set (wDrives sample_world) \<and> matchDrive (store_controller :: world controller) d sample_request
   | Inl e \<Rightarrow> False"
proof -
  have "paged (DriveClient store_controller) 1 opts sample_world (wDrives sample_world) sample_world" for opts
    using sample_paged [of opts] by (simp add: store_controller_def)
  then have l: "drive_listing store_controller sample_world (wDrives sample_world)"
    by (auto simp: drive_listing_def store_controller_def)
  have ds: "world_drives sample_world (objName x) = Some x" if "x \<in> set (wDrives sample_world)" for x
    using that by (auto simp: world_drives_def lookup_obj_def sample_world_def sample_drive_def NewDirectPVDrive_def)
  then have free: "x \<in> set (wDrives sample_world) \<Longrightarrow> 0 \<le> dFreeCapacity (driveStatus x)" for x
    using sample_world_drives by (auto simp: capacity_ok_def)
  have nv: "\<not> (\<exists>x \<in> set (wDrives sample_world). VolumeExist x v)" for v
    using ds sample_world_drives by blast
  have ok: "\<not> isl (fst (selectDrive store_controller sample_request sample_world))" by code_simp
  show ?thesis
    using selectDrive_correct [OF l store_ctl.rand_range free, of sample_request] ok nv
    by (auto split: sum.splits)
qed

end
