(* ===== verification/Volume_Controller.thy ===== *)
theory Volume_Controller
  imports Host Csi_Controller
begin

text \<open>
  The volume controller of a node, \<^verbatim>\<open>pkg/volume/event.go\<close>: following the drive name,
  and cleaning up a deleted volume, which gives its capacity back to the drive. The deletion of the
  renamed data directory, a goroutine in the source, runs at the point where it is started; its
  error is only logged.
\<close>

datatype EventType = AddEvent | UpdateEvent | DeleteEvent

section \<open>The handler\<close>

definition volume_sync :: "('w, 'b) env_scheme \<Rightarrow> Volume \<Rightarrow> ('w, unit) io" where
  "volume_sync E volume w =
     call (api_Get (DriveClient E) (Volume_GetDriveID E volume) w)
       (\<lambda>err w. if \<not> IsNotFound err then (Inl err, w) else (Inr (), w))
       (\<lambda>drive w.
          let driveName = Drive_GetDriveName E drive
          in if Volume_GetDriveName E volume \<noteq> driveName
             then call (api_Update (VolumeClient E) (Volume_SetDriveName E driveName volume) w)
                    (\<lambda>err w. (Inl err, w)) (\<lambda>_ w. (Inr (), w))
             else (Inr (), w))"

text \<open>Giving the capacity of a volume back: the fields \<^verbatim>\<open>releaseVolume\<close> sets on
  the drive after removing the finalizer.\<close>

definition free_capacity :: "int \<Rightarrow> Drive \<Rightarrow> Drive" where
  "free_capacity sz d =
     (let free = i64 (dFreeCapacity (driveStatus d) + sz)
      in d\<lparr>driveStatus := (driveStatus d)\<lparr>
             dFreeCapacity := free,
             dAllocatedCapacity := i64 (dTotalCapacity (driveStatus d) - free)\<rparr>\<rparr>)"

definition release :: "'a lib_scheme \<Rightarrow> Volume \<Rightarrow> Drive \<Rightarrow> Drive" where
  "release L volume d =
     RemoveVolumeClaimID (GetClaimID L volume)
       (free_capacity (vTotalCapacity (volumeStatus volume)) (snd (RemoveVolumeFinalizer (objName volume) d)))"

definition releaseVolume :: "('w, 'b) env_scheme \<Rightarrow> Volume \<Rightarrow> ('w, unit) io" where
  "releaseVolume E volume w =
     call (api_Get (DriveClient E) (Volume_GetDriveID E volume) w)
       (\<lambda>err w. (Inl err, w))
       (\<lambda>drive w.
          if fst (RemoveVolumeFinalizer (objName volume) drive) then
            (let w1 = call (getDeviceByFSUUID E (vFSUUID (volumeStatus volume)) w)
                        (\<lambda>err w. w)
                        (\<lambda>device w. snd (setQuota E device (vDataPath (volumeStatus volume)) (objName volume) no_quota True w))
             in call (api_Update (DriveClient E) (release E volume drive) w1)
                  (\<lambda>err w. (Inl err, w)) (\<lambda>_ w. (Inr (), w)))
          else (Inr (), w))"

text \<open>Unmounting a path of the volume; a path error does not count.\<close>

definition unmount_path :: "('w, 'b) env_scheme \<Rightarrow> string \<Rightarrow> ('w, unit) io" where
  "unmount_path E p w =
     (if p \<noteq> [] then
        call (unmount E p w)
          (\<lambda>err w. if \<not> errors_As_PathError err then (Inl err, w) else (Inr (), w))
          (\<lambda>_ w. (Inr (), w))
      else (Inr (), w))"

definition volume_delete :: "('w, 'b) env_scheme \<Rightarrow> Volume \<Rightarrow> ('w, unit) io" where
  "volume_delete E vol w =
     call (api_Get (VolumeClient E) (objName vol) w)
       (\<lambda>err w. if IsNotFound err then (Inr (), w) else (Inl err, w))
       (\<lambda>volume w.
          if \<not> IsReleased volume then (Inl (ErrorString ''volume must be released before cleaning up''), w)
          else call (unmount_path E (vTargetPath (volumeStatus volume)) w)
            (\<lambda>err w. (Inl err, w))
            (\<lambda>_ w. call (unmount_path E (vStagingTargetPath (volumeStatus volume)) w)
               (\<lambda>err w. (Inl err, w))
               (\<lambda>_ w.
                  let deletedDir = vDataPath (volumeStatus volume) @ ''.deleted'';
                      go_on = (\<lambda>w.
                        let w1 = snd (os_RemoveAll E deletedDir w)
                        in call (releaseVolume E volume w1)
                             (\<lambda>err w. (Inl err, w))
                             (\<lambda>_ w. call (api_Update (VolumeClient E) (RemovePurgeProtection volume) w)
                                (\<lambda>err w. (Inl err, w)) (\<lambda>_ w. (Inr (), w))))
                  in call (os_Rename E (vDataPath (volumeStatus volume)) deletedDir w)
                       (\<lambda>err w. if \<not> errors_Is_ErrNotExist err then (Inl err, w) else go_on w)
                       (\<lambda>_ w. go_on w))))"

definition Volume_Handle :: "('w, 'b) env_scheme \<Rightarrow> EventType \<Rightarrow> Volume \<Rightarrow> ('w, unit) io" where
  "Volume_Handle E eventType volume w =
     (if DeletionTimestamp volume \<noteq> None then volume_delete E volume w
      else if eventType = AddEvent then volume_sync E volume w
      else (Inr (), w))"

section \<open>The release\<close>

lemma RemoveVolumeFinalizer_frame [simp]:
  "objName (snd (RemoveVolumeFinalizer v d)) = objName d"
  "ResourceVersion (snd (RemoveVolumeFinalizer v d)) = ResourceVersion d"
  "objLabels (snd (RemoveVolumeFinalizer v d)) = objLabels d"
  "DeletionTimestamp (snd (RemoveVolumeFinalizer v d)) = DeletionTimestamp d"
  "driveSpec (snd (RemoveVolumeFinalizer v d)) = driveSpec d"
  "driveStatus (snd (RemoveVolumeFinalizer v d)) = driveStatus d"
  by (simp_all add: RemoveVolumeFinalizer_def Let_def)

lemma RemoveVolumeClaimID_frame [simp]:
  "objName (RemoveVolumeClaimID c d) = objName d"
  "ResourceVersion (RemoveVolumeClaimID c d) = ResourceVersion d"
  "Finalizers (RemoveVolumeClaimID c d) = Finalizers d"
  "DeletionTimestamp (RemoveVolumeClaimID c d) = DeletionTimestamp d"
  "driveSpec (RemoveVolumeClaimID c d) = driveSpec d"
  "driveStatus (RemoveVolumeClaimID c d) = driveStatus d"
  by (simp_all add: RemoveVolumeClaimID_def)

lemma free_capacity_frame [simp]:
  "objName (free_capacity sz d) = objName d"
  "ResourceVersion (free_capacity sz d) = ResourceVersion d"
  "Finalizers (free_capacity sz d) = Finalizers d"
  "objLabels (free_capacity sz d) = objLabels d"
  "DeletionTimestamp (free_capacity sz d) = DeletionTimestamp d"
  "driveSpec (free_capacity sz d) = driveSpec d"
  "dTotalCapacity (driveStatus (free_capacity sz d)) = dTotalCapacity (driveStatus d)"
  "dFreeCapacity (driveStatus (free_capacity sz d)) = i64 (dFreeCapacity (driveStatus d) + sz)"
  "dAllocatedCapacity (driveStatus (free_capacity sz d)) =
     i64 (dTotalCapacity (driveStatus d) - i64 (dFreeCapacity (driveStatus d) + sz))"
  "dFSUUID (driveStatus (free_capacity sz d)) = dFSUUID (driveStatus d)"
  by (simp_all add: free_capacity_def Let_def)

lemma release_frame [simp]:
  "objName (release L v d) = objName d"
  "ResourceVersion (release L v d) = ResourceVersion d"
  "Finalizers (release L v d) = Finalizers (snd (RemoveVolumeFinalizer (objName v) d))"
  "DeletionTimestamp (release L v d) = DeletionTimestamp d"
  "dTotalCapacity (driveStatus (release L v d)) = dTotalCapacity (driveStatus d)"
  "dFreeCapacity (driveStatus (release L v d)) = i64 (dFreeCapacity (driveStatus d) + vTotalCapacity (volumeStatus v))"
  "dAllocatedCapacity (driveStatus (release L v d)) =
     i64 (dTotalCapacity (driveStatus d) - i64 (dFreeCapacity (driveStatus d) + vTotalCapacity (volumeStatus v)))"
  by (simp_all add: release_def)

lemma GetVolumes_release: "GetVolumes (release L v d) = filter (\<lambda>u. u \<noteq> objName v) (GetVolumes d)"
  using drv_volumes.volumes_remove [of "objName v" d] by (simp add: GetVolumes_def)

lemma release_wf: "drive_finalizers_wf d \<Longrightarrow> drive_finalizers_wf (release L v d)"
  using drv_volumes.invar_remove [of d "objName v"] by (simp add: drive_finalizers_wf_def)

lemma release_capacity:
  assumes "capacity_ok d" and "0 \<le> vTotalCapacity (volumeStatus v)"
    and "dFreeCapacity (driveStatus d) + vTotalCapacity (volumeStatus v) \<le> dTotalCapacity (driveStatus d)"
  shows "capacity_ok (release L v d)"
    and "dFreeCapacity (driveStatus (release L v d)) = dFreeCapacity (driveStatus d) + vTotalCapacity (volumeStatus v)"
    and "dAllocatedCapacity (driveStatus (release L v d)) =
           dTotalCapacity (driveStatus d) - dFreeCapacity (driveStatus d) - vTotalCapacity (volumeStatus v)"
  using assms by (simp_all add: capacity_ok_def i64_id in_i64_def)

section \<open>What the handler does\<close>

context host_cluster
begin

lemma unmount_path_stores:
  assumes "unmount_path E p w = (r, w')"
  shows "dstore w' = dstore w" and "vstore w' = vstore w"
proof -
  have "dstore w' = dstore w \<and> vstore w' = vstore w"
    using assms unfolding unmount_path_def
    by (auto split: if_splits elim!: callE simp: host_ops_drives(2) host_ops_volumes(2))
  then show "dstore w' = dstore w" and "vstore w' = vstore w" by simp_all
qed

lemma releaseVolume_effect:
  assumes "releaseVolume E volume w = (Inr u, w')" and "\<forall>n d. dstore w n = Some d \<longrightarrow> drive_finalizers_wf d"
  shows "vstore w' = vstore w \<and>
         (\<exists>d. dstore w (Volume_GetDriveID E volume) = Some d \<and>
            (if VolumeExist d (objName volume)
             then \<exists>rv. dstore w' = (dstore w)(Volume_GetDriveID E volume \<mapsto> (release E volume d)\<lparr>ResourceVersion := rv\<rparr>)
             else dstore w' = dstore w))"
proof -
  obtain d w1 where g: "api_Get (DriveClient E) (Volume_GetDriveID E volume) w = (Inr d, w1)"
    using assms(1) by (auto simp: releaseVolume_def elim!: callE)
  have d: "dstore w (Volume_GetDriveID E volume) = Some d" "objName d = Volume_GetDriveID E volume"
    and w1: "dstore w1 = dstore w" "vstore w1 = vstore w"
    using d.get_found [OF g] d.get_name [OF g] d.get_frame [OF g] drive_ops_volumes(1) [OF g] by simp_all
  show ?thesis
  proof (cases "VolumeExist d (objName volume)")
    case False
    then show ?thesis
      using assms(1) g d w1 by (auto simp: releaseVolume_def drv_volumes.removed_iff drv_volumes.exist_iff)
  next
    case True
    let ?w2 = "call (getDeviceByFSUUID E (vFSUUID (volumeStatus volume)) w1) (\<lambda>err w. w)
        (\<lambda>device w. snd (setQuota E device (vDataPath (volumeStatus volume)) (objName volume) no_quota True w))"
    obtain y where u: "api_Update (DriveClient E) (release E volume d) ?w2 = (Inr y, w')"
      using assms(1) g True
      by (auto simp: releaseVolume_def drv_volumes.removed_iff drv_volumes.exist_iff Let_def elim!: callE)
    have w2: "dstore ?w2 = dstore w" "vstore ?w2 = vstore w"
      using w1 host_ops_drives(5,7) host_ops_volumes(5,7)
      by (auto simp: call_def split: prod.splits sum.splits) (metis prod.collapse)+
    have "Finalizers (release E volume d) \<noteq> []"
      using release_wf drive_wf_finalizers assms(2) d(1) by blast
    then have "\<exists>rv. dstore w' = (dstore w)(Volume_GetDriveID E volume \<mapsto> (release E volume d)\<lparr>ResourceVersion := rv\<rparr>)"
      using d.update_ok [OF u] d(2) w2 by auto
    then show ?thesis using True d(1) drive_ops_volumes(3) [OF u] w2 by auto
  qed
qed

lemma volume_delete_effect:
  assumes "volume_delete E vol w = (Inr u, w')" and "vstore w (objName vol) = Some v"
    and "DeletionTimestamp v \<noteq> None" and "\<forall>n d. dstore w n = Some d \<longrightarrow> drive_finalizers_wf d"
  shows "Finalizers v = [volumeFinalizerPurgeProtection] \<and> vstore w' = (vstore w)(objName vol := None) \<and>
         (\<exists>d. dstore w (Volume_GetDriveID E v) = Some d \<and>
            (if VolumeExist d (objName vol)
             then \<exists>rv. dstore w' = (dstore w)(Volume_GetDriveID E v \<mapsto> (release E v d)\<lparr>ResourceVersion := rv\<rparr>)
             else dstore w' = dstore w))"
proof -
  obtain v' w1 where g: "api_Get (VolumeClient E) (objName vol) w = (Inr v', w1)"
    using assms(1,2) v.get_not_found
    by (cases "api_Get (VolumeClient E) (objName vol) w"; cases "fst (api_Get (VolumeClient E) (objName vol) w)")
      (auto simp: volume_delete_def split: if_splits)
  have v: "v' = v" "objName v = objName vol" using v.get_found [OF g] v.get_name [OF g] assms(2) by auto
  have w1: "dstore w1 = dstore w" "vstore w1 = vstore w"
    using v.get_frame [OF g] volume_ops_drives(1) [OF g] by simp_all
  obtain w2 w3 w4 w6 r y where rel: "IsReleased v"
    and u1: "unmount_path E (vTargetPath (volumeStatus v)) w1 = (Inr (), w2)"
    and u2: "unmount_path E (vStagingTargetPath (volumeStatus v)) w2 = (Inr (), w3)"
    and rn: "os_Rename E (vDataPath (volumeStatus v)) (vDataPath (volumeStatus v) @ ''.deleted'') w3 = (r, w4)"
    and rv: "releaseVolume E v (snd (os_RemoveAll E (vDataPath (volumeStatus v) @ ''.deleted'') w4)) = (Inr (), w6)"
    and up: "api_Update (VolumeClient E) (RemovePurgeProtection v) w6 = (Inr y, w')"
    using assms(1) g v(1) unfolding volume_delete_def by (auto simp: Let_def split: if_splits elim!: callE)
  obtain r5 w5 where w5: "os_RemoveAll E (vDataPath (volumeStatus v) @ ''.deleted'') w4 = (r5, w5)" by fastforce
  have st: "dstore w5 = dstore w" "vstore w5 = vstore w"
    using unmount_path_stores [OF u1] unmount_path_stores [OF u2] host_ops_drives(11) [OF rn] host_ops_volumes(11) [OF rn]
      host_ops_drives(12) [OF w5] host_ops_volumes(12) [OF w5] w1 by simp_all
  have rv': "releaseVolume E v w5 = (Inr (), w6)" using rv w5 by simp
  have rel_eff: "vstore w6 = vstore w \<and>
         (\<exists>d. dstore w (Volume_GetDriveID E v) = Some d \<and>
            (if VolumeExist d (objName v)
             then \<exists>rv. dstore w6 = (dstore w)(Volume_GetDriveID E v \<mapsto> (release E v d)\<lparr>ResourceVersion := rv\<rparr>)
             else dstore w6 = dstore w))"
    using releaseVolume_effect [OF rv'] assms(4) st by auto
  have fin: "Finalizers v = [volumeFinalizerPurgeProtection]" using rel by (simp add: IsReleased_def)
  then have "Finalizers (RemovePurgeProtection v) = []" "DeletionTimestamp (RemovePurgeProtection v) \<noteq> None"
    using assms(3) by (simp_all add: RemovePurgeProtection_def)
  then have "vstore w' = (vstore w)(objName vol := None)"
    using v.update_ok [OF up] rel_eff v(2) by (auto simp: RemovePurgeProtection_def)
  then show ?thesis
    using fin rel_eff volume_ops_drives(3) [OF up] v(2) by auto
qed

end


definition deleted_volume :: Volume where
  "deleted_volume = (RemovePVProtection sample_volume)\<lparr>DeletionTimestamp := Some 1\<rparr>"

definition release_world :: hworld where
  "release_world =
     \<lparr> wDrives = [snd (reserve ''pvc-1'' [] 100 sample_drive)], wVolumes = [deleted_volume],
       wNodes = [], wInitRequests = [], wMounts = [] \<rparr>"


end
