(* ===== verification/Drive_Controller.thy ===== *)
theory Drive_Controller
  imports Volume_Controller
begin

text \<open>
  The drive controller of a node, \<^verbatim>\<open>pkg/drive/event.go\<close>: staging a volume on its
  drive, unmounting, removing and moving drives, and the state check of ready and lost drives. The
  source passes drives and volumes by pointer; a function that changes its argument returns the
  changed object with its result. The environment of \<^verbatim>\<open>StageVolume\<close>, a list of
  function arguments in the source, is the record \<open>env\<close>.
\<close>

section \<open>Staging\<close>

definition SetIOError :: "('w, 'b) env_scheme \<Rightarrow> DriveID \<Rightarrow> ('w, unit) io" where
  "SetIOError E driveID =
     RetryOnConflict E (\<lambda>w.
       call (api_Get (DriveClient E) driveID w)
         (\<lambda>err w. (Inl err, w))
         (\<lambda>drive w.
            let drive' = SetIOErrorCondition (Now E w)
                           (drive\<lparr>driveStatus := (driveStatus drive)\<lparr>dStatus := DriveStatusError\<rparr>\<rparr>)
            in call (api_Update (DriveClient E) drive' w) (\<lambda>err w. (Inl err, w)) (\<lambda>_ w. (Inr (), w))))"

definition stageVolumeMount :: "('w, 'b) env_scheme \<Rightarrow> string \<Rightarrow> string \<Rightarrow> string \<Rightarrow> ('w, unit) io" where
  "stageVolumeMount E volumeName volumeDir stagingTargetPath w =
     call (getMounts E w)
       (\<lambda>err w. (Inl err, w))
       (\<lambda>mountInfo w.
          if \<not> MountInfo_IsEmpty (FilterByMountPoint stagingTargetPath (FilterByRoot (''/'' @ volumeName) mountInfo))
          then (Inr (), w)
          else bindMount E volumeDir stagingTargetPath False w)"

definition staged :: "string \<Rightarrow> string \<Rightarrow> Volume \<Rightarrow> Volume" where
  "staged volumeDir stagingTargetPath volume =
     volume\<lparr>volumeStatus := (volumeStatus volume)\<lparr>
       vDataPath := volumeDir, vStagingTargetPath := stagingTargetPath, vStatus := VolumeStatusReady\<rparr>\<rparr>"

text \<open>The part of \<^verbatim>\<open>StageVolume\<close> after the directory exists.\<close>

definition stage_mount ::
  "('w, 'b) env_scheme \<Rightarrow> string \<Rightarrow> string \<Rightarrow> string \<Rightarrow> Volume \<Rightarrow> 'w \<Rightarrow> ((code \<times> error) option \<times> Volume) \<times> 'w" where
  "stage_mount E device volumeDir stagingTargetPath volume w =
     call (setQuota E device volumeDir (objName volume) (capacity_quota (vTotalCapacity (volumeStatus volume))) False w)
       (\<lambda>err w. ((Some (codes_Internal, Wrap ''unable to set quota on volume data path'' err), volume), w))
       (\<lambda>_ w.
          call (if stagingTargetPath \<noteq> [] then stageVolumeMount E (objName volume) volumeDir stagingTargetPath w
                else (Inr (), w))
            (\<lambda>err w. ((Some (codes_Internal,
                Wrap ''unable to bind mount volume directory to staging target path'' err), volume), w))
            (\<lambda>_ w.
               let volume' = staged volumeDir stagingTargetPath volume
               in call (api_Update (VolumeClient E) volume' w)
                    (\<lambda>err w. ((Some (codes_Internal, err), volume'), w))
                    (\<lambda>_ w. ((None, volume'), w))))"

definition StageVolume ::
  "('w, 'b) env_scheme \<Rightarrow> Volume \<Rightarrow> string \<Rightarrow> 'w \<Rightarrow> ((code \<times> error) option \<times> Volume) \<times> 'w" where
  "StageVolume E volume stagingTargetPath w =
     call (getDeviceByFSUUID E (vFSUUID (volumeStatus volume)) w)
       (\<lambda>err w. ((Some (codes_Internal, Wrap ''unable to find device by FSUUID'' err), volume), w))
       (\<lambda>device w.
          let volumeDir = GetVolumeDir (vFSUUID (volumeStatus volume)) (objName volume)
          in call (mkdir E volumeDir w)
               (\<lambda>err w.
                  if errors_Is_ErrExist err then stage_mount E device volumeDir stagingTargetPath volume w
                  else if (case errors_Unwrap err of None \<Rightarrow> False | Some e \<Rightarrow> errors_Is_errno e EIO) then
                    call (SetIOError E (Volume_GetDriveID E volume) w)
                      (\<lambda>uerr w. ((Some (codes_Internal, Wrap ''unable to set drive error'' uerr), volume), w))
                      (\<lambda>_ w. ((Some (codes_Internal, err), volume), w))
                  else ((Some (codes_Internal, err), volume), w))
               (\<lambda>_ w. stage_mount E device volumeDir stagingTargetPath volume w))"

section \<open>Unmounting, removing and moving a drive\<close>

fun unmount_entries :: "('w, 'b) env_scheme \<Rightarrow> bool \<Rightarrow> string \<Rightarrow> MountEntry list \<Rightarrow> ('w, unit) io" where
  "unmount_entries E skipDriveMount driveMountPoint [] w = (Inr (), w)"
| "unmount_entries E skipDriveMount driveMountPoint (mountEntry # ms) w =
     (if skipDriveMount \<and> MountPoint mountEntry = driveMountPoint
      then unmount_entries E skipDriveMount driveMountPoint ms w
      else call (unmount E (MountPoint mountEntry) w)
             (\<lambda>err w. (Inl err, w))
             (\<lambda>_ w. unmount_entries E skipDriveMount driveMountPoint ms w))"

text \<open>The mount point under which the drive is mounted: the current one, else the legacy one.\<close>

definition drive_mount_point :: "MountInfo \<Rightarrow> string \<Rightarrow> string option" where
  "drive_mount_point mountInfo fsuuid =
     (if \<not> MountInfo_IsEmpty (FilterByMountPoint (GetDriveMountDir fsuuid) mountInfo) then Some (GetDriveMountDir fsuuid)
      else if \<not> MountInfo_IsEmpty (FilterByMountPoint (LegacyDriveMountDir fsuuid) mountInfo)
        then Some (LegacyDriveMountDir fsuuid)
      else None)"

definition mount_devices :: "MountInfo \<Rightarrow> StringSet" where
  "mount_devices info = fold (\<lambda>m. StringSet_Set (MountSource m)) (MountInfo_List info) []"

definition unmountDrive :: "('w, 'b) env_scheme \<Rightarrow> Drive \<Rightarrow> bool \<Rightarrow> ('w, unit) io" where
  "unmountDrive E drive skipDriveMount w =
     call (getMounts E w)
       (\<lambda>err w. (Inl err, w))
       (\<lambda>mountInfo w.
          case drive_mount_point mountInfo (dFSUUID (driveStatus drive)) of
            None \<Rightarrow> (Inr (), w)
          | Some driveMountPoint \<Rightarrow>
              let devices = mount_devices (FilterByMountPoint driveMountPoint mountInfo)
              in if length devices > 1 then (Inl (ErrorString ''multiple devices are mounted for FSUUID''), w)
                 else unmount_entries E skipDriveMount driveMountPoint
                        (MountInfo_List (FilterByMountSource (StringSet_ToSlice devices ! 0) mountInfo)) w)"

definition drive_remove :: "('w, 'b) env_scheme \<Rightarrow> Drive \<Rightarrow> 'w \<Rightarrow> (unit result \<times> Drive) \<times> 'w" where
  "drive_remove E drive w =
     (if GetVolumeCount drive > 0 then ((Inl (ErrorString ''drive still contains volumes''), drive), w)
      else call (unmountDrive E drive False w)
        (\<lambda>err w. ((Inl err, drive), w))
        (\<lambda>_ w.
           let drive' = snd (RemoveFinalizers drive)
           in call (api_Update (DriveClient E) drive' w)
                (\<lambda>err w. ((Inl err, drive'), w))
                (\<lambda>_ w. call (api_Delete (DriveClient E) (objName drive') w)
                   (\<lambda>err w. ((Inl err, drive'), w))
                   (\<lambda>_ w. ((Inr (), drive'), snd (rmdir E (dFSUUID (driveStatus drive')) w))))))"

text \<open>One volume of \<^verbatim>\<open>move\<close>: bound to the destination drive, then staged there
  or set back to pending, then written. If it cannot be read, the client returns no object and the
  log line that names the volume dereferences nil.\<close>

definition rebind :: "'a lib_scheme \<Rightarrow> Drive \<Rightarrow> Volume \<Rightarrow> Volume" where
  "rebind L drive volume =
     (let v1 = volume\<lparr>volumeStatus := (volumeStatus volume)\<lparr>vFSUUID := dFSUUID (driveStatus drive)\<rparr>\<rparr>;
          v2 = Volume_SetDriveName L (Drive_GetDriveName L drive) (Volume_SetDriveID L (Drive_GetDriveID drive) v1)
      in v2\<lparr>volumeStatus := (volumeStatus v2)\<lparr>vDataPath := []\<rparr>\<rparr>)"

definition move_volume :: "('w, 'b) env_scheme \<Rightarrow> Drive \<Rightarrow> string \<Rightarrow> ('w, unit) io" where
  "move_volume E drive volumeName w =
     call (api_Get (VolumeClient E) volumeName w)
       (\<lambda>err w. (Inl (Panic ''nil volume''), w))
       (\<lambda>volume w.
          if vFSUUID (volumeStatus volume) = dFSUUID (driveStatus drive) then (Inr (), w)
          else if IsPublished volume then (Inl (ErrorString ''cannot move published volume''), w)
          else if Volume_GetNodeID E volume \<noteq> Drive_GetNodeID E drive
            then (Inl (ErrorString ''volume must be on same node of destination drive''), w)
          else
            let volume1 = rebind E drive volume;
                ((_, volume2), w1) =
                  (if IsStaged volume1 then StageVolume E volume1 (vStagingTargetPath (volumeStatus volume1)) w
                   else ((None, volume1\<lparr>volumeStatus := (volumeStatus volume1)\<lparr>vStatus := VolumeStatusPending\<rparr>\<rparr>), w))
            in call (api_Update (VolumeClient E) volume2 w1) (\<lambda>err w. (Inl err, w)) (\<lambda>_ w. (Inr (), w)))"

fun move_volumes :: "('w, 'b) env_scheme \<Rightarrow> Drive \<Rightarrow> string list \<Rightarrow> ('w, unit) io" where
  "move_volumes E drive [] w = (Inr (), w)"
| "move_volumes E drive (v # vs) w =
     call (move_volume E drive v w) (\<lambda>err w. (Inl err, w)) (\<lambda>_ w. move_volumes E drive vs w)"

definition set_drive_status :: "DriveStatusValue \<Rightarrow> Drive \<Rightarrow> Drive" where
  "set_drive_status s d = d\<lparr>driveStatus := (driveStatus d)\<lparr>dStatus := s\<rparr>\<rparr>"

definition drive_move :: "('w, 'b) env_scheme \<Rightarrow> Drive \<Rightarrow> 'w \<Rightarrow> (unit result \<times> Drive) \<times> 'w" where
  "drive_move E drive w =
     call (move_volumes E drive (GetVolumes drive) w)
       (\<lambda>err w. ((Inl err, drive), w))
       (\<lambda>_ w.
          let drive' = set_drive_status DriveStatusReady drive
          in call (api_Update (DriveClient E) drive' w)
               (\<lambda>err w. ((Inl err, drive'), w)) (\<lambda>_ w. ((Inr (), drive'), w)))"

definition drive_handleUpdate :: "('w, 'b) env_scheme \<Rightarrow> Drive \<Rightarrow> 'w \<Rightarrow> (unit result \<times> Drive) \<times> 'w" where
  "drive_handleUpdate E drive w =
     (if dStatus (driveStatus drive) = DriveStatusRemoved then drive_remove E drive w
      else if dStatus (driveStatus drive) = DriveStatusMoving then drive_move E drive w
      else ((Inr (), drive), w))"

section \<open>Checking a drive\<close>

definition checkDrive :: "('w, 'b) env_scheme \<Rightarrow> Drive \<Rightarrow> ('w, unit) io" where
  "checkDrive E drive w =
     (let fsuuid = dFSUUID (driveStatus drive)
      in if dStatus (driveStatus drive) = DriveStatusReady then
           call (exists E (GetVolumeRootDir fsuuid) w)
             (\<lambda>err w.
                if (case errors_Unwrap err of None \<Rightarrow> False | Some e \<Rightarrow> errors_Is_errno e EIO)
                then (Inr (), snd (SetIOError E (Drive_GetDriveID drive) w))
                else (Inr (), w))
             (\<lambda>_ w.
                call (getDeviceByFSUUID E fsuuid w)
                  (\<lambda>err w. (Inr (), snd (api_Update (DriveClient E) (set_drive_status DriveStatusLost drive) w)))
                  (\<lambda>_ w. (Inr (), w)))
         else if dStatus (driveStatus drive) = DriveStatusLost then
           call (getDeviceByFSUUID E fsuuid w)
             (\<lambda>err w. (Inr (), w))
             (\<lambda>device w.
                let (drive1, w1) =
                      call (xfs_Mount E (AddDevPrefix device) (GetDriveMountDir fsuuid) w)
                        (\<lambda>err w. (SetMountErrorCondition (Now E w) ''unable to mount''
                                    (set_drive_status DriveStatusError drive), w))
                        (\<lambda>_ w. (set_drive_status DriveStatusReady drive, w));
                    drive2 = Drive_SetDriveName E (TrimDevPrefix device) drive1
                in (Inr (), snd (api_Update (DriveClient E) drive2 w1)))
         else (Inr (), w))"

definition Drive_Handle :: "('w, 'b) env_scheme \<Rightarrow> EventType \<Rightarrow> Drive \<Rightarrow> ('w, unit) io" where
  "Drive_Handle E eventType drive w =
     (case eventType of
        AddEvent \<Rightarrow> (let ((r, _), w1) = drive_handleUpdate E drive w in (r, w1))
      | UpdateEvent \<Rightarrow>
          (let ((r, drive'), w1) = drive_handleUpdate E drive w
           in case r of Inl err \<Rightarrow> (Inl err, w1) | Inr _ \<Rightarrow> checkDrive E drive' w1)
      | DeleteEvent \<Rightarrow> (Inr (), w))"

section \<open>The states of a drive\<close>

text \<open>The steps by which the controller changes a stored drive: an I/O error from any state, a
  ready drive is lost, a lost drive is found again or cannot be mounted, a moving drive becomes
  ready. Each step makes a later version.\<close>

inductive drive_event :: "Drive \<Rightarrow> Drive \<Rightarrow> bool" where
  io_error: "ResourceVersion d < rv \<Longrightarrow>
     drive_event d ((SetIOErrorCondition now (set_drive_status DriveStatusError d))\<lparr>ResourceVersion := rv\<rparr>)"
| lost: "dStatus (driveStatus d) = DriveStatusReady \<Longrightarrow> ResourceVersion d < rv \<Longrightarrow>
     drive_event d ((set_drive_status DriveStatusLost d)\<lparr>ResourceVersion := rv\<rparr>)"
| found: "dStatus (driveStatus d) = DriveStatusLost \<Longrightarrow> ResourceVersion d < rv \<Longrightarrow>
     drive_event d ((snd (Drive_SetLabel DriveNameLabelKey n (set_drive_status DriveStatusReady d)))\<lparr>ResourceVersion := rv\<rparr>)"
| mount_error: "dStatus (driveStatus d) = DriveStatusLost \<Longrightarrow> ResourceVersion d < rv \<Longrightarrow>
     drive_event d ((snd (Drive_SetLabel DriveNameLabelKey n (SetMountErrorCondition now m (set_drive_status DriveStatusError d))))
                      \<lparr>ResourceVersion := rv\<rparr>)"
| moved: "dStatus (driveStatus d) = DriveStatusMoving \<Longrightarrow> ResourceVersion d < rv \<Longrightarrow>
     drive_event d ((set_drive_status DriveStatusReady d)\<lparr>ResourceVersion := rv\<rparr>)"

lemma set_drive_status_frame [simp]:
  "objName (set_drive_status s d) = objName d"
  "ResourceVersion (set_drive_status s d) = ResourceVersion d"
  "Finalizers (set_drive_status s d) = Finalizers d"
  "objLabels (set_drive_status s d) = objLabels d"
  "DeletionTimestamp (set_drive_status s d) = DeletionTimestamp d"
  "driveSpec (set_drive_status s d) = driveSpec d"
  "dTotalCapacity (driveStatus (set_drive_status s d)) = dTotalCapacity (driveStatus d)"
  "dAllocatedCapacity (driveStatus (set_drive_status s d)) = dAllocatedCapacity (driveStatus d)"
  "dFreeCapacity (driveStatus (set_drive_status s d)) = dFreeCapacity (driveStatus d)"
  "dFSUUID (driveStatus (set_drive_status s d)) = dFSUUID (driveStatus d)"
  "dStatus (driveStatus (set_drive_status s d)) = s"
  by (simp_all add: set_drive_status_def)

lemma setErrorCondition_frame [simp]:
  "objName (setErrorCondition now t r m d) = objName d"
  "ResourceVersion (setErrorCondition now t r m d) = ResourceVersion d"
  "Finalizers (setErrorCondition now t r m d) = Finalizers d"
  "objLabels (setErrorCondition now t r m d) = objLabels d"
  "DeletionTimestamp (setErrorCondition now t r m d) = DeletionTimestamp d"
  "driveSpec (setErrorCondition now t r m d) = driveSpec d"
  "dTotalCapacity (driveStatus (setErrorCondition now t r m d)) = dTotalCapacity (driveStatus d)"
  "dAllocatedCapacity (driveStatus (setErrorCondition now t r m d)) = dAllocatedCapacity (driveStatus d)"
  "dFreeCapacity (driveStatus (setErrorCondition now t r m d)) = dFreeCapacity (driveStatus d)"
  "dFSUUID (driveStatus (setErrorCondition now t r m d)) = dFSUUID (driveStatus d)"
  "dStatus (driveStatus (setErrorCondition now t r m d)) = dStatus (driveStatus d)"
  by (simp_all add: setErrorCondition_def Let_def)

lemmas drive_event_defs = SetIOErrorCondition_def SetMountErrorCondition_def Drive_SetDriveName_def

definition drive_kept :: "Drive \<Rightarrow> Drive \<Rightarrow> bool" where
  "drive_kept d d' \<longleftrightarrow>
     objName d' = objName d \<and> Finalizers d' = Finalizers d \<and> DeletionTimestamp d' = DeletionTimestamp d \<and>
     driveSpec d' = driveSpec d \<and>
     dTotalCapacity (driveStatus d') = dTotalCapacity (driveStatus d) \<and>
     dAllocatedCapacity (driveStatus d') = dAllocatedCapacity (driveStatus d) \<and>
     dFreeCapacity (driveStatus d') = dFreeCapacity (driveStatus d) \<and>
     dFSUUID (driveStatus d') = dFSUUID (driveStatus d)"

lemma drive_event_kept: "drive_event d d' \<Longrightarrow> drive_kept d d' \<and> ResourceVersion d < ResourceVersion d'"
  by (induction rule: drive_event.induct) (simp_all add: drive_kept_def drive_event_defs)

lemma drive_events_kept: "drive_event\<^sup>*\<^sup>* d d' \<Longrightarrow> drive_kept d d'"
  by (induction rule: rtranclp_induct) (auto simp: drive_kept_def dest: drive_event_kept)

lemma drive_events_version: "drive_event\<^sup>*\<^sup>* d d' \<Longrightarrow> d' = d \<or> ResourceVersion d < ResourceVersion d'"
  by (induction rule: rtranclp_induct) (auto dest: drive_event_kept)

text \<open>A drive that is out of service becomes ready again only from the states lost and moving.\<close>

lemma drive_events_ready:
  "drive_event\<^sup>*\<^sup>* d d' \<Longrightarrow> dStatus (driveStatus d) \<notin> {DriveStatusReady, DriveStatusLost, DriveStatusMoving} \<Longrightarrow>
     dStatus (driveStatus d') \<in> {dStatus (driveStatus d), DriveStatusError}"
proof (induction rule: rtranclp_induct)
  case (step y z)
  then show ?case by (auto simp: drive_event.simps drive_event_defs)
qed simp

text \<open>Stores that evolve by such steps.\<close>

definition evolves :: "(string \<Rightarrow> Drive option) \<Rightarrow> (string \<Rightarrow> Drive option) \<Rightarrow> bool" where
  "evolves \<sigma> \<sigma>' \<longleftrightarrow> (\<forall>n. rel_option drive_event\<^sup>*\<^sup>* (\<sigma> n) (\<sigma>' n))"

definition drives_wf :: "(string \<Rightarrow> Drive option) \<Rightarrow> bool" where
  "drives_wf \<sigma> \<longleftrightarrow> (\<forall>n d. \<sigma> n = Some d \<longrightarrow> drive_finalizers_wf d)"

lemma evolves_refl [simp]: "evolves \<sigma> \<sigma>"
  by (simp add: evolves_def option.rel_refl)

lemma evolves_trans: "evolves \<sigma> \<sigma>' \<Longrightarrow> evolves \<sigma>' \<sigma>'' \<Longrightarrow> evolves \<sigma> \<sigma>''"
  unfolding evolves_def
proof
  fix n
  assume a: "\<forall>n. rel_option drive_event\<^sup>*\<^sup>* (\<sigma> n) (\<sigma>' n)" "\<forall>n. rel_option drive_event\<^sup>*\<^sup>* (\<sigma>' n) (\<sigma>'' n)"
  then have "rel_option drive_event\<^sup>*\<^sup>* (\<sigma> n) (\<sigma>' n)" "rel_option drive_event\<^sup>*\<^sup>* (\<sigma>' n) (\<sigma>'' n)" by blast+
  then show "rel_option drive_event\<^sup>*\<^sup>* (\<sigma> n) (\<sigma>'' n)"
    by (cases "\<sigma> n"; cases "\<sigma>' n"; cases "\<sigma>'' n") auto
qed

lemma evolves_step: "\<sigma> n = Some d \<Longrightarrow> drive_event d d' \<Longrightarrow> evolves \<sigma> (\<sigma>(n \<mapsto> d'))"
  by (auto simp: evolves_def option.rel_refl)

lemma evolves_lookup: "evolves \<sigma> \<sigma>' \<Longrightarrow> \<sigma> n = Some d \<Longrightarrow> \<exists>d'. \<sigma>' n = Some d' \<and> drive_event\<^sup>*\<^sup>* d d'"
  unfolding evolves_def by (metis option_rel_Some1)

lemma drive_kept_wf: "drive_kept d d' \<Longrightarrow> drive_finalizers_wf d' = drive_finalizers_wf d"
  by (simp add: drive_kept_def drive_finalizers_wf_def)

lemma evolves_wf: "evolves \<sigma> \<sigma>' \<Longrightarrow> drives_wf \<sigma> \<Longrightarrow> drives_wf \<sigma>'"
  unfolding drives_wf_def
proof (intro allI impI)
  fix n d'
  assume e: "evolves \<sigma> \<sigma>'" and wf: "\<forall>n d. \<sigma> n = Some d \<longrightarrow> drive_finalizers_wf d" and d': "\<sigma>' n = Some d'"
  then obtain d where "\<sigma> n = Some d" "drive_event\<^sup>*\<^sup>* d d'"
    unfolding evolves_def by (metis option_rel_Some2)
  then show "drive_finalizers_wf d'" using wf drive_events_kept drive_kept_wf by blast
qed

context host_cluster
begin

text \<open>Writing an event's drive.\<close>

lemma update_event:
  assumes "api_Update (DriveClient E) x w = (r, w')" and "drives_wf (dstore w)"
    and "drive_finalizers_wf x"
    and "\<And>cur rv. dstore w (objName x) = Some cur \<Longrightarrow> ResourceVersion x = ResourceVersion cur \<Longrightarrow>
           ResourceVersion cur < rv \<Longrightarrow> drive_event cur (x\<lparr>ResourceVersion := rv\<rparr>)"
  shows "evolves (dstore w) (dstore w') \<and> vstore w' = vstore w"
proof (cases r)
  case (Inl e)
  then show ?thesis using d.update_err assms(1) drive_ops_volumes(3) [OF assms(1)] by simp
next
  case (Inr y)
  then obtain cur rv where c: "dstore w (objName x) = Some cur" "ResourceVersion x = ResourceVersion cur"
      "ResourceVersion cur < rv" "dstore w' = (dstore w)(objName x \<mapsto> x\<lparr>ResourceVersion := rv\<rparr>)"
    using d.update_ok [of x w y w'] assms(1,3) drive_wf_finalizers [of x] by auto
  then show ?thesis
    using assms(4) evolves_step drive_ops_volumes(3) [OF assms(1)] by auto
qed

lemma SetIOError_evolves:
  assumes "SetIOError E driveID w = (r, w')" and "drives_wf (dstore w)"
  shows "evolves (dstore w) (dstore w') \<and> vstore w' = vstore w"
proof -
  let ?f = "\<lambda>w. call (api_Get (DriveClient E) driveID w)
         (\<lambda>err w. (Inl err, w))
         (\<lambda>drive w.
            let drive' = SetIOErrorCondition (Now E w)
                           (drive\<lparr>driveStatus := (driveStatus drive)\<lparr>dStatus := DriveStatusError\<rparr>\<rparr>)
            in call (api_Update (DriveClient E) drive' w) (\<lambda>err w. (Inl err, w)) (\<lambda>_ w. (Inr (), w)))"
  let ?P = "\<lambda>w1. evolves (dstore w) (dstore w1) \<and> vstore w1 = vstore w"
  have step: "?P (snd (?f w1))" if p: "?P w1" for w1
  proof (cases "api_Get (DriveClient E) driveID w1")
    case (Pair r1 w2)
    have w2: "dstore w2 = dstore w1" "vstore w2 = vstore w1"
      using d.get_frame [OF Pair] drive_ops_volumes(1) [OF Pair] by simp_all
    show ?thesis
    proof (cases r1)
      case (Inl e)
      then show ?thesis using Pair p w2 by simp
    next
      case (Inr drive)
      let ?x = "SetIOErrorCondition (Now E w2) (set_drive_status DriveStatusError drive)"
      obtain r3 w3 where u: "api_Update (DriveClient E) ?x w2 = (r3, w3)" by fastforce
      have cur: "dstore w2 (objName ?x) = Some drive"
        using d.get_found d.get_name Pair Inr w2 by (auto simp: drive_event_defs)
      have wf: "drives_wf (dstore w2)" using evolves_wf p assms(2) w2 by metis
      have "evolves (dstore w2) (dstore w3) \<and> vstore w3 = vstore w2"
      proof (rule update_event [OF u wf])
        show "drive_finalizers_wf ?x" using wf cur by (auto simp: drives_wf_def drive_finalizers_wf_def drive_event_defs)
        show "drive_event cur' (?x\<lparr>ResourceVersion := rv\<rparr>)"
          if "dstore w2 (objName ?x) = Some cur'" "ResourceVersion ?x = ResourceVersion cur'" "ResourceVersion cur' < rv" for cur' rv
          using that cur by (auto intro: drive_event.io_error)
      qed
      then have "?P w3" using p w2 evolves_trans by metis
      moreover have "snd (?f w1) = w3"
        using Pair Inr u by (cases r3) (simp_all add: set_drive_status_def)
      ultimately show ?thesis by simp
    qed
  qed
  have "retried ?f w (SetIOError E driveID w)"
    unfolding SetIOError_def by (rule retry)
  from retried_preserves [OF this, of ?P] step show ?thesis using assms(1) by simp
qed

text \<open>Staging a volume writes that volume and, on an I/O error, the error to its drive.\<close>

lemma stageVolumeMount_stores:
  assumes "stageVolumeMount E n d p w = (r, w')"
  shows "dstore w' = dstore w \<and> vstore w' = vstore w"
  using assms unfolding stageVolumeMount_def
  by (auto split: if_splits elim!: callE simp: host_ops_drives(1,4) host_ops_volumes(1,4))

lemma stage_mount_frames:
  assumes "stage_mount E dev dir p v w = ((e, v'), w')"
  shows "dstore w' = dstore w \<and> objName v' = objName v \<and> (\<forall>n. n \<noteq> objName v \<longrightarrow> vstore w' n = vstore w n)"
proof -
  obtain r1 w1 where q: "setQuota E dev dir (objName v) (capacity_quota (vTotalCapacity (volumeStatus v))) False w = (r1, w1)"
    by fastforce
  have w1: "dstore w1 = dstore w" "vstore w1 = vstore w"
    using host_ops_drives(7) [OF q] host_ops_volumes(7) [OF q] by simp_all
  obtain r2 w2 where m: "(if p \<noteq> [] then stageVolumeMount E (objName v) dir p w1 else (Inr (), w1)) = (r2, w2)"
    by fastforce
  have w2: "dstore w2 = dstore w" "vstore w2 = vstore w"
    using m stageVolumeMount_stores w1 by (auto split: if_splits)
  obtain r3 w3 where u: "api_Update (VolumeClient E) (staged dir p v) w2 = (r3, w3)" by fastforce
  have "dstore w3 = dstore w" "n \<noteq> objName v \<Longrightarrow> vstore w3 n = vstore w n" for n
    using volume_ops_drives(3) [OF u] v.update_others [OF u] w2 by (simp_all add: staged_def)
  then show ?thesis
    using assms q m u w1 w2
    by (cases r1; cases r2; cases r3) (auto simp: stage_mount_def Let_def staged_def)
qed

lemma StageVolume_frames:
  assumes "StageVolume E v p w = ((e, v'), w')" and "drives_wf (dstore w)"
  shows "evolves (dstore w) (dstore w') \<and> objName v' = objName v \<and>
         (\<forall>n. n \<noteq> objName v \<longrightarrow> vstore w' n = vstore w n)"
proof -
  obtain r1 w1 where g: "getDeviceByFSUUID E (vFSUUID (volumeStatus v)) w = (r1, w1)" by fastforce
  have w1: "dstore w1 = dstore w" "vstore w1 = vstore w"
    using host_ops_drives(5) [OF g] host_ops_volumes(5) [OF g] by simp_all
  let ?dir = "GetVolumeDir (vFSUUID (volumeStatus v)) (objName v)"
  obtain r2 w2 where m: "mkdir E ?dir w1 = (r2, w2)" by fastforce
  have w2: "dstore w2 = dstore w" "vstore w2 = vstore w"
    using host_ops_drives(3) [OF m] host_ops_volumes(3) [OF m] w1 by simp_all
  obtain r3 w3 where s: "SetIOError E (Volume_GetDriveID E v) w2 = (r3, w3)" by fastforce
  have w3: "evolves (dstore w) (dstore w3)" "vstore w3 = vstore w"
    using SetIOError_evolves [OF s] assms(2) w2 by simp_all
  show ?thesis
  proof (cases r1)
    case (Inl err)
    then show ?thesis using assms(1) g w1 by (simp add: StageVolume_def)
  next
    case (Inr device)
    show ?thesis
    proof (cases "StageVolume E v p w = stage_mount E device ?dir p v w2")
      case True
      then show ?thesis using assms(1) stage_mount_frames [of device ?dir p v w2 e v' w'] w2 by simp
    next
      case False
      then show ?thesis
        using assms(1) g Inr m s w2 w3
        by (cases r2; cases r3) (auto simp: StageVolume_def Let_def split: if_splits)
    qed
  qed
qed

lemma StageVolume_ok:
  assumes "StageVolume E v p w = ((None, v'), w')"
  shows "\<exists>device w1 w2 w3 w4 y. getDeviceByFSUUID E (vFSUUID (volumeStatus v)) w = (Inr device, w1) \<and>
           setQuota E device (GetVolumeDir (vFSUUID (volumeStatus v)) (objName v)) (objName v)
             (capacity_quota (vTotalCapacity (volumeStatus v))) False w2 = (Inr (), w3) \<and>
           (p \<noteq> [] \<longrightarrow> stageVolumeMount E (objName v) (GetVolumeDir (vFSUUID (volumeStatus v)) (objName v)) p w3 = (Inr (), w4)) \<and>
           dstore w4 = dstore w \<and> vstore w4 = vstore w \<and>
           v' = staged (GetVolumeDir (vFSUUID (volumeStatus v)) (objName v)) p v \<and>
           api_Update (VolumeClient E) v' w4 = (Inr y, w')"
proof -
  let ?dir = "GetVolumeDir (vFSUUID (volumeStatus v)) (objName v)"
  obtain device w1 w2 r2 where g: "getDeviceByFSUUID E (vFSUUID (volumeStatus v)) w = (Inr device, w1)"
      and m: "mkdir E ?dir w1 = (r2, w2)" and sm: "stage_mount E device ?dir p v w2 = ((None, v'), w')"
    using assms by (auto simp: StageVolume_def Let_def split: if_splits elim!: callE)
  have w2: "dstore w2 = dstore w" "vstore w2 = vstore w"
    using host_ops_drives(3) [OF m] host_ops_volumes(3) [OF m] host_ops_drives(5) [OF g] host_ops_volumes(5) [OF g]
    by simp_all
  obtain w3 w4 y where q: "setQuota E device ?dir (objName v) (capacity_quota (vTotalCapacity (volumeStatus v))) False w2 = (Inr (), w3)"
      and b: "(if p \<noteq> [] then stageVolumeMount E (objName v) ?dir p w3 else (Inr (), w3)) = (Inr (), w4)"
      and u: "api_Update (VolumeClient E) (staged ?dir p v) w4 = (Inr y, w')" "v' = staged ?dir p v"
    using sm by (auto simp: stage_mount_def Let_def elim!: callE split: if_splits)
  have "dstore w4 = dstore w" "vstore w4 = vstore w"
    using host_ops_drives(7) [OF q] host_ops_volumes(7) [OF q] w2 b stageVolumeMount_stores by (auto split: if_splits)
  then show ?thesis using g q b u by (auto split: if_splits)
qed

text \<open>The other parts of the controller, each with what it may change.\<close>

lemma unmount_entries_stores:
  "unmount_entries E skip mp ms w = (r, w') \<Longrightarrow> dstore w' = dstore w \<and> vstore w' = vstore w"
proof (induction ms arbitrary: w)
  case (Cons m ms)
  then show ?case
    by (auto split: if_splits elim!: callE) (metis host_ops_drives(2) host_ops_volumes(2))+
qed simp

lemma unmountDrive_stores:
  "unmountDrive E d skip w = (r, w') \<Longrightarrow> dstore w' = dstore w \<and> vstore w' = vstore w"
  unfolding unmountDrive_def
  by (auto split: option.splits if_splits simp: Let_def host_ops_drives(1) host_ops_volumes(1)
      elim!: callE dest!: unmount_entries_stores)

lemma move_volume_frames:
  assumes "move_volume E drive n w = (r, w')" and "drives_wf (dstore w)"
  shows "evolves (dstore w) (dstore w') \<and> (\<forall>m. m \<noteq> n \<longrightarrow> vstore w' m = vstore w m)"
proof -
  obtain r1 w1 where g: "api_Get (VolumeClient E) n w = (r1, w1)" by fastforce
  have w1: "dstore w1 = dstore w" "vstore w1 = vstore w"
    using v.get_frame [OF g] volume_ops_drives(1) [OF g] by simp_all
  show ?thesis
  proof (cases r1)
    case (Inl e)
    then show ?thesis using assms(1) g w1 by (simp add: move_volume_def)
  next
    case (Inr volume)
    let ?v1 = "rebind E drive volume"
    have nm: "objName volume = n" using g Inr v.get_name by blast
    then have n1: "objName ?v1 = n" by (simp add: rebind_def Let_def Volume_SetDriveName_def Volume_SetDriveID_def)
    obtain e2 v2 w2 where st: "(if IsStaged ?v1 then StageVolume E ?v1 (vStagingTargetPath (volumeStatus ?v1)) w1
        else ((None, ?v1\<lparr>volumeStatus := (volumeStatus ?v1)\<lparr>vStatus := VolumeStatusPending\<rparr>\<rparr>), w1)) = ((e2, v2), w2)"
      by (metis prod.exhaust)
    have w2: "evolves (dstore w) (dstore w2)" "objName v2 = n" "\<forall>m. m \<noteq> n \<longrightarrow> vstore w2 m = vstore w m"
      using st StageVolume_frames [of ?v1 _ w1 e2 v2 w2] assms(2) w1 n1 by (auto split: if_splits)
    obtain r3 w3 where u: "api_Update (VolumeClient E) v2 w2 = (r3, w3)" by fastforce
    have w3: "evolves (dstore w) (dstore w3)" "\<forall>m. m \<noteq> n \<longrightarrow> vstore w3 m = vstore w m"
      using volume_ops_drives(3) [OF u] v.update_others [OF u] w2 by simp_all
    have "w' = w1 \<or> w' = w3"
      using assms(1) g Inr st u by (cases r3) (auto simp: move_volume_def Let_def split: if_splits)
    then show ?thesis using w1 w3 by auto
  qed
qed

lemma move_volumes_evolves:
  "move_volumes E drive ns w = (r, w') \<Longrightarrow> drives_wf (dstore w) \<Longrightarrow>
     evolves (dstore w) (dstore w') \<and> (\<forall>m. m \<notin> set ns \<longrightarrow> vstore w' m = vstore w m)"
proof (induction ns arbitrary: w)
  case (Cons n ns)
  obtain r1 w1 where m: "move_volume E drive n w = (r1, w1)" by fastforce
  note f = move_volume_frames [OF m Cons.prems(2)]
  show ?case
  proof (cases r1)
    case (Inl e)
    then show ?thesis using Cons.prems(1) m f by auto
  next
    case (Inr u)
    then have "move_volumes E drive ns w1 = (r, w')" using Cons.prems(1) m by simp
    moreover have "drives_wf (dstore w1)" using f evolves_wf Cons.prems(2) by blast
    ultimately have "evolves (dstore w1) (dstore w') \<and> (\<forall>m. m \<notin> set ns \<longrightarrow> vstore w' m = vstore w1 m)"
      by (rule Cons.IH)
    then show ?thesis using f evolves_trans by auto
  qed
qed simp

text \<open>The handler works on a cached drive; a write goes through only if the cache is current.\<close>

definition current :: "Drive \<Rightarrow> 'w \<Rightarrow> bool" where
  "current drive w \<longleftrightarrow>
     (\<forall>cur. dstore w (objName drive) = Some cur \<longrightarrow> ResourceVersion drive = ResourceVersion cur \<longrightarrow> cur = drive)"

lemma current_evolves:
  assumes "dstore w (objName drive) = Some drive" and "evolves (dstore w) (dstore w')"
  shows "current drive w'"
  unfolding current_def
proof (intro allI impI)
  fix cur
  assume "dstore w' (objName drive) = Some cur" and "ResourceVersion drive = ResourceVersion cur"
  then show "cur = drive"
    using evolves_lookup [OF assms(2,1)] drive_events_version by fastforce
qed

lemma drive_move_evolves:
  assumes "drive_move E drive w = ((r, drive'), w')" and "dstore w (objName drive) = Some drive"
    and "drives_wf (dstore w)" and "dStatus (driveStatus drive) = DriveStatusMoving"
  shows "evolves (dstore w) (dstore w') \<and> drive_finalizers_wf drive' \<and> (\<forall>u. r = Inr u \<longrightarrow> current drive' w')"
proof -
  obtain r1 w1 where m: "move_volumes E drive (GetVolumes drive) w = (r1, w1)" by fastforce
  have ev: "evolves (dstore w) (dstore w1)" using move_volumes_evolves [OF m assms(3)] by simp
  have wf: "drive_finalizers_wf drive" using assms(2,3) by (auto simp: drives_wf_def)
  show ?thesis
  proof (cases r1)
    case (Inl e)
    then show ?thesis using assms(1) m ev wf by (auto simp: drive_move_def)
  next
    case (Inr u)
    let ?x = "set_drive_status DriveStatusReady drive"
    obtain r2 w2 where u: "api_Update (DriveClient E) ?x w1 = (r2, w2)" by fastforce
    have cur: "dstore w1 (objName drive) = Some c \<Longrightarrow> ResourceVersion drive = ResourceVersion c \<Longrightarrow> c = drive" for c
      using current_evolves [OF assms(2) ev] by (auto simp: current_def)
    have x: "drive_finalizers_wf ?x" using wf by (simp add: drive_finalizers_wf_def)
    have "evolves (dstore w1) (dstore w2) \<and> vstore w2 = vstore w1"
    proof (rule update_event [OF u evolves_wf [OF ev assms(3)] x])
      show "drive_event c (?x\<lparr>ResourceVersion := rv\<rparr>)"
        if "dstore w1 (objName ?x) = Some c" "ResourceVersion ?x = ResourceVersion c" "ResourceVersion c < rv" for c rv
        using that cur [of c] assms(4) by (auto intro: drive_event.moved)
    qed
    then have ev2: "evolves (dstore w) (dstore w2)" using ev evolves_trans by blast
    have "r2 = Inr y \<Longrightarrow> current ?x w2" for y
      using d.update_ok [of ?x w1 y w2] u x drive_wf_finalizers [of ?x] by (auto simp: current_def)
    moreover have "drive' = ?x \<and> w' = w2 \<and> (\<forall>u. r = Inr u \<longrightarrow> (\<exists>y. r2 = Inr y))"
      using assms(1) m Inr u by (cases r2) (auto simp: drive_move_def Let_def)
    ultimately show ?thesis using ev2 x by blast
  qed
qed

lemma checkDrive_evolves:
  assumes "checkDrive E drive w = (r, w')" and "drives_wf (dstore w)" and "drive_finalizers_wf drive"
    and "current drive w"
  shows "evolves (dstore w) (dstore w') \<and> vstore w' = vstore w"
proof -
  let ?u = "dFSUUID (driveStatus drive)"
  consider (ready) "dStatus (driveStatus drive) = DriveStatusReady" | (lost) "dStatus (driveStatus drive) = DriveStatusLost"
    | (other) "dStatus (driveStatus drive) \<notin> {DriveStatusReady, DriveStatusLost}" by auto
  then show ?thesis
  proof cases
    case ready
    obtain r1 w1 where ex: "exists E (GetVolumeRootDir ?u) w = (r1, w1)" by fastforce
    have w1: "dstore w1 = dstore w" "vstore w1 = vstore w"
      using host_ops_drives(9) [OF ex] host_ops_volumes(9) [OF ex] by simp_all
    show ?thesis
    proof (cases r1)
      case (Inl err)
      obtain r2 w2 where s: "SetIOError E (Drive_GetDriveID drive) w1 = (r2, w2)" by fastforce
      have "evolves (dstore w) (dstore w2) \<and> vstore w2 = vstore w" using SetIOError_evolves [OF s] assms(2) w1 by simp
      then show ?thesis using assms(1) ready ex Inl s w1 by (auto simp: checkDrive_def Let_def split: if_splits)
    next
      case (Inr u)
      obtain r2 w2 where g: "getDeviceByFSUUID E ?u w1 = (r2, w2)" by fastforce
      have w2: "dstore w2 = dstore w" "vstore w2 = vstore w"
        using host_ops_drives(5) [OF g] host_ops_volumes(5) [OF g] w1 by simp_all
      obtain r3 w3 where u: "api_Update (DriveClient E) (set_drive_status DriveStatusLost drive) w2 = (r3, w3)" by fastforce
      have "evolves (dstore w2) (dstore w3) \<and> vstore w3 = vstore w2"
      proof (rule update_event [OF u])
        show "drive_finalizers_wf (set_drive_status DriveStatusLost drive)" using assms(3) by (simp add: drive_finalizers_wf_def)
      qed (use w2 assms(2,4) ready in \<open>auto simp: current_def intro: drive_event.lost\<close>)
      then show ?thesis
        using assms(1) ready ex Inr g u w2 by (cases r2) (auto simp: checkDrive_def Let_def)
    qed
  next
    case lost
    obtain r1 w1 where g: "getDeviceByFSUUID E ?u w = (r1, w1)" by fastforce
    have w1: "dstore w1 = dstore w" "vstore w1 = vstore w"
      using host_ops_drives(5) [OF g] host_ops_volumes(5) [OF g] by simp_all
    show ?thesis
    proof (cases r1)
      case (Inl err)
      then show ?thesis using assms(1) lost g w1 by (simp add: checkDrive_def)
    next
      case (Inr device)
      obtain r2 w2 where m: "xfs_Mount E (AddDevPrefix device) (GetDriveMountDir ?u) w1 = (r2, w2)" by fastforce
      have w2: "dstore w2 = dstore w" "vstore w2 = vstore w"
        using host_ops_drives(10) [OF m] host_ops_volumes(10) [OF m] w1 by simp_all
      let ?d1 = "case r2 of Inl e \<Rightarrow> SetMountErrorCondition (Now E w2) ''unable to mount'' (set_drive_status DriveStatusError drive)
                          | Inr _ \<Rightarrow> set_drive_status DriveStatusReady drive"
      let ?x = "Drive_SetDriveName E (TrimDevPrefix device) ?d1"
      obtain r3 w3 where u: "api_Update (DriveClient E) ?x w2 = (r3, w3)" by fastforce
      have x: "objName ?x = objName drive" "ResourceVersion ?x = ResourceVersion drive" "Finalizers ?x = Finalizers drive"
        by (simp_all add: drive_event_defs split: sum.split)
      have "evolves (dstore w2) (dstore w3) \<and> vstore w3 = vstore w2"
      proof (rule update_event [OF u])
        show "drives_wf (dstore w2)" using assms(2) w2 by simp
        show "drive_finalizers_wf ?x" using assms(3) x by (simp add: drive_finalizers_wf_def)
        show "drive_event c (?x\<lparr>ResourceVersion := rv\<rparr>)"
          if c: "dstore w2 (objName ?x) = Some c" "ResourceVersion ?x = ResourceVersion c" "ResourceVersion c < rv" for c rv
        proof -
          have "dstore w (objName drive) = Some c" "ResourceVersion drive = ResourceVersion c"
            using c(1,2) unfolding x w2 .
          then have "c = drive" using assms(4) by (simp add: current_def)
          then show ?thesis
            using drive_event.found [OF lost, of rv] drive_event.mount_error [OF lost, of rv] c(3)
            by (cases r2) (simp_all add: Drive_SetDriveName_def)
        qed
      qed
      moreover have "w' = w3"
        using assms(1) lost g Inr m u by (cases r2) (auto simp: checkDrive_def Let_def)
      ultimately show ?thesis using w2 by simp
    qed
  next
    case other
    then show ?thesis using assms(1) by (auto simp: checkDrive_def Let_def)
  qed
qed

lemma Drive_Handle_evolves:
  assumes "Drive_Handle E ev drive w = (r, w')" and "dstore w (objName drive) = Some drive"
    and "drives_wf (dstore w)" and "dStatus (driveStatus drive) \<noteq> DriveStatusRemoved"
  shows "evolves (dstore w) (dstore w')"
proof -
  obtain r1 drive1 w1 where h: "drive_handleUpdate E drive w = ((r1, drive1), w1)" by (metis prod.exhaust)
  have u: "evolves (dstore w) (dstore w1) \<and> drive_finalizers_wf drive1 \<and> (\<forall>u. r1 = Inr u \<longrightarrow> current drive1 w1)"
  proof (cases "dStatus (driveStatus drive) = DriveStatusMoving")
    case True
    then show ?thesis
      using drive_move_evolves [of drive w r1 drive1 w1] h assms(2,3) by (simp add: drive_handleUpdate_def)
  next
    case False
    then have "r1 = Inr ()" "drive1 = drive" "w1 = w" using h assms(4) by (simp_all add: drive_handleUpdate_def)
    then show ?thesis using assms(2,3) by (auto simp: current_def drives_wf_def)
  qed
  have c: "evolves (dstore w) (dstore (snd (checkDrive E drive1 w1)))" if "r1 = Inr ()"
  proof -
    obtain r2 w2 where k: "checkDrive E drive1 w1 = (r2, w2)" by fastforce
    have "evolves (dstore w1) (dstore w2)"
      using checkDrive_evolves [OF k] evolves_wf [of "dstore w" "dstore w1"] u that assms(3) by auto
    then show ?thesis using u evolves_trans k by auto
  qed
  show ?thesis
    using assms(1) h u c by (cases ev; cases r1) (auto simp: Drive_Handle_def)
qed

end


definition moving_drive :: Drive where
  "moving_drive = (set_drive_status DriveStatusMoving sample_drive)\<lparr>objName := ''drive-2'',
     Finalizers := [driveFinalizerDataProtection, driveFinalizerVolumePrefix @ ''pvc-1'']\<rparr>"

definition moving_volume :: Volume where
  "moving_volume = sample_volume\<lparr>volumeStatus := (volumeStatus sample_volume)\<lparr>
     vFSUUID := ''old'', vStagingTargetPath := ''/staging''\<rparr>\<rparr>"

definition moving_world :: hworld where
  "moving_world = \<lparr> wDrives = [moving_drive], wVolumes = [moving_volume], wNodes = [], wInitRequests = [], wMounts = [] \<rparr>"

lemma moving_world_drives:
  "world_drives moving_world (objName moving_drive) = Some moving_drive" "drives_wf (world_drives moving_world)"
proof -
  show "world_drives moving_world (objName moving_drive) = Some moving_drive"
    by (simp add: world_drives_def moving_world_def lookup_obj_def)
  have "drive_finalizers_wf moving_drive" by code_simp
  then show "drives_wf (world_drives moving_world)"
    by (auto simp: drives_wf_def world_drives_def moving_world_def lookup_obj_def split: if_splits)
qed


section \<open>Removing a drive\<close>

text \<open>
  A drive with volumes is never removed. Handling a drive in the state removed fails without
  any effect as long as it records volumes; when it succeeds, the drive recorded none, its object is
  gone, and no other object changed.
\<close>

theorem Drive_Handle_removes:
  assumes "host_cluster E dstore vstore" and "Drive_Handle E ev drive w = (r, w')" and "ev \<noteq> DeleteEvent"
    and "dStatus (driveStatus drive) = DriveStatusRemoved" and "drive_finalizers_wf drive"
  shows "(GetVolumes drive \<noteq> [] \<longrightarrow> (\<exists>m. r = Inl (ErrorString m)) \<and> w' = w) \<and>
         (\<forall>u. r = Inr u \<longrightarrow> GetVolumes drive = [] \<and> dstore w' = (dstore w)(objName drive := None) \<and> vstore w' = vstore w)"
proof (cases "GetVolumes drive = []")
  case False
  then have "GetVolumeCount drive > 0" using drv_volumes.count_volumes [OF assms(5)] by simp
  then show ?thesis using assms(2-4) False
    by (cases ev) (auto simp: Drive_Handle_def drive_handleUpdate_def drive_remove_def)
next
  case True
  note da = cluster.axioms(1) [OF host_cluster.axioms(1) [OF assms(1)]]
  have cnt: "\<not> GetVolumeCount drive > 0" using drv_volumes.count_volumes [OF assms(5)] True by simp
  have fin: "Finalizers drive = [driveFinalizerDataProtection]" using assms(5) True by (simp add: drive_finalizers_wf_iff)
  let ?x = "snd (RemoveFinalizers drive)"
  have x: "Finalizers ?x = []" "objName ?x = objName drive" "dStatus (driveStatus ?x) = DriveStatusRemoved"
    using fin assms(4) by (simp_all add: RemoveFinalizers_def)
  obtain r1 d1 w1 where rm: "drive_remove E drive w = ((r1, d1), w1)" by (metis prod.exhaust)
  have ok: "dstore w1 = (dstore w)(objName drive := None) \<and> vstore w1 = vstore w \<and> d1 = ?x" if r1: "r1 = Inr u" for u
  proof -
    obtain w2 w3 w4 y where um: "unmountDrive E drive False w = (Inr (), w2)"
        and up: "api_Update (DriveClient E) ?x w2 = (Inr y, w3)"
        and dl: "api_Delete (DriveClient E) (objName ?x) w3 = (Inr (), w4)"
        and w1: "w1 = snd (rmdir E (dFSUUID (driveStatus ?x)) w4)" "d1 = ?x"
      using rm r1 cnt by (auto simp: drive_remove_def Let_def split: if_splits elim!: callE)
    obtain r5 w5 where rd: "rmdir E (dFSUUID (driveStatus ?x)) w4 = (r5, w5)" by fastforce
    have st: "dstore w2 = dstore w" "vstore w2 = vstore w"
      using host_cluster.unmountDrive_stores [OF assms(1) um] by simp_all
    have d3: "dstore w3 = (dstore w)(objName drive := (if DeletionTimestamp ?x \<noteq> None then None else Some y))"
        "Finalizers y = []"
      using object_api.update_ok [OF da up] x st by auto
    obtain c where c: "dstore w3 (objName drive) = Some c" and
        "if Finalizers c = [] then dstore w4 = (dstore w3)(objName drive := None) else True"
      using object_api.delete_ok [OF da dl] x(2) by auto
    then have d4: "dstore w4 = (dstore w)(objName drive := None)" using d3 by (auto split: if_splits)
    have "vstore w4 = vstore w"
      using cluster.drive_ops_volumes(3,4) [OF host_cluster.axioms(1) [OF assms(1)]] up dl st by metis
    then show ?thesis
      using d4 w1 host_cluster.host_ops_drives(8) [OF assms(1) rd] host_cluster.host_ops_volumes(8) [OF assms(1) rd] rd by simp
  qed
  have h: "drive_handleUpdate E drive w = ((r1, d1), w1)" using rm assms(4) by (simp add: drive_handleUpdate_def)
  have ck: "checkDrive E d1 w1 = (Inr (), w1)" if "r1 = Inr u" for u
    using ok [OF that] x(3) by (simp add: checkDrive_def)
  show ?thesis
    using assms(2,3) h ok ck True by (cases ev; cases r1) (auto simp: Drive_Handle_def)
qed

definition removed_drive :: Drive where
  "removed_drive = set_drive_status DriveStatusRemoved sample_drive"

theorem Drive_Handle_removes_witness:
  "\<exists>w'. Drive_Handle store_env UpdateEvent removed_drive
          \<lparr> wDrives = [removed_drive], wVolumes = [], wNodes = [], wInitRequests = [], wMounts = [] \<rparr> = (Inr (), w') \<and>
        world_drives w' (objName removed_drive) = None"
proof -
  let ?w = "\<lparr> wDrives = [removed_drive], wVolumes = [], wNodes = [], wInitRequests = [], wMounts = [] \<rparr>"
  have "\<exists>u w'. Drive_Handle store_env UpdateEvent removed_drive ?w = (Inr u, w')"
    by (rule not_isl_ok) code_simp
  then obtain w' where h: "Drive_Handle store_env UpdateEvent removed_drive ?w = (Inr (), w')" by auto
  have "drive_finalizers_wf removed_drive" "dStatus (driveStatus removed_drive) = DriveStatusRemoved" by code_simp+
  then show ?thesis
    using Drive_Handle_removes [OF store_host.host_cluster_axioms, OF h] h by auto
qed

section \<open>Unmounting covers the device\<close>

lemma mount_devices_set: "set (mount_devices info) = MountSource ` mount_entries info" "distinct (mount_devices info)"
  using go_set.fold_add [of MountSource "MountInfo_List info" "[]"]
    go_set.invar_fold_add [of "[]" MountSource "MountInfo_List info"]
  by (simp_all add: mount_devices_def set_MountInfo_List)

lemma drive_mount_point_mounted:
  assumes "mount_info_wf info" and "drive_mount_point info u = Some mp"
  shows "\<exists>e \<in> mount_entries info. MountPoint e = mp"
  using assms proc_mounts.mounted_on [OF assms(1)] by (auto simp: drive_mount_point_def split: if_splits)

text \<open>
  Unmounting a drive covers its device. If exactly one device is mounted on the drive's mount
  point (the current one, else the legacy one), \<^verbatim>\<open>unmountDrive\<close> unmounts exactly the
  mounts of that device, all of them, except the drive's own mount if it is to be skipped; if the
  drive is not mounted it does nothing; if several devices share the mount point it refuses.
\<close>

theorem unmountDrive_covers:
  assumes "getMounts E w = (Inr info, w1)" and "mount_info_wf info"
  shows "case drive_mount_point info (dFSUUID (driveStatus drive)) of
           None \<Rightarrow> unmountDrive E drive skip w = (Inr (), w1)
         | Some mp \<Rightarrow>
             if \<exists>dev. \<forall>e \<in> mount_entries info. MountPoint e = mp \<longrightarrow> MountSource e = dev
             then \<exists>dev ms. (\<exists>e \<in> mount_entries info. MountPoint e = mp \<and> MountSource e = dev) \<and>
                    set ms = {e \<in> mount_entries info. MountSource e = dev} \<and>
                    unmountDrive E drive skip w = unmount_entries E skip mp ms w1
             else unmountDrive E drive skip w = (Inl (ErrorString ''multiple devices are mounted for FSUUID''), w1)"
proof (cases "drive_mount_point info (dFSUUID (driveStatus drive))")
  case None
  then show ?thesis using assms(1) by (simp add: unmountDrive_def)
next
  case (Some mp)
  let ?devs = "mount_devices (FilterByMountPoint mp info)"
  have devs: "set ?devs = MountSource ` {e \<in> mount_entries info. MountPoint e = mp}" "distinct ?devs"
    using mount_devices_set [of "FilterByMountPoint mp info"] proc_mounts.by_point [OF assms(2), of mp] by simp_all
  obtain e0 where e0: "e0 \<in> mount_entries info" "MountPoint e0 = mp"
    using drive_mount_point_mounted [OF assms(2) Some] by blast
  show ?thesis
  proof (cases "\<exists>dev. \<forall>e \<in> mount_entries info. MountPoint e = mp \<longrightarrow> MountSource e = dev")
    case True
    then have "set ?devs = {MountSource e0}" using devs(1) e0 by auto
    then have one: "?devs = [MountSource e0]" using devs(2)
      by (metis distinct_singleton set_empty2 distinct_length_2_or_more insert_iff list.set(1) list.exhaust list.set_intros(1) list.set_intros(2) singleton_iff empty_iff)
    let ?ms = "MountInfo_List (FilterByMountSource (MountSource e0) info)"
    have "set ?ms = {e \<in> mount_entries info. MountSource e = MountSource e0}"
      using proc_mounts.by_source [OF assms(2)] by (simp add: set_MountInfo_List)
    moreover have "unmountDrive E drive skip w = unmount_entries E skip mp ?ms w1"
      using assms(1) Some one by (simp add: unmountDrive_def StringSet_ToSlice_def)
    ultimately show ?thesis using Some True e0 by auto
  next
    case False
    then obtain e1 where e1: "e1 \<in> mount_entries info" "MountPoint e1 = mp" "MountSource e1 \<noteq> MountSource e0" by blast
    then have "{MountSource e0, MountSource e1} \<subseteq> set ?devs" using devs(1) e0 by auto
    then have "card {MountSource e0, MountSource e1} \<le> length ?devs"
      by (metis List.finite_set card_length card_mono order_trans)
    then have "length ?devs > 1" using e1(3) by simp
    then show ?thesis
      unfolding Some option.case if_not_P [OF False] using assms(1) Some by (simp add: unmountDrive_def)
  qed
qed

lemma add_mounts_wf:
  "mount_info_wf acc \<Longrightarrow> \<forall>h \<ge> n. map_of (infoMap acc) h = None \<Longrightarrow> mount_info_wf (fold add_mount (map_index_from n mount_of ms) acc)"
proof (induction ms arbitrary: n acc)
  case (Cons m ms)
  have h: "xxHash (mount_of n m) = n" by (simp add: mount_of_def)
  note a = add_mount_wf [OF Cons.prems(1), of "mount_of n m", unfolded h]
  have "mount_info_wf (add_mount (mount_of n m) acc)"
    and "\<forall>h \<ge> Suc n. map_of (infoMap (add_mount (mount_of n m) acc)) h = None"
    using a Cons.prems(2) by auto
  from Cons.IH [OF this] show ?case by simp
qed simp

lemma mount_table_of_wf: "mount_info_wf (mount_table_of ms)"
  unfolding mount_table_of_def by (rule add_mounts_wf) simp_all

theorem unmountDrive_covers_witness:
  "\<exists>ms. set ms = {e \<in> mount_entries (mount_table_of [(''/dev/sda'', GetDriveMountDir ''drive-1''), (''/dev/sda'', ''/staging'')]). MountSource e = ''/dev/sda''} \<and>
     unmountDrive store_env sample_drive False
       \<lparr> wDrives = [], wVolumes = [], wNodes = [], wInitRequests = [],
         wMounts = [(''/dev/sda'', GetDriveMountDir ''drive-1''), (''/dev/sda'', ''/staging'')] \<rparr> =
     unmount_entries store_env False (GetDriveMountDir ''drive-1'') ms
       \<lparr> wDrives = [], wVolumes = [], wNodes = [], wInitRequests = [],
         wMounts = [(''/dev/sda'', GetDriveMountDir ''drive-1''), (''/dev/sda'', ''/staging'')] \<rparr>"
proof -
  let ?ms = "[(''/dev/sda'', GetDriveMountDir ''drive-1''), (''/dev/sda'', ''/staging'')]"
  let ?w = "\<lparr> wDrives = [], wVolumes = [], wNodes = [], wInitRequests = [], wMounts = ?ms \<rparr>"
  have g: "getMounts store_env ?w = (Inr (mount_table_of ?ms), ?w)" by (simp add: store_env_def)
  have u: "dFSUUID (driveStatus sample_drive) = ''drive-1''" by code_simp
  have ents: "mount_entries (mount_table_of ?ms) = {mount_of 0 (?ms ! 0), mount_of 1 (?ms ! 1)}"
    by (auto simp: mount_entries_def mount_table_of_def add_mount_def mount_of_def empty_info_def)
  have src: "e \<in> mount_entries (mount_table_of ?ms) \<Longrightarrow> MountSource e = ''/dev/sda''" for e
    unfolding ents by (auto simp: mount_of_def)
  have mp: "drive_mount_point (mount_table_of ?ms) ''drive-1'' = Some (GetDriveMountDir ''drive-1'')"
  proof -
    have "mount_of 0 (?ms ! 0) \<in> mount_entries (mount_table_of ?ms)" unfolding ents by simp
    moreover have "MountPoint (mount_of 0 (?ms ! 0)) = GetDriveMountDir ''drive-1''" by (simp add: mount_of_def)
    ultimately have "\<not> MountInfo_IsEmpty (FilterByMountPoint (GetDriveMountDir ''drive-1'') (mount_table_of ?ms))"
      using proc_mounts.mounted_on [OF mount_table_of_wf] by blast
    then show ?thesis by (simp add: drive_mount_point_def)
  qed
  have one: "\<exists>dev. \<forall>e \<in> mount_entries (mount_table_of ?ms). MountPoint e = GetDriveMountDir ''drive-1'' \<longrightarrow> MountSource e = dev"
    using src by blast
  obtain dev ms where dev: "\<exists>e \<in> mount_entries (mount_table_of ?ms). MountPoint e = GetDriveMountDir ''drive-1'' \<and> MountSource e = dev"
      and ms: "set ms = {e \<in> mount_entries (mount_table_of ?ms). MountSource e = dev}"
        "unmountDrive store_env sample_drive False ?w = unmount_entries store_env False (GetDriveMountDir ''drive-1'') ms ?w"
    using unmountDrive_covers [OF g mount_table_of_wf, of sample_drive False] unfolding u mp option.case if_P [OF one] by blast
  have "dev = ''/dev/sda''" using dev src by blast
  then show ?thesis using ms by blast
qed

section \<open>Staging is correct\<close>

lemma staged_simps [simp]:
  "objName (staged dir p v) = objName v"
  "ResourceVersion (staged dir p v) = ResourceVersion v"
  "Finalizers (staged dir p v) = Finalizers v"
  "objLabels (staged dir p v) = objLabels v"
  "DeletionTimestamp (staged dir p v) = DeletionTimestamp v"
  "vDataPath (volumeStatus (staged dir p v)) = dir"
  "vStagingTargetPath (volumeStatus (staged dir p v)) = p"
  "vTargetPath (volumeStatus (staged dir p v)) = vTargetPath (volumeStatus v)"
  "vStatus (volumeStatus (staged dir p v)) = VolumeStatusReady"
  "vFSUUID (volumeStatus (staged dir p v)) = vFSUUID (volumeStatus v)"
  "vTotalCapacity (volumeStatus (staged dir p v)) = vTotalCapacity (volumeStatus v)"
  by (simp_all add: staged_def)

lemma StageVolume_stored:
  assumes "host_cluster E dstore vstore" and "StageVolume E v p w = ((None, v'), w')" and "Finalizers v \<noteq> []"
  shows "dstore w' = dstore w \<and> v' = staged (GetVolumeDir (vFSUUID (volumeStatus v)) (objName v)) p v \<and>
         (\<exists>rv. ResourceVersion v < rv \<and> vstore w' = (vstore w)(objName v \<mapsto> v'\<lparr>ResourceVersion := rv\<rparr>))"
proof -
  note va = cluster.axioms(2) [OF host_cluster.axioms(1) [OF assms(1)]]
  obtain w4 y where s: "dstore w4 = dstore w" "vstore w4 = vstore w"
      "v' = staged (GetVolumeDir (vFSUUID (volumeStatus v)) (objName v)) p v"
      and u: "api_Update (VolumeClient E) v' w4 = (Inr y, w')"
    using host_cluster.StageVolume_ok [OF assms(1,2)] by blast
  have "dstore w' = dstore w" using cluster.volume_ops_drives(3) [OF host_cluster.axioms(1) [OF assms(1)] u] s by simp
  then show ?thesis using object_api.update_ok [OF va u] s assms(3) by auto
qed

text \<open>
  C12. Staging a volume. When \<^verbatim>\<open>StageVolume\<close> succeeds, a quota of exactly the
  volume's capacity was set on its data directory, the directory is mounted on the staging path
  (it already was, or the bind mount succeeded), and the stored volume is ready, with that data
  directory and staging path. No drive and no other volume changed.
\<close>

theorem StageVolume_correct:
  assumes "host_cluster E dstore vstore" and "StageVolume E v p w = ((None, v'), w')"
    and "Finalizers v \<noteq> []" and "p \<noteq> []"
  shows "\<exists>device w1 w2 w3 rv.
           getDeviceByFSUUID E (vFSUUID (volumeStatus v)) w = (Inr device, w1) \<and>
           setQuota E device (GetVolumeDir (vFSUUID (volumeStatus v)) (objName v)) (objName v)
             (capacity_quota (vTotalCapacity (volumeStatus v))) False w2 = (Inr (), w3) \<and>
           (\<exists>w4 w5 info. getMounts E w3 = (Inr info, w4) \<and>
              (\<not> MountInfo_IsEmpty (FilterByMountPoint p (FilterByRoot (''/'' @ objName v) info)) \<or>
               bindMount E (GetVolumeDir (vFSUUID (volumeStatus v)) (objName v)) p False w4 = (Inr (), w5))) \<and>
           dstore w' = dstore w \<and> vstore w' = (vstore w)(objName v \<mapsto> v'\<lparr>ResourceVersion := rv\<rparr>) \<and>
           vStatus (volumeStatus v') = VolumeStatusReady \<and> vStagingTargetPath (volumeStatus v') = p \<and>
           vDataPath (volumeStatus v') = GetVolumeDir (vFSUUID (volumeStatus v)) (objName v)"
proof -
  let ?dir = "GetVolumeDir (vFSUUID (volumeStatus v)) (objName v)"
  obtain device w1 w2 w3 w4 where a: "getDeviceByFSUUID E (vFSUUID (volumeStatus v)) w = (Inr device, w1)"
      "setQuota E device ?dir (objName v) (capacity_quota (vTotalCapacity (volumeStatus v))) False w2 = (Inr (), w3)"
      "stageVolumeMount E (objName v) ?dir p w3 = (Inr (), w4)"
    using host_cluster.StageVolume_ok [OF assms(1,2)] assms(4) by blast
  have m: "\<exists>w4 w5 info. getMounts E w3 = (Inr info, w4) \<and>
      (\<not> MountInfo_IsEmpty (FilterByMountPoint p (FilterByRoot (''/'' @ objName v) info)) \<or> bindMount E ?dir p False w4 = (Inr (), w5))"
    using a(3) by (auto simp: stageVolumeMount_def split: if_splits elim!: callE)
  obtain rv where b: "dstore w' = dstore w" "v' = staged ?dir p v"
      "vstore w' = (vstore w)(objName v \<mapsto> v'\<lparr>ResourceVersion := rv\<rparr>)"
    using StageVolume_stored [OF assms(1-3)] by blast
  show ?thesis
    by (rule exI [of _ device], rule exI [of _ w1], rule exI [of _ w2], rule exI [of _ w3], rule exI [of _ rv])
      (intro conjI a(1,2) m b(1,3), simp_all add: b(2))
qed

theorem StageVolume_correct_witness:
  "\<exists>v' w' rv. StageVolume store_env sample_volume ''/staging'' (release_world\<lparr>wVolumes := [sample_volume]\<rparr>) = ((None, v'), w') \<and>
     world_volumes w' ''pvc-1'' = Some (v'\<lparr>ResourceVersion := rv\<rparr>) \<and> vStatus (volumeStatus v') = VolumeStatusReady"
proof -
  let ?w = "release_world\<lparr>wVolumes := [sample_volume]\<rparr>"
  have "fst (fst (StageVolume store_env sample_volume ''/staging'' ?w)) = None" by code_simp
  then obtain v' w' where s: "StageVolume store_env sample_volume ''/staging'' ?w = ((None, v'), w')"
    by (metis prod.collapse)
  have f: "Finalizers sample_volume \<noteq> []" and n: "objName sample_volume = ''pvc-1''" by code_simp+
  show ?thesis
    using StageVolume_correct [OF store_host.host_cluster_axioms, OF s f] s n by auto
qed

section \<open>Moving a staged volume\<close>

lemma rebind_simps [simp]:
  "objName (rebind L d v) = objName v"
  "ResourceVersion (rebind L d v) = ResourceVersion v"
  "Finalizers (rebind L d v) = Finalizers v"
  "DeletionTimestamp (rebind L d v) = DeletionTimestamp v"
  "vFSUUID (volumeStatus (rebind L d v)) = dFSUUID (driveStatus d)"
  "vStagingTargetPath (volumeStatus (rebind L d v)) = vStagingTargetPath (volumeStatus v)"
  by (simp_all add: rebind_def Let_def Volume_SetDriveName_def Volume_SetDriveID_def)

text \<open>
  Moving a staged volume writes it twice with one version: \<^verbatim>\<open>StageVolume\<close> has
  already updated the volume when \<^verbatim>\<open>move\<close> updates it again with the version it read,
  so the second update is refused. The move of a staged volume that stages without error always
  reports an error, although the volume is rebound to the destination drive and ready; the next
  attempt finds it moved and goes on.
\<close>

theorem move_staged_volume_conflicts:
  assumes "host_cluster E dstore vstore"
    and "vstore w n = Some v" and "IsStaged v" and "Finalizers v \<noteq> []"
    and "move_volume E drive n w = (r, w')"
    and "vFSUUID (volumeStatus v) \<noteq> dFSUUID (driveStatus drive)" and "\<not> IsPublished v"
    and "Volume_GetNodeID E v = Drive_GetNodeID E drive"
    and "api_Get (VolumeClient E) n w = (Inr v, w1)"
    and "StageVolume E (rebind E drive v) (vStagingTargetPath (volumeStatus v)) w1 = ((None, v2), w2)"
  shows "(\<exists>e. r = Inl e) \<and>
         (\<exists>v'. vstore w' n = Some v' \<and> vFSUUID (volumeStatus v') = dFSUUID (driveStatus drive) \<and>
               vStatus (volumeStatus v') = VolumeStatusReady) \<and>
         (\<exists>r2 w3. move_volume E drive n w' = (r2, w3) \<and> (\<forall>v' w4. api_Get (VolumeClient E) n w' = (Inr v', w4) \<longrightarrow> r2 = Inr ()))"
proof -
  note va = cluster.axioms(2) [OF host_cluster.axioms(1) [OF assms(1)]]
  have nm: "objName v = n" using object_api.store_name [OF va assms(2)] .
  let ?v1 = "rebind E drive v"
  have s1: "IsStaged ?v1" using assms(3) by (simp add: IsStaged_def)
  obtain rv where v2: "v2 = staged (GetVolumeDir (vFSUUID (volumeStatus ?v1)) (objName ?v1)) (vStagingTargetPath (volumeStatus v)) ?v1"
      and rv: "ResourceVersion ?v1 < rv" and st: "vstore w2 = (vstore w1)(objName ?v1 \<mapsto> v2\<lparr>ResourceVersion := rv\<rparr>)"
    using StageVolume_stored [OF assms(1,10)] assms(4) by auto
  obtain r3 w3 where u: "api_Update (VolumeClient E) v2 w2 = (r3, w3)" by fastforce
  have "\<exists>e. r3 = Inl e"
  proof (cases r3)
    case (Inr y)
    then have "ResourceVersion v2 = rv" using object_api.update_ok [OF va, of v2 w2 y w3] u st v2 by auto
    then show ?thesis using rv v2 by simp
  qed simp
  then obtain e where e: "r3 = Inl e" by blast
  have r: "r = Inl e" "w' = w3"
    using assms(5-10) s1 u e by (simp_all add: move_volume_def Let_def)
  have w3: "vstore w3 n = Some (v2\<lparr>ResourceVersion := rv\<rparr>)"
    using object_api.update_err [OF va] u e st nm by simp
  have again: "move_volume E drive n w' = (Inr (), w4)" if g: "api_Get (VolumeClient E) n w' = (Inr v', w4)" for v' w4
  proof -
    have "v' = v2\<lparr>ResourceVersion := rv\<rparr>" using object_api.get_found [OF va g] w3 r by simp
    then show ?thesis using g v2 by (simp add: move_volume_def)
  qed
  obtain r2 w5 where "move_volume E drive n w' = (r2, w5)" by fastforce
  then have "\<exists>r2 w3. move_volume E drive n w' = (r2, w3) \<and> (\<forall>v' w4. api_Get (VolumeClient E) n w' = (Inr v', w4) \<longrightarrow> r2 = Inr ())"
    using again by auto
  then show ?thesis using r w3 v2 by auto
qed

theorem move_staged_volume_conflicts_witness:
  "\<exists>e w' v'. move_volume store_env moving_drive ''pvc-1'' moving_world = (Inl e, w') \<and>
     world_volumes w' ''pvc-1'' = Some v' \<and> vFSUUID (volumeStatus v') = dFSUUID (driveStatus moving_drive)"
proof -
  have v: "world_volumes moving_world ''pvc-1'' = Some moving_volume"
    by (simp add: world_volumes_def moving_world_def lookup_obj_def moving_volume_def sample_volume_def NewDirectPVVolume_def)
  have g: "api_Get (VolumeClient store_env) ''pvc-1'' moving_world = (Inr moving_volume, moving_world)"
    by (simp add: store_env_def store_client_def store_api_def v [unfolded world_volumes_def])
  have f: "IsStaged moving_volume" "Finalizers moving_volume \<noteq> []" "\<not> IsPublished moving_volume"
      "vFSUUID (volumeStatus moving_volume) \<noteq> dFSUUID (driveStatus moving_drive)" by code_simp+
  have nd: "Volume_GetNodeID (store_env :: hworld env) moving_volume = Drive_GetNodeID (store_env :: hworld env) moving_drive"
    by code_simp
  have "fst (fst (StageVolume store_env (rebind (store_env :: hworld env) moving_drive moving_volume)
      (vStagingTargetPath (volumeStatus moving_volume)) moving_world)) = None" by code_simp
  then obtain v2 w2 where s: "StageVolume store_env (rebind (store_env :: hworld env) moving_drive moving_volume)
      (vStagingTargetPath (volumeStatus moving_volume)) moving_world = ((None, v2), w2)" by (metis prod.collapse)
  obtain r w' where m: "move_volume store_env moving_drive ''pvc-1'' moving_world = (r, w')" by fastforce
  show ?thesis
    using move_staged_volume_conflicts [OF store_host.host_cluster_axioms, OF v f(1,2) m f(4,3) nd g s] m by auto
qed

end
