(* ===== verification/Csi_Node.thy ===== *)
theory Csi_Node
  imports Drive_Controller
begin

text \<open>
  The CSI node service, \<^verbatim>\<open>pkg/csi/node\<close>: staging and unstaging a volume
  (\<^verbatim>\<open>stage_unstage.go\<close>), publishing it to a pod and back
  (\<^verbatim>\<open>publish_unpublish.go\<close>), node information, usage and expansion
  (\<^verbatim>\<open>server.go\<close>). The functions stored in the server are fields of \<open>env\<close>. A
  map of a request is the list of its entries. The locale \<open>node_mounts\<close> states what the
  handlers rely on in the mount calls of the host: it is interpreted on the host model.
\<close>

section \<open>Requests and responses\<close>

record NodePublishVolumeRequest =
  npVolumeId :: string
  npStagingTargetPath :: string
  npTargetPath :: string
  npReadonly :: bool
  npVolumeContext :: "(string \<times> string) list"

record NodeExpandVolumeRequest =
  neVolumeId :: string
  neVolumePath :: string
  neCapacityRange :: "int option"

record VolumeUsage =
  usAvailable :: int
  usTotal :: int
  usUsed :: int

record NodeGetInfoResponse =
  niNodeId :: string
  niAccessibleTopology :: "string \<rightharpoonup> string"

record 'w node_server = "'w env" +
  identity :: string
  rack :: string
  zone :: string
  region :: string

datatype node_capability = GET_VOLUME_STATS | STAGE_UNSTAGE_VOLUME | NODE_EXPAND_VOLUME

section \<open>Node information\<close>

definition NodeGetInfo :: "('w, 'b) node_server_scheme \<Rightarrow> NodeGetInfoResponse" where
  "NodeGetInfo server =
     \<lparr> niNodeId = nodeID server,
       niAccessibleTopology =
         [TopologyDriverIdentity \<mapsto> identity server,
          TopologyDriverRack \<mapsto> rack server,
          TopologyDriverZone \<mapsto> zone server,
          TopologyDriverRegion \<mapsto> region server,
          TopologyDriverNode \<mapsto> nodeID server] \<rparr>"

definition NodeGetCapabilities :: "node_capability list" where
  "NodeGetCapabilities = [GET_VOLUME_STATS, STAGE_UNSTAGE_VOLUME, NODE_EXPAND_VOLUME]"

text \<open>\<^verbatim>\<open>int64(quota.CurrentSpace)\<close> reinterprets an unsigned value. A request
  without a volume path gets an empty response.\<close>

definition NodeGetVolumeStats ::
  "('w, 'b) env_scheme \<Rightarrow> string \<Rightarrow> string \<Rightarrow> 'w \<Rightarrow> (rpc_error + VolumeUsage option) \<times> 'w" where
  "NodeGetVolumeStats E volumeID volumePath w =
     (if volumePath = [] then (Inr None, w)
      else call (api_Get (VolumeClient E) volumeID w)
        (\<lambda>err w. (Inl (StatusError codes_NotFound []), w))
        (\<lambda>volume w. call (getDeviceByFSUUID E (vFSUUID (volumeStatus volume)) w)
           (\<lambda>err w. (Inl (StatusError codes_NotFound ''unable to find device by FSUUID''), w))
           (\<lambda>device w. call (getQuota E device volumeID w)
              (\<lambda>err w. (Inl (StatusError codes_NotFound ''unable to get quota information''), w))
              (\<lambda>quota w.
                 (Inr (Some \<lparr> usAvailable = i64 (vTotalCapacity (volumeStatus volume) - i64 (CurrentSpace quota)),
                              usTotal = vTotalCapacity (volumeStatus volume),
                              usUsed = i64 (CurrentSpace quota) \<rparr>), w)))))"

definition expand_volume :: "int \<Rightarrow> Volume \<Rightarrow> Volume" where
  "expand_volume requiredBytes volume =
     volume\<lparr>volumeStatus := (volumeStatus volume)\<lparr>
       vTotalCapacity := requiredBytes,
       vAvailableCapacity := i64 (requiredBytes - vUsedCapacity (volumeStatus volume))\<rparr>\<rparr>"

text \<open>The response holds the required bytes. A missing capacity range counts as -1, and so does
  a range that asks for -1 bytes.\<close>

definition NodeExpandVolume ::
  "('w, 'b) env_scheme \<Rightarrow> NodeExpandVolumeRequest \<Rightarrow> 'w \<Rightarrow> (rpc_error + int) \<times> 'w" where
  "NodeExpandVolume E req w =
     (let requiredBytes = (case neCapacityRange req of None \<Rightarrow> -1 | Some b \<Rightarrow> b);
          volumeID = neVolumeId req
      in if volumeID = [] then (Inl (StatusError codes_InvalidArgument ''volume ID missing in request''), w)
         else if neVolumePath req = [] then (Inl (StatusError codes_InvalidArgument ''volumePath missing in request''), w)
         else if requiredBytes = -1
           then (Inl (StatusError codes_InvalidArgument ''invalid capacity range in the request''), w)
         else call (api_Get (VolumeClient E) volumeID w)
           (\<lambda>err w. (Inl (StatusError (if IsNotFound err then codes_NotFound else codes_Internal)
                            ''unable to get volume''), w))
           (\<lambda>volume w.
              if \<not> IsStaged volume then
                (Inl (StatusError codes_FailedPrecondition ''volume is not yet staged''), w)
              else if vTotalCapacity (volumeStatus volume) \<ge> requiredBytes then (Inr requiredBytes, w)
              else call (getDeviceByFSUUID E (vFSUUID (volumeStatus volume)) w)
                (\<lambda>err w. (Inl (StatusError codes_Internal ''unable to find device by FSUUID''), w))
                (\<lambda>device w.
                   call (setQuota E device (vDataPath (volumeStatus volume)) (objName volume)
                           (capacity_quota requiredBytes) True w)
                     (\<lambda>err w. (Inl (StatusError codes_Internal ''unable to set quota on volume data path''), w))
                     (\<lambda>_ w. call (api_Update (VolumeClient E) (expand_volume requiredBytes volume) w)
                        (\<lambda>err w. (Inl (StatusError codes_Internal ''unable to update volume''), w))
                        (\<lambda>_ w. (Inr requiredBytes, w))))))"

section \<open>Publishing\<close>

definition podNameKey :: string where
  "podNameKey = ''csi.storage.k8s.io/pod.name''"

definition podNamespaceKey :: string where
  "podNamespaceKey = ''csi.storage.k8s.io/pod.namespace''"

definition parseVolumeContext :: "(string \<times> string) list \<Rightarrow> (string \<times> string) result" where
  "parseVolumeContext volumeContext =
     (case map_of volumeContext podNameKey of
        None \<Rightarrow> Inl (ErrorString ''required volume context key not found'')
      | Some name \<Rightarrow>
          (case map_of volumeContext podNamespaceKey of
             None \<Rightarrow> Inl (ErrorString ''required volume context key not found'')
           | Some ns \<Rightarrow> Inr (name, ns)))"

definition getPodInfo ::
  "('w, 'b) env_scheme \<Rightarrow> NodePublishVolumeRequest \<Rightarrow> 'w \<Rightarrow> (string \<times> string \<times> (string \<times> string) list) \<times> 'w" where
  "getPodInfo E req w =
     (case parseVolumeContext (npVolumeContext req) of
        Inl err \<Rightarrow> (([], [], []), w)
      | Inr (podName, podNS) \<Rightarrow>
          call (getPodLabels E podNS podName w)
            (\<lambda>err w. ((podName, podNS, []), w))
            (\<lambda>podLabels w. ((podName, podNS, podLabels), w)))"

definition isDriveSuspended :: "('w, 'b) env_scheme \<Rightarrow> DriveID \<Rightarrow> 'w \<Rightarrow> bool \<times> 'w" where
  "isDriveSuspended E driveID w =
     call (api_Get (DriveClient E) driveID w) (\<lambda>err w. (False, w)) (\<lambda>drive w. (Drive_IsSuspended E drive, w))"

text \<open>\<^verbatim>\<open>volume.IsSuspended() || isDriveSuspended(...)\<close>: the drive is read only if
  the volume itself is not suspended.\<close>

definition is_suspended :: "('w, 'b) env_scheme \<Rightarrow> Volume \<Rightarrow> 'w \<Rightarrow> bool \<times> 'w" where
  "is_suspended E volume w =
     (if Volume_IsSuspended E volume then (True, w) else isDriveSuspended E (Volume_GetDriveID E volume) w)"

definition publish_mount ::
  "('w, 'b) env_scheme \<Rightarrow> NodePublishVolumeRequest \<Rightarrow> bool \<Rightarrow> MountInfo \<Rightarrow> ('w, unit) io" where
  "publish_mount E req isSuspended mountInfo w =
     (if isSuspended then
        if MountInfo_IsEmpty (FilterByMountPoint TmpMountDir mountInfo)
          then (Inl (ErrorString ''temporary directory is not mounted; restart this node server''), w)
        else if \<not> MountInfo_IsEmpty (FilterByMountSource ''tmpfs'' (FilterByMountPoint (npTargetPath req) mountInfo))
          then (Inr (), w)
        else call (bindMount E TmpMountDir (npTargetPath req) True w)
               (\<lambda>err w. (Inl (Wrap ''unable to bind mount target path'' err), w)) (\<lambda>_ w. (Inr (), w))
      else
        let stagingTargetPathDevices = mount_devices (FilterByMountPoint (npStagingTargetPath req) mountInfo);
            targetPathDevices = mount_devices (FilterByMountPoint (npTargetPath req) mountInfo)
        in if StringSet_IsEmpty stagingTargetPathDevices then (Inl (ErrorString ''stagingPath is not mounted''), w)
           else if \<not> StringSet_IsEmpty targetPathDevices \<and>
                   StringSet_Equal targetPathDevices stagingTargetPathDevices then (Inr (), w)
           else call (bindMount E (npStagingTargetPath req) (npTargetPath req) (npReadonly req) w)
                  (\<lambda>err w. (Inl (Wrap ''unable to bind mount staging target path to target path'' err), w))
                  (\<lambda>_ w. (Inr (), w)))"

definition publishVolume ::
  "('w, 'b) env_scheme \<Rightarrow> NodePublishVolumeRequest \<Rightarrow> bool \<Rightarrow> ('w, unit) io" where
  "publishVolume E req isSuspended w =
     (let go_on = (\<lambda>w. call (getMounts E w) (\<lambda>err w. (Inl err, w))
                        (\<lambda>mountInfo w. publish_mount E req isSuspended mountInfo w))
      in call (mkdir E (npTargetPath req) w)
           (\<lambda>err w. if \<not> errors_Is_ErrExist err then (Inl (Wrap ''unable to create target path'' err), w) else go_on w)
           (\<lambda>_ w. go_on w))"

definition set_pod_labels :: "(string \<times> string) list \<Rightarrow> Volume \<Rightarrow> Volume" where
  "set_pod_labels podLabels volume =
     fold (\<lambda>(key, val) volume. if HasPrefix key (GroupName @ ''/'') then snd (Volume_SetLabel key val volume) else volume)
       podLabels volume"

definition published :: "'a lib_scheme \<Rightarrow> string \<times> string \<times> (string \<times> string) list \<Rightarrow> string \<Rightarrow> Volume \<Rightarrow> Volume" where
  "published L pod targetPath volume =
     (let volume1 = set_pod_labels (snd (snd pod)) (SetPodNS L (fst (snd pod)) (SetPodName L (fst pod) volume))
      in volume1\<lparr>volumeStatus := (volumeStatus volume1)\<lparr>vTargetPath := targetPath\<rparr>\<rparr>)"

definition NodePublishVolume ::
  "('w, 'b) env_scheme \<Rightarrow> NodePublishVolumeRequest \<Rightarrow> 'w \<Rightarrow> (rpc_error + unit) \<times> 'w" where
  "NodePublishVolume E req w =
     (if npVolumeId req = [] then (Inl (StatusError codes_InvalidArgument ''volume ID must not be empty''), w)
      else if npStagingTargetPath req = []
        then (Inl (StatusError codes_InvalidArgument ''Staging target path must not be empty''), w)
      else if npTargetPath req = [] then (Inl (StatusError codes_InvalidArgument ''target path must not be empty''), w)
      else call (api_Get (VolumeClient E) (npVolumeId req) w)
        (\<lambda>err w. (Inl (StatusError codes_NotFound []), w))
        (\<lambda>volume w.
           let (isSuspended, w) = is_suspended E volume w
           in if \<not> isSuspended \<and> vStagingTargetPath (volumeStatus volume) \<noteq> npStagingTargetPath req
                then (Inl (StatusError codes_FailedPrecondition ''volume is not yet staged''), w)
              else call (publishVolume E req isSuspended w)
                (\<lambda>err w. (Inl (StatusError codes_Internal ''unable to publish volume''), w))
                (\<lambda>_ w.
                   let (pod, w) = getPodInfo E req w
                   in call (api_Update (VolumeClient E) (published E pod (npTargetPath req) volume) w)
                        (\<lambda>err w. (Inl (StatusError codes_Internal ''unable to update volume''), w))
                        (\<lambda>_ w. (Inr (), w)))))"

definition NodeUnpublishVolume ::
  "('w, 'b) env_scheme \<Rightarrow> string \<Rightarrow> string \<Rightarrow> 'w \<Rightarrow> (rpc_error + unit) \<times> 'w" where
  "NodeUnpublishVolume E volumeID targetPath w =
     (if volumeID = [] then (Inl (StatusError codes_InvalidArgument ''volume ID missing in request''), w)
      else if targetPath = [] then (Inl (StatusError codes_InvalidArgument ''targetPath missing in request''), w)
      else call (api_Get (VolumeClient E) volumeID w)
        (\<lambda>err w. if IsNotFound err then (Inr (), w) else (Inl (StatusError codes_NotFound []), w))
        (\<lambda>volume w. call (unmount E targetPath w)
           (\<lambda>err w. (Inl (StatusError codes_Internal []), w))
           (\<lambda>_ w.
              if vTargetPath (volumeStatus volume) = targetPath
              then call (api_Update (VolumeClient E)
                           (volume\<lparr>volumeStatus := (volumeStatus volume)\<lparr>vTargetPath := []\<rparr>\<rparr>) w)
                     (\<lambda>err w. (Inl (PlainError err), w)) (\<lambda>_ w. (Inr (), w))
              else (Inr (), w))))"

section \<open>Staging\<close>

definition NodeStageVolume ::
  "('w, 'b) env_scheme \<Rightarrow> string \<Rightarrow> string \<Rightarrow> 'w \<Rightarrow> (rpc_error + unit) \<times> 'w" where
  "NodeStageVolume E volumeID stagingTargetPath w =
     (if volumeID = [] then (Inl (StatusError codes_InvalidArgument ''volume ID missing in request''), w)
      else if stagingTargetPath = []
        then (Inl (StatusError codes_InvalidArgument ''stagingTargetPath missing in request''), w)
      else call (api_Get (VolumeClient E) volumeID w)
        (\<lambda>err w. (Inl (StatusError codes_NotFound []), w))
        (\<lambda>volume w.
           let (isSuspended, w) = is_suspended E volume w
           in if isSuspended then (Inr (), w)
              else (case StageVolume E volume stagingTargetPath w of
                      ((Some (code, err), _), w) \<Rightarrow> (Inl (StatusError code []), w)
                    | ((None, _), w) \<Rightarrow> (Inr (), w))))"

definition NodeUnstageVolume ::
  "('w, 'b) env_scheme \<Rightarrow> string \<Rightarrow> string \<Rightarrow> 'w \<Rightarrow> (rpc_error + unit) \<times> 'w" where
  "NodeUnstageVolume E volumeID stagingTargetPath w =
     (if volumeID = [] then (Inl (StatusError codes_InvalidArgument ''volume ID missing in request''), w)
      else if stagingTargetPath = []
        then (Inl (StatusError codes_InvalidArgument ''stagingTargetPath missing in request''), w)
      else call (api_Get (VolumeClient E) volumeID w)
        (\<lambda>err w. if IsNotFound err then (Inr (), w) else (Inl (StatusError codes_Internal []), w))
        (\<lambda>volume w. call (unmount E stagingTargetPath w)
           (\<lambda>err w. (Inl (StatusError codes_Internal []), w))
           (\<lambda>_ w.
              if vStagingTargetPath (volumeStatus volume) = stagingTargetPath
              then call (api_Update (VolumeClient E)
                           (volume\<lparr>volumeStatus := (volumeStatus volume)\<lparr>vStagingTargetPath := []\<rparr>\<rparr>) w)
                     (\<lambda>err w. (Inl (StatusError codes_Internal []), w)) (\<lambda>_ w. (Inr (), w))
              else (Inr (), w))))"

section \<open>What the handlers rely on in the host's mounts\<close>

text \<open>
  \<open>mounts\<close> are the mounts of a node as pairs of a source device and a mount point. Reading
  the mount table shows them; a bind mount adds a mount of the device behind the source path; an
  unmount touches no other mount point; the other calls leave them alone.
\<close>

locale node_mounts = host_cluster E dstore vstore
  for E :: "('w, 'b) env_scheme" and dstore vstore +
  fixes mounts :: "'w \<Rightarrow> (string \<times> string) set"
  assumes mounts_read: "getMounts E w = (Inr info, w') \<Longrightarrow>
      mount_info_wf info \<and> (\<lambda>e. (MountSource e, MountPoint e)) ` mount_entries info = mounts w"
    and mounts_keep: "snd (getMounts E w) = w' \<or> snd (mkdir E a w) = w' \<or> snd (getDeviceByFSUUID E a w) = w' \<or>
      snd (setQuota E a b c q u w) = w' \<or> snd (getPodLabels E a b w) = w' \<Longrightarrow> mounts w' = mounts w"
    and mounts_api: "api_step (DriveClient E) w w' \<or> api_step (VolumeClient E) w w' \<Longrightarrow> mounts w' = mounts w"
    and mounts_bind: "bindMount E s t ro w = (Inr u', w') \<Longrightarrow>
      \<exists>dev. mounts w' = insert (dev, t) (mounts w) \<and> ((\<exists>dev'. (dev', s) \<in> mounts w) \<longrightarrow> (dev, s) \<in> mounts w)"
    and mounts_unmount: "unmount E t w = (Inr u', w') \<Longrightarrow>
      mounts w' \<subseteq> mounts w \<and> {m \<in> mounts w. snd m \<noteq> t} \<subseteq> mounts w'"
begin

lemma mounted_info:
  assumes "getMounts E w = (Inr info, w')"
  shows "mount_info_wf info" and "mounts w' = mounts w"
    and "\<not> MountInfo_IsEmpty (FilterByMountPoint t info) \<longleftrightarrow> (\<exists>dev. (dev, t) \<in> mounts w)"
    and "\<not> MountInfo_IsEmpty (FilterByMountSource dev (FilterByMountPoint t info)) \<longleftrightarrow> (dev, t) \<in> mounts w"
    and "set (mount_devices (FilterByMountPoint t info)) = {dev. (dev, t) \<in> mounts w}"
    and "distinct (mount_devices (FilterByMountPoint t info))"
proof -
  show wf: "mount_info_wf info" using mounts_read [OF assms] by simp
  have im: "(dev, t) \<in> mounts w \<longleftrightarrow> (\<exists>e \<in> mount_entries info. MountSource e = dev \<and> MountPoint e = t)" for dev t
    unfolding mounts_read [OF assms, THEN conjunct2, symmetric] by auto
  show "mounts w' = mounts w" using mounts_keep [of w w'] assms by simp
  show "\<not> MountInfo_IsEmpty (FilterByMountPoint t info) \<longleftrightarrow> (\<exists>dev. (dev, t) \<in> mounts w)"
    using proc_mounts.mounted_on [OF wf] im by auto
  show "\<not> MountInfo_IsEmpty (FilterByMountSource dev (FilterByMountPoint t info)) \<longleftrightarrow> (dev, t) \<in> mounts w"
    using proc_mounts.mounted_from [OF wf] im by auto
  show "set (mount_devices (FilterByMountPoint t info)) = {dev. (dev, t) \<in> mounts w}"
    unfolding mount_devices_def go_set.fold_add using proc_mounts.by_point [OF wf] im
    by (auto simp: set_MountInfo_List)
  show "distinct (mount_devices (FilterByMountPoint t info))"
    unfolding mount_devices_def by (rule go_set.invar_fold_add) simp
qed

lemma mounts_ops:
  "mkdir E a w = (r1, w') \<Longrightarrow> mounts w' = mounts w"
  "getDeviceByFSUUID E a w = (r2, w') \<Longrightarrow> mounts w' = mounts w"
  "setQuota E a b c q u w = (r1, w') \<Longrightarrow> mounts w' = mounts w"
  "getPodLabels E a b w = (r3, w') \<Longrightarrow> mounts w' = mounts w"
  "api_Get (DriveClient E) a w = (r4, w') \<Longrightarrow> mounts w' = mounts w"
  "api_Get (VolumeClient E) a w = (r5, w') \<Longrightarrow> mounts w' = mounts w"
  "api_Update (VolumeClient E) x w = (r5, w') \<Longrightarrow> mounts w' = mounts w"
  using mounts_keep mounts_api api_stepI by (metis snd_conv)+

text \<open>Publishing: what is mounted on the target path afterwards.\<close>

lemma publish_mount_effect:
  assumes "getMounts E w0 = (Inr info, w)" and "publish_mount E req s info w = (Inr u, w')"
  shows "mounts w \<subseteq> mounts w' \<and> (\<forall>m \<in> mounts w' - mounts w. snd m = npTargetPath req) \<and>
         dstore w' = dstore w \<and> vstore w' = vstore w \<and>
         (if s then (\<exists>dev. (dev, TmpMountDir) \<in> mounts w \<and> (dev, npTargetPath req) \<in> mounts w') \<or>
                    (''tmpfs'', npTargetPath req) \<in> mounts w'
          else \<exists>dev. (dev, npStagingTargetPath req) \<in> mounts w \<and> (dev, npTargetPath req) \<in> mounts w')"
proof -
  note mi = mounted_info(3-6) [OF assms(1)]
  note m0 = mounted_info(2) [OF assms(1)]
  have bind: "mounts w \<subseteq> mounts w' \<and> (\<forall>m \<in> mounts w' - mounts w. snd m = t) \<and> dstore w' = dstore w \<and> vstore w' = vstore w \<and>
      ((\<exists>dev. (dev, a) \<in> mounts w) \<longrightarrow> (\<exists>dev. (dev, a) \<in> mounts w \<and> (dev, t) \<in> mounts w'))"
    if "bindMount E a t ro w = (Inr x, w')" for a t ro x
    using mounts_bind [OF that] host_ops_drives(4) [OF that] host_ops_volumes(4) [OF that] by auto
  show ?thesis
  proof (cases s)
    case True
    then have ex: "\<exists>dev. (dev, TmpMountDir) \<in> mounts w"
      using assms(2) mi(1) [of TmpMountDir] m0 by (auto simp: publish_mount_def split: if_splits)
    show ?thesis
    proof (cases "(''tmpfs'', npTargetPath req) \<in> mounts w")
      case True
      then have "w' = w" using \<open>s\<close> assms(2) mi(2) m0 by (auto simp: publish_mount_def split: if_splits)
      then show ?thesis using True \<open>s\<close> by auto
    next
      case False
      then have "\<exists>x. bindMount E TmpMountDir (npTargetPath req) True w = (Inr x, w')"
        using \<open>s\<close> assms(2) mi(2) m0 by (auto simp: publish_mount_def split: if_splits elim!: callE)
      then show ?thesis using bind \<open>s\<close> ex by auto
    qed
  next
    case False
    let ?st = "mount_devices (FilterByMountPoint (npStagingTargetPath req) info)"
    let ?tp = "mount_devices (FilterByMountPoint (npTargetPath req) info)"
    have ex: "\<exists>dev. (dev, npStagingTargetPath req) \<in> mounts w"
      using assms(2) False mi(3) m0 go_set.is_empty_iff [of ?st]
      by (auto simp: publish_mount_def Let_def split: if_splits)
    show ?thesis
    proof (cases "\<not> StringSet_IsEmpty ?tp \<and> StringSet_Equal ?tp ?st")
      case True
      then have eq: "set ?tp = set ?st" using go_set.eq_iff mi(4) by blast
      have "w' = w" using assms(2) False True by (auto simp: publish_mount_def Let_def split: if_splits)
      moreover obtain dev where "(dev, npStagingTargetPath req) \<in> mounts w" using ex by blast
      moreover from this have "dev \<in> set ?tp" using eq mi(3) m0 by simp
      ultimately show ?thesis using False mi(3) m0 by auto
    next
      case False
      then have "\<exists>x. bindMount E (npStagingTargetPath req) (npTargetPath req) (npReadonly req) w = (Inr x, w')"
        using \<open>\<not> s\<close> assms(2) by (auto simp: publish_mount_def Let_def split: if_splits elim!: callE)
      then show ?thesis using bind \<open>\<not> s\<close> ex by auto
    qed
  qed
qed

lemma publishVolume_effect:
  assumes "publishVolume E req s w = (Inr u, w')"
  shows "mounts w \<subseteq> mounts w' \<and> (\<forall>m \<in> mounts w' - mounts w. snd m = npTargetPath req) \<and>
         dstore w' = dstore w \<and> vstore w' = vstore w \<and>
         (if s then (\<exists>dev. (dev, TmpMountDir) \<in> mounts w \<and> (dev, npTargetPath req) \<in> mounts w') \<or>
                    (''tmpfs'', npTargetPath req) \<in> mounts w'
          else \<exists>dev. (dev, npStagingTargetPath req) \<in> mounts w \<and> (dev, npTargetPath req) \<in> mounts w')"
proof -
  obtain r w1 w2 info where m: "mkdir E (npTargetPath req) w = (r, w1)" and g: "getMounts E w1 = (Inr info, w2)"
      and p: "publish_mount E req s info w2 = (Inr u, w')"
    using assms by (auto simp: publishVolume_def Let_def split: if_splits elim!: callE)
  have eqs: "mounts w2 = mounts w" "dstore w2 = dstore w" "vstore w2 = vstore w"
    using mounts_ops(1) [OF m] mounted_info(2) [OF g] host_ops_drives(3) [OF m] host_ops_volumes(3) [OF m]
      host_ops_drives(1) [OF g] host_ops_volumes(1) [OF g] by simp_all
  show ?thesis using publish_mount_effect [OF g p] unfolding eqs .
qed

end

section \<open>The host model implements it\<close>

lemma mount_table_of_snoc:
  "mount_table_of (ms @ [m]) = add_mount (mount_of (length ms) m) (mount_table_of ms)"
proof -
  have "map_index_from k mount_of (ms @ [m]) = map_index_from k mount_of ms @ [mount_of (k + length ms) m]" for k
    by (induction ms arbitrary: k) auto
  then show ?thesis by (simp add: mount_table_of_def)
qed

lemma mount_table_of_map:
  "map_of (infoMap (mount_table_of (ms @ [m]))) =
     (map_of (infoMap (mount_table_of ms)))(length ms \<mapsto> mount_of (length ms) m)"
  unfolding mount_table_of_snoc by (simp add: add_mount_def mount_of_def)

lemma mount_table_of_fresh: "length ms \<le> h \<Longrightarrow> map_of (infoMap (mount_table_of ms)) h = None"
  by (induction ms arbitrary: h rule: rev_induct)
    (simp_all add: mount_table_of_map, simp add: mount_table_of_def empty_info_def)

lemma mount_entries_table:
  "(\<lambda>e. (MountSource e, MountPoint e)) ` mount_entries (mount_table_of ms) = set ms"
proof (induction ms rule: rev_induct)
  case (snoc m ms)
  have "mount_entries (mount_table_of (ms @ [m])) = insert (mount_of (length ms) m) (mount_entries (mount_table_of ms))"
    using mount_table_of_fresh [of ms "length ms"] by (simp add: mount_entries_map mount_table_of_wf mount_table_of_map)
  then show ?case using snoc by (simp add: mount_of_def)
qed (simp add: mount_table_of_def mount_entries_def empty_info_def)

lemma bind_source_mounted:
  assumes "(dev', s) \<in> set ms"
  shows "(bind_source s ms, s) \<in> set ms"
proof -
  obtain m rest where f: "filter (\<lambda>m. snd m = s) (rev ms) = m # rest"
    using assms by (cases "filter (\<lambda>m. snd m = s) (rev ms)") (force simp: filter_empty_conv)+
  then have "m \<in> set (filter (\<lambda>m. snd m = s) (rev ms))" by (metis list.set_intros(1))
  then have "m \<in> set ms" and "snd m = s" by simp_all
  then show ?thesis using f by (auto simp: bind_source_def)
qed

interpretation store_mounts: node_mounts "store_env :: hworld env" world_drives world_volumes "\<lambda>w. set (wMounts w)"
proof (intro node_mounts.intro node_mounts_axioms.intro store_host.host_cluster_axioms, goal_cases)
  case (1 w info w')
  then have "info = mount_table_of (wMounts w)" by (auto simp: store_env_def)
  then show ?case using mount_entries_table mount_table_of_wf by metis
next
  case (2 w w' a b c q u)
  then show ?case by (auto simp: store_env_def)
next
  case (3 w w')
  then have "wMounts w' = wMounts w"
    by (auto simp: store_env_def store_client_def elim!: store_api_step_put)
  then show ?case by simp
next
  case (4 s t ro w u' w')
  then show ?case using bind_source_mounted by (auto simp: store_env_def)
next
  case (5 t w u' w')
  then show ?case by (auto simp: store_env_def)
qed

section \<open>Publishing is correct\<close>

lemma set_pod_labels_frame [simp]:
  "objName (set_pod_labels ls v) = objName v"
  "ResourceVersion (set_pod_labels ls v) = ResourceVersion v"
  "Finalizers (set_pod_labels ls v) = Finalizers v"
  "DeletionTimestamp (set_pod_labels ls v) = DeletionTimestamp v"
  "volumeStatus (set_pod_labels ls v) = volumeStatus v"
  unfolding set_pod_labels_def by (induction ls arbitrary: v) auto

lemma published_frame [simp]:
  "objName (published L pod t v) = objName v"
  "ResourceVersion (published L pod t v) = ResourceVersion v"
  "Finalizers (published L pod t v) = Finalizers v"
  "DeletionTimestamp (published L pod t v) = DeletionTimestamp v"
  "volumeStatus (published L pod t v) = (volumeStatus v)\<lparr>vTargetPath := t\<rparr>"
  by (simp_all add: published_def Let_def SetPodNS_def SetPodName_def)

lemma set_pod_labels_labels:
  "objLabels (set_pod_labels ls v) k =
     (case map_of (rev ls) k of
        Some x \<Rightarrow> if HasPrefix k (GroupName @ ''/'') then Some x else objLabels v k
      | None \<Rightarrow> objLabels v k)"
proof (induction ls rule: rev_induct)
  case (snoc p ls)
  obtain a x where p: "p = (a, x)" by fastforce
  have "set_pod_labels (ls @ [p]) v =
      (if HasPrefix a (GroupName @ ''/'') then snd (Volume_SetLabel a x (set_pod_labels ls v)) else set_pod_labels ls v)"
    by (simp add: set_pod_labels_def p)
  then show ?case using snoc by (auto simp: p Volume_SetLabel_def Volume_GetLabels_def split: option.splits)
qed (simp add: set_pod_labels_def)

lemma published_labels:
  assumes "k \<noteq> PodNameLabelKey" and "k \<noteq> PodNSLabelKey"
  shows "objLabels (published L (name, ns, ls) t v) k =
     (case map_of (rev ls) k of
        Some x \<Rightarrow> if HasPrefix k (GroupName @ ''/'') then Some x else objLabels v k
      | None \<Rightarrow> objLabels v k)"
  using assms
  by (auto simp: published_def Let_def set_pod_labels_labels SetPodNS_def SetPodName_def Volume_SetLabel_def
      Volume_GetLabels_def split: option.splits)

context node_mounts
begin

lemma is_suspended_frame:
  assumes "is_suspended E v w = (b, w')"
  shows "dstore w' = dstore w" and "vstore w' = vstore w" and "mounts w' = mounts w"
proof -
  have "dstore w' = dstore w \<and> vstore w' = vstore w \<and> mounts w' = mounts w"
    using assms drive_ops_volumes(1) d.get_frame mounts_ops(5)
    by (auto simp: is_suspended_def isDriveSuspended_def split: if_splits elim!: callE)
  then show "dstore w' = dstore w" and "vstore w' = vstore w" and "mounts w' = mounts w" by simp_all
qed

lemma getPodInfo_frame:
  assumes "getPodInfo E req w = (pod, w')"
  shows "dstore w' = dstore w" and "vstore w' = vstore w" and "mounts w' = mounts w"
proof -
  have "dstore w' = dstore w \<and> vstore w' = vstore w \<and> mounts w' = mounts w"
    using assms host_ops_drives(13) host_ops_volumes(13) mounts_ops(4)
    by (auto simp: getPodInfo_def split: sum.splits elim!: callE)
  then show "dstore w' = dstore w" and "vstore w' = vstore w" and "mounts w' = mounts w" by simp_all
qed

lemma volume_read:
  assumes "api_Get (VolumeClient E) n w = (Inr v, w')"
  shows "vstore w n = Some v" and "objName v = n" and "dstore w' = dstore w" and "vstore w' = vstore w"
    and "mounts w' = mounts w"
  using v.get_found [OF assms] v.get_name [OF assms] v.get_frame [OF assms] volume_ops_drives(1) [OF assms]
    mounts_ops(6) [OF assms] by simp_all

lemma volume_missing:
  assumes "api_Get (VolumeClient E) n w = (Inl e, w')" and "IsNotFound e"
  shows "vstore w n = None" and "dstore w' = dstore w" and "vstore w' = vstore w" and "mounts w' = mounts w"
  using v.get_not_found [OF assms] v.get_frame [OF assms(1)] volume_ops_drives(1) [OF assms(1)]
    mounts_ops(6) [OF assms(1)] by simp_all

lemma volume_written:
  assumes "api_Update (VolumeClient E) x w = (Inr y, w')" and "Finalizers x \<noteq> []"
  shows "\<exists>rv. vstore w' = (vstore w)(objName x \<mapsto> x\<lparr>ResourceVersion := rv\<rparr>)" and "dstore w' = dstore w"
    and "mounts w' = mounts w"
  using v.update_ok [OF assms(1)] assms(2) volume_ops_drives(3) [OF assms(1)] mounts_ops(7) [OF assms(1)] by auto

lemma NodePublishVolume_effect:
  assumes "NodePublishVolume E req w = (Inr u, w')" and "vstore w (npVolumeId req) = Some v" and "Finalizers v \<noteq> []"
    and "s = fst (is_suspended E v (snd (api_Get (VolumeClient E) (npVolumeId req) w)))"
  shows "\<exists>w3 pod rv. pod = fst (getPodInfo E req w3) \<and> dstore w' = dstore w \<and>
           vstore w' = (vstore w)(npVolumeId req \<mapsto> (published E pod (npTargetPath req) v)\<lparr>ResourceVersion := rv\<rparr>) \<and>
           npTargetPath req \<noteq> [] \<and> mounts w \<subseteq> mounts w' \<and> (\<forall>m \<in> mounts w' - mounts w. snd m = npTargetPath req) \<and>
           (if s then (\<exists>dev. (dev, TmpMountDir) \<in> mounts w \<and> (dev, npTargetPath req) \<in> mounts w') \<or>
                      (''tmpfs'', npTargetPath req) \<in> mounts w'
            else vStagingTargetPath (volumeStatus v) = npStagingTargetPath req \<and>
                 (\<exists>dev. (dev, npStagingTargetPath req) \<in> mounts w \<and> (dev, npTargetPath req) \<in> mounts w'))"
proof -
  obtain v' w1 where g: "api_Get (VolumeClient E) (npVolumeId req) w = (Inr v', w1)"
    using assms(1) by (auto simp: NodePublishVolume_def split: if_splits elim!: callE)
  note rd = volume_read [OF g]
  have v': "v' = v" using rd(1) assms(2) by simp
  obtain w2 where sus: "is_suspended E v w1 = (s, w2)" using assms(4) g by (cases "is_suspended E v w1") auto
  have t: "npTargetPath req \<noteq> []" using assms(1) by (auto simp: NodePublishVolume_def split: if_splits)
  have st: "s \<or> vStagingTargetPath (volumeStatus v) = npStagingTargetPath req"
    and run: "call (publishVolume E req s w2) (\<lambda>err w. (Inl (StatusError codes_Internal ''unable to publish volume''), w))
      (\<lambda>_ w. let (pod, w) = getPodInfo E req w
              in call (api_Update (VolumeClient E) (published E pod (npTargetPath req) v) w)
                   (\<lambda>err w. (Inl (StatusError codes_Internal ''unable to update volume''), w)) (\<lambda>_ w. (Inr (), w))) = (Inr u, w')"
    using assms(1) g sus v' by (simp_all add: NodePublishVolume_def split: if_splits)
  obtain w3 x where p: "publishVolume E req s w2 = (Inr x, w3)"
    using run by (auto elim!: callE)
  obtain pod w4 where gp: "getPodInfo E req w3 = (pod, w4)" by fastforce
  obtain y where up: "api_Update (VolumeClient E) (published E pod (npTargetPath req) v) w4 = (Inr y, w')"
    using run p gp by (auto elim!: callE)
  note wr = volume_written [OF up, unfolded published_frame, OF assms(3)]
  note eqs = is_suspended_frame [OF sus] getPodInfo_frame [OF gp] rd(2-5) v'
  note eff = publishVolume_effect [OF p]
  obtain rv where vs: "vstore w' = (vstore w4)(objName v \<mapsto> (published E pod (npTargetPath req) v)\<lparr>ResourceVersion := rv\<rparr>)"
    using wr(1) by blast
  have mnt: "mounts w' = mounts w3" "mounts w2 = mounts w" using wr(3) eqs by simp_all
  show ?thesis
  proof (rule exI [of _ w3], rule exI [of _ pod], rule exI [of _ rv], intro conjI)
    show "pod = fst (getPodInfo E req w3)" using gp by simp
    show "dstore w' = dstore w" using wr(2) eqs eff by simp
    show "vstore w' = (vstore w)(npVolumeId req \<mapsto> (published E pod (npTargetPath req) v)\<lparr>ResourceVersion := rv\<rparr>)"
      using vs eqs eff by simp
  qed (use eff st t in \<open>auto simp: mnt split: if_splits\<close>)
qed

lemma NodeUnpublishVolume_effect:
  assumes "NodeUnpublishVolume E n t w = (Inr u, w')"
    and "\<forall>v. vstore w n = Some v \<longrightarrow> Finalizers v \<noteq> []"
  shows "dstore w' = dstore w \<and> mounts w' \<subseteq> mounts w \<and> {m \<in> mounts w. snd m \<noteq> t} \<subseteq> mounts w' \<and>
         (case vstore w n of
            None \<Rightarrow> vstore w' = vstore w
          | Some v \<Rightarrow>
              if vTargetPath (volumeStatus v) = t
              then \<exists>rv. vstore w' = (vstore w)(n \<mapsto>
                     v\<lparr>volumeStatus := (volumeStatus v)\<lparr>vTargetPath := []\<rparr>, ResourceVersion := rv\<rparr>)
              else vstore w' = vstore w)"
proof -
  obtain r w1 where g: "api_Get (VolumeClient E) n w = (r, w1)" by fastforce
  show ?thesis
  proof (cases r)
    case (Inl e)
    then have "IsNotFound e" and "w' = w1" using assms(1) g by (auto simp: NodeUnpublishVolume_def split: if_splits)
    then show ?thesis using volume_missing [OF g [unfolded Inl]] by simp
  next
    case (Inr v)
    note rd = volume_read [OF g [unfolded Inr]]
    obtain w2 where um: "unmount E t w1 = (Inr (), w2)"
      using assms(1) g Inr by (auto simp: NodeUnpublishVolume_def split: if_splits elim!: callE)
    have eqs: "dstore w2 = dstore w" "vstore w2 = vstore w"
        "mounts w2 \<subseteq> mounts w" "{m \<in> mounts w. snd m \<noteq> t} \<subseteq> mounts w2"
      using rd mounts_unmount [OF um] host_ops_drives(2) [OF um] host_ops_volumes(2) [OF um] by simp_all
    show ?thesis
    proof (cases "vTargetPath (volumeStatus v) = t")
      case True
      let ?x = "v\<lparr>volumeStatus := (volumeStatus v)\<lparr>vTargetPath := []\<rparr>\<rparr>"
      obtain y where up: "api_Update (VolumeClient E) ?x w2 = (Inr y, w')"
        using assms(1) g Inr um True by (auto simp: NodeUnpublishVolume_def split: if_splits elim!: callE)
      have "Finalizers ?x \<noteq> []" using assms(2) rd(1) by simp
      from volume_written [OF up this] show ?thesis using rd(1,2) eqs True by auto
    next
      case False
      then have "w' = w2" using assms(1) g Inr um by (auto simp: NodeUnpublishVolume_def split: if_splits)
      then show ?thesis using rd(1) eqs False by simp
    qed
  qed
qed

lemma NodeUnstageVolume_effect:
  assumes "NodeUnstageVolume E n p w = (Inr u, w')"
    and "\<forall>v. vstore w n = Some v \<longrightarrow> Finalizers v \<noteq> []"
  shows "dstore w' = dstore w \<and> mounts w' \<subseteq> mounts w \<and> {m \<in> mounts w. snd m \<noteq> p} \<subseteq> mounts w' \<and>
         (case vstore w n of
            None \<Rightarrow> vstore w' = vstore w
          | Some v \<Rightarrow>
              if vStagingTargetPath (volumeStatus v) = p
              then \<exists>rv. vstore w' = (vstore w)(n \<mapsto>
                     v\<lparr>volumeStatus := (volumeStatus v)\<lparr>vStagingTargetPath := []\<rparr>, ResourceVersion := rv\<rparr>)
              else vstore w' = vstore w)"
proof -
  obtain r w1 where g: "api_Get (VolumeClient E) n w = (r, w1)" by fastforce
  show ?thesis
  proof (cases r)
    case (Inl e)
    then have "IsNotFound e" and "w' = w1" using assms(1) g by (auto simp: NodeUnstageVolume_def split: if_splits)
    then show ?thesis using volume_missing [OF g [unfolded Inl]] by simp
  next
    case (Inr v)
    note rd = volume_read [OF g [unfolded Inr]]
    obtain w2 where um: "unmount E p w1 = (Inr (), w2)"
      using assms(1) g Inr by (auto simp: NodeUnstageVolume_def split: if_splits elim!: callE)
    have eqs: "dstore w2 = dstore w" "vstore w2 = vstore w"
        "mounts w2 \<subseteq> mounts w" "{m \<in> mounts w. snd m \<noteq> p} \<subseteq> mounts w2"
      using rd mounts_unmount [OF um] host_ops_drives(2) [OF um] host_ops_volumes(2) [OF um] by simp_all
    show ?thesis
    proof (cases "vStagingTargetPath (volumeStatus v) = p")
      case True
      let ?x = "v\<lparr>volumeStatus := (volumeStatus v)\<lparr>vStagingTargetPath := []\<rparr>\<rparr>"
      obtain y where up: "api_Update (VolumeClient E) ?x w2 = (Inr y, w')"
        using assms(1) g Inr um True by (auto simp: NodeUnstageVolume_def split: if_splits elim!: callE)
      have "Finalizers ?x \<noteq> []" using assms(2) rd(1) by simp
      from volume_written [OF up this] show ?thesis using rd(1,2) eqs True by auto
    next
      case False
      then have "w' = w2" using assms(1) g Inr um by (auto simp: NodeUnstageVolume_def split: if_splits)
      then show ?thesis using rd(1) eqs False by simp
    qed
  qed
qed

lemma StageVolume_mounts:
  assumes "StageVolume E v p w = ((None, v'), w')" and "p \<noteq> []"
  shows "mounts w \<subseteq> mounts w' \<and> (\<forall>m \<in> mounts w' - mounts w. snd m = p) \<and> (\<exists>dev. (dev, p) \<in> mounts w')"
proof -
  let ?dir = "GetVolumeDir (vFSUUID (volumeStatus v)) (objName v)"
  obtain device w1 w2 r2 where g: "getDeviceByFSUUID E (vFSUUID (volumeStatus v)) w = (Inr device, w1)"
      and m: "mkdir E ?dir w1 = (r2, w2)" and sm: "stage_mount E device ?dir p v w2 = ((None, v'), w')"
    using assms(1) by (auto simp: StageVolume_def Let_def split: if_splits elim!: callE)
  obtain w3 w4 y where q: "setQuota E device ?dir (objName v) (capacity_quota (vTotalCapacity (volumeStatus v))) False w2 = (Inr (), w3)"
      and b: "stageVolumeMount E (objName v) ?dir p w3 = (Inr (), w4)"
      and u: "api_Update (VolumeClient E) (staged ?dir p v) w4 = (Inr y, w')"
    using sm assms(2) by (auto simp: stage_mount_def Let_def elim!: callE split: if_splits)
  obtain info w5 where gm: "getMounts E w3 = (Inr info, w5)" using b by (auto simp: stageVolumeMount_def elim!: callE)
  note mi = mounted_info [OF gm]
  have eqs: "mounts w5 = mounts w" "mounts w' = mounts w4"
    using mi(2) mounts_ops(2) [OF g] mounts_ops(1) [OF m] mounts_ops(3) [OF q] mounts_ops(7) [OF u] by simp_all
  show ?thesis
  proof (cases "MountInfo_IsEmpty (FilterByMountPoint p (FilterByRoot (''/'' @ objName v) info))")
    case True
    then have "bindMount E ?dir p False w5 = (Inr (), w4)" using b gm by (simp add: stageVolumeMount_def)
    from mounts_bind [OF this] show ?thesis using eqs by auto
  next
    case False
    then have "w4 = w5" using b gm by (simp add: stageVolumeMount_def)
    moreover have "\<not> MountInfo_IsEmpty (FilterByMountPoint p info)"
      using False proc_mounts.root_mounted_on [OF mi(1)] proc_mounts.mounted_on [OF mi(1)] by blast
    ultimately show ?thesis using mi(2,3) eqs by auto
  qed
qed

lemma NodeStageVolume_effect:
  assumes "NodeStageVolume E n p w = (Inr u, w')" and "vstore w n = Some v" and "Finalizers v \<noteq> []"
  shows "p \<noteq> [] \<and> dstore w' = dstore w \<and>
         (if fst (is_suspended E v (snd (api_Get (VolumeClient E) n w))) then vstore w' = vstore w \<and> mounts w' = mounts w
          else mounts w \<subseteq> mounts w' \<and> (\<forall>m \<in> mounts w' - mounts w. snd m = p) \<and> (\<exists>dev. (dev, p) \<in> mounts w') \<and>
               (\<exists>rv. vstore w' = (vstore w)(n \<mapsto>
                  (staged (GetVolumeDir (vFSUUID (volumeStatus v)) n) p v)\<lparr>ResourceVersion := rv\<rparr>)))"
proof -
  obtain v' w1 where g: "api_Get (VolumeClient E) n w = (Inr v', w1)"
    using assms(1) by (auto simp: NodeStageVolume_def split: if_splits elim!: callE)
  note rd = volume_read [OF g]
  have v': "v' = v" using rd(1) assms(2) by simp
  have p: "p \<noteq> []" and n: "n \<noteq> []" using assms(1) by (auto simp: NodeStageVolume_def split: if_splits)
  obtain s w2 where sus: "is_suspended E v w1 = (s, w2)" by fastforce
  note eqs = is_suspended_frame [OF sus] rd(2-5) v'
  show ?thesis
  proof (cases s)
    case True
    then have "w' = w2" using assms(1) g sus v' p n by (simp add: NodeStageVolume_def)
    then show ?thesis using True eqs p sus g by simp
  next
    case False
    then obtain v2 where st: "StageVolume E v p w2 = ((None, v2), w')"
      using assms(1) g sus v' p n by (auto simp: NodeStageVolume_def split: prod.splits option.splits)
    note stored = StageVolume_stored [OF host_cluster_axioms st assms(3)]
    have "\<exists>rv. vstore w' = (vstore w)(n \<mapsto> (staged (GetVolumeDir (vFSUUID (volumeStatus v)) n) p v)\<lparr>ResourceVersion := rv\<rparr>)"
      using stored eqs by auto
    then show ?thesis using False stored StageVolume_mounts [OF st p] eqs p sus g by simp
  qed
qed

lemma NodeExpandVolume_effect:
  assumes "NodeExpandVolume E req w = (Inr b, w')" and "vstore w (neVolumeId req) = Some v" and "Finalizers v \<noteq> []"
  shows "neCapacityRange req = Some b \<and> IsStaged v \<and> dstore w' = dstore w \<and>
         (if b \<le> vTotalCapacity (volumeStatus v) then vstore w' = vstore w
          else \<exists>device w1 w2 w3 rv.
                 getDeviceByFSUUID E (vFSUUID (volumeStatus v)) w1 = (Inr device, w2) \<and>
                 setQuota E device (vDataPath (volumeStatus v)) (neVolumeId req) (capacity_quota b) True w2 = (Inr (), w3) \<and>
                 vstore w' = (vstore w)(neVolumeId req \<mapsto> (expand_volume b v)\<lparr>ResourceVersion := rv\<rparr>))"
proof -
  obtain c where c: "neCapacityRange req = Some c" and nn: "neVolumeId req \<noteq> []" "neVolumePath req \<noteq> []" "c \<noteq> -1"
    using assms(1) by (cases "neCapacityRange req") (auto simp: NodeExpandVolume_def Let_def split: if_splits)
  obtain v' w1 where g: "api_Get (VolumeClient E) (neVolumeId req) w = (Inr v', w1)"
    using assms(1) c nn by (auto simp: NodeExpandVolume_def elim!: callE)
  note rd = volume_read [OF g]
  have v': "v' = v" using rd(1) assms(2) by simp
  have st: "IsStaged v" and b: "b = c" using assms(1) c nn g v' by (auto simp: NodeExpandVolume_def split: if_splits elim!: callE)
  show ?thesis
  proof (cases "c \<le> vTotalCapacity (volumeStatus v)")
    case True
    then have "w' = w1" using assms(1) c nn g v' st by (simp add: NodeExpandVolume_def)
    then show ?thesis using True c b st rd(3,4) by simp
  next
    case False
    obtain device w2 where dv: "getDeviceByFSUUID E (vFSUUID (volumeStatus v)) w1 = (Inr device, w2)"
      using assms(1) c nn g v' st False by (auto simp: NodeExpandVolume_def elim!: callE)
    obtain w3 where q: "setQuota E device (vDataPath (volumeStatus v)) (objName v) (capacity_quota c) True w2 = (Inr (), w3)"
      using assms(1) c nn g v' st False dv by (auto simp: NodeExpandVolume_def elim!: callE)
    obtain y where up: "api_Update (VolumeClient E) (expand_volume c v) w3 = (Inr y, w')"
      using assms(1) c nn g v' st False dv q by (auto simp: NodeExpandVolume_def elim!: callE)
    have f: "Finalizers (expand_volume c v) \<noteq> []" "objName (expand_volume c v) = neVolumeId req"
      using assms(3) rd(2) v' by (simp_all add: expand_volume_def)
    have eqs: "dstore w3 = dstore w" "vstore w3 = vstore w" and nm: "objName v = neVolumeId req"
      using host_ops_drives(7) [OF q] host_ops_volumes(7) [OF q] host_ops_drives(5) [OF dv] host_ops_volumes(5) [OF dv] rd v'
      by simp_all
    obtain rv where vs: "vstore w' = (vstore w)(neVolumeId req \<mapsto> (expand_volume c v)\<lparr>ResourceVersion := rv\<rparr>)"
      using volume_written(1) [OF up f(1)] f(2) eqs by auto
    have "dstore w' = dstore w" using volume_written(2) [OF up f(1)] eqs by simp
    then show ?thesis using False c b st dv q [unfolded nm] vs by auto
  qed
qed

end


definition publish_request :: NodePublishVolumeRequest where
  "publish_request =
     \<lparr> npVolumeId = ''pvc-1'', npStagingTargetPath = ''/staging'', npTargetPath = ''/target'',
       npReadonly = False, npVolumeContext = [(podNameKey, ''pod-1''), (podNamespaceKey, ''default'')] \<rparr>"

definition staged_volume :: Volume where
  "staged_volume = staged ''/data'' ''/staging'' sample_volume"

definition staged_world :: hworld where
  "staged_world = release_world\<lparr>wVolumes := [staged_volume], wMounts := [(''/dev/sda'', ''/staging'')]\<rparr>"

lemma staged_world_volume:
  "world_volumes staged_world ''pvc-1'' = Some staged_volume" "Finalizers staged_volume \<noteq> []"
  by (simp_all add: world_volumes_def staged_world_def lookup_obj_def staged_volume_def sample_volume_def NewDirectPVVolume_def)


text \<open>
  Expanding a volume on its node. When \<^verbatim>\<open>NodeExpandVolume\<close> succeeds it answers the
  requested bytes, the volume was staged and no drive changed; if the volume is already that large
  nothing changed at all, and otherwise a quota of exactly the requested bytes was set on its data
  directory and the stored volume has that capacity, with the available capacity recomputed.
\<close>

theorem NodeExpandVolume_correct:
  assumes "node_mounts E dstore vstore mounts" and "NodeExpandVolume E req w = (Inr b, w')"
    and "vstore w (neVolumeId req) = Some v" and "Finalizers v \<noteq> []"
  shows "neCapacityRange req = Some b \<and> IsStaged v \<and> dstore w' = dstore w \<and>
         (if b \<le> vTotalCapacity (volumeStatus v) then vstore w' = vstore w
          else \<exists>device w1 w2 w3 v'.
                 getDeviceByFSUUID E (vFSUUID (volumeStatus v)) w1 = (Inr device, w2) \<and>
                 setQuota E device (vDataPath (volumeStatus v)) (neVolumeId req) (capacity_quota b) True w2 = (Inr (), w3) \<and>
                 vstore w' = (vstore w)(neVolumeId req \<mapsto> v') \<and> objLabels v' = objLabels v \<and> Finalizers v' = Finalizers v \<and>
                 volumeStatus v' = (volumeStatus v)\<lparr>vTotalCapacity := b,
                   vAvailableCapacity := i64 (b - vUsedCapacity (volumeStatus v))\<rparr>)"
proof (cases "b \<le> vTotalCapacity (volumeStatus v)")
  case False
  then obtain device w1 w2 w3 rv where e: "neCapacityRange req = Some b" "IsStaged v" "dstore w' = dstore w"
      "getDeviceByFSUUID E (vFSUUID (volumeStatus v)) w1 = (Inr device, w2)"
      "setQuota E device (vDataPath (volumeStatus v)) (neVolumeId req) (capacity_quota b) True w2 = (Inr (), w3)"
      "vstore w' = (vstore w)(neVolumeId req \<mapsto> (expand_volume b v)\<lparr>ResourceVersion := rv\<rparr>)"
    using node_mounts.NodeExpandVolume_effect [OF assms] by auto
  show ?thesis
    unfolding if_not_P [OF False]
    by (intro conjI e(1-3) exI [of _ device] exI [of _ w1] exI [of _ w2] exI [of _ w3]
        exI [of _ "(expand_volume b v)\<lparr>ResourceVersion := rv\<rparr>"] e(4-6)) (simp_all add: expand_volume_def)
qed (use node_mounts.NodeExpandVolume_effect [OF assms] in auto)

theorem NodeExpandVolume_correct_witness:
  "\<exists>w' v'. NodeExpandVolume store_env \<lparr> neVolumeId = ''pvc-1'', neVolumePath = ''/target'', neCapacityRange = Some 150 \<rparr>
       staged_world = (Inr 150, w') \<and>
     world_volumes w' ''pvc-1'' = Some v' \<and> vTotalCapacity (volumeStatus v') = 150 \<and> IsStaged v'"
proof -
  let ?req = "\<lparr> neVolumeId = ''pvc-1'', neVolumePath = ''/target'', neCapacityRange = Some 150 \<rparr>"
  have "\<exists>b w'. NodeExpandVolume store_env ?req staged_world = (Inr b, w')"
    by (rule not_isl_ok) code_simp
  then obtain b w' where e: "NodeExpandVolume store_env ?req staged_world = (Inr b, w')" by auto
  have v: "world_volumes staged_world (neVolumeId ?req) = Some staged_volume" using staged_world_volume(1) by simp
  have c: "\<not> 150 \<le> vTotalCapacity (volumeStatus staged_volume)" by code_simp
  note t = NodeExpandVolume_correct [OF store_mounts.node_mounts_axioms, OF e v staged_world_volume(2)]
  have b: "b = 150" using t by simp
  then obtain v' where "world_volumes w' = (world_volumes staged_world)(neVolumeId ?req \<mapsto> v')"
      "volumeStatus v' = (volumeStatus staged_volume)\<lparr>vTotalCapacity := b,
                   vAvailableCapacity := i64 (b - vUsedCapacity (volumeStatus staged_volume))\<rparr>"
    using t c by auto
  then show ?thesis using e b t by (auto simp: IsStaged_def)
qed

section \<open>A volume's life on its node\<close>

lemma is_suspended_iff:
  assumes "cluster E dstore vstore" and "\<not> Volume_IsSuspended E v"
    and "\<forall>d. dstore w (Volume_GetDriveID E v) = Some d \<longrightarrow> \<not> Drive_IsSuspended E d"
  shows "\<not> fst (is_suspended E v w)"
proof (cases "api_Get (DriveClient E) (Volume_GetDriveID E v) w")
  case (Pair r w')
  then show ?thesis
    using assms(2,3) object_api.get_found [OF cluster.axioms(1) [OF assms(1)]]
    by (cases r) (auto simp: is_suspended_def isDriveSuspended_def)
qed

lemma staged_labels [simp]:
  "Volume_IsSuspended L (staged dir p v) = Volume_IsSuspended L v"
  "Volume_GetDriveID L (staged dir p v) = Volume_GetDriveID L v"
  "Volume_IsSuspended L (v\<lparr>ResourceVersion := rv\<rparr>) = Volume_IsSuspended L v"
  "Volume_GetDriveID L (v\<lparr>ResourceVersion := rv\<rparr>) = Volume_GetDriveID L v"
  by (simp_all add: Volume_IsSuspended_def Volume_GetDriveID_def Volume_getLabel_def Volume_GetLabels_def)



text \<open>
  Pod labels can rebind a volume. Publishing copies every label of the pod in the driver's group
  to the volume, the reserved keys included: if the pod carries the drive label, the volume belongs
  to the drive named there from then on, and its capacity would be released to that drive; without
  such a label the volume stays on its drive.
\<close>

theorem NodePublishVolume_pod_labels:
  assumes "node_mounts E dstore vstore mounts" and "NodePublishVolume E req w = (Inr u, w')"
    and "vstore w (npVolumeId req) = Some v" and "Finalizers v \<noteq> []"
    and "parseVolumeContext (npVolumeContext req) = Inr (name, ns)"
    and "\<forall>w. fst (getPodLabels E ns name w) = Inr ls"
  shows "\<exists>v'. vstore w' (npVolumeId req) = Some v' \<and>
           Volume_GetDriveID E v' =
             (case map_of (rev ls) DriveLabelKey of
                None \<Rightarrow> Volume_GetDriveID E v | Some x \<Rightarrow> ToLabelValue E x)"
proof -
  obtain w3 pod rv where pod: "pod = fst (getPodInfo E req w3)"
      and v': "vstore w' = (vstore w)(npVolumeId req \<mapsto> (published E pod (npTargetPath req) v)\<lparr>ResourceVersion := rv\<rparr>)"
    using node_mounts.NodePublishVolume_effect [OF assms(1), OF assms(2-4) refl] by blast
  obtain w5 where "getPodLabels E ns name w3 = (Inr ls, w5)" using assms(6) by (metis prod.collapse)
  then have "pod = (name, ns, ls)" using pod assms(5) by (simp add: getPodInfo_def)
  moreover have "HasPrefix DriveLabelKey (GroupName @ ''/'')" "DriveLabelKey \<noteq> PodNameLabelKey" "DriveLabelKey \<noteq> PodNSLabelKey"
    by (simp_all add: DriveLabelKey_def PodNameLabelKey_def PodNSLabelKey_def HasPrefix_def)
  ultimately show ?thesis
    using v' by (auto simp: Volume_GetDriveID_def Volume_getLabel_def Volume_GetLabels_def published_labels map_get_def split: option.splits)
qed

definition labelled_env :: "hworld env" where
  "labelled_env = store_env\<lparr>getPodLabels := (\<lambda>ns n w. (Inr [(DriveLabelKey, ''drive-2'')], w))\<rparr>"

theorem NodePublishVolume_pod_labels_witness:
  "\<exists>w' v'. NodePublishVolume labelled_env publish_request staged_world = (Inr (), w') \<and>
     world_volumes w' ''pvc-1'' = Some v' \<and> Volume_GetDriveID labelled_env staged_volume = ''drive-1'' \<and>
     Volume_GetDriveID labelled_env v' = ''drive-2''"
proof -
  have nm: "node_mounts labelled_env world_drives world_volumes (\<lambda>w. set (wMounts w))"
  proof (intro node_mounts.intro node_mounts_axioms.intro host_cluster.intro host_cluster_axioms.intro cluster_of_store, goal_cases)
    case (5 w w')
    then show ?case by (auto simp: host_step_def labelled_env_def store_env_def world_drives_def)
  next
    case (6 w w')
    then show ?case by (auto simp: host_step_def labelled_env_def store_env_def world_volumes_def)
  next
    case (7 w info w')
    then show ?case using store_mounts.mounts_read [of w info w'] by (simp add: labelled_env_def)
  next
    case (8 w w')
    then show ?case by (auto simp: labelled_env_def store_env_def)
  next
    case (9 w w')
    then show ?case using store_mounts.mounts_api [of w w'] by (simp add: labelled_env_def)
  next
    case (10 s t ro w u' w')
    then show ?case using store_mounts.mounts_bind [of s t ro w u' w'] by (simp add: labelled_env_def)
  next
    case (11 t w u' w')
    then show ?case using store_mounts.mounts_unmount [of t w u' w'] by (simp add: labelled_env_def)
  qed (simp_all add: labelled_env_def store_env_def store_client_def)
  have "\<exists>u w'. NodePublishVolume labelled_env publish_request staged_world = (Inr u, w')"
    by (rule not_isl_ok) code_simp
  then obtain w' where p: "NodePublishVolume labelled_env publish_request staged_world = (Inr (), w')" by auto
  have v: "world_volumes staged_world (npVolumeId publish_request) = Some staged_volume"
    using staged_world_volume(1) by (simp add: publish_request_def)
  have c: "parseVolumeContext (npVolumeContext publish_request) = Inr (''pod-1'', ''default'')" by code_simp
  have l: "\<forall>w. fst (getPodLabels labelled_env ''default'' ''pod-1'' w) = Inr [(DriveLabelKey, ''drive-2'')]"
    by (simp add: labelled_env_def)
  have x: "ToLabelValue labelled_env ''drive-2'' = ''drive-2''" "Volume_GetDriveID labelled_env staged_volume = ''drive-1''"
    by code_simp+
  show ?thesis
    using NodePublishVolume_pod_labels [OF nm, OF p v staged_world_volume(2) c l] p x by (auto simp: publish_request_def)
qed

end
