(* ===== verification/Ledger.thy ===== *)
theory Ledger
  imports Csi_Node
begin

text \<open>
  The accounts of the cluster: which drive records which volume, and how much of a drive is booked.
  \<open>account_step\<close> is the abstract specification, the moves that provisioning may make on the
  stored drives and volumes; \<open>ledger\<close> is the invariant of that specification: the free
  capacity of a drive and the capacities of the volumes it records fit into the drive, and every
  recorded volume exists, names that drive and is protected from removal. The handlers of the
  controller service and of the volume controller refine the specification, whatever they return.
\<close>

section \<open>The abstract accounts\<close>

type_synonym accounts = "(string \<Rightarrow> Drive option) \<times> (string \<Rightarrow> Volume option)"

definition recorded :: "(string \<Rightarrow> Drive option) \<Rightarrow> string \<Rightarrow> bool" where
  "recorded ds u \<longleftrightarrow> (\<exists>n d. ds n = Some d \<and> u \<in> set (GetVolumes d))"

definition cap_of :: "(string \<Rightarrow> Volume option) \<Rightarrow> string \<Rightarrow> int" where
  "cap_of vs u = (case vs u of None \<Rightarrow> 0 | Some v \<Rightarrow> vTotalCapacity (volumeStatus v))"

definition booked :: "(string \<Rightarrow> Volume option) \<Rightarrow> Drive \<Rightarrow> int" where
  "booked vs d = (\<Sum>u \<leftarrow> GetVolumes d. cap_of vs u)"

definition protected_on :: "string \<Rightarrow> Volume \<Rightarrow> bool" where
  "protected_on n v \<longleftrightarrow>
     objLabels v DriveLabelKey = Some n \<and> volumeFinalizerPurgeProtection \<in> set (Finalizers v)"

definition drive_account :: "(string \<Rightarrow> Volume option) \<Rightarrow> string \<Rightarrow> Drive \<Rightarrow> bool" where
  "drive_account vs n d \<longleftrightarrow>
     drive_finalizers_wf d \<and> capacity_ok d \<and>
     dFreeCapacity (driveStatus d) + booked vs d \<le> dTotalCapacity (driveStatus d) \<and>
     (\<forall>u \<in> set (GetVolumes d). \<exists>v. vs u = Some v \<and> protected_on n v)"

definition ledger :: "'a lib_scheme \<Rightarrow> accounts \<Rightarrow> bool" where
  "ledger L a \<longleftrightarrow>
     (\<forall>n d. fst a n = Some d \<longrightarrow> objName d = n \<and> ToLabelValue L n = n \<and> drive_account (snd a) n d) \<and>
     (\<forall>u v. snd a u = Some v \<longrightarrow> objName v = u \<and> 0 \<le> vTotalCapacity (volumeStatus v))"

definition volume_kept :: "Volume \<Rightarrow> Volume \<Rightarrow> bool" where
  "volume_kept v v' \<longleftrightarrow>
     objName v' = objName v \<and> vTotalCapacity (volumeStatus v') = vTotalCapacity (volumeStatus v) \<and>
     objLabels v' DriveLabelKey = objLabels v DriveLabelKey \<and>
     (volumeFinalizerPurgeProtection \<in> set (Finalizers v) \<longrightarrow> volumeFinalizerPurgeProtection \<in> set (Finalizers v'))"

inductive account_step :: "'a lib_scheme \<Rightarrow> accounts \<Rightarrow> accounts \<Rightarrow> bool" for L where
  put: "\<not> recorded ds u \<Longrightarrow> objName v = u \<Longrightarrow> 0 \<le> vTotalCapacity (volumeStatus v) \<Longrightarrow>
     account_step L (ds, vs) (ds, vs(u \<mapsto> v))"
| kept: "vs u = Some v \<Longrightarrow> volume_kept v v' \<Longrightarrow> account_step L (ds, vs) (ds, vs(u \<mapsto> v'))"
| gone: "\<not> recorded ds u \<Longrightarrow> account_step L (ds, vs) (ds, vs(u := None))"
| reserved: "ds n = Some d \<Longrightarrow> \<not> recorded ds u \<Longrightarrow> vs u = Some v \<Longrightarrow> protected_on n v \<Longrightarrow>
     vTotalCapacity (volumeStatus v) \<le> dFreeCapacity (driveStatus d) \<Longrightarrow>
     account_step L (ds, vs)
       (ds(n \<mapsto> (snd (reserve u c (vTotalCapacity (volumeStatus v)) d))\<lparr>ResourceVersion := rv\<rparr>), vs)"
| released: "ds n = Some d \<Longrightarrow> vs u = Some v \<Longrightarrow> u \<in> set (GetVolumes d) \<Longrightarrow>
     account_step L (ds, vs) (ds(n \<mapsto> (release L v d)\<lparr>ResourceVersion := rv\<rparr>), vs)"
| widened: "ds n = Some d \<Longrightarrow> 0 \<le> sz \<Longrightarrow> sz \<le> dFreeCapacity (driveStatus d) \<Longrightarrow>
     account_step L (ds, vs) (ds(n \<mapsto> (add_capacity sz d)\<lparr>ResourceVersion := rv\<rparr>), vs)"

section \<open>The invariant\<close>

lemma ledgerD:
  assumes "ledger L (ds, vs)" and "ds n = Some d"
  shows "objName d = n" and "ToLabelValue L n = n" and "drive_finalizers_wf d" and "capacity_ok d"
    and "dFreeCapacity (driveStatus d) + booked vs d \<le> dTotalCapacity (driveStatus d)"
    and "\<And>u. u \<in> set (GetVolumes d) \<Longrightarrow> \<exists>v. vs u = Some v \<and> protected_on n v"
  using assms by (auto simp: ledger_def drive_account_def)

lemma ledger_volume: "ledger L (ds, vs) \<Longrightarrow> vs u = Some v \<Longrightarrow> objName v = u \<and> 0 \<le> vTotalCapacity (volumeStatus v)"
  by (auto simp: ledger_def)

lemma ledger_recorded: "ledger L (ds, vs) \<Longrightarrow> recorded ds u \<Longrightarrow> \<exists>v. vs u = Some v"
  using ledgerD(6) by (fastforce simp: recorded_def)

lemma recordedI: "ds n = Some d \<Longrightarrow> u \<in> set (GetVolumes d) \<Longrightarrow> recorded ds u"
  by (auto simp: recorded_def)

lemma booked_cong: "(\<And>u. u \<in> set (GetVolumes d) \<Longrightarrow> cap_of vs' u = cap_of vs u) \<Longrightarrow> booked vs' d = booked vs d"
  unfolding booked_def by (rule arg_cong [where f = sum_list]) (rule map_cong, simp_all)

lemma booked_volumes: "GetVolumes d' = GetVolumes d \<Longrightarrow> booked vs d' = booked vs d"
  by (simp add: booked_def)

lemma sum_list_remove:
  "distinct us \<Longrightarrow> u \<in> set us \<Longrightarrow> (\<Sum>x \<leftarrow> filter (\<lambda>x. x \<noteq> u) us. f x) = (\<Sum>x \<leftarrow> us. f x) - (f u :: int)"
  by (induction us) (auto simp: filter_id_notin)

text \<open>Changing volumes without touching a drive's books.\<close>

lemma ledger_volumes:
  assumes l: "ledger L (ds, vs)"
    and same: "\<And>u. recorded ds u \<Longrightarrow> \<exists>v v'. vs u = Some v \<and> vs' u = Some v' \<and> volume_kept v v'"
    and pos: "\<And>u v. vs' u = Some v \<Longrightarrow> objName v = u \<and> 0 \<le> vTotalCapacity (volumeStatus v)"
  shows "ledger L (ds, vs')"
proof -
  have "drive_account vs' n d" if d: "ds n = Some d" for n d
  proof -
    have "cap_of vs' u = cap_of vs u" if "u \<in> set (GetVolumes d)" for u
      using same [OF recordedI [of ds, OF d that]] by (auto simp: cap_of_def volume_kept_def)
    then have "booked vs' d = booked vs d" by (rule booked_cong)
    moreover have "\<exists>v. vs' u = Some v \<and> protected_on n v" if "u \<in> set (GetVolumes d)" for u
      using same [OF recordedI [of ds, OF d that]] ledgerD(6) [OF l d that] by (auto simp: volume_kept_def protected_on_def)
    ultimately show ?thesis using ledgerD(3-5) [OF l d] by (simp add: drive_account_def)
  qed
  then show ?thesis using l pos by (simp add: ledger_def)
qed

lemma ledger_unrecorded:
  assumes l: "ledger L (ds, vs)" and u: "\<not> recorded ds u" and eq: "\<And>x. x \<noteq> u \<Longrightarrow> vs' x = vs x"
    and pos: "\<And>v. vs' u = Some v \<Longrightarrow> objName v = u \<and> 0 \<le> vTotalCapacity (volumeStatus v)"
  shows "ledger L (ds, vs')"
proof (rule ledger_volumes [OF l])
  fix x
  assume r: "recorded ds x"
  then have "vs' x = vs x" using u eq by metis
  then show "\<exists>v v'. vs x = Some v \<and> vs' x = Some v' \<and> volume_kept v v'"
    using ledger_recorded [OF l r] by (auto simp: volume_kept_def)
next
  fix x v
  assume "vs' x = Some v"
  then show "objName v = x \<and> 0 \<le> vTotalCapacity (volumeStatus v)"
    using eq [of x] pos ledger_volume [OF l] by (cases "x = u") auto
qed

lemma ledger_drive:
  assumes "ledger L (ds, vs)" and "ds n = Some d" and "objName d' = n" and "drive_account vs n d'"
  shows "ledger L (ds(n \<mapsto> d'), vs)"
  using assms by (auto simp: ledger_def)

lemma volume_kept_refl [simp]: "volume_kept v v"
  by (simp add: volume_kept_def)

lemma drive_account_rv [simp]: "drive_account vs n (d\<lparr>ResourceVersion := rv\<rparr>) = drive_account vs n d"
  by (simp add: drive_account_def drive_finalizers_wf_def booked_def GetVolumes_def)

lemma reserve_account:
  assumes l: "ledger L (ds, vs)" and d: "ds n = Some d" and u: "\<not> recorded ds u" and v: "vs u = Some v" "protected_on n v"
    and fit: "vTotalCapacity (volumeStatus v) \<le> dFreeCapacity (driveStatus d)"
  shows "drive_account vs n (snd (reserve u c (vTotalCapacity (volumeStatus v)) d))"
proof -
  have ex: "\<not> VolumeExist d u" using u d by (auto simp: recorded_def drv_volumes.exist_iff)
  have pos: "0 \<le> vTotalCapacity (volumeStatus v)" using ledger_volume [OF l v(1)] by simp
  note r = reserve_ok [OF ledgerD(4) [OF l d] ex pos fit, of c] GetVolumes_reserve [OF ex, of c "vTotalCapacity (volumeStatus v)"]
  have "booked vs (snd (reserve u c (vTotalCapacity (volumeStatus v)) d)) = booked vs d + vTotalCapacity (volumeStatus v)"
    using r(5) v(1) by (simp add: booked_def cap_of_def)
  moreover have "drive_finalizers_wf (snd (reserve u c (vTotalCapacity (volumeStatus v)) d))"
    using drv_volumes.invar_add [OF ledgerD(3) [OF l d], of u] ex by (simp add: snd_reserve drive_finalizers_wf_def)
  moreover have "dTotalCapacity (driveStatus (snd (reserve u c (vTotalCapacity (volumeStatus v)) d))) = dTotalCapacity (driveStatus d)"
    by (simp add: reserve_def split: prod.splits bool.splits) (metis AddVolumeFinalizer_frame(6) snd_conv)
  ultimately show ?thesis using r ledgerD(5,6) [OF l d] v by (auto simp: drive_account_def)
qed

lemma release_account:
  assumes l: "ledger L (ds, vs)" and d: "ds n = Some d" and v: "vs u = Some v" and u: "u \<in> set (GetVolumes d)"
  shows "drive_account vs n (release K v d)"
proof -
  have nm: "objName v = u" and pos: "0 \<le> vTotalCapacity (volumeStatus v)" using ledger_volume [OF l v] by auto
  have dist: "distinct (GetVolumes d)" using ledgerD(3) [OF l d] by (simp add: drive_finalizers_wf_iff)
  have b: "booked vs (release K v d) = booked vs d - vTotalCapacity (volumeStatus v)"
    using sum_list_remove [OF dist u, of "cap_of vs"] v nm by (simp add: booked_def GetVolumes_release cap_of_def)
  have "\<forall>x \<in> set (GetVolumes d). 0 \<le> cap_of vs x"
    using ledger_volume [OF l] by (auto simp: cap_of_def split: option.splits)
  then have "0 \<le> booked vs (release K v d)"
    unfolding booked_def GetVolumes_release by (intro sum_list_nonneg) auto
  then have fit: "dFreeCapacity (driveStatus d) + vTotalCapacity (volumeStatus v) \<le> dTotalCapacity (driveStatus d)"
    using b ledgerD(5) [OF l d] by simp
  show ?thesis
    using release_capacity [OF ledgerD(4) [OF l d] pos fit, of K] release_wf [OF ledgerD(3) [OF l d], of K v]
      b ledgerD(5,6) [OF l d]
    by (auto simp: drive_account_def GetVolumes_release)
qed

lemma account_step_ledger:
  assumes "account_step L a a'" and "ledger L a"
  shows "ledger L a'"
  using assms
proof (induction rule: account_step.induct)
  case (put ds u v vs)
  show ?case by (rule ledger_unrecorded [OF put.prems put.hyps(1)]) (use put.hyps in auto)
next
  case (kept vs u v v' ds)
  show ?case
  proof (rule ledger_volumes [OF kept.prems])
    fix x
    assume "recorded ds x"
    then obtain y where "vs x = Some y" using ledger_recorded [OF kept.prems] by blast
    then show "\<exists>v va. vs x = Some v \<and> (vs(u \<mapsto> v')) x = Some va \<and> volume_kept v va"
      using kept(1,2) by (cases "x = u") auto
  next
    fix x y
    assume "(vs(u \<mapsto> v')) x = Some y"
    then show "objName y = x \<and> 0 \<le> vTotalCapacity (volumeStatus y)"
      using kept(1,2) ledger_volume [OF kept.prems] by (auto simp: volume_kept_def split: if_splits)
  qed
next
  case (gone ds u vs)
  show ?case by (rule ledger_unrecorded [OF gone.prems gone.hyps]) auto
next
  case (reserved ds n d u vs v rv c)
  have "drive_account vs n ((snd (reserve u c (vTotalCapacity (volumeStatus v)) d))\<lparr>ResourceVersion := rv\<rparr>)"
    using reserve_account [OF reserved.prems reserved.hyps] by simp
  with ledger_drive [OF reserved.prems reserved.hyps(1) _ this] show ?case
    using ledgerD(1) [OF reserved.prems reserved.hyps(1)] by simp
next
  case (released ds n d vs u v rv)
  have "drive_account vs n ((release L v d)\<lparr>ResourceVersion := rv\<rparr>)"
    using release_account [OF released.prems released.hyps] by simp
  with ledger_drive [OF released.prems released.hyps(1) _ this] show ?case
    using ledgerD(1) [OF released.prems released.hyps(1)] by simp
next
  case (widened ds n d sz vs rv)
  note dl = ledgerD [OF widened.prems widened.hyps(1)]
  have "booked vs (add_capacity sz d) = booked vs d" by (rule booked_volumes) (simp add: GetVolumes_def)
  then have "drive_account vs n (add_capacity sz d)"
    using add_capacity_ok [OF dl(4) widened.hyps(2,3)] dl(3,5,6) widened.hyps(2)
    by (auto simp: drive_account_def drive_finalizers_wf_def GetVolumes_def)
  then have "drive_account vs n ((add_capacity sz d)\<lparr>ResourceVersion := rv\<rparr>)" by simp
  with ledger_drive [OF widened.prems widened.hyps(1) _ this] show ?case using dl(1) by simp
qed

lemma account_steps_ledger: "(account_step L)\<^sup>*\<^sup>* a a' \<Longrightarrow> ledger L a \<Longrightarrow> ledger L a'"
  by (induction rule: rtranclp.induct) (auto intro: account_step_ledger)

section \<open>The controller service refines the accounts\<close>

context cluster
begin

text \<open>One write of a volume object.\<close>

lemma volume_write_refines:
  assumes "api_Update (VolumeClient C) x w = (r, w')" and "ledger L (dstore w, vstore w)"
    and "vstore w (objName x) = Some v" and "volume_kept v x \<or> \<not> recorded (dstore w) (objName x)"
    and "0 \<le> vTotalCapacity (volumeStatus x)"
  shows "(account_step L)\<^sup>*\<^sup>* (dstore w, vstore w) (dstore w', vstore w')"
proof (cases r)
  case (Inl e)
  then show ?thesis using v.update_err assms(1) volume_ops_drives(3) [OF assms(1)] by simp
next
  case (Inr y)
  then obtain rv where y: "y = x\<lparr>ResourceVersion := rv\<rparr>" and st: "vstore w' = (vstore w)(objName x :=
      (if Finalizers x = [] \<and> DeletionTimestamp x \<noteq> None then None else Some y))"
    using v.update_ok assms(1) by blast
  have ds: "dstore w' = dstore w" using volume_ops_drives(3) [OF assms(1)] .
  show ?thesis
  proof (cases "recorded (dstore w) (objName x)")
    case True
    then have k: "volume_kept v x" using assms(4) by simp
    obtain n d where d: "dstore w n = Some d" "objName x \<in> set (GetVolumes d)" using True by (auto simp: recorded_def)
    have "volumeFinalizerPurgeProtection \<in> set (Finalizers v)"
      using ledgerD(6) [OF assms(2) d] assms(3) by (auto simp: protected_on_def)
    then have "Finalizers x \<noteq> []" using k by (auto simp: volume_kept_def)
    then have "vstore w' = (vstore w)(objName x \<mapsto> y)" using st by simp
    moreover have "volume_kept v y" using k y by (simp add: volume_kept_def)
    ultimately show ?thesis using account_step.kept [of "vstore w", OF assms(3), of y] ds by auto
  next
    case False
    have "account_step L (dstore w, vstore w) (dstore w, vstore w')"
      using account_step.gone [OF False, of L "vstore w"] account_step.put [OF False, of y L "vstore w"] st y assms(5)
      by auto
    then show ?thesis using ds by simp
  qed
qed

lemma volume_read_same:
  assumes "api_Get (VolumeClient C) n w = (r, w')"
  shows "dstore w' = dstore w" and "vstore w' = vstore w"
  using v.get_frame [OF assms] volume_ops_drives(1) [OF assms] by simp_all

lemma drive_read_same:
  assumes "api_Get (DriveClient C) n w = (r, w')"
  shows "dstore w' = dstore w" and "vstore w' = vstore w"
  using d.get_frame [OF assms] drive_ops_volumes(1) [OF assms] by simp_all

lemma reads_same:
  "api_Get (VolumeClient C) n w = (rv, w') \<Longrightarrow> dstore w' = dstore w \<and> vstore w' = vstore w"
  "api_Get (DriveClient C) n w = (rd, w') \<Longrightarrow> dstore w' = dstore w \<and> vstore w' = vstore w"
  "api_Update (DriveClient C) x w = (Inl e, w') \<Longrightarrow> dstore w' = dstore w \<and> vstore w' = vstore w"
  "api_Update (VolumeClient C) y w = (Inl e, w') \<Longrightarrow> dstore w' = dstore w \<and> vstore w' = vstore w"
  by (auto dest: volume_read_same drive_read_same d.update_err v.update_err drive_ops_volumes(3) volume_ops_drives(3))

lemma DeleteVolume_refines:
  assumes "DeleteVolume C n w = (r, w')" and l: "ledger L (dstore w, vstore w)"
  shows "(account_step L)\<^sup>*\<^sup>* (dstore w, vstore w) (dstore w', vstore w')"
proof (cases "n = []")
  case True
  then show ?thesis using assms(1) by (simp add: DeleteVolume_def)
next
  case n: False
  obtain r1 w1 where g: "api_Get (VolumeClient C) n w = (r1, w1)" by fastforce
  note same = volume_read_same [OF g]
  show ?thesis
  proof (cases "\<exists>v. r1 = Inr v \<and> \<not> IsStaged v \<and> \<not> IsPublished v")
    case False
    then have "w' = w1" using assms(1) g n by (cases r1) (auto simp: DeleteVolume_def split: if_splits)
    then show ?thesis using same by simp
  next
    case True
    then obtain v where v: "r1 = Inr v" "\<not> IsStaged v" "\<not> IsPublished v" by blast
    let ?x = "RemovePVProtection v"
    obtain r2 w2 where u: "api_Update (VolumeClient C) ?x w1 = (r2, w2)" by fastforce
    have st: "vstore w n = Some v" "objName v = n" using v.get_found v.get_name g v(1) by blast+
    have k: "volume_kept v ?x"
      by (simp add: volume_kept_def RemovePVProtection_def removeFinalizer_def volumeFinalizerPVProtection_def volumeFinalizerPurgeProtection_def Let_def)
    have s1: "(account_step L)\<^sup>*\<^sup>* (dstore w, vstore w) (dstore w2, vstore w2)"
      using volume_write_refines [OF u, of L v] l st k ledger_volume [OF l st(1)] same
      by (auto simp: volume_kept_def)
    show ?thesis
    proof (cases r2)
      case (Inl e)
      then have "w' = w2" using assms(1) g n v u by (simp add: DeleteVolume_def)
      then show ?thesis using s1 by simp
    next
      case (Inr y)
      obtain r3 w3 where d: "api_Delete (VolumeClient C) n w2 = (r3, w3)" by fastforce
      have w': "w' = w3" using assms(1) g n v u Inr d st(2) by (cases r3) (auto simp: DeleteVolume_def)
      have ds: "dstore w3 = dstore w2" by (rule volume_ops_drives(4) [OF d])
      have l2: "ledger L (dstore w2, vstore w2)" using account_steps_ledger [OF s1 l] .
      have "(account_step L)\<^sup>*\<^sup>* (dstore w2, vstore w2) (dstore w3, vstore w3)"
      proof (cases r3)
        case (Inl e)
        then show ?thesis using v.delete_err d ds by simp
      next
        case (Inr z)
        then obtain cur where cur: "vstore w2 n = Some cur"
            "if Finalizers cur = [] then vstore w3 = (vstore w2)(n := None)
             else \<exists>ts rv. ResourceVersion cur < rv \<and>
               vstore w3 = (vstore w2)(n \<mapsto> cur\<lparr>DeletionTimestamp := Some ts, ResourceVersion := rv\<rparr>)"
          using v.delete_ok [of n w2 z w3] d by blast
        show ?thesis
        proof (cases "Finalizers cur = []")
          case True
          then have "\<not> recorded (dstore w2) n"
            using ledgerD(6) [OF l2] cur(1) by (fastforce simp: recorded_def protected_on_def)
          then show ?thesis using account_step.gone cur True ds by (metis r_into_rtranclp)
        next
          case False
          then obtain ts rv where "vstore w3 = (vstore w2)(n \<mapsto> cur\<lparr>DeletionTimestamp := Some ts, ResourceVersion := rv\<rparr>)"
            using cur(2) by auto
          moreover have "volume_kept cur (cur\<lparr>DeletionTimestamp := Some ts, ResourceVersion := rv\<rparr>)"
            by (simp add: volume_kept_def)
          ultimately show ?thesis using account_step.kept [of "vstore w2", OF cur(1)] ds by (metis r_into_rtranclp)
        qed
      qed
      then show ?thesis using s1 w' by simp
    qed
  qed
qed

lemma ControllerExpandVolume_refines:
  assumes "ControllerExpandVolume C req w = (r, w')" and l: "ledger L (dstore w, vstore w)"
    and range: "\<forall>b. ceCapacityRange req = Some b \<longrightarrow> b < 2 ^ 63"
  shows "(account_step L)\<^sup>*\<^sup>* (dstore w, vstore w) (dstore w', vstore w')"
proof (cases r)
  case (Inl e)
  then have "dstore w' = dstore w \<and> vstore w' = vstore w"
    using assms(1) unfolding ControllerExpandVolume_def
    by (auto simp: Let_def split: if_splits option.splits elim!: callE
        dest!: reads_same)
  then show ?thesis by simp
next
  case (Inr resp)
  have wf: "\<forall>n d. dstore w n = Some d \<longrightarrow> drive_finalizers_wf d" using ledgerD(3) [OF l] by blast
  obtain v b where v: "vstore w (ceVolumeId req) = Some v" "ceCapacityRange req = Some b" "vstore w' = vstore w"
      and e: "if vTotalCapacity (volumeStatus v) \<ge> b
        then dstore w' = dstore w \<and> resp = \<lparr> ceCapacityBytes = b, ceNodeExpansionRequired = False \<rparr>
        else resp = \<lparr> ceCapacityBytes = b, ceNodeExpansionRequired = True \<rparr> \<and>
              (\<exists>d rv. dstore w (Volume_GetDriveID C v) = Some d \<and>
                 i64 (b - vTotalCapacity (volumeStatus v)) \<le> dFreeCapacity (driveStatus d) \<and>
                 dstore w' = (dstore w)(Volume_GetDriveID C v \<mapsto>
                   (add_capacity (i64 (b - vTotalCapacity (volumeStatus v))) d)\<lparr>ResourceVersion := rv\<rparr>))"
    using ControllerExpandVolume_ok [OF cluster_axioms assms(1) [unfolded Inr] wf] by blast
  show ?thesis
  proof (cases "vTotalCapacity (volumeStatus v) \<ge> b")
    case False
    have "i64 (b - vTotalCapacity (volumeStatus v)) = b - vTotalCapacity (volumeStatus v)"
      using False range v(2) ledger_volume [OF l v(1)] by (simp add: i64_id in_i64_def)
    then show ?thesis
      using e False v(3) account_step.widened [of "dstore w" _ _ "b - vTotalCapacity (volumeStatus v)" L "vstore w"] by auto
  qed (use e v(3) in simp)
qed

end

context cluster
begin

lemma create_or_reuse_refines:
  assumes "create_or_reuse C nv w = (r, w')" and "\<not> recorded (dstore w) (objName nv)"
    and "Finalizers nv \<noteq> []" and "0 \<le> vTotalCapacity (volumeStatus nv)"
  shows "(account_step L)\<^sup>*\<^sup>* (dstore w, vstore w) (dstore w', vstore w')"
proof (cases r)
  case (Inl e)
  have "vstore w' = vstore w"
    using assms(1) Inl unfolding create_or_reuse_def
    by (auto split: if_splits elim!: callE dest!: reads_same v.create_err)
  then show ?thesis using create_or_reuse_drives [OF assms(1)] by simp
next
  case (Inr u)
  obtain v where v: "vstore w' = (vstore w)(objName nv \<mapsto> v)" "volumeStatus v = volumeStatus nv"
    using create_or_reuse_effect [OF assms(1) [unfolded Inr] assms(3)] by blast
  have "objName v = objName nv" using v.store_name [of w' "objName nv" v] v(1) by simp
  then have "account_step L (dstore w, vstore w) (dstore w, (vstore w)(objName nv \<mapsto> v))"
    using account_step.put [OF assms(2), of v L "vstore w"] v(2) assms(4) by simp
  then show ?thesis using create_or_reuse_drives [OF assms(1)] v(1) by simp
qed

end

context controller_cluster
begin

lemma CreateVolume_refines:
  assumes "CreateVolume C req w = (r, w')" and l: "ledger L (dstore w, vstore w)"
    and new: "\<not> recorded (dstore w) (cvName req)" and pos: "\<forall>b. cvCapacityRange req = Some b \<longrightarrow> 0 \<le> b"
  shows "(account_step L)\<^sup>*\<^sup>* (dstore w, vstore w) (dstore w', vstore w')"
proof -
  have early: ?thesis if "w' = w" using that by simp
  have late: ?thesis if c: "check_parameters C [] (cvParameters req) = Inr claimID"
      and run: "call (selectDrive C req w) (\<lambda>e w. (Inl e, w))
          (\<lambda>drive w. call (create_or_reuse C (new_volume C req claimID drive) w) (\<lambda>e w. (Inl e, w))
             (\<lambda>_ w. case reserve (cvName req) claimID (requested_size req drive) drive of
                (True, drive') \<Rightarrow> call (api_Update (DriveClient C) drive' w)
                   (\<lambda>e w. (Inl (StatusError codes_Internal ''unable to update reserved drive''), w))
                   (\<lambda>_ w. (Inr (create_response req drive), w))
              | (False, _) \<Rightarrow> (Inr (create_response req drive), w))) = (r, w')" for claimID
  proof -
    obtain r1 w1 where s: "selectDrive C req w = (r1, w1)" by fastforce
    note sel = selectDrive_stored [OF s]
    show ?thesis
    proof (cases r1)
      case (Inl e)
      then show ?thesis using run s sel(1,2) by simp
    next
      case (Inr d)
      have d: "dstore w (objName d) = Some d" "matchDrive C d req"
        using sel(3) [OF Inr] new by (auto simp: recorded_def drv_volumes.exist_iff)
      have ex: "\<not> VolumeExist d (cvName req)" using new d(1) by (auto simp: recorded_def drv_volumes.exist_iff)
      have fits: "0 \<le> requested_size req d" "requested_size req d \<le> dFreeCapacity (driveStatus d)"
        using pos ledgerD(4) [OF l d(1)] requested_size_fits [OF d(2)]
        by (auto simp: requested_size_def capacity_ok_def split: option.splits)
      let ?nv = "new_volume C req claimID d"
      obtain r2 w2 where k: "create_or_reuse C ?nv w1 = (r2, w2)" by fastforce
      have s1: "(account_step L)\<^sup>*\<^sup>* (dstore w, vstore w) (dstore w2, vstore w2)"
        using create_or_reuse_refines [OF k, of L] new sel(1,2) fits(1) by simp
      show ?thesis
      proof (cases r2)
        case (Inl e)
        then show ?thesis using run s Inr k s1 by simp
      next
        case (Inr u)
        obtain d' where d': "reserve (cvName req) claimID (requested_size req d) d = (True, d')"
          using ex by (metis reserve_added prod.collapse)
        obtain r3 w3 where u: "api_Update (DriveClient C) d' w2 = (r3, w3)" by fastforce
        have w': "w' = w3" using run s \<open>r1 = Inr d\<close> k Inr d' u by (cases r3) auto
        have ds2: "dstore w2 = dstore w" using create_or_reuse_drives [OF k] sel(1) by simp
        show ?thesis
        proof (cases r3)
          case (Inl e)
          then show ?thesis using s1 w' reads_same(3) u by simp
        next
          case r3: (Inr y)
          obtain v where v: "vstore w2 = (vstore w1)(cvName req \<mapsto> v)" "volumeStatus v = volumeStatus ?nv"
              "Finalizers v = Finalizers ?nv" "objLabels ?nv \<subseteq>\<^sub>m objLabels v"
            using create_or_reuse_effect [OF k [unfolded Inr]] by auto
          have "objLabels v DriveLabelKey = Some (objName d)"
            using v(4) unfolding map_le_def by (metis domI new_volume_drive_label)
          then have prot: "protected_on (objName d) v" using v(3) by (simp add: protected_on_def)
          obtain rv where "dstore w3 = (dstore w2)(objName d \<mapsto>
              (snd (reserve (cvName req) claimID (requested_size req d) d))\<lparr>ResourceVersion := rv\<rparr>)"
            using d.update_ok [OF u [unfolded r3]] Finalizers_reserve [OF ex, of claimID "requested_size req d"]
              reserve_frame(1) [of "cvName req" claimID "requested_size req d" d] d' by auto
          moreover have "vTotalCapacity (volumeStatus v) = requested_size req d" using v(2) by simp
          moreover have "vstore w2 (cvName req) = Some v" using v(1) by simp
          ultimately have "account_step L (dstore w2, vstore w2) (dstore w3, vstore w2)"
            using account_step.reserved [of "dstore w2" "objName d" d "cvName req" "vstore w2" v L rv claimID] d(1) new prot fits(2) ds2
            by simp
          moreover have "vstore w3 = vstore w2" by (rule drive_ops_volumes(3) [OF u])
          ultimately show ?thesis using s1 w' by simp
        qed
      qed
    qed
  qed
  show ?thesis
  proof (cases "check_parameters C [] (cvParameters req)")
    case (Inl e)
    then show ?thesis using assms(1) early by (auto simp: CreateVolume_def split: if_splits)
  next
    case (Inr claimID)
    then show ?thesis using assms(1) early late [OF Inr] by (auto simp: CreateVolume_def split: if_splits)
  qed
qed

end

section \<open>The volume controller refines the accounts\<close>

lemma Volume_GetDriveID_label:
  "objLabels v DriveLabelKey = Some n \<Longrightarrow> ToLabelValue L n = n \<Longrightarrow> Volume_GetDriveID L v = n"
  by (simp add: Volume_GetDriveID_def Volume_getLabel_def Volume_GetLabels_def map_get_def)

context host_cluster
begin

lemma releaseVolume_refines:
  assumes "releaseVolume E v w = (r, w')" and l: "ledger E (dstore w, vstore w)" and v: "vstore w (objName v) = Some v"
  shows "(account_step E)\<^sup>*\<^sup>* (dstore w, vstore w) (dstore w', vstore w') \<and> vstore w' = vstore w \<and>
         (\<forall>u. r = Inr u \<longrightarrow> \<not> recorded (dstore w') (objName v))"
proof (cases r)
  case (Inr u)
  have wf: "\<forall>n d. dstore w n = Some d \<longrightarrow> drive_finalizers_wf d" using ledgerD(3) [OF l] by blast
  let ?n = "Volume_GetDriveID E v"
  obtain d where vs: "vstore w' = vstore w" and d: "dstore w ?n = Some d"
      and eff: "if VolumeExist d (objName v)
             then \<exists>rv. dstore w' = (dstore w)(?n \<mapsto> (release E v d)\<lparr>ResourceVersion := rv\<rparr>)
             else dstore w' = dstore w"
    using releaseVolume_effect [OF assms(1) [unfolded Inr] wf] by blast
  have only: "n = ?n" if "dstore w n = Some d'" "objName v \<in> set (GetVolumes d')" for n d'
    using ledgerD(6) [OF l that] ledgerD(2) [OF l that(1)] v Volume_GetDriveID_label [of v n E]
    by (auto simp: protected_on_def)
  show ?thesis
  proof (cases "VolumeExist d (objName v)")
    case True
    then obtain rv where ds: "dstore w' = (dstore w)(?n \<mapsto> (release E v d)\<lparr>ResourceVersion := rv\<rparr>)" using eff by auto
    have u: "objName v \<in> set (GetVolumes d)" using True by (simp add: drv_volumes.exist_iff)
    have "account_step E (dstore w, vstore w) (dstore w', vstore w')"
      unfolding ds vs by (rule account_step.released [where ds = "dstore w" and vs = "vstore w", OF d v u])
    moreover have "objName v \<notin> set (GetVolumes ((release E v d)\<lparr>ResourceVersion := rv\<rparr>))"
      using GetVolumes_release [of E v d] by (simp add: GetVolumes_def)
    then have "\<not> recorded (dstore w') (objName v)" using only ds by (auto simp: recorded_def split: if_splits)
    ultimately show ?thesis using vs by simp
  next
    case False
    then have ds: "dstore w' = dstore w" using eff by simp
    have "objName v \<notin> set (GetVolumes d)" using False by (simp add: drv_volumes.exist_iff)
    then have "\<not> recorded (dstore w') (objName v)" using only d ds by (auto simp: recorded_def)
    then show ?thesis using ds vs by simp
  qed
next
  case (Inl e)
  have "dstore w' = dstore w \<and> vstore w' = vstore w"
  proof -
    obtain r1 w1 where g: "api_Get (DriveClient E) (Volume_GetDriveID E v) w = (r1, w1)" by fastforce
    note same = drive_read_same [OF g]
    let ?w2 = "call (getDeviceByFSUUID E (vFSUUID (volumeStatus v)) w1) (\<lambda>err w. w)
        (\<lambda>device w. snd (setQuota E device (vDataPath (volumeStatus v)) (objName v) no_quota True w))"
    have w2: "dstore ?w2 = dstore w" "vstore ?w2 = vstore w"
      using same host_ops_drives(5,7) host_ops_volumes(5,7)
      by (auto simp: call_def split: prod.splits sum.splits) (metis prod.collapse)+
    consider "w' = w1" | d where "api_Update (DriveClient E) (release E v d) ?w2 = (Inl e, w')"
      using assms(1) g Inl by (cases r1) (auto simp: releaseVolume_def Let_def split: if_splits elim!: callE)
    then show ?thesis using same w2 reads_same(3) by cases simp_all
  qed
  then show ?thesis using Inl by simp
qed

lemma volume_sync_refines:
  assumes "volume_sync E vol w = (r, w')" and l: "ledger E (dstore w, vstore w)"
    and fresh: "\<forall>cur. vstore w (objName vol) = Some cur \<and> ResourceVersion cur = ResourceVersion vol \<longrightarrow> cur = vol"
  shows "(account_step E)\<^sup>*\<^sup>* (dstore w, vstore w) (dstore w', vstore w')"
proof -
  obtain r1 w1 where g: "api_Get (DriveClient E) (Volume_GetDriveID E vol) w = (r1, w1)" by fastforce
  note same = drive_read_same [OF g]
  show ?thesis
  proof (cases "w' = w1")
    case True
    then show ?thesis using same by simp
  next
    case False
    then obtain name r2 where u: "api_Update (VolumeClient E) (Volume_SetDriveName E name vol) w1 = (r2, w')"
      using assms(1) g by (cases r1) (auto simp: volume_sync_def Let_def split: if_splits elim!: callE)
    let ?x = "Volume_SetDriveName E name vol"
    have f: "objName ?x = objName vol" "ResourceVersion ?x = ResourceVersion vol"
        "volumeStatus ?x = volumeStatus vol" "volume_kept vol ?x"
      by (simp_all add: Volume_SetDriveName_def volume_kept_def Volume_SetLabel_def)
    show ?thesis
    proof (cases r2)
      case (Inl e)
      then show ?thesis using reads_same(4) u same by simp
    next
      case (Inr y)
      then obtain cur where cur: "vstore w1 (objName ?x) = Some cur" "ResourceVersion ?x = ResourceVersion cur"
        using v.update_ok u by blast
      have "vstore w (objName vol) = Some cur" using cur(1) same(2) f(1) by simp
      moreover from this have "cur = vol" using fresh cur(2) f(2) by metis
      ultimately have st: "vstore w (objName vol) = Some vol" by simp
      show ?thesis
        using volume_write_refines [OF u, of E vol] l st f same ledger_volume [OF l st] by simp
    qed
  qed
qed

lemma unmount_path_same: "unmount_path E p w = (r, w') \<Longrightarrow> dstore w' = dstore w \<and> vstore w' = vstore w"
  using unmount_path_stores by blast

lemma rename_same: "os_Rename E a b w = (r, w') \<Longrightarrow> dstore w' = dstore w \<and> vstore w' = vstore w"
  using host_ops_drives(11) host_ops_volumes(11) by blast

lemma volume_delete_refines:
  assumes "volume_delete E vol w = (r, w')" and l: "ledger E (dstore w, vstore w)"
  shows "(account_step E)\<^sup>*\<^sup>* (dstore w, vstore w) (dstore w', vstore w')"
proof -
  obtain r1 w1 where g: "api_Get (VolumeClient E) (objName vol) w = (r1, w1)" by fastforce
  note same = volume_read_same [OF g]
  show ?thesis
  proof (cases "\<exists>v. r1 = Inr v \<and> IsReleased v")
    case False
    then have "w' = w1" using assms(1) g by (cases r1) (auto simp: volume_delete_def split: if_splits)
    then show ?thesis using same by simp
  next
    case True
    then obtain v where v: "r1 = Inr v" "IsReleased v" by blast
    have st: "vstore w (objName vol) = Some v" "objName v = objName vol" using v.get_found v.get_name g v(1) by blast+
    let ?p = "vTargetPath (volumeStatus v)" and ?q = "vStagingTargetPath (volumeStatus v)"
    let ?del = "vDataPath (volumeStatus v) @ ''.deleted''"
    let ?rel = "\<lambda>w. call (releaseVolume E v (snd (os_RemoveAll E ?del w))) (\<lambda>err w. (Inl err, w))
        (\<lambda>_ w. call (api_Update (VolumeClient E) (RemovePurgeProtection v) w) (\<lambda>err w. (Inl err, w)) (\<lambda>_ w. (Inr (), w)))"
    define rel where "rel = ?rel"
    have eq: "volume_delete E vol w =
        call (unmount_path E ?p w1) (\<lambda>err w. (Inl err, w)) (\<lambda>_ w. call (unmount_path E ?q w) (\<lambda>err w. (Inl err, w))
          (\<lambda>_ w. call (os_Rename E (vDataPath (volumeStatus v)) ?del w)
             (\<lambda>err w. if \<not> errors_Is_ErrNotExist err then (Inl err, w) else rel w) (\<lambda>_ w. rel w)))"
      unfolding volume_delete_def rel_def using g v by (simp add: Let_def)
    have host: "(dstore w' = dstore w \<and> vstore w' = vstore w) \<or>
        (\<exists>w4. dstore w4 = dstore w \<and> vstore w4 = vstore w \<and> rel w4 = (r, w'))"
      using assms(1) same unfolding eq
      by (auto elim!: callE split: if_splits dest!: unmount_path_same rename_same)
    show ?thesis
    proof (cases "dstore w' = dstore w \<and> vstore w' = vstore w")
      case False
      then obtain w4 where w4: "dstore w4 = dstore w" "vstore w4 = vstore w" "?rel w4 = (r, w')" using host unfolding rel_def by blast
      obtain r5 w5 where ra: "os_RemoveAll E ?del w4 = (r5, w5)" by fastforce
      have w5: "dstore w5 = dstore w" "vstore w5 = vstore w"
        using w4 host_ops_drives(12) [OF ra] host_ops_volumes(12) [OF ra] by simp_all
      obtain r6 w6 where rl: "releaseVolume E v w5 = (r6, w6)" by fastforce
      note rr = releaseVolume_refines [OF rl] 
      have s6: "(account_step E)\<^sup>*\<^sup>* (dstore w, vstore w) (dstore w6, vstore w6)" "vstore w6 = vstore w"
          "\<forall>u. r6 = Inr u \<longrightarrow> \<not> recorded (dstore w6) (objName v)"
        using rr l st w5 by metis+
      show ?thesis
      proof (cases r6)
        case (Inl e)
        then show ?thesis using w4(3) ra rl s6(1) by simp
      next
        case (Inr u)
        then have nr: "\<not> recorded (dstore w6) (objName v)" using s6(3) by blast
        obtain r7 w7 where up: "api_Update (VolumeClient E) (RemovePurgeProtection v) w6 = (r7, w7)" by fastforce
        have w': "w' = w7" using w4(3) ra rl Inr up by (cases r7) auto
        have l6: "ledger E (dstore w6, vstore w6)" using account_steps_ledger [OF s6(1) l] .
        have "(account_step E)\<^sup>*\<^sup>* (dstore w6, vstore w6) (dstore w7, vstore w7)"
          using volume_write_refines [OF up l6, of v] nr s6(2) st ledger_volume [OF l st(1)]
          by (simp add: RemovePurgeProtection_def)
        then show ?thesis using s6(1) w' by simp
      qed
    qed simp
  qed
qed

lemma Volume_Handle_refines:
  assumes "Volume_Handle E ev vol w = (r, w')" and "ledger E (dstore w, vstore w)"
    and "\<forall>cur. vstore w (objName vol) = Some cur \<and> ResourceVersion cur = ResourceVersion vol \<longrightarrow> cur = vol"
  shows "(account_step E)\<^sup>*\<^sup>* (dstore w, vstore w) (dstore w', vstore w')"
  using assms volume_delete_refines volume_sync_refines by (auto simp: Volume_Handle_def split: if_splits)

end

section \<open>Runs of the control plane\<close>

text \<open>
  One request to the controller service or one event of the volume controller, with whatever result
  it has. A volume is created under a name that no drive records; sizes are 64-bit; an event carries
  the stored object if it carries its version.
\<close>

inductive control_step ::
  "('w, 'b) controller_scheme \<Rightarrow> ('w, 'c) env_scheme \<Rightarrow> ('w \<Rightarrow> string \<Rightarrow> Drive option) \<Rightarrow> ('w \<Rightarrow> string \<Rightarrow> Volume option) \<Rightarrow>
   'w \<Rightarrow> 'w \<Rightarrow> bool" for C E dstore vstore where
  create: "CreateVolume C req w = (r, w') \<Longrightarrow> \<not> recorded (dstore w) (cvName req) \<Longrightarrow>
     \<forall>b. cvCapacityRange req = Some b \<longrightarrow> 0 \<le> b \<Longrightarrow> control_step C E dstore vstore w w'"
| delete: "DeleteVolume C n w = (r, w') \<Longrightarrow> control_step C E dstore vstore w w'"
| expand: "ControllerExpandVolume C req w = (r, w') \<Longrightarrow>
     \<forall>b. ceCapacityRange req = Some b \<longrightarrow> b < 2 ^ 63 \<Longrightarrow> control_step C E dstore vstore w w'"
| handle: "Volume_Handle E ev vol w = (r, w') \<Longrightarrow>
     \<forall>cur. vstore w (objName vol) = Some cur \<and> ResourceVersion cur = ResourceVersion vol \<longrightarrow> cur = vol \<Longrightarrow>
     control_step C E dstore vstore w w'"

lemma control_step_refines_accounts:
  assumes "controller_cluster C dstore vstore" and "host_cluster E dstore vstore"
    and "control_step C E dstore vstore w w'" and "ledger E (dstore w, vstore w)"
  shows "(account_step E)\<^sup>*\<^sup>* (dstore w, vstore w) (dstore w', vstore w')"
  using assms(3,4)
proof (induction rule: control_step.induct)
  case (create req w r w')
  then show ?case using controller_cluster.CreateVolume_refines [OF assms(1)] by blast
next
  case (delete n w r w')
  then show ?case using cluster.DeleteVolume_refines [OF controller_cluster.axioms(1) [OF assms(1)]] by blast
next
  case (expand req w r w')
  then show ?case using cluster.ControllerExpandVolume_refines [OF controller_cluster.axioms(1) [OF assms(1)]] by blast
next
  case (handle ev vol w r w')
  then show ?case using host_cluster.Volume_Handle_refines [OF assms(2)] by blast
qed



text \<open>A balanced cluster: an empty drive and no volume.\<close>

definition ledger_world :: hworld where
  "ledger_world = \<lparr> wDrives = [sample_drive], wVolumes = [], wNodes = [], wInitRequests = [], wMounts = [] \<rparr>"

lemma ledger_world_drives: "world_drives ledger_world n = Some d \<Longrightarrow> n = ''drive-1'' \<and> d = sample_drive"
proof -
  have "objName sample_drive = ''drive-1''" by code_simp
  then show "world_drives ledger_world n = Some d \<Longrightarrow> n = ''drive-1'' \<and> d = sample_drive"
    by (auto simp: world_drives_def ledger_world_def lookup_obj_def split: if_splits)
qed

lemma ledger_world_ok: "ledger (store_env :: hworld env) (world_drives ledger_world, world_volumes ledger_world)"
proof -
  have "objName sample_drive = ''drive-1''" "ToLabelValue (store_env :: hworld env) ''drive-1'' = ''drive-1''"
      "drive_finalizers_wf sample_drive" "capacity_ok sample_drive" "GetVolumes sample_drive = []" by code_simp+
  moreover have "dFreeCapacity (driveStatus sample_drive) \<le> dTotalCapacity (driveStatus sample_drive)"
    using \<open>capacity_ok sample_drive\<close> by (simp add: capacity_ok_def)
  moreover have "world_volumes ledger_world u = None" for u
    by (simp add: world_volumes_def ledger_world_def lookup_obj_def)
  ultimately show ?thesis
    by (auto simp: ledger_def drive_account_def booked_def dest!: ledger_world_drives)
qed

lemma ledger_world_create:
  obtains resp w' where "CreateVolume store_controller sample_request ledger_world = (Inr resp, w')"
    and "control_step store_controller store_env world_drives world_volumes ledger_world w'"
proof -
  have "\<exists>resp w'. CreateVolume store_controller sample_request ledger_world = (Inr resp, w')"
    by (rule not_isl_ok) code_simp
  then obtain resp w' where c: "CreateVolume store_controller sample_request ledger_world = (Inr resp, w')" by blast
  have "GetVolumes sample_drive = []" by code_simp
  then have "\<not> recorded (world_drives ledger_world) (cvName sample_request)"
    using ledger_world_drives by (fastforce simp: recorded_def)
  moreover have "\<forall>b. cvCapacityRange sample_request = Some b \<longrightarrow> 0 \<le> b" by (simp add: sample_request_def)
  ultimately show thesis using that [OF c] control_step.create [OF c] by blast
qed



end
