(* ===== verification/Event_Controller.thy ===== *)
theory Event_Controller
  imports Ledger
begin

text \<open>
  The event controller that runs the drive, volume, node and init request handlers,
  \<^verbatim>\<open>pkg/controller/controller.go\<close>: worker threads that take events from a rate
  limiting queue and handle them under a lock for each object key. The threads are interleaved: a
  step of the relation is one of the informer's callbacks, or one action of a worker between two
  points where it can be delayed. The work queue of client-go is a parameter with its documented
  behaviour as the locale \<open>work_queue\<close>; the informer's store and the handler are functions
  of the outside world.
\<close>

section \<open>Events and the queue\<close>

record 'o Event =
  evType :: EventType
  evKey :: string
  evObject :: 'o

record ('q, 'o) queue_ops =
  q_Add :: "'o Event \<Rightarrow> 'q \<Rightarrow> 'q"
  q_Get :: "'q \<Rightarrow> ('o Event option \<times> 'q) option"
  q_Done :: "'o Event \<Rightarrow> 'q \<Rightarrow> 'q"
  q_AddRateLimited :: "'o Event \<Rightarrow> 'q \<Rightarrow> 'q"
  q_Forget :: "'o Event \<Rightarrow> 'q \<Rightarrow> 'q"

text \<open>
  \<open>q_Get\<close> is \<open>None\<close> while the call blocks, and answers no event when the queue has been
  shut down. \<open>pending\<close> are the events that will be delivered: an event that is added while a
  worker has it is delivered again once the worker is done.
\<close>

locale work_queue =
  fixes Q :: "('q, 'o) queue_ops" and pending :: "'q \<Rightarrow> 'o Event set"
  assumes pending_Add: "pending (q_Add Q e q) = insert e (pending q)"
    and pending_Get: "q_Get Q q = Some (Some e, q') \<Longrightarrow> e \<in> pending q \<and> pending q' = pending q - {e}"
    and pending_quit: "q_Get Q q = Some (None, q') \<Longrightarrow> pending q' = pending q"
    and pending_Done: "pending (q_Done Q e q) = pending q"
    and pending_AddRateLimited: "pending (q_AddRateLimited Q e q) = insert e (pending q)"
    and pending_Forget: "pending (q_Forget Q e q) = pending q"

section \<open>The controller\<close>

datatype 'o worker =
    Idle
  | Waiting "'o Event"
  | Handling "'o Event"
  | Stopped

text \<open>The mutexes of the locker map: an entry is whether its mutex is held.\<close>

record ('q, 'o, 'w) controller_state =
  ctlQueue :: 'q
  ctlLocker :: "string \<rightharpoonup> bool"
  ctlWorkers :: "nat \<Rightarrow> 'o worker"
  ctlWorld :: 'w

definition getLock :: "string \<Rightarrow> (string \<rightharpoonup> bool) \<Rightarrow> string \<rightharpoonup> bool" where
  "getLock lockKey locker = (if locker lockKey = None then locker(lockKey \<mapsto> False) else locker)"

text \<open>\<^verbatim>\<open>Lock\<close> blocks while the mutex is held.\<close>

definition lock :: "string \<Rightarrow> (string \<rightharpoonup> bool) \<Rightarrow> (string \<rightharpoonup> bool) option" where
  "lock lockKey locker =
     (let locker' = getLock lockKey locker
      in if locker' lockKey = Some True then None else Some (locker'(lockKey \<mapsto> True)))"

definition unlock :: "string \<Rightarrow> (string \<rightharpoonup> bool) \<Rightarrow> string \<rightharpoonup> bool" where
  "unlock lockKey locker = (getLock lockKey locker)(lockKey \<mapsto> False)"

text \<open>\<^verbatim>\<open>processItem\<close> between taking and releasing the lock.\<close>

definition processItem ::
  "(string \<Rightarrow> 'w \<Rightarrow> 'o option result) \<Rightarrow> (EventType \<Rightarrow> 'o \<Rightarrow> ('w, unit) io) \<Rightarrow> 'o Event \<Rightarrow> ('w, unit) io" where
  "processItem GetByKey Handle event w =
     (case GetByKey (evKey event) w of
        Inl err \<Rightarrow>
          if evType event \<noteq> DeleteEvent then (Inl (Wrap ''unable to fetch object from store'' err), w)
          else Handle (evType event) (evObject event) w
      | Inr None \<Rightarrow> Handle (evType event) (evObject event) w
      | Inr (Some obj) \<Rightarrow> Handle (evType event) obj w)"

text \<open>The informer's callbacks: an update is queued under the key of the old object.\<close>

definition AddFunc :: "(('q, 'o) queue_ops) \<Rightarrow> ('o \<Rightarrow> string result) \<Rightarrow> 'o \<Rightarrow> 'q \<Rightarrow> 'q" where
  "AddFunc Q KeyFunc obj q =
     (case KeyFunc obj of
        Inl err \<Rightarrow> q | Inr key \<Rightarrow> q_Add Q \<lparr> evType = AddEvent, evKey = key, evObject = obj \<rparr> q)"

definition UpdateFunc :: "(('q, 'o) queue_ops) \<Rightarrow> ('o \<Rightarrow> string result) \<Rightarrow> 'o \<Rightarrow> 'o \<Rightarrow> 'q \<Rightarrow> 'q" where
  "UpdateFunc Q KeyFunc old_obj new_obj q =
     (case KeyFunc old_obj of
        Inl err \<Rightarrow> q | Inr key \<Rightarrow> q_Add Q \<lparr> evType = UpdateEvent, evKey = key, evObject = new_obj \<rparr> q)"

text \<open>A deleted object comes as itself or as a tombstone with its last known state.\<close>

datatype 'o deleted = Deleted 'o | DeletedFinalStateUnknown string 'o

definition DeleteFunc :: "(('q, 'o) queue_ops) \<Rightarrow> ('o deleted \<Rightarrow> string result) \<Rightarrow> 'o deleted \<Rightarrow> 'q \<Rightarrow> 'q" where
  "DeleteFunc Q KeyFunc obj q =
     (case KeyFunc obj of
        Inl err \<Rightarrow> q
      | Inr key \<Rightarrow>
          let finalObj = (case obj of DeletedFinalStateUnknown _ o' \<Rightarrow> o' | Deleted o' \<Rightarrow> o')
          in q_Add Q \<lparr> evType = DeleteEvent, evKey = key, evObject = finalObj \<rparr> q)"

text \<open>
  The steps. \<open>environ\<close> is what the outside world does on its own. A worker runs
  \<^verbatim>\<open>processNextItem\<close>: it takes an event, waits for the lock of its key, handles the
  event and releases the lock, and then forgets the event or queues it again.
\<close>

definition settle :: "('q, 'o) queue_ops \<Rightarrow> unit result \<Rightarrow> 'o Event \<Rightarrow> 'q \<Rightarrow> 'q" where
  "settle Q r event q =
     q_Done Q event (case r of Inl err \<Rightarrow> q_AddRateLimited Q event q | Inr _ \<Rightarrow> q_Forget Q event q)"

inductive ctl_step ::
  "('q, 'o) queue_ops \<Rightarrow> (string \<Rightarrow> 'w \<Rightarrow> 'o option result) \<Rightarrow> (EventType \<Rightarrow> 'o \<Rightarrow> ('w, unit) io) \<Rightarrow> ('w \<Rightarrow> 'w \<Rightarrow> bool) \<Rightarrow>
   ('q, 'o, 'w) controller_state \<Rightarrow> ('q, 'o, 'w) controller_state \<Rightarrow> bool"
  for Q GetByKey Handle environ where
  informer: "ctl_step Q GetByKey Handle environ s (s\<lparr>ctlQueue := q_Add Q e (ctlQueue s)\<rparr>)"
| outside: "environ (ctlWorld s) w' \<Longrightarrow> ctl_step Q GetByKey Handle environ s (s\<lparr>ctlWorld := w'\<rparr>)"
| take: "ctlWorkers s i = Idle \<Longrightarrow> q_Get Q (ctlQueue s) = Some (Some e, q') \<Longrightarrow>
     ctl_step Q GetByKey Handle environ s (s\<lparr>ctlQueue := q', ctlWorkers := (ctlWorkers s)(i := Waiting e)\<rparr>)"
| quit: "ctlWorkers s i = Idle \<Longrightarrow> q_Get Q (ctlQueue s) = Some (None, q') \<Longrightarrow>
     ctl_step Q GetByKey Handle environ s (s\<lparr>ctlQueue := q', ctlWorkers := (ctlWorkers s)(i := Stopped)\<rparr>)"
| acquire: "ctlWorkers s i = Waiting e \<Longrightarrow> lock (evKey e) (ctlLocker s) = Some l' \<Longrightarrow>
     ctl_step Q GetByKey Handle environ s (s\<lparr>ctlLocker := l', ctlWorkers := (ctlWorkers s)(i := Handling e)\<rparr>)"
| finish: "ctlWorkers s i = Handling e \<Longrightarrow> processItem GetByKey Handle e (ctlWorld s) = (r, w') \<Longrightarrow>
     ctl_step Q GetByKey Handle environ s
       (s\<lparr>ctlLocker := unlock (evKey e) (ctlLocker s), ctlQueue := settle Q r e (ctlQueue s),
          ctlWorkers := (ctlWorkers s)(i := Idle), ctlWorld := w'\<rparr>)"

definition New :: "'q \<Rightarrow> 'w \<Rightarrow> ('q, 'o, 'w) controller_state" where
  "New q w = \<lparr> ctlQueue = q, ctlLocker = Map.empty, ctlWorkers = (\<lambda>_. Idle), ctlWorld = w \<rparr>"

section \<open>Mutual exclusion\<close>

definition handles :: "('q, 'o, 'w) controller_state \<Rightarrow> nat \<Rightarrow> string \<Rightarrow> bool" where
  "handles s i k \<longleftrightarrow> (\<exists>e. ctlWorkers s i = Handling e \<and> evKey e = k)"

definition lock_inv :: "('q, 'o, 'w) controller_state \<Rightarrow> bool" where
  "lock_inv s \<longleftrightarrow>
     (\<forall>k. ctlLocker s k = Some True \<longleftrightarrow> (\<exists>i. handles s i k)) \<and>
     (\<forall>i j k. handles s i k \<and> handles s j k \<longrightarrow> i = j)"

lemma lock_inv_cong:
  assumes "lock_inv s" and "\<And>i k. handles s' i k = handles s i k" and "ctlLocker s' = ctlLocker s"
  shows "lock_inv s'"
  using assms by (simp add: lock_inv_def)

lemma lock_Some: "lock k l = Some l' \<longleftrightarrow> l k \<noteq> Some True \<and> l' = l(k \<mapsto> True)"
  by (auto simp: lock_def getLock_def Let_def fun_eq_iff)

lemma unlock_eq: "unlock k l = l(k \<mapsto> False)"
  by (auto simp: unlock_def getLock_def fun_eq_iff)

lemma lock_inv_New: "lock_inv (New q w)"
  by (simp add: lock_inv_def New_def handles_def)

lemma lock_inv_step:
  assumes "ctl_step Q GetByKey Handle environ s s'" and "lock_inv s"
  shows "lock_inv s'"
  using assms
proof (induction rule: ctl_step.induct)
  case (acquire s i e l')
  let ?s = "s\<lparr>ctlLocker := l', ctlWorkers := (ctlWorkers s)(i := Handling e)\<rparr>"
  have free: "ctlLocker s (evKey e) \<noteq> Some True" and l': "l' = (ctlLocker s)(evKey e \<mapsto> True)"
    using acquire.hyps by (simp_all add: lock_Some)
  have h: "handles ?s j k \<longleftrightarrow> (j = i \<and> k = evKey e) \<or> (j \<noteq> i \<and> handles s j k)" for j k
    by (auto simp: handles_def)
  have w: "\<not> handles s i k" for k using acquire.hyps by (simp add: handles_def)
  have "\<not> handles s j (evKey e)" for j using free acquire.prems by (auto simp: lock_inv_def)
  then show ?case using acquire.prems h w l' unfolding lock_inv_def by auto blast+
next
  case (finish s i e r w')
  let ?s = "s\<lparr>ctlLocker := unlock (evKey e) (ctlLocker s), ctlQueue := settle Q r e (ctlQueue s),
          ctlWorkers := (ctlWorkers s)(i := Idle), ctlWorld := w'\<rparr>"
  have h: "handles ?s j k \<longleftrightarrow> j \<noteq> i \<and> handles s j k" for j k by (auto simp: handles_def)
  have i: "handles s i k \<longleftrightarrow> k = evKey e" for k using finish.hyps by (auto simp: handles_def)
  have one: "j = i" if "handles s j (evKey e)" for j using finish.prems that i unfolding lock_inv_def by blast
  have "ctlLocker ?s k = Some True \<longleftrightarrow> (\<exists>j. handles ?s j k)" for k
  proof (cases "k = evKey e")
    case True
    then show ?thesis using one h by (auto simp: unlock_eq)
  next
    case False
    then have "(\<exists>j. handles ?s j k) \<longleftrightarrow> (\<exists>j. handles s j k)" using h i by metis
    then show ?thesis using False finish.prems by (simp add: unlock_eq lock_inv_def)
  qed
  moreover have "j = j'" if "handles ?s j k" "handles ?s j' k" for j j' k
    using finish.prems that h unfolding lock_inv_def by metis
  ultimately show ?case unfolding lock_inv_def by blast
qed (auto elim!: lock_inv_cong simp: handles_def split: if_splits)

lemma lock_inv_run:
  assumes "(ctl_step Q GetByKey Handle environ)\<^sup>*\<^sup>* (New q w) s"
  shows "lock_inv s"
  using assms by (induction rule: rtranclp_induct) (auto intro: lock_inv_New lock_inv_step)

text \<open>
  C14. Events of one object are handled one at a time. However the workers are interleaved with each
  other and with the informer, no two of them are in the handler with events of the same key; and as
  long as some worker waits for a lock or is in the handler, some such worker can go on: the locks
  never block all of them.
\<close>

theorem processItem_exclusive:
  assumes "(ctl_step Q GetByKey Handle environ)\<^sup>*\<^sup>* (New q w) s"
  shows "(\<forall>i j e f. ctlWorkers s i = Handling e \<and> ctlWorkers s j = Handling f \<and> evKey e = evKey f \<longrightarrow> i = j) \<and>
         ((\<exists>i e. ctlWorkers s i \<in> {Waiting e, Handling e}) \<longrightarrow>
          (\<exists>i e s'. ctlWorkers s i \<in> {Waiting e, Handling e} \<and> ctl_step Q GetByKey Handle environ s s' \<and>
                    ctlWorkers s' i \<noteq> ctlWorkers s i))"
proof -
  have inv: "lock_inv s" using assms by (rule lock_inv_run)
  have go: "\<exists>i e s'. ctlWorkers s i \<in> {Waiting e, Handling e} \<and> ctl_step Q GetByKey Handle environ s s' \<and>
      ctlWorkers s' i \<noteq> ctlWorkers s i" if h: "ctlWorkers s i = Handling e" for i e
  proof -
    obtain r w' where "processItem GetByKey Handle e (ctlWorld s) = (r, w')" by fastforce
    from ctl_step.finish [where environ = environ and Q = Q, OF h this] show ?thesis using h by fastforce
  qed
  have wait: "\<exists>i e s'. ctlWorkers s i \<in> {Waiting e, Handling e} \<and> ctl_step Q GetByKey Handle environ s s' \<and>
      ctlWorkers s' i \<noteq> ctlWorkers s i" if wt: "ctlWorkers s i = Waiting e" for i e
  proof (cases "ctlLocker s (evKey e) = Some True")
    case True
    then show ?thesis using inv go by (auto simp: lock_inv_def handles_def)
  next
    case False
    then have "lock (evKey e) (ctlLocker s) = Some ((ctlLocker s)(evKey e \<mapsto> True))" by (simp add: lock_Some)
    from ctl_step.acquire [where environ = environ and Q = Q and Handle = Handle and GetByKey = GetByKey, OF wt this]
    show ?thesis using wt by fastforce
  qed
  show ?thesis
  proof (intro conjI impI)
    show "\<forall>i j e f. ctlWorkers s i = Handling e \<and> ctlWorkers s j = Handling f \<and> evKey e = evKey f \<longrightarrow> i = j"
      using inv unfolding lock_inv_def handles_def by metis
    assume "\<exists>i e. ctlWorkers s i \<in> {Waiting e, Handling e}"
    then obtain i e where "ctlWorkers s i = Waiting e \<or> ctlWorkers s i = Handling e" by auto
    then show "\<exists>i e s'. ctlWorkers s i \<in> {Waiting e, Handling e} \<and> ctl_step Q GetByKey Handle environ s s' \<and>
        ctlWorkers s' i \<noteq> ctlWorkers s i" by (rule disjE) (erule wait, erule go)
  qed
qed

section \<open>No event is lost\<close>

text \<open>Events that are pending or with a worker.\<close>

definition busy :: "(nat \<Rightarrow> 'o worker) \<Rightarrow> 'o Event \<Rightarrow> bool" where
  "busy ws e \<longleftrightarrow> (\<exists>i. ws i = Waiting e \<or> ws i = Handling e)"

definition owed :: "('q \<Rightarrow> 'o Event set) \<Rightarrow> ('q, 'o, 'w) controller_state \<Rightarrow> 'o Event set" where
  "owed pending s = pending (ctlQueue s) \<union> {e. busy (ctlWorkers s) e}"

lemma busy_upd:
  "busy ws e \<Longrightarrow> \<not> busy (ws(i := x)) e \<Longrightarrow> ws i = Waiting e \<or> ws i = Handling e"
  unfolding busy_def by (metis fun_upd_apply)

lemma busy_here [simp]: "busy (ws(i := Waiting e)) e" "busy (ws(i := Handling e)) e"
  unfolding busy_def by (metis fun_upd_same)+

context work_queue
begin

lemma owed_step:
  assumes "ctl_step Q GetByKey Handle environ s s'" and "e \<in> owed pending s" and "e \<notin> owed pending s'"
  shows "\<exists>i w'. ctlWorkers s i = Handling e \<and> processItem GetByKey Handle e (ctlWorld s) = (Inr (), w') \<and>
           ctlWorld s' = w'"
  using assms
proof (induction rule: ctl_step.induct)
  case (take s i f q')
  have "e \<noteq> f" using take.prems(2) by (auto simp: owed_def)
  then show ?case using take pending_Get [OF take.hyps(2)] busy_upd [of "ctlWorkers s" e i "Waiting f"] by (simp add: owed_def)
next
  case (quit s i q')
  then show ?case using pending_quit [OF quit.hyps(2)] busy_upd [of "ctlWorkers s" e i Stopped] by (simp add: owed_def)
next
  case (acquire s i f l')
  have "e \<noteq> f" using acquire.prems(2) by (auto simp: owed_def)
  then show ?case using acquire busy_upd [of "ctlWorkers s" e i "Handling f"] by (simp add: owed_def)
next
  case (finish s i f r w')
  have keep: "pending (ctlQueue s) \<subseteq> pending (settle Q r f (ctlQueue s))"
      "r = Inl x \<Longrightarrow> f \<in> pending (settle Q r f (ctlQueue s))" for x
    by (auto simp: settle_def pending_Done pending_AddRateLimited pending_Forget split: sum.splits)
  have "e = f"
    using finish.prems finish.hyps(1) keep(1) busy_upd [of "ctlWorkers s" e i Idle] by (auto simp: owed_def)
  moreover have "r = Inr ()" using finish.prems(2) keep(2) \<open>e = f\<close> by (cases r) (auto simp: owed_def)
  ultimately show ?case using finish.hyps by auto
qed (auto simp: owed_def pending_Add)

lemma informer_owed: "e \<in> owed pending (s\<lparr>ctlQueue := q_Add Q e (ctlQueue s)\<rparr>)"
  by (simp add: owed_def pending_Add)

end

section \<open>A queue with the documented behaviour\<close>

text \<open>Events ready to be taken, events to be delivered (dirty) and events with a worker.\<close>

record 'o wqueue =
  wqQueue :: "'o Event list"
  wqDirty :: "'o Event list"
  wqProcessing :: "'o Event list"

definition wq_Add :: "'o Event \<Rightarrow> 'o wqueue \<Rightarrow> 'o wqueue" where
  "wq_Add e q =
     (if e \<in> set (wqDirty q) then q
      else if e \<in> set (wqProcessing q) then q\<lparr>wqDirty := wqDirty q @ [e]\<rparr>
      else q\<lparr>wqDirty := wqDirty q @ [e], wqQueue := wqQueue q @ [e]\<rparr>)"

definition wq_Get :: "'o wqueue \<Rightarrow> ('o Event option \<times> 'o wqueue) option" where
  "wq_Get q =
     (case filter (\<lambda>e. e \<in> set (wqDirty q)) (wqQueue q) of
        [] \<Rightarrow> None
      | e # es \<Rightarrow> Some (Some e, q\<lparr>wqQueue := es, wqDirty := removeAll e (wqDirty q),
                                 wqProcessing := wqProcessing q @ [e]\<rparr>))"

definition wq_Done :: "'o Event \<Rightarrow> 'o wqueue \<Rightarrow> 'o wqueue" where
  "wq_Done e q =
     (let q' = q\<lparr>wqProcessing := removeAll e (wqProcessing q)\<rparr>
      in if e \<in> set (wqDirty q) then q'\<lparr>wqQueue := wqQueue q @ [e]\<rparr> else q')"

definition store_queue :: "('o wqueue, 'o) queue_ops" where
  "store_queue =
     \<lparr> q_Add = wq_Add, q_Get = wq_Get, q_Done = wq_Done, q_AddRateLimited = wq_Add, q_Forget = (\<lambda>_ q. q) \<rparr>"

definition empty_queue :: "'o wqueue" where
  "empty_queue = \<lparr> wqQueue = [], wqDirty = [], wqProcessing = [] \<rparr>"

interpretation store_wq: work_queue store_queue "\<lambda>q. set (wqDirty q)"
proof (unfold_locales, goal_cases)
  case (2 q e q')
  then obtain es where f: "filter (\<lambda>e. e \<in> set (wqDirty q)) (wqQueue q) = e # es"
      and q': "q' = q\<lparr>wqQueue := es, wqDirty := removeAll e (wqDirty q), wqProcessing := wqProcessing q @ [e]\<rparr>"
    by (auto simp: store_queue_def wq_Get_def split: list.splits)
  have "e \<in> set (filter (\<lambda>e. e \<in> set (wqDirty q)) (wqQueue q))" using f by (metis list.set_intros(1))
  then show ?case using q' by simp
qed (auto simp: store_queue_def wq_Add_def wq_Get_def wq_Done_def Let_def split: list.splits)

text \<open>
  No event is lost. An event that the informer delivers stays pending or with a worker until a
  worker has handled it without error: a step after which it is neither is the end of a successful
  run of the handler for this very event; after an error it is queued again.
\<close>

theorem event_not_lost:
  assumes "work_queue Q pending" and "ctl_step Q GetByKey Handle environ s s'"
    and "e \<in> owed pending s" and "e \<notin> owed pending s'"
  shows "\<exists>i. ctlWorkers s i = Handling e \<and> processItem GetByKey Handle e (ctlWorld s) = (Inr (), ctlWorld s')"
  using work_queue.owed_step [OF assms] by auto

section \<open>Invariants of the world\<close>

lemma processItem_handled:
  assumes "processItem GetByKey Handle e w = (r, w')"
  shows "w' = w \<or> (\<exists>obj. (obj = evObject e \<or> GetByKey (evKey e) w = Inr (Some obj)) \<and> Handle (evType e) obj w = (r, w'))"
  using assms by (auto simp: processItem_def split: sum.splits option.splits if_splits)

text \<open>What every handler call and the outside world keep holds in every reachable state.\<close>

lemma ctl_step_world:
  assumes "ctl_step Q GetByKey Handle environ s s'"
  shows "ctlWorld s' = ctlWorld s \<or> environ (ctlWorld s) (ctlWorld s') \<or>
         (\<exists>i e obj r. ctlWorkers s i = Handling e \<and>
            (obj = evObject e \<or> GetByKey (evKey e) (ctlWorld s) = Inr (Some obj)) \<and>
            Handle (evType e) obj (ctlWorld s) = (r, ctlWorld s'))"
  using assms
proof (induction rule: ctl_step.induct)
  case (finish s i e r w')
  then show ?case using processItem_handled [OF finish(2)] by fastforce
qed auto

text \<open>
  A volume object is coherent with the store if it is the stored object whenever it carries the
  version of the stored one. A coherent run only handles coherent objects.
\<close>

definition coherent :: "(string \<Rightarrow> Volume option) \<Rightarrow> Volume \<Rightarrow> bool" where
  "coherent vs vol \<longleftrightarrow> (\<forall>cur. vs (objName vol) = Some cur \<and> ResourceVersion cur = ResourceVersion vol \<longrightarrow> cur = vol)"

definition coherent_step ::
  "('q, Volume) queue_ops \<Rightarrow> (string \<Rightarrow> 'w \<Rightarrow> Volume option result) \<Rightarrow> (EventType \<Rightarrow> Volume \<Rightarrow> ('w, unit) io) \<Rightarrow> ('w \<Rightarrow> 'w \<Rightarrow> bool) \<Rightarrow>
   ('w \<Rightarrow> string \<Rightarrow> Volume option) \<Rightarrow> ('q, Volume, 'w) controller_state \<Rightarrow> ('q, Volume, 'w) controller_state \<Rightarrow> bool" where
  "coherent_step Q GetByKey Handle environ vstore s s' \<longleftrightarrow>
     ctl_step Q GetByKey Handle environ s s' \<and>
     (\<forall>i e obj. ctlWorkers s i = Handling e \<and>
        (obj = evObject e \<or> GetByKey (evKey e) (ctlWorld s) = Inr (Some obj)) \<longrightarrow> coherent (vstore (ctlWorld s)) obj)"


section \<open>A run with one event\<close>

definition volume_event :: "Volume Event" where
  "volume_event = \<lparr> evType = UpdateEvent, evKey = ''pvc-1'', evObject = deleted_volume \<rparr>"

definition queued :: "(Volume wqueue, Volume, hworld) controller_state" where
  "queued = (New empty_queue release_world)\<lparr>ctlQueue := wq_Add volume_event empty_queue\<rparr>"

definition handling :: "(Volume wqueue, Volume, hworld) controller_state" where
  "handling = queued\<lparr>ctlQueue := empty_queue\<lparr>wqProcessing := [volume_event]\<rparr>,
     ctlLocker := [''pvc-1'' \<mapsto> True], ctlWorkers := (\<lambda>_. Idle)(0 := Handling volume_event)\<rparr>"

abbreviation no_cache :: "string \<Rightarrow> hworld \<Rightarrow> Volume option result" where
  "no_cache \<equiv> \<lambda>_ _. Inr None"

abbreviation sample_step where
  "sample_step \<equiv> ctl_step store_queue no_cache (Volume_Handle (store_env :: hworld env)) (\<lambda>_ _. False)"

abbreviation waiting :: "(Volume wqueue, Volume, hworld) controller_state" where
  "waiting \<equiv> queued\<lparr>ctlQueue := empty_queue\<lparr>wqProcessing := [volume_event]\<rparr>,
     ctlWorkers := (\<lambda>_. Idle)(0 := Waiting volume_event)\<rparr>"

lemma sample_steps:
  "sample_step (New empty_queue release_world) queued" "sample_step queued waiting" "sample_step waiting handling"
proof -
  show "sample_step (New empty_queue release_world) queued"
    using ctl_step.informer [where s = "New empty_queue release_world" and e = volume_event and Q = store_queue]
    by (simp add: queued_def New_def store_queue_def)
  have "wq_Get (ctlQueue queued) = Some (Some volume_event, empty_queue\<lparr>wqProcessing := [volume_event]\<rparr>)"
    by (simp add: queued_def wq_Add_def wq_Get_def empty_queue_def)
  then show "sample_step queued waiting"
    using ctl_step.take [where s = queued and i = 0 and Q = store_queue] by (simp add: store_queue_def queued_def New_def)
  have "lock (evKey volume_event) (ctlLocker waiting) = Some [''pvc-1'' \<mapsto> True]"
    by (simp add: lock_Some queued_def New_def volume_event_def)
  then show "sample_step waiting handling"
    using ctl_step.acquire [where s = waiting and i = 0 and e = volume_event]
    by (simp add: handling_def)
qed

lemma sample_run: "sample_step\<^sup>*\<^sup>* (New empty_queue release_world) handling"
  by (rule converse_rtranclp_into_rtranclp, rule sample_steps(1), rule converse_rtranclp_into_rtranclp, rule sample_steps(2),
      rule r_into_rtranclp, rule sample_steps(3))

theorem processItem_exclusive_witness:
  "\<exists>i s'. ctlWorkers handling i = Handling volume_event \<and> sample_step handling s'"
proof -
  have h: "ctlWorkers handling 0 = Handling volume_event" by (simp add: handling_def)
  then have "\<exists>i e. ctlWorkers handling i \<in> {Waiting e, Handling e}" by auto
  with processItem_exclusive [OF sample_run] h show ?thesis by blast
qed

lemma sample_finish:
  obtains w' s' where "Volume_Handle store_env UpdateEvent deleted_volume release_world = (Inr (), w')"
    and "sample_step handling s'" and "ctlWorld s' = w'"
    and "ctlQueue s' = empty_queue" and "ctlWorkers s' = (\<lambda>_. Idle)"
proof -
  have "\<exists>u w'. Volume_Handle store_env UpdateEvent deleted_volume release_world = (Inr u, w')"
    by (rule not_isl_ok) code_simp
  then obtain w' where v: "Volume_Handle store_env UpdateEvent deleted_volume release_world = (Inr (), w')" by auto
  then have p: "processItem no_cache (Volume_Handle store_env) volume_event (ctlWorld handling) = (Inr (), w')"
    by (simp add: processItem_def volume_event_def handling_def queued_def New_def)
  have h: "ctlWorkers handling 0 = Handling volume_event" by (simp add: handling_def)
  from ctl_step.finish [where Q = store_queue and environ = "\<lambda>_ _. False", OF h p] show thesis
    by (rule that [OF v])
      (simp_all add: handling_def settle_def store_queue_def wq_Done_def empty_queue_def fun_eq_iff)
qed

theorem event_not_lost_witness:
  "\<exists>i w'. ctlWorkers handling i = Handling volume_event \<and>
     processItem no_cache (Volume_Handle (store_env :: hworld env)) volume_event (ctlWorld handling) = (Inr (), w')"
proof -
  obtain w' s' where st: "sample_step handling s'" "ctlQueue s' = empty_queue" "ctlWorkers s' = (\<lambda>_. Idle)"
    by (rule sample_finish)
  have "busy (ctlWorkers handling) volume_event" unfolding busy_def by (rule exI [of _ 0]) (simp add: handling_def)
  then have o1: "volume_event \<in> owed (\<lambda>q. set (wqDirty q)) handling" by (simp add: owed_def)
  have o2: "volume_event \<notin> owed (\<lambda>q. set (wqDirty q)) s'" using st by (simp add: owed_def busy_def empty_queue_def)
  show ?thesis using event_not_lost [OF store_wq.work_queue_axioms, OF st(1) o1 o2] by blast
qed

lemma release_world_ledger: "ledger (store_env :: hworld env) (world_drives release_world, world_volumes release_world)"
proof -
  let ?d = "snd (reserve ''pvc-1'' [] 100 sample_drive)"
  have c: "objName ?d = ''drive-1''" "objName deleted_volume = ''pvc-1''" "GetVolumes ?d = [''pvc-1'']"
      "drive_finalizers_wf ?d" "capacity_ok ?d" "vTotalCapacity (volumeStatus deleted_volume) = 100"
      "dFreeCapacity (driveStatus ?d) = 900" "dTotalCapacity (driveStatus ?d) = 1000"
      "objLabels deleted_volume DriveLabelKey = Some ''drive-1''"
      "volumeFinalizerPurgeProtection \<in> set (Finalizers deleted_volume)"
      "ToLabelValue (store_env :: hworld env) ''drive-1'' = ''drive-1''" by code_simp+
  have ds: "world_drives release_world n = (if n = ''drive-1'' then Some ?d else None)" for n
    using c(1) by (simp add: world_drives_def release_world_def lookup_obj_def)
  have vs: "world_volumes release_world n = (if n = ''pvc-1'' then Some deleted_volume else None)" for n
    using c(2) by (simp add: world_volumes_def release_world_def lookup_obj_def)
  show ?thesis
    using c by (simp add: ledger_def drive_account_def booked_def cap_of_def protected_on_def ds vs)
qed


end
