(* ===== verification/Admin.thy ===== *)
theory Admin
  imports Csi_Node
begin

text \<open>
  The operations of an administrator, \<^verbatim>\<open>pkg/admin\<close>: cordoning, suspending,
  labelling, removing and moving drives, suspending, labelling and cleaning volumes. Each reads the
  objects its arguments select from a lister and handles one after the other; the body of the loop is
  the lister's receiver. Log lines are left out. The clients of \<^verbatim>\<open>pkg/client\<close>
  return a nil object with an error; where the code then uses the object, the model's result is a
  panic.
\<close>

section \<open>Arguments and progress\<close>

record CordonArgs =
  caNodes :: "string list"
  caDrives :: "string list"
  caStatus :: "DriveStatusValue list"
  caDriveIDs :: "DriveID list"
  caDryRun :: bool

record SuspendDriveArgs =
  sdNodes :: "string list"
  sdDrives :: "string list"
  sdDriveIDSelectors :: "DriveID list"
  sdDryRun :: bool

record LabelDriveArgs =
  ldNodes :: "string list"
  ldDrives :: "string list"
  ldDriveStatus :: "DriveStatusValue list"
  ldDriveIDs :: "DriveID list"
  ldLabelSelectors :: "(LabelKey \<times> LabelValue) list"
  ldDryRun :: bool

record SuspendVolumeArgs =
  svNodes :: "string list"
  svDrives :: "string list"
  svPodNames :: "string list"
  svPodNamespaces :: "string list"
  svVolumeNames :: "string list"
  svDryRun :: bool

record LabelVolumeArgs =
  lvNodes :: "string list"
  lvDrives :: "string list"
  lvDriveIDs :: "string list"
  lvPodNames :: "string list"
  lvPodNamespaces :: "string list"
  lvVolumeStatus :: "VolumeStatusValue list"
  lvVolumeNames :: "string list"
  lvLabelSelectors :: "(LabelKey \<times> LabelValue) list"
  lvDryRun :: bool

record CleanArgs =
  clNodes :: "string list"
  clDrives :: "string list"
  clDriveIDs :: "string list"
  clPodNames :: "string list"
  clPodNamespaces :: "string list"
  clVolumeStatus :: "VolumeStatusValue list"
  clVolumeNames :: "string list"
  clDryRun :: bool

record Label =
  labelKey :: LabelKey
  labelValue :: LabelValue
  labelRemove :: bool

record MoveArgs =
  mvSource :: DriveID
  mvDestination :: DriveID

text \<open>The local variables of the loops: whether an object was seen, the results, the error
  returned early, and (of \<^verbatim>\<open>Remove\<close>) whether an object failed.\<close>

record 'r progress =
  processed :: bool
  results :: "'r list"
  stopped :: "error option"
  failed :: bool

definition start :: "'r progress" where
  "start = \<lparr> processed = False, results = [], stopped = None, failed = False \<rparr>"

definition ErrNoMatchingResourcesFound :: error where
  "ErrNoMatchingResourcesFound = ErrorString ''no matching resources found''"

definition outcome :: "'r progress \<Rightarrow> 'r list \<times> error option" where
  "outcome p =
     (case stopped p of
        Some e \<Rightarrow> (results p, Some e)
      | None \<Rightarrow> if \<not> processed p then ([], Some ErrNoMatchingResourcesFound) else (results p, None))"

type_synonym drive_result = "NodeID \<times> DriveName \<times> DriveID"

definition drive_result :: "'a lib_scheme \<Rightarrow> Drive \<Rightarrow> drive_result" where
  "drive_result L d = (Drive_GetNodeID L d, Drive_GetDriveName L d, Drive_GetDriveID d)"

section \<open>Cordon and uncordon\<close>

definition cordon_lister :: "'a lib_scheme \<Rightarrow> CordonArgs \<Rightarrow> DriveLister" where
  "cordon_lister L args =
     DriveLister_DriveIDSelector (caDriveIDs args)
       (DriveLister_StatusSelector (caStatus args)
          (DriveLister_DriveNameSelector (ToLabelValues L (caDrives args))
             (DriveLister_NodeSelector (ToLabelValues L (caNodes args)) NewDriveLister)))"

definition pending_volume :: "(Volume, error option, 'w) consumer" where
  "pending_volume r s w =
     (case r of
        Inl e \<Rightarrow> (False, Some e, w)
      | Inr v \<Rightarrow>
          if vStatus (volumeStatus v) = VolumeStatusPending
          then (False, Some (ErrorString ''unable to cordon drive; pending volumes found''), w)
          else (True, s, w))"

definition cordon_volumes :: "('w, 'b) client_scheme \<Rightarrow> Drive \<Rightarrow> 'w \<Rightarrow> error option \<times> 'w" where
  "cordon_volumes C d w =
     (if GetVolumes d \<noteq> []
      then VolumeLister_List C
             (VolumeLister_IgnoreNotFound True (VolumeLister_VolumeNameSelector (GetVolumes d) NewVolumeLister))
             pending_volume None w
      else (None, w))"

definition write_drive :: "('w, 'b) client_scheme \<Rightarrow> bool \<Rightarrow> Drive \<Rightarrow> ('w, Drive) io" where
  "write_drive C dryRun d w = (if \<not> dryRun then api_Update (DriveClient C) d w else (Inr d, w))"

definition cordon_drive :: "('w, 'b) client_scheme \<Rightarrow> bool \<Rightarrow> (Drive, drive_result progress, 'w) consumer" where
  "cordon_drive C dryRun r p w =
     (case r of
        Inl e \<Rightarrow> (False, p\<lparr>stopped := Some e\<rparr>, w)
      | Inr d \<Rightarrow>
          if IsUnschedulable d then (True, p\<lparr>processed := True\<rparr>, w)
          else case cordon_volumes C d w of
                 (Some e, w) \<Rightarrow> (False, p\<lparr>processed := True, stopped := Some e\<rparr>, w)
               | (None, w) \<Rightarrow>
                   call (write_drive C dryRun (Drive_Unschedulable d) w)
                     (\<lambda>err w. (False, p\<lparr>processed := True, stopped := Some (Wrap ''unable to cordon drive'' err)\<rparr>, w))
                     (\<lambda>_ w. (True, p\<lparr>processed := True, results := results p @ [drive_result C d]\<rparr>, w)))"

definition Cordon :: "('w, 'b) client_scheme \<Rightarrow> CordonArgs \<Rightarrow> 'w \<Rightarrow> (drive_result list \<times> error option) \<times> 'w" where
  "Cordon C args w =
     (case DriveLister_List C (cordon_lister C args) (cordon_drive C (caDryRun args)) start w of
        (p, w') \<Rightarrow> (outcome p, w'))"

definition uncordon_drive :: "('w, 'b) client_scheme \<Rightarrow> bool \<Rightarrow> (Drive, drive_result progress, 'w) consumer" where
  "uncordon_drive C dryRun r p w =
     (case r of
        Inl e \<Rightarrow> (False, p\<lparr>stopped := Some e\<rparr>, w)
      | Inr d \<Rightarrow>
          if \<not> IsUnschedulable d then (True, p\<lparr>processed := True\<rparr>, w)
          else call (write_drive C dryRun (Drive_Schedulable d) w)
                 (\<lambda>err w. (False, p\<lparr>processed := True, stopped := Some (Wrap ''unable to uncordon drive'' err)\<rparr>, w))
                 (\<lambda>_ w. (True, p\<lparr>processed := True, results := results p @ [drive_result C d]\<rparr>, w)))"

definition Uncordon :: "('w, 'b) client_scheme \<Rightarrow> CordonArgs \<Rightarrow> 'w \<Rightarrow> (drive_result list \<times> error option) \<times> 'w" where
  "Uncordon C args w =
     (case DriveLister_List C (cordon_lister C args) (uncordon_drive C (caDryRun args)) start w of
        (p, w') \<Rightarrow> (outcome p, w'))"

section \<open>Suspend and resume\<close>

definition suspend_lister :: "'a lib_scheme \<Rightarrow> SuspendDriveArgs \<Rightarrow> DriveLister" where
  "suspend_lister L args =
     DriveLister_DriveIDSelector (sdDriveIDSelectors args)
       (DriveLister_DriveNameSelector (ToLabelValues L (sdDrives args))
          (DriveLister_NodeSelector (ToLabelValues L (sdNodes args)) NewDriveLister))"

text \<open>The update function of the retry loop: the drive is read again.\<close>

definition change_drive :: "('w, 'b) client_scheme \<Rightarrow> bool \<Rightarrow> (Drive \<Rightarrow> Drive) \<Rightarrow> string \<Rightarrow> ('w, unit) io" where
  "change_drive C dryRun f name w =
     call (api_Get (DriveClient C) name w)
       (\<lambda>err w. (Inl err, w))
       (\<lambda>drive w. call (write_drive C dryRun (f drive) w) (\<lambda>err w. (Inl err, w)) (\<lambda>_ w. (Inr (), w)))"

definition suspend_drive ::
  "('w, 'b) client_scheme \<Rightarrow> bool \<Rightarrow> (Drive, (drive_result \<times> string list) progress, 'w) consumer" where
  "suspend_drive C dryRun r p w =
     (case r of
        Inl e \<Rightarrow> (False, p\<lparr>stopped := Some e\<rparr>, w)
      | Inr d \<Rightarrow>
          if Drive_IsSuspended C d then (True, p\<lparr>processed := True\<rparr>, w)
          else call (RetryOnConflict C (change_drive C dryRun (\<lambda>drive. snd (Drive_Suspend C drive)) (objName d)) w)
                 (\<lambda>err w. (False, p\<lparr>processed := True, stopped := Some (Wrap ''unable to suspend drive'' err)\<rparr>, w))
                 (\<lambda>_ w. (True, p\<lparr>processed := True, results := results p @ [(drive_result C d, GetVolumes d)]\<rparr>, w)))"

definition SuspendDrives ::
  "('w, 'b) client_scheme \<Rightarrow> SuspendDriveArgs \<Rightarrow> 'w \<Rightarrow> ((drive_result \<times> string list) list \<times> error option) \<times> 'w" where
  "SuspendDrives C args w =
     (case DriveLister_List C (suspend_lister C args) (suspend_drive C (sdDryRun args)) start w of
        (p, w') \<Rightarrow> (outcome p, w'))"

definition resume_drive ::
  "('w, 'b) client_scheme \<Rightarrow> bool \<Rightarrow> (Drive, (drive_result \<times> string list) progress, 'w) consumer" where
  "resume_drive C dryRun r p w =
     (case r of
        Inl e \<Rightarrow> (False, p\<lparr>stopped := Some e\<rparr>, w)
      | Inr d \<Rightarrow>
          if \<not> Drive_IsSuspended C d then (True, p\<lparr>processed := True\<rparr>, w)
          else call (RetryOnConflict C (change_drive C dryRun (\<lambda>drive. snd (Drive_Resume drive)) (objName d)) w)
                 (\<lambda>err w. (False, p\<lparr>processed := True, stopped := Some (Wrap ''unable to resume drive'' err)\<rparr>, w))
                 (\<lambda>_ w. (True, p\<lparr>processed := True, results := results p @ [(drive_result C d, GetVolumes d)]\<rparr>, w)))"

definition ResumeDrives ::
  "('w, 'b) client_scheme \<Rightarrow> SuspendDriveArgs \<Rightarrow> 'w \<Rightarrow> ((drive_result \<times> string list) list \<times> error option) \<times> 'w" where
  "ResumeDrives C args w =
     (case DriveLister_List C (suspend_lister C args) (resume_drive C (sdDryRun args)) start w of
        (p, w') \<Rightarrow> (outcome p, w'))"

definition suspend_volume_lister :: "'a lib_scheme \<Rightarrow> SuspendVolumeArgs \<Rightarrow> VolumeLister" where
  "suspend_volume_lister L args =
     VolumeLister_VolumeNameSelector (svVolumeNames args)
       (VolumeLister_PodNSSelector (ToLabelValues L (svPodNamespaces args))
          (VolumeLister_PodNameSelector (ToLabelValues L (svPodNames args))
             (VolumeLister_DriveNameSelector (ToLabelValues L (svDrives args))
                (VolumeLister_NodeSelector (ToLabelValues L (svNodes args)) NewVolumeLister))))"

type_synonym volume_result = "NodeID \<times> string \<times> DriveID \<times> DriveName \<times> string \<times> string"

definition volume_result :: "'a lib_scheme \<Rightarrow> Volume \<Rightarrow> volume_result" where
  "volume_result L v =
     (Volume_GetNodeID L v, objName v, Volume_GetDriveID L v, Volume_GetDriveName L v, GetPodName L v, GetPodNS L v)"

definition write_volume :: "('w, 'b) client_scheme \<Rightarrow> bool \<Rightarrow> Volume \<Rightarrow> ('w, Volume) io" where
  "write_volume C dryRun v w = (if \<not> dryRun then api_Update (VolumeClient C) v w else (Inr v, w))"

definition change_volume :: "('w, 'b) client_scheme \<Rightarrow> bool \<Rightarrow> (Volume \<Rightarrow> Volume) \<Rightarrow> string \<Rightarrow> ('w, unit) io" where
  "change_volume C dryRun f name w =
     call (api_Get (VolumeClient C) name w)
       (\<lambda>err w. (Inl err, w))
       (\<lambda>volume w. call (write_volume C dryRun (f volume) w) (\<lambda>err w. (Inl err, w)) (\<lambda>_ w. (Inr (), w)))"

definition suspend_volume :: "('w, 'b) client_scheme \<Rightarrow> bool \<Rightarrow> (Volume, volume_result progress, 'w) consumer" where
  "suspend_volume C dryRun r p w =
     (case r of
        Inl e \<Rightarrow> (False, p\<lparr>stopped := Some e\<rparr>, w)
      | Inr v \<Rightarrow>
          if Volume_IsSuspended C v then (True, p\<lparr>processed := True\<rparr>, w)
          else call (RetryOnConflict C (change_volume C dryRun (\<lambda>volume. snd (Volume_Suspend C volume)) (objName v)) w)
                 (\<lambda>err w. (False, p\<lparr>processed := True, stopped := Some (Wrap ''unable to suspend volume'' err)\<rparr>, w))
                 (\<lambda>_ w. (True, p\<lparr>processed := True, results := results p @ [volume_result C v]\<rparr>, w)))"

definition SuspendVolumes ::
  "('w, 'b) client_scheme \<Rightarrow> SuspendVolumeArgs \<Rightarrow> 'w \<Rightarrow> (volume_result list \<times> error option) \<times> 'w" where
  "SuspendVolumes C args w =
     (case VolumeLister_List C (suspend_volume_lister C args) (suspend_volume C (svDryRun args)) start w of
        (p, w') \<Rightarrow> (outcome p, w'))"

definition resume_volume :: "('w, 'b) client_scheme \<Rightarrow> bool \<Rightarrow> (Volume, volume_result progress, 'w) consumer" where
  "resume_volume C dryRun r p w =
     (case r of
        Inl e \<Rightarrow> (False, p\<lparr>stopped := Some e\<rparr>, w)
      | Inr v \<Rightarrow>
          if \<not> Volume_IsSuspended C v then (True, p\<lparr>processed := True\<rparr>, w)
          else call (RetryOnConflict C (change_volume C dryRun (\<lambda>volume. snd (Volume_Resume volume)) (objName v)) w)
                 (\<lambda>err w. (False, p\<lparr>processed := True, stopped := Some (Wrap ''unable to resume volume'' err)\<rparr>, w))
                 (\<lambda>_ w. (True, p\<lparr>processed := True, results := results p @ [volume_result C v]\<rparr>, w)))"

definition ResumeVolumes ::
  "('w, 'b) client_scheme \<Rightarrow> SuspendVolumeArgs \<Rightarrow> 'w \<Rightarrow> (volume_result list \<times> error option) \<times> 'w" where
  "ResumeVolumes C args w =
     (case VolumeLister_List C (suspend_volume_lister C args) (resume_volume C (svDryRun args)) start w of
        (p, w') \<Rightarrow> (outcome p, w'))"

section \<open>Labels\<close>

text \<open>A failed update leaves no drive, and the log line of the error reads its labels.\<close>

fun label_loop ::
  "('o \<Rightarrow> ('w, 'o) io) \<Rightarrow> (LabelKey \<Rightarrow> LabelValue \<Rightarrow> 'o \<Rightarrow> bool \<times> 'o) \<Rightarrow> (LabelKey \<Rightarrow> 'o \<Rightarrow> bool \<times> 'o) \<Rightarrow> ('o \<Rightarrow> 'r) \<Rightarrow>
   Label list \<Rightarrow> 'o \<Rightarrow> 'r list \<Rightarrow> 'w \<Rightarrow> (error option \<times> 'r list) \<times> 'w" where
  "label_loop write set_label remove_label result [] obj rs w = ((None, rs), w)"
| "label_loop write set_label remove_label result (l # ls) obj rs w =
     (case (if labelRemove l then remove_label (labelKey l) obj else set_label (labelKey l) (labelValue l) obj) of
        (False, obj') \<Rightarrow> label_loop write set_label remove_label result ls obj' rs w
      | (True, obj') \<Rightarrow>
          call (write obj' w)
            (\<lambda>err w. ((Some (Panic ''nil object''), rs), w))
            (\<lambda>obj'' w. label_loop write set_label remove_label result ls obj'' (rs @ [result obj'']) w))"

definition label_step :: "('o \<Rightarrow> 'r list \<Rightarrow> 'w \<Rightarrow> (error option \<times> 'r list) \<times> 'w) \<Rightarrow> ('o, 'r progress, 'w) consumer" where
  "label_step loop r p w =
     (case r of
        Inl e \<Rightarrow> (False, p\<lparr>stopped := Some e\<rparr>, w)
      | Inr obj \<Rightarrow>
          (case loop obj (results p) w of
             ((None, rs), w) \<Rightarrow> (True, p\<lparr>processed := True, results := rs\<rparr>, w)
           | ((Some e, rs), w) \<Rightarrow> (False, p\<lparr>processed := True, results := rs, stopped := Some e\<rparr>, w)))"

text \<open>The error for the first reserved key of a request.\<close>

definition reserved_label :: "Label list \<Rightarrow> error option" where
  "reserved_label labels =
     map_option (\<lambda>l. ErrorString (if labelRemove l then ''cannot remove reserved key'' else ''cannot use reserved key''))
       (find (\<lambda>l. IsReserved (labelKey l)) labels)"

definition drive_labels ::
  "('w, 'b) client_scheme \<Rightarrow> bool \<Rightarrow> Label list \<Rightarrow> Drive \<Rightarrow> drive_result list \<Rightarrow> 'w \<Rightarrow>
   (error option \<times> drive_result list) \<times> 'w" where
  "drive_labels C dryRun labels = label_loop (write_drive C dryRun) Drive_SetLabel Drive_RemoveLabel (drive_result C) labels"

definition LabelDrives ::
  "('w, 'b) client_scheme \<Rightarrow> LabelDriveArgs \<Rightarrow> Label list \<Rightarrow> 'w \<Rightarrow> (drive_result list \<times> error option) \<times> 'w" where
  "LabelDrives C args labels w =
     (case reserved_label labels of
        Some err \<Rightarrow> (([], Some err), w)
      | None \<Rightarrow>
        let lister = DriveLister_LabelSelector (ldLabelSelectors args)
              (DriveLister_DriveIDSelector (ldDriveIDs args)
                 (DriveLister_StatusSelector (ldDriveStatus args)
                    (DriveLister_DriveNameSelector (ToLabelValues C (ldDrives args))
                       (DriveLister_NodeSelector (ToLabelValues C (ldNodes args)) NewDriveLister))))
        in case DriveLister_List C lister (label_step (drive_labels C (ldDryRun args) labels)) start w of
             (p, w') \<Rightarrow> (outcome p, w'))"

definition volume_labels ::
  "('w, 'b) client_scheme \<Rightarrow> bool \<Rightarrow> Label list \<Rightarrow> Volume \<Rightarrow> (NodeID \<times> string) list \<Rightarrow> 'w \<Rightarrow>
   (error option \<times> (NodeID \<times> string) list) \<times> 'w" where
  "volume_labels C dryRun labels =
     label_loop (write_volume C dryRun) Volume_SetLabel Volume_RemoveLabel
       (\<lambda>v. (Volume_GetNodeID C v, objName v)) labels"

definition LabelVolumes ::
  "('w, 'b) client_scheme \<Rightarrow> LabelVolumeArgs \<Rightarrow> Label list \<Rightarrow> 'w \<Rightarrow> ((NodeID \<times> string) list \<times> error option) \<times> 'w" where
  "LabelVolumes C args labels w =
     (case reserved_label labels of
        Some err \<Rightarrow> (([], Some err), w)
      | None \<Rightarrow>
        let lister = VolumeLister_LabelSelector (lvLabelSelectors args)
              (VolumeLister_VolumeNameSelector (lvVolumeNames args)
                 (VolumeLister_StatusSelector (lvVolumeStatus args)
                    (VolumeLister_PodNSSelector (ToLabelValues C (lvPodNamespaces args))
                       (VolumeLister_PodNameSelector (ToLabelValues C (lvPodNames args))
                          (VolumeLister_DriveIDSelector (ToLabelValues C (lvDriveIDs args))
                             (VolumeLister_DriveNameSelector (ToLabelValues C (lvDrives args))
                                (VolumeLister_NodeSelector (ToLabelValues C (lvNodes args)) NewVolumeLister)))))))
        in case VolumeLister_List C lister (label_step (volume_labels C (lvDryRun args) labels)) start w of
             (p, w') \<Rightarrow> (outcome p, w'))"

section \<open>Removing drives and cleaning volumes\<close>

definition remove_drive :: "('w, 'b) client_scheme \<Rightarrow> bool \<Rightarrow> (Drive, drive_result progress, 'w) consumer" where
  "remove_drive C dryRun r p w =
     (case r of
        Inl e \<Rightarrow> (False, p\<lparr>stopped := Some e\<rparr>, w)
      | Inr d \<Rightarrow>
          if dStatus (driveStatus d) = DriveStatusRemoved then (True, p\<lparr>processed := True\<rparr>, w)
          else if GetVolumeCount d > 0 then (True, p\<lparr>processed := True, failed := True\<rparr>, w)
          else call (write_drive C dryRun (set_drive_status DriveStatusRemoved d) w)
                 (\<lambda>err w. (True, p\<lparr>processed := True, failed := True, results := results p @ [drive_result C d]\<rparr>, w))
                 (\<lambda>_ w. (True, p\<lparr>processed := True, results := results p @ [drive_result C d]\<rparr>, w)))"

definition Remove :: "('w, 'b) client_scheme \<Rightarrow> CordonArgs \<Rightarrow> 'w \<Rightarrow> (drive_result list \<times> error option) \<times> 'w" where
  "Remove C args w =
     (case DriveLister_List C (DriveLister_IgnoreNotFound True (cordon_lister C args)) (remove_drive C (caDryRun args)) start w of
        (p, w') \<Rightarrow>
          (if stopped p = None \<and> processed p \<and> failed p
           then (results p, Some (ErrorString ''unable to remove drive(s)'')) else outcome p, w'))"

text \<open>\<open>getPhase\<close> is the phase of the persistent volume with the name of the volume.\<close>

definition match_pv :: "(string \<Rightarrow> ('w, string) io) \<Rightarrow> Volume \<Rightarrow> 'w \<Rightarrow> bool \<times> 'w" where
  "match_pv getPhase volume w =
     call (getPhase (objName volume) w)
       (\<lambda>err w. (IsNotFound err, w))
       (\<lambda>phase w. (phase = ''Released'' \<or> phase = ''Failed'', w))"

text \<open>\<open>stopped\<close> is the error variable of the function: a delete that finds no volume
  leaves its error there, and the next update overwrites it.\<close>

definition clean_volume ::
  "('w, 'b) client_scheme \<Rightarrow> (string \<Rightarrow> ('w, string) io) \<Rightarrow> bool \<Rightarrow> (Volume, string progress, 'w) consumer" where
  "clean_volume C getPhase dryRun r p w =
     (case r of
        Inl e \<Rightarrow> (False, p\<lparr>stopped := Some e\<rparr>, w)
      | Inr volume \<Rightarrow>
          (case match_pv getPhase volume w of
             (False, w) \<Rightarrow> (True, p, w)
           | (True, w) \<Rightarrow>
               if dryRun then (True, p, w)
               else call (api_Update (VolumeClient C) (RemovePVProtection volume) w)
                 (\<lambda>err w. (False, p\<lparr>stopped := Some err\<rparr>, w))
                 (\<lambda>_ w. call (api_Delete (VolumeClient C) (objName volume) w)
                    (\<lambda>err w. if \<not> IsNotFound err then (False, p\<lparr>stopped := Some err\<rparr>, w)
                             else (True, p\<lparr>results := results p @ [objName volume], stopped := Some err\<rparr>, w))
                    (\<lambda>_ w. (True, p\<lparr>results := results p @ [objName volume], stopped := None\<rparr>, w)))))"

definition Clean ::
  "('w, 'b) client_scheme \<Rightarrow> (string \<Rightarrow> ('w, string) io) \<Rightarrow> CleanArgs \<Rightarrow> 'w \<Rightarrow> (string list \<times> error option) \<times> 'w" where
  "Clean C getPhase args w =
     (let lister = VolumeLister_VolumeNameSelector (clVolumeNames args)
            (VolumeLister_StatusSelector (clVolumeStatus args)
               (VolumeLister_PodNSSelector (ToLabelValues C (clPodNamespaces args))
                  (VolumeLister_PodNameSelector (ToLabelValues C (clPodNames args))
                     (VolumeLister_DriveIDSelector (ToLabelValues C (clDriveIDs args))
                        (VolumeLister_DriveNameSelector (ToLabelValues C (clDrives args))
                           (VolumeLister_NodeSelector (ToLabelValues C (clNodes args)) NewVolumeLister))))))
      in case VolumeLister_List C lister (clean_volume C getPhase (clDryRun args)) start w of
           (p, w') \<Rightarrow> ((results p, stopped p), w'))"

section \<open>Moving the volumes of a drive\<close>

definition gather_volume :: "Volume result \<Rightarrow> (int \<times> Volume list) \<times> error option \<Rightarrow> bool \<times> (int \<times> Volume list) \<times> error option" where
  "gather_volume r = (\<lambda>((requiredCapacity, volumes), err).
     case r of
       Inl e \<Rightarrow> (False, (requiredCapacity, volumes), Some e)
     | Inr v \<Rightarrow>
         if IsPublished v then (False, (requiredCapacity, volumes), Some (ErrorString ''cannot move published volume''))
         else (True, (i64 (requiredCapacity + vTotalCapacity (volumeStatus v)), volumes @ [v]), err))"

definition move_in :: "Volume list \<Rightarrow> Drive \<Rightarrow> Drive" where
  "move_in volumes destDrive =
     fold (\<lambda>volume d. case AddVolumeFinalizer (objName volume) d of
                        (True, d') \<Rightarrow> add_capacity (vTotalCapacity (volumeStatus volume)) d'
                      | (False, d') \<Rightarrow> d') volumes destDrive"

definition Move :: "('w, 'b) client_scheme \<Rightarrow> MoveArgs \<Rightarrow> ('w, unit) io" where
  "Move C args w =
     (if mvSource args = mvDestination args then (Inl (ErrorString ''source and destination drives are same''), w)
      else call (api_Get (DriveClient C) (mvSource args) w)
        (\<lambda>err w. (Inl (Wrap ''unable to get source drive'' err), w))
        (\<lambda>srcDrive w.
           if \<not> IsUnschedulable srcDrive then (Inl (ErrorString ''source drive is not cordoned''), w)
           else if GetVolumes srcDrive = [] then (Inl (ErrorString ''no volumes found in source drive''), w)
           else
             (case VolumeLister_List C (VolumeLister_VolumeNameSelector (GetVolumes srcDrive) NewVolumeLister)
                     (receive gather_volume) ((0, []), None) w of
                ((_, Some err), w) \<Rightarrow> (Inl err, w)
              | (((requiredCapacity, volumes), None), w) \<Rightarrow>
                  if volumes = [] then (Inl (ErrorString ''no volumes found in source drive''), w)
                  else call (api_Get (DriveClient C) (mvDestination args) w)
                    (\<lambda>err w. (Inl (Wrap ''unable to get destination drive'' err), w))
                    (\<lambda>destDrive w.
                       if Drive_GetNodeID C destDrive \<noteq> Drive_GetNodeID C srcDrive
                         then (Inl (ErrorString ''source and destination drives must be in same node''), w)
                       else if \<not> IsUnschedulable destDrive
                         then (Inl (ErrorString ''destination drive is not cordoned''), w)
                       else if dStatus (driveStatus destDrive) \<noteq> DriveStatusReady
                         then (Inl (ErrorString ''destination drive is not in ready state''), w)
                       else if GetAccessTier C srcDrive \<noteq> GetAccessTier C destDrive
                         then (Inl (ErrorString ''access-tiers differ''), w)
                       else if dFreeCapacity (driveStatus destDrive) < requiredCapacity
                         then (Inl (ErrorString ''insufficient free capacity on destination drive''), w)
                       else call (api_Update (DriveClient C) (set_drive_status DriveStatusMoving (move_in volumes destDrive)) w)
                         (\<lambda>err w. (Inl (Wrap ''unable to move volumes to destination drive'' err), w))
                         (\<lambda>_ w. call (api_Update (DriveClient C) (ResetFinalizers srcDrive) w)
                            (\<lambda>err w. (Inl (Wrap ''unable to remove volume references in source drive'' err), w))
                            (\<lambda>_ w. (Inr (), w)))))))"

end
