(* ===== verification/Admin_Loops.thy ===== *)
theory Admin_Loops
  imports Admin
begin

text \<open>
  What the commands of \<^verbatim>\<open>pkg/admin\<close> may change. Their loops write the objects a lister
  sent, which may be older than the stored ones; the API server refuses a stale write. \<open>changed\<close>
  relates the stored objects before and after a command, \<open>handler\<close> is the contract of a loop
  body, and \<open>drive_loop\<close> and \<open>volume_loop\<close> lift it to the command, whatever fails on
  the way. The end of the theory has the contract of every command but
  \<^verbatim>\<open>Clean\<close> and \<^verbatim>\<open>Move\<close>.
\<close>

section \<open>Loops that change what they list\<close>

text \<open>
  An object that a lister sent is either the stored one or older than it. The receiver may change the
  store in between; every change gives the object a newer version.
\<close>

definition at_most :: "(string \<Rightarrow> 'a ObjectMeta_scheme option) \<Rightarrow> 'a ObjectMeta_scheme \<Rightarrow> bool" where
  "at_most st x \<longleftrightarrow> (\<forall>cur. st (objName x) = Some cur \<longrightarrow> cur = x \<or> ResourceVersion x < ResourceVersion cur)"

definition advances :: "(string \<Rightarrow> 'a ObjectMeta_scheme option) \<Rightarrow> (string \<Rightarrow> 'a ObjectMeta_scheme option) \<Rightarrow> bool" where
  "advances st st' \<longleftrightarrow>
     (\<forall>n new. st' n = Some new \<longrightarrow> (\<exists>cur. st n = Some cur \<and> (new = cur \<or> ResourceVersion cur < ResourceVersion new)))"

lemma advances_refl [simp]: "advances st st"
  by (simp add: advances_def)

lemma advances_trans:
  assumes "advances a b" and "advances b c"
  shows "advances a c"
  unfolding advances_def
proof (intro allI impI)
  fix n new
  assume "c n = Some new"
  then obtain mid where "b n = Some mid" "new = mid \<or> ResourceVersion mid < ResourceVersion new"
    using assms(2) unfolding advances_def by blast
  moreover then obtain old where "a n = Some old" "mid = old \<or> ResourceVersion old < ResourceVersion mid"
    using assms(1) unfolding advances_def by blast
  ultimately show "\<exists>cur. a n = Some cur \<and> (new = cur \<or> ResourceVersion cur < ResourceVersion new)" by auto
qed

lemma at_most_advances:
  assumes "at_most st x" and "advances st st'"
  shows "at_most st' x"
  unfolding at_most_def
proof (intro allI impI)
  fix new
  assume "st' (objName x) = Some new"
  then obtain old where "st (objName x) = Some old" "new = old \<or> ResourceVersion old < ResourceVersion new"
    using assms(2) unfolding advances_def by blast
  then show "new = x \<or> ResourceVersion x < ResourceVersion new" using assms(1) unfolding at_most_def by auto
qed

text \<open>
  What a loop did to a kind of object: every object is as before, or was changed as \<open>R\<close> says.
  An update takes an object without finalizers that is being deleted out of the store.
\<close>

definition gone :: "'a ObjectMeta_scheme \<Rightarrow> bool" where
  "gone x \<longleftrightarrow> Finalizers x = [] \<and> DeletionTimestamp x \<noteq> None"

definition became ::
  "('a ObjectMeta_scheme \<Rightarrow> 'a ObjectMeta_scheme \<Rightarrow> bool) \<Rightarrow> 'a ObjectMeta_scheme option \<Rightarrow>
   'a ObjectMeta_scheme option \<Rightarrow> bool" where
  "became R old new \<longleftrightarrow> new = old \<or> (\<exists>x x'. old = Some x \<and> R x x' \<and> (new = Some x' \<or> new = None \<and> gone x'))"

definition changed ::
  "('a ObjectMeta_scheme \<Rightarrow> 'a ObjectMeta_scheme \<Rightarrow> bool) \<Rightarrow> (string \<Rightarrow> 'a ObjectMeta_scheme option) \<Rightarrow>
   (string \<Rightarrow> 'a ObjectMeta_scheme option) \<Rightarrow> bool" where
  "changed R st st' \<longleftrightarrow> (\<forall>n. became R (st n) (st' n))"

lemma became_trans: "transp R \<Longrightarrow> became R a b \<Longrightarrow> became R b c \<Longrightarrow> became R a c"
  unfolding became_def by (cases b) (auto dest: transpD)

lemma changed_refl [simp]: "changed R st st"
  by (simp add: changed_def became_def)

lemma changed_trans: "transp R \<Longrightarrow> changed R a b \<Longrightarrow> changed R b c \<Longrightarrow> changed R a c"
  unfolding changed_def using became_trans by blast

text \<open>A receiver that changes objects only as \<open>R\<close> says, and keeps \<open>F\<close>.\<close>

definition handler ::
  "('w \<Rightarrow> string \<Rightarrow> 'a ObjectMeta_scheme option) \<Rightarrow> ('w \<Rightarrow> bool) \<Rightarrow>
   ('a ObjectMeta_scheme \<Rightarrow> 'a ObjectMeta_scheme \<Rightarrow> bool) \<Rightarrow> ('a ObjectMeta_scheme, 's, 'w) consumer \<Rightarrow> bool" where
  "handler st F R k \<longleftrightarrow>
     (\<forall>r s w b s' w'. k r s w = (b, s', w') \<longrightarrow> F w \<longrightarrow> (\<forall>x. r = Inr x \<longrightarrow> at_most (st w) x) \<longrightarrow>
        F w' \<and> changed R (st w) (st w') \<and> advances (st w) (st w'))"

lemma handlerI:
  assumes "\<And>e s w b s' w'. k (Inl e) s w = (b, s', w') \<Longrightarrow> w' = w"
    and "\<And>x s w b s' w'. k (Inr x) s w = (b, s', w') \<Longrightarrow> F w \<Longrightarrow> at_most (st w) x \<Longrightarrow>
      F w' \<and> changed R (st w) (st w') \<and> advances (st w) (st w')"
  shows "handler st F R k"
  unfolding handler_def
proof (intro allI impI)
  fix r s w b s' w'
  assume "k r s w = (b, s', w')" "F w" "\<forall>x. r = Inr x \<longrightarrow> at_most (st w) x"
  then show "F w' \<and> changed R (st w) (st w') \<and> advances (st w) (st w')"
  proof (cases r)
    case (Inl e)
    then have "w' = w" using assms(1) \<open>k r s w = (b, s', w')\<close> by blast
    then show ?thesis using \<open>F w\<close> by simp
  next
    case (Inr x)
    then show ?thesis using assms(2) \<open>k r s w = (b, s', w')\<close> \<open>F w\<close> \<open>\<forall>x. r = Inr x \<longrightarrow> at_most (st w) x\<close> by blast
  qed
qed

context object_api
begin

text \<open>A write of the object that is stored.\<close>

lemma update_changed:
  assumes "api_Update A x w = (r, w')"
    and "\<And>rv cur. store w (objName x) = Some cur \<Longrightarrow> ResourceVersion x = ResourceVersion cur \<Longrightarrow>
      R cur (x\<lparr>ResourceVersion := rv\<rparr>)"
  shows "changed R (store w) (store w')"
proof (cases r)
  case (Inl e)
  then show ?thesis using update_err assms(1) by auto
next
  case (Inr y)
  then obtain cur rv where c: "store w (objName x) = Some cur" "ResourceVersion x = ResourceVersion cur"
      "store w' = (store w)(objName x := (if gone x then None else Some (x\<lparr>ResourceVersion := rv\<rparr>)))"
    using update_ok assms(1) unfolding gone_def by blast
  have "gone (x\<lparr>ResourceVersion := rv\<rparr>) = gone x" by (simp add: gone_def)
  then have "became R (store w (objName x)) (store w' (objName x))"
    unfolding became_def using c assms(2) [OF c(1,2), of rv] by auto
  then have "became R (store w n) (store w' n)" for n
    using c(3) by (cases "n = objName x") (simp_all add: became_def)
  then show ?thesis by (simp add: changed_def)
qed

lemma stored_at_most: "store w (objName x) = Some x \<Longrightarrow> at_most (store w) x"
  by (simp add: at_most_def)

lemma update_advances:
  assumes "api_Update A x w = (r, w')"
  shows "advances (store w) (store w')"
proof (cases r)
  case (Inl e)
  then show ?thesis using update_err assms by auto
next
  case (Inr y)
  then have "\<exists>cur rv. store w (objName x) = Some cur \<and> ResourceVersion x = ResourceVersion cur \<and>
        ResourceVersion cur < rv \<and> y = x\<lparr>ResourceVersion := rv\<rparr> \<and>
        store w' = (store w)(objName x :=
          (if Finalizers x = [] \<and> DeletionTimestamp x \<noteq> None then None else Some y))"
    using update_ok assms by simp
  then show ?thesis by (elim exE conjE) (simp add: advances_def)
qed

lemma delete_advances: "api_Delete A n w = (r, w') \<Longrightarrow> advances (store w) (store w')"
proof (cases r)
  case (Inr u)
  assume "api_Delete A n w = (r, w')"
  then obtain cur where "store w n = Some cur"
      "if Finalizers cur = [] then store w' = (store w)(n := None)
       else \<exists>ts rv. ResourceVersion cur < rv \<and>
           store w' = (store w)(n \<mapsto> cur\<lparr>DeletionTimestamp := Some ts, ResourceVersion := rv\<rparr>)"
    using delete_ok Inr by blast
  then show ?thesis by (auto simp: advances_def split: if_splits)
qed (simp add: delete_err)

text \<open>Writing an object that is no newer than the stored one changes the stored one.\<close>

lemma update_at_most:
  assumes "api_Update A x w = (Inr y, w')" and "at_most (store w) z" and "objName x = objName z"
    and "ResourceVersion x = ResourceVersion z"
  shows "store w (objName z) = Some z"
proof -
  obtain cur where c: "store w (objName x) = Some cur" "ResourceVersion x = ResourceVersion cur"
    using update_ok [OF assms(1)] by blast
  then have "cur = z \<or> ResourceVersion z < ResourceVersion cur" using assms(2,3) by (simp add: at_most_def)
  then show ?thesis using c assms(3,4) by auto
qed

lemma send_items_inv:
  assumes k: "\<And>r s w b s' w'. k r s w = (b, s', w') \<Longrightarrow> I s w \<Longrightarrow> (\<And>x. r = Inr x \<Longrightarrow> at_most (store w) x) \<Longrightarrow>
      I s' w' \<and> advances (store w) (store w')"
    and "send_items sel k items names s w = (b, ns, s', w')" and "I s w" and "\<forall>x \<in> set items. at_most (store w) x"
  shows "I s' w'"
  using assms(2-4)
proof (induction items arbitrary: names s w)
  case (Cons x items)
  obtain found names' where t: "take_name names (objName x) = (found, names')" by fastforce
  show ?case
  proof (cases "sel found names' x")
    case True
    obtain b1 s1 w1 where k1: "k (Inr x) s w = (b1, s1, w1)" by (metis prod_cases3)
    have i: "I s1 w1 \<and> advances (store w) (store w1)" using k [OF k1 Cons.prems(2)] Cons.prems(3) by simp
    then have "\<forall>x \<in> set items. at_most (store w1) x" using Cons.prems(3) at_most_advances [of "store w" _ "store w1"] by simp
    note am = this
    show ?thesis
    proof (cases b1)
      case True
      then have "send_items sel k items names' s1 w1 = (b, ns, s', w')" using Cons.prems(1) t \<open>sel found names' x\<close> k1 by simp
      then show ?thesis using Cons.IH i am by blast
    next
      case False
      then show ?thesis using Cons.prems(1) t \<open>sel found names' x\<close> k1 i by simp
    qed
  next
    case False
    then have "send_items sel k items names' s w = (b, ns, s', w')" using Cons.prems(1) t by simp
    then show ?thesis using Cons.IH Cons.prems(2,3) by simp
  qed
qed simp

lemma list_pages_inv:
  assumes k: "\<And>r s w b s' w'. k r s w = (b, s', w') \<Longrightarrow> I s w \<Longrightarrow> (\<And>x. r = Inr x \<Longrightarrow> at_most (store w) x) \<Longrightarrow>
      I s' w' \<and> advances (store w) (store w')"
    and reads: "\<And>s w w'. I s w \<Longrightarrow> (\<exists>n. w' = snd (api_Get A n w)) \<or> (\<exists>opts. w' = snd (api_List A opts w)) \<Longrightarrow> I s w'"
    and "list_pages fuel A ign sel k opts names s w = (b, ns, s', w')" and "I s w"
  shows "I s' w'"
  using assms(3,4)
proof (induction fuel arbitrary: opts names s w)
  case 0
  then show ?case using k [of "Inl OutOfFuel" s w] by (cases "k (Inl OutOfFuel) s w") auto
next
  case (Suc fuel)
  obtain r w1 where l: "api_List A opts w = (r, w1)" by fastforce
  have i: "I s w1" using reads [OF Suc.prems(2)] l by (metis snd_conv)
  show ?case
  proof (cases r)
    case (Inl e)
    then show ?thesis
      using Suc.prems(1) l i k [of "Inl e" s w1] by (cases "k (Inl e) s w1") (auto split: if_splits)
  next
    case (Inr ic)
    obtain items cont where ic: "ic = (items, cont)" by fastforce
    have am: "\<forall>x \<in> set items. at_most (store w1) x"
      using list_sound [of opts w items cont w1] list_frame [OF l] l Inr ic stored_at_most by auto
    obtain b1 ns1 s1 w2 where si: "send_items sel k items names s w1 = (b1, ns1, s1, w2)" by (metis prod_cases4)
    have "I s1 w2" by (rule send_items_inv [of k I, OF k si i am])
    then show ?thesis using Suc.IH [of "opts\<lparr>Continue := cont\<rparr>" ns1 s1 w2] Suc.prems(1) l Inr ic si
      by (cases b1) (auto split: if_splits)
  qed
qed

lemma get_names_inv:
  assumes k: "\<And>r s w b s' w'. k r s w = (b, s', w') \<Longrightarrow> I s w \<Longrightarrow> (\<And>x. r = Inr x \<Longrightarrow> at_most (store w) x) \<Longrightarrow>
      I s' w' \<and> advances (store w) (store w')"
    and reads: "\<And>s w w'. I s w \<Longrightarrow> (\<exists>n. w' = snd (api_Get A n w)) \<or> (\<exists>opts. w' = snd (api_List A opts w)) \<Longrightarrow> I s w'"
    and "get_names A ign k names s w = (s', w')" and "I s w"
  shows "I s' w'"
  using assms(3,4)
proof (induction names arbitrary: s w)
  case (Cons n names)
  obtain r w1 where g: "api_Get A n w = (r, w1)" by fastforce
  have i: "I s w1" using reads [OF Cons.prems(2)] g by (metis snd_conv)
  show ?case
  proof (cases r)
    case (Inl e)
    then show ?thesis
      using Cons g i k [of "Inl e" s w1] by (cases "k (Inl e) s w1") (auto split: if_splits)
  next
    case (Inr x)
    obtain b1 s1 w2 where k1: "k (Inr x) s w1 = (b1, s1, w2)" by (metis prod_cases3)
    have "at_most (store w1) x"
      using get_found [of n w x w1] get_name [of n w x w1] get_frame [OF g] g Inr stored_at_most by auto
    then have "I s1 w2" using k [OF k1 i] by simp
    then show ?thesis using Cons g Inr k1 by (cases b1) auto
  qed
qed simp

lemma run_lister_inv:
  assumes k: "\<And>r s w b s' w'. k r s w = (b, s', w') \<Longrightarrow> I s w \<Longrightarrow> (\<And>x. r = Inr x \<Longrightarrow> at_most (store w) x) \<Longrightarrow>
      I s' w' \<and> advances (store w) (store w')"
    and reads: "\<And>s w w'. I s w \<Longrightarrow> (\<exists>n. w' = snd (api_Get A n w)) \<or> (\<exists>opts. w' = snd (api_List A opts w)) \<Longrightarrow> I s w'"
    and run: "run_lister fuel A getOnly ign sel k opts names s w = (s', w')" and "I s w"
  shows "I s' w'"
proof (cases getOnly)
  case True
  show ?thesis by (rule get_names_inv [of k I, OF k reads]) (use True run assms(4) in \<open>auto simp: run_lister_def\<close>)
next
  case False
  obtain b ns s1 w1 where lp: "list_pages fuel A ign sel k opts names s w = (b, ns, s1, w1)" by (metis prod_cases4)
  have i: "I s1 w1" by (rule list_pages_inv [of k I, OF k reads lp assms(4)])
  show ?thesis
  proof (cases b)
    case True
    then have "get_names A ign k ns s1 w1 = (s', w')" using run False lp by (simp add: run_lister_def)
    from get_names_inv [of k I, OF k reads this i] show ?thesis .
  qed (use run False lp i in \<open>auto simp: run_lister_def\<close>)
qed

lemma run_lister_changed:
  assumes "transp R"
    and k: "handler store F R k"
    and reads: "\<And>w w'. F w \<Longrightarrow> (\<exists>n. w' = snd (api_Get A n w)) \<or> (\<exists>opts. w' = snd (api_List A opts w)) \<Longrightarrow> F w'"
    and run: "run_lister fuel A getOnly ign sel k opts names s w = (s', w')" and "F w"
  shows "F w' \<and> changed R (store w) (store w')"
proof -
  let ?I = "\<lambda>s x. F x \<and> changed R (store w) (store x)"
  have k': "?I s' v' \<and> advances (store v) (store v')"
    if "k r s v = (b, s', v')" "?I s v" "\<And>x. r = Inr x \<Longrightarrow> at_most (store v) x" for r s v b s' v'
    using k [unfolded handler_def] that changed_trans [OF assms(1)] by blast
  have r': "?I s v'"
    if "?I s v" "(\<exists>n. v' = snd (api_Get A n v)) \<or> (\<exists>opts. v' = snd (api_List A opts v))" for s v v'
  proof -
    have "store v' = store v" using that(2) get_frame list_frame by (metis prod.collapse)
    moreover have "F v'" using reads that by blast
    ultimately show ?thesis using that(1) by simp
  qed
  have i: "?I s w" using assms(5) by simp
  show ?thesis
  proof (rule run_lister_inv [where k = k and I = ?I, OF _ _ run i], goal_cases)
    case (1 r s v b s' v')
    then show ?case by (intro k' [of r s v b s' v'])
  next
    case (2 s v v')
    then show ?case by (intro r' [of v v'])
  qed
qed

end

text \<open>Labels with the keys \<open>K\<close> were set or removed.\<close>

definition relabelled :: "string set \<Rightarrow> 'a ObjectMeta_scheme \<Rightarrow> 'a ObjectMeta_scheme \<Rightarrow> bool" where
  "relabelled K x x' \<longleftrightarrow>
     (\<exists>m rv. x' = x\<lparr>objLabels := m, ResourceVersion := rv\<rparr> \<and> (\<forall>k. k \<notin> K \<longrightarrow> m k = objLabels x k))"

lemma transp_relabelled: "transp (\<lambda>x x'. c \<and> relabelled K x x')"
proof (rule transpI)
  fix x y z :: "'a ObjectMeta_scheme"
  assume "c \<and> relabelled K x y" "c \<and> relabelled K y z"
  then obtain m rv m' rv' where "c" "y = x\<lparr>objLabels := m, ResourceVersion := rv\<rparr>" "\<forall>k. k \<notin> K \<longrightarrow> m k = objLabels x k"
      "z = y\<lparr>objLabels := m', ResourceVersion := rv'\<rparr>" "\<forall>k. k \<notin> K \<longrightarrow> m' k = objLabels y k"
    unfolding relabelled_def by blast
  then have "c" "z = x\<lparr>objLabels := m', ResourceVersion := rv'\<rparr>" "\<forall>k. k \<notin> K \<longrightarrow> m' k = objLabels x k" by simp_all
  then show "c \<and> relabelled K x z" unfolding relabelled_def by blast
qed

context object_api
begin

lemma label_loop_changed:
  assumes "label_loop (api_Update A) set_label remove_label res ls x rs w = (out, w')"
    and "at_most (store w) x" and "labelKey ` set ls \<subseteq> K" and "F w"
    and "\<And>y w r w'. api_Update A y w = (r, w') \<Longrightarrow> F w \<Longrightarrow> F w'"
    and "\<And>k v x. snd (set_label k v x) = x\<lparr>objLabels := (objLabels x)(k \<mapsto> v)\<rparr>"
    and "\<And>k v x. \<not> fst (set_label k v x) \<Longrightarrow> snd (set_label k v x) = x"
    and "\<And>k x. snd (remove_label k x) = x\<lparr>objLabels := (objLabels x)(k := None)\<rparr>"
    and "\<And>k x. \<not> fst (remove_label k x) \<Longrightarrow> snd (remove_label k x) = x"
  shows "F w' \<and> changed (relabelled K) (store w) (store w') \<and> advances (store w) (store w')"
  using assms(1-4)
proof (induction ls arbitrary: x rs w)
  case (Cons l ls)
  define c where "c = (if labelRemove l then remove_label (labelKey l) x else set_label (labelKey l) (labelValue l) x)"
  obtain b x' where bx: "c = (b, x')" by fastforce
  obtain m where x': "x' = x\<lparr>objLabels := m\<rparr>" "\<forall>k. k \<noteq> labelKey l \<longrightarrow> m k = objLabels x k"
    using bx c_def assms(6) [of "labelKey l" "labelValue l" x] assms(8) [of "labelKey l" x] by (auto split: if_splits)
  have same: "x' = x" if "\<not> b"
    using that bx c_def assms(7) [of "labelKey l" "labelValue l" x] assms(9) [of "labelKey l" x] by (auto split: if_splits)
  show ?case
  proof (cases b)
    case False
    then have "label_loop (api_Update A) set_label remove_label res ls x rs w = (out, w')"
      using Cons.prems(1) bx same by (simp add: c_def [symmetric])
    then show ?thesis using Cons.IH Cons.prems(2-4) by simp
  next
    case True
    obtain r w1 where u: "api_Update A x' w = (r, w1)" by fastforce
    have rel: "relabelled K x (x'\<lparr>ResourceVersion := rv\<rparr>)" for rv
    proof -
      have "labelKey l \<in> K" using Cons.prems(3) by simp
      then have "m k = objLabels x k" if "k \<notin> K" for k
        by (intro x'(2) [rule_format]) (use that in auto)
      moreover have "x'\<lparr>ResourceVersion := rv\<rparr> = x\<lparr>objLabels := m, ResourceVersion := rv\<rparr>" using x'(1) by simp
      ultimately show ?thesis unfolding relabelled_def by blast
    qed
    have "objName x' = objName x" "ResourceVersion x' = ResourceVersion x" using x'(1) by simp_all
    then have "cur = x" if "store w (objName x') = Some cur" "ResourceVersion x' = ResourceVersion cur" for cur
      using Cons.prems(2) that unfolding at_most_def by fastforce
    then have ch: "changed (relabelled K) (store w) (store w1)" using update_changed [OF u] rel by blast
    have ad: "advances (store w) (store w1)" and f: "F w1"
      using update_advances u assms(5) Cons.prems(4) by blast+
    show ?thesis
    proof (cases r)
      case (Inl e)
      then show ?thesis using Cons.prems(1) bx True u ch ad f by (simp add: c_def [symmetric])
    next
      case (Inr y)
      obtain rv where y: "y = x'\<lparr>ResourceVersion := rv\<rparr>" "store w1 (objName y) = None \<or> store w1 (objName y) = Some y"
        using update_ok [OF u [unfolded Inr]] by (auto split: if_splits)
      then have am: "at_most (store w1) y" by (auto simp: at_most_def)
      have "label_loop (api_Update A) set_label remove_label res ls y (rs @ [res y]) w1 = (out, w')"
        using Cons.prems(1) bx True u Inr by (simp add: c_def [symmetric])
      then have "F w' \<and> changed (relabelled K) (store w1) (store w') \<and> advances (store w1) (store w')"
        using Cons.IH am Cons.prems(3) f by simp
      then show ?thesis using ch ad changed_trans advances_trans transp_relabelled [of True K] by auto
    qed
  qed
qed simp

end

text \<open>What the commands do to one drive. \<open>vs\<close> are the volumes at the time.\<close>

definition cordoned :: "(string \<Rightarrow> Volume option) \<Rightarrow> Drive \<Rightarrow> Drive \<Rightarrow> bool" where
  "cordoned vs d d' \<longleftrightarrow>
     \<not> IsUnschedulable d \<and> (\<exists>rv. d' = (Drive_Unschedulable d)\<lparr>ResourceVersion := rv\<rparr>) \<and>
     (\<forall>n \<in> set (GetVolumes d). \<forall>v. vs n = Some v \<longrightarrow> vStatus (volumeStatus v) \<noteq> VolumeStatusPending)"

definition uncordoned :: "Drive \<Rightarrow> Drive \<Rightarrow> bool" where
  "uncordoned d d' \<longleftrightarrow> IsUnschedulable d \<and> (\<exists>rv. d' = (Drive_Schedulable d)\<lparr>ResourceVersion := rv\<rparr>)"

definition removed :: "Drive \<Rightarrow> Drive \<Rightarrow> bool" where
  "removed d d' \<longleftrightarrow>
     dStatus (driveStatus d) \<noteq> DriveStatusRemoved \<and> GetVolumeCount d \<le> 0 \<and>
     (\<exists>rv. d' = (set_drive_status DriveStatusRemoved d)\<lparr>ResourceVersion := rv\<rparr>)"

definition label_becomes :: "string \<Rightarrow> string option \<Rightarrow> 'a ObjectMeta_scheme \<Rightarrow> 'a ObjectMeta_scheme \<Rightarrow> bool" where
  "label_becomes k v x x' \<longleftrightarrow> (\<exists>rv. x' = x\<lparr>objLabels := (objLabels x)(k := v), ResourceVersion := rv\<rparr>)"

lemma transp_label_becomes: "transp (\<lambda>x x'. c \<and> label_becomes k v x x')"
proof (rule transpI)
  fix x y z :: "'a ObjectMeta_scheme"
  assume "c \<and> label_becomes k v x y" "c \<and> label_becomes k v y z"
  then obtain rv rv' where "c" "y = x\<lparr>objLabels := (objLabels x)(k := v), ResourceVersion := rv\<rparr>"
      "z = y\<lparr>objLabels := (objLabels y)(k := v), ResourceVersion := rv'\<rparr>"
    unfolding label_becomes_def by blast
  then have "c" "z = x\<lparr>objLabels := (objLabels x)(k := v), ResourceVersion := rv'\<rparr>" by simp_all
  then show "c \<and> label_becomes k v x z" unfolding label_becomes_def by blast
qed

lemma set_label_updates:
  "snd (Drive_SetLabel k v d) = d\<lparr>objLabels := (objLabels d)(k \<mapsto> v)\<rparr>"
  "snd (Drive_RemoveLabel k d) = d\<lparr>objLabels := (objLabels d)(k := None)\<rparr>"
  "snd (Volume_SetLabel k v x) = x\<lparr>objLabels := (objLabels x)(k \<mapsto> v)\<rparr>"
  "snd (Volume_RemoveLabel k x) = x\<lparr>objLabels := (objLabels x)(k := None)\<rparr>"
  by (auto simp: Drive_SetLabel_def Drive_RemoveLabel_def Volume_SetLabel_def Volume_RemoveLabel_def
      Drive_GetLabels_def Volume_GetLabels_def fun_upd_idem)

text \<open>A cordoned drive is not cordoned again, so the loops change a drive once.\<close>

lemma transp_once: "(\<And>x y z. R x y \<Longrightarrow> \<not> R y z) \<Longrightarrow> transp R"
  by (blast intro: transpI)

lemma transp_cordoned: "transp (\<lambda>d d'. \<not> dry \<and> cordoned vs d d')"
  by (rule transp_once) (auto simp: cordoned_def IsUnschedulable_def Drive_Unschedulable_def)

lemma transp_uncordoned: "transp (\<lambda>d d'. \<not> dry \<and> uncordoned d d')"
  by (rule transp_once) (auto simp: uncordoned_def IsUnschedulable_def Drive_Schedulable_def)

lemma transp_removed: "transp (\<lambda>d d'. \<not> dry \<and> removed d d')"
  by (rule transp_once) (auto simp: removed_def set_drive_status_def)

context cluster
begin

lemma drive_loop:
  assumes "transp R"
    and "handler dstore (\<lambda>w. vstore w = vs) R k"
    and "DriveLister_List C l k p w = (p', w')" and "vstore w = vs"
  shows "vstore w' = vs \<and> changed R (dstore w) (dstore w')"
proof -
  have reads: "vstore v' = vs" if "vstore v = vs"
      "(\<exists>n. v' = snd (api_Get (DriveClient C) n v)) \<or> (\<exists>opts. v' = snd (api_List (DriveClient C) opts v))" for v v'
    using that drive_ops_volumes(1,5) by (metis prod.collapse)
  note run = assms(3) [unfolded DriveLister_List_def Let_def]
  show ?thesis
    by (rule d.run_lister_changed [OF assms(1,2) _ run assms(4)]) (rule reads)
qed

lemma volume_loop:
  assumes "transp R"
    and "handler vstore (\<lambda>w. dstore w = ds) R k"
    and "VolumeLister_List C l k p w = (p', w')" and "dstore w = ds"
  shows "dstore w' = ds \<and> changed R (vstore w) (vstore w')"
proof -
  have reads: "dstore v' = ds" if "dstore v = ds"
      "(\<exists>n. v' = snd (api_Get (VolumeClient C) n v)) \<or> (\<exists>opts. v' = snd (api_List (VolumeClient C) opts v))" for v v'
    using that volume_ops_drives(1,5) by (metis prod.collapse)
  note run = assms(3) [unfolded VolumeLister_List_def Let_def]
  show ?thesis
    by (rule v.run_lister_changed [OF assms(1,2) _ run assms(4)]) (rule reads)
qed

lemma write_drive_changed:
  assumes "write_drive C dry x w = (r, w')" and "at_most (dstore w) d" and "objName x = objName d"
    and "ResourceVersion x = ResourceVersion d" and "\<And>rv. \<not> dry \<Longrightarrow> R d (x\<lparr>ResourceVersion := rv\<rparr>)"
  shows "vstore w' = vstore w \<and> changed R (dstore w) (dstore w') \<and> advances (dstore w) (dstore w')"
proof (cases dry)
  case False
  then have u: "api_Update (DriveClient C) x w = (r, w')" using assms(1) by (simp add: write_drive_def)
  have "cur = d" if "dstore w (objName x) = Some cur" "ResourceVersion x = ResourceVersion cur" for cur
    using assms(2-4) that by (auto simp: at_most_def)
  then show ?thesis
    using d.update_changed [OF u] d.update_advances [OF u] drive_ops_volumes(3) [OF u] assms(5) False by blast
qed (use assms(1) in \<open>simp add: write_drive_def\<close>)

lemma write_volume_changed:
  assumes "write_volume C dry x w = (r, w')" and "at_most (vstore w) v" and "objName x = objName v"
    and "ResourceVersion x = ResourceVersion v" and "\<And>rv. \<not> dry \<Longrightarrow> R v (x\<lparr>ResourceVersion := rv\<rparr>)"
  shows "dstore w' = dstore w \<and> changed R (vstore w) (vstore w') \<and> advances (vstore w) (vstore w')"
proof (cases dry)
  case False
  then have u: "api_Update (VolumeClient C) x w = (r, w')" using assms(1) by (simp add: write_volume_def)
  have "cur = v" if "vstore w (objName x) = Some cur" "ResourceVersion x = ResourceVersion cur" for cur
    using assms(2-4) that by (auto simp: at_most_def)
  then show ?thesis
    using v.update_changed [OF u] v.update_advances [OF u] volume_ops_drives(3) [OF u] assms(5) False by blast
qed (use assms(1) in \<open>simp add: write_volume_def\<close>)

lemma get_names_pending:
  assumes "get_names (VolumeClient C) True pending_volume names None w = (e, w')"
  shows "dstore w' = dstore w \<and> vstore w' = vstore w \<and>
    (e = None \<longrightarrow> (\<forall>n \<in> set names. \<forall>v. vstore w n = Some v \<longrightarrow> vStatus (volumeStatus v) \<noteq> VolumeStatusPending))"
  using assms
proof (induction names arbitrary: w)
  case (Cons n names)
  obtain r w1 where g: "api_Get (VolumeClient C) n w = (r, w1)" by fastforce
  have f: "dstore w1 = dstore w" "vstore w1 = vstore w" using volume_ops_drives(1) v.get_frame g by blast+
  show ?case
  proof (cases r)
    case (Inl err)
    then show ?thesis using Cons.IH [of w1] Cons.prems g f v.get_not_found [of n w err w1]
      by (cases "IsNotFound err") (simp_all add: pending_volume_def, force)
  next
    case (Inr v)
    then show ?thesis using Cons.IH [of w1] Cons.prems g f v.get_found [of n w v w1]
      by (auto simp: pending_volume_def split: if_splits)
  qed
qed simp

lemma cordon_volumes_spec:
  assumes "cordon_volumes C d w = (e, w')"
  shows "dstore w' = dstore w \<and> vstore w' = vstore w \<and>
    (e = None \<longrightarrow> (\<forall>n \<in> set (GetVolumes d). \<forall>v. vstore w n = Some v \<longrightarrow> vStatus (volumeStatus v) \<noteq> VolumeStatusPending))"
proof (cases "GetVolumes d = []")
  case False
  then show ?thesis
    using assms get_names_pending
    by (simp add: cordon_volumes_def VolumeLister_List_def run_lister_def NewVolumeLister_def
        VolumeLister_IgnoreNotFound_def VolumeLister_VolumeNameSelector_def)
qed (use assms in \<open>simp add: cordon_volumes_def\<close>)

lemma cordon_drive_step:
  "handler dstore (\<lambda>w. vstore w = vs) (\<lambda>d d'. \<not> dry \<and> cordoned vs d d') (cordon_drive C dry)"
proof (rule handlerI)
  fix d p w b p' w'
  assume k: "cordon_drive C dry (Inr d) p w = (b, p', w')" "vstore w = vs" "at_most (dstore w) d"
  show "vstore w' = vs \<and> changed (\<lambda>d d'. \<not> dry \<and> cordoned vs d d') (dstore w) (dstore w') \<and> advances (dstore w) (dstore w')"
  proof (cases "\<not> IsUnschedulable d")
    case True
    note d = this
    obtain e w1 where cv: "cordon_volumes C d w = (e, w1)" by fastforce
    note f = cordon_volumes_spec [OF cv]
    show ?thesis
    proof (cases e)
      case (Some err)
      then show ?thesis using k(1,2) d cv f by (simp add: cordon_drive_def)
    next
      case None
      obtain r1 w2 where wr: "write_drive C dry (Drive_Unschedulable d) w1 = (r1, w2)" by fastforce
      have "w2 = w'" using k(1) d None cv wr by (cases r1) (auto simp: cordon_drive_def)
      moreover have "cordoned vs d ((Drive_Unschedulable d)\<lparr>ResourceVersion := rv\<rparr>)" for rv
        using d None f k(2) by (auto simp: cordoned_def)
      ultimately show ?thesis
        using write_drive_changed [OF wr, of d "\<lambda>d d'. \<not> dry \<and> cordoned vs d d'"] f k(2,3) d
        by (simp add: Drive_Unschedulable_def)
    qed
  qed (use k(1,2) in \<open>auto simp: cordon_drive_def\<close>)
qed (simp add: cordon_drive_def)

lemma uncordon_drive_step:
  "handler dstore (\<lambda>w. vstore w = vs) (\<lambda>d d'. \<not> dry \<and> uncordoned d d') (uncordon_drive C dry)"
proof (rule handlerI)
  fix d p w b p' w'
  assume k: "uncordon_drive C dry (Inr d) p w = (b, p', w')" "vstore w = vs" "at_most (dstore w) d"
  show "vstore w' = vs \<and> changed (\<lambda>d d'. \<not> dry \<and> uncordoned d d') (dstore w) (dstore w') \<and> advances (dstore w) (dstore w')"
  proof (cases "IsUnschedulable d")
    case True
    note d = this
    obtain r1 w2 where wr: "write_drive C dry (Drive_Schedulable d) w = (r1, w2)" by fastforce
    have "w2 = w'" using k(1) d wr by (cases r1) (auto simp: uncordon_drive_def)
    moreover have "uncordoned d ((Drive_Schedulable d)\<lparr>ResourceVersion := rv\<rparr>)" for rv
      using d by (auto simp: uncordoned_def)
    ultimately show ?thesis
      using write_drive_changed [OF wr, of d "\<lambda>d d'. \<not> dry \<and> uncordoned d d'"] k(2,3) d
      by (simp add: Drive_Schedulable_def)
  qed (use k(1,2) in \<open>auto simp: uncordon_drive_def\<close>)
qed (simp add: uncordon_drive_def)

lemma remove_drive_step:
  "handler dstore (\<lambda>w. vstore w = vs) (\<lambda>d d'. \<not> dry \<and> removed d d') (remove_drive C dry)"
proof (rule handlerI)
  fix d p w b p' w'
  assume k: "remove_drive C dry (Inr d) p w = (b, p', w')" "vstore w = vs" "at_most (dstore w) d"
  show "vstore w' = vs \<and> changed (\<lambda>d d'. \<not> dry \<and> removed d d') (dstore w) (dstore w') \<and> advances (dstore w) (dstore w')"
  proof (cases "dStatus (driveStatus d) \<noteq> DriveStatusRemoved \<and> \<not> GetVolumeCount d > 0")
    case True
    note d = this
    obtain r1 w2 where wr: "write_drive C dry (set_drive_status DriveStatusRemoved d) w = (r1, w2)" by fastforce
    have "w2 = w'" using k(1) d wr by (cases r1) (auto simp: remove_drive_def)
    moreover have "removed d ((set_drive_status DriveStatusRemoved d)\<lparr>ResourceVersion := rv\<rparr>)" for rv
      using d by (auto simp: removed_def)
    ultimately show ?thesis
      using write_drive_changed [OF wr, of d "\<lambda>d d'. \<not> dry \<and> removed d d'"] k(2,3) d
      by (simp add: set_drive_status_def)
  qed (use k(1,2) in \<open>auto simp: remove_drive_def split: if_splits\<close>)
qed (simp add: remove_drive_def)

lemma Cordon_spec:
  assumes "Cordon C args w = (r, w')"
  shows "vstore w' = vstore w \<and> changed (\<lambda>d d'. \<not> caDryRun args \<and> cordoned (vstore w) d d') (dstore w) (dstore w')"
proof -
  obtain p v where run: "DriveLister_List C (cordon_lister C args) (cordon_drive C (caDryRun args)) start w = (p, v)"
    by fastforce
  then have "v = w'" using assms by (simp add: Cordon_def)
  then show ?thesis using drive_loop [OF transp_cordoned cordon_drive_step run refl] by blast
qed

lemma Uncordon_spec:
  assumes "Uncordon C args w = (r, w')"
  shows "vstore w' = vstore w \<and> changed (\<lambda>d d'. \<not> caDryRun args \<and> uncordoned d d') (dstore w) (dstore w')"
proof -
  obtain p v where run: "DriveLister_List C (cordon_lister C args) (uncordon_drive C (caDryRun args)) start w = (p, v)"
    by fastforce
  then have "v = w'" using assms by (simp add: Uncordon_def)
  then show ?thesis using drive_loop [OF transp_uncordoned uncordon_drive_step run refl] by blast
qed

lemma Remove_spec:
  assumes "Remove C args w = (r, w')"
  shows "vstore w' = vstore w \<and> changed (\<lambda>d d'. \<not> caDryRun args \<and> removed d d') (dstore w) (dstore w')"
proof -
  obtain p v where run: "DriveLister_List C (DriveLister_IgnoreNotFound True (cordon_lister C args))
      (remove_drive C (caDryRun args)) start w = (p, v)"
    by fastforce
  then have "v = w'" using assms by (simp add: Remove_def)
  then show ?thesis using drive_loop [OF transp_removed remove_drive_step run refl] by blast
qed

text \<open>A change that is read, made and written under \<^verbatim>\<open>retry.RetryOnConflict\<close>.\<close>

lemma change_drive_retried:
  assumes "RetryOnConflict C (change_drive C dry f n) w = (r, w')" and "transp R"
    and "\<And>d. objName (f d) = objName d \<and> ResourceVersion (f d) = ResourceVersion d"
    and "\<And>d rv. \<not> dry \<Longrightarrow> R d ((f d)\<lparr>ResourceVersion := rv\<rparr>)"
  shows "vstore w' = vstore w \<and> changed R (dstore w) (dstore w') \<and> advances (dstore w) (dstore w')"
proof -
  let ?P = "\<lambda>v. vstore v = vstore w \<and> changed R (dstore w) (dstore v) \<and> advances (dstore w) (dstore v)"
  have once: "vstore v' = vstore v \<and> changed R (dstore v) (dstore v') \<and> advances (dstore v) (dstore v')"
    if "change_drive C dry f n v = (rr, v')" for v rr v'
  proof -
    obtain g v1 where g: "api_Get (DriveClient C) n v = (g, v1)" by fastforce
    then have same: "dstore v1 = dstore v" "vstore v1 = vstore v" using d.get_frame drive_ops_volumes(1) by blast+
    show ?thesis
    proof (cases g)
      case (Inl e)
      then show ?thesis using that g same by (simp add: change_drive_def)
    next
      case (Inr d)
      obtain wr v2 where wd: "write_drive C dry (f d) v1 = (wr, v2)" by fastforce
      have "at_most (dstore v1) d"
        using d.get_found [of n v d v1] d.get_name [of n v d v1] g Inr same d.stored_at_most by simp
      then have "vstore v2 = vstore v1 \<and> changed R (dstore v1) (dstore v2) \<and> advances (dstore v1) (dstore v2)"
        using write_drive_changed [OF wd, of d R] assms(3,4) by simp
      moreover have "v' = v2" using that g Inr wd by (cases wr) (auto simp: change_drive_def)
      ultimately show ?thesis using same by simp
    qed
  qed
  have "?P (snd (r, w'))"
  proof (rule retried_preserves [of "change_drive C dry f n" w "(r, w')" ?P])
    show "retried (change_drive C dry f n) w (r, w')" using retry [of "change_drive C dry f n" w] assms(1) by simp
  next
    fix v
    assume "?P v"
    then show "?P (snd (change_drive C dry f n v))"
      using once [of v "fst (change_drive C dry f n v)" "snd (change_drive C dry f n v)"]
        changed_trans [OF assms(2)] advances_trans by auto
  qed simp
  then show ?thesis by simp
qed

lemma change_volume_retried:
  assumes "RetryOnConflict C (change_volume C dry f n) w = (r, w')" and "transp R"
    and "\<And>d. objName (f d) = objName d \<and> ResourceVersion (f d) = ResourceVersion d"
    and "\<And>d rv. \<not> dry \<Longrightarrow> R d ((f d)\<lparr>ResourceVersion := rv\<rparr>)"
  shows "dstore w' = dstore w \<and> changed R (vstore w) (vstore w') \<and> advances (vstore w) (vstore w')"
proof -
  let ?P = "\<lambda>v. dstore v = dstore w \<and> changed R (vstore w) (vstore v) \<and> advances (vstore w) (vstore v)"
  have once: "dstore v' = dstore v \<and> changed R (vstore v) (vstore v') \<and> advances (vstore v) (vstore v')"
    if "change_volume C dry f n v = (rr, v')" for v rr v'
  proof -
    obtain g v1 where g: "api_Get (VolumeClient C) n v = (g, v1)" by fastforce
    then have same: "vstore v1 = vstore v" "dstore v1 = dstore v" using v.get_frame volume_ops_drives(1) by blast+
    show ?thesis
    proof (cases g)
      case (Inl e)
      then show ?thesis using that g same by (simp add: change_volume_def)
    next
      case (Inr d)
      obtain wr v2 where wd: "write_volume C dry (f d) v1 = (wr, v2)" by fastforce
      have "at_most (vstore v1) d"
        using v.get_found [of n v d v1] v.get_name [of n v d v1] g Inr same v.stored_at_most by simp
      then have "dstore v2 = dstore v1 \<and> changed R (vstore v1) (vstore v2) \<and> advances (vstore v1) (vstore v2)"
        using write_volume_changed [OF wd, of d R] assms(3,4) by simp
      moreover have "v' = v2" using that g Inr wd by (cases wr) (auto simp: change_volume_def)
      ultimately show ?thesis using same by simp
    qed
  qed
  have "?P (snd (r, w'))"
  proof (rule retried_preserves [of "change_volume C dry f n" w "(r, w')" ?P])
    show "retried (change_volume C dry f n) w (r, w')" using retry [of "change_volume C dry f n" w] assms(1) by simp
  next
    fix v
    assume "?P v"
    then show "?P (snd (change_volume C dry f n v))"
      using once [of v "fst (change_volume C dry f n v)" "snd (change_volume C dry f n v)"]
        changed_trans [OF assms(2)] advances_trans by auto
  qed simp
  then show ?thesis by simp
qed

lemma true_value: "ToLabelValue C (FormatBool True) = FormatBool True"
  by (rule ToLabelValue_syntax [OF validator]) code_simp

abbreviation (input) suspend_mark :: "bool \<Rightarrow> 'o ObjectMeta_scheme \<Rightarrow> 'o ObjectMeta_scheme \<Rightarrow> bool" where
  "suspend_mark dry \<equiv> \<lambda>x x'. \<not> dry \<and> label_becomes SuspendLabelKey (Some (FormatBool True)) x x'"

abbreviation (input) resume_mark :: "bool \<Rightarrow> 'o ObjectMeta_scheme \<Rightarrow> 'o ObjectMeta_scheme \<Rightarrow> bool" where
  "resume_mark dry \<equiv> \<lambda>x x'. \<not> dry \<and> label_becomes SuspendLabelKey None x x'"

lemma suspend_drive_step: "handler dstore (\<lambda>w. vstore w = vs) (suspend_mark dry) (suspend_drive C dry)"
proof (rule handlerI)
  fix d p w b p' w'
  assume k: "suspend_drive C dry (Inr d) p w = (b, p', w')" "vstore w = vs"
  let ?f = "\<lambda>drive. snd (Drive_Suspend C drive)"
  obtain r w1 where r: "RetryOnConflict C (change_drive C dry ?f (objName d)) w = (r, w1)" by fastforce
  have "vstore w1 = vstore w \<and> changed (suspend_mark dry) (dstore w) (dstore w1) \<and> advances (dstore w) (dstore w1)"
    by (rule change_drive_retried [OF r transp_label_becomes])
      (auto simp: Drive_Suspend_def set_label_updates true_value label_becomes_def)
  moreover have "w' = w \<or> w' = w1" using k(1) r by (cases r) (auto simp: suspend_drive_def split: if_splits)
  ultimately show "vstore w' = vs \<and> changed (suspend_mark dry) (dstore w) (dstore w') \<and> advances (dstore w) (dstore w')"
    using k(2) by auto
qed (simp add: suspend_drive_def)

lemma resume_drive_step: "handler dstore (\<lambda>w. vstore w = vs) (resume_mark dry) (resume_drive C dry)"
proof (rule handlerI)
  fix d p w b p' w'
  assume k: "resume_drive C dry (Inr d) p w = (b, p', w')" "vstore w = vs"
  let ?f = "\<lambda>drive. snd (Drive_Resume drive)"
  obtain r w1 where r: "RetryOnConflict C (change_drive C dry ?f (objName d)) w = (r, w1)" by fastforce
  have "vstore w1 = vstore w \<and> changed (resume_mark dry) (dstore w) (dstore w1) \<and> advances (dstore w) (dstore w1)"
    by (rule change_drive_retried [OF r transp_label_becomes])
      (auto simp: Drive_Resume_def set_label_updates label_becomes_def)
  moreover have "w' = w \<or> w' = w1" using k(1) r by (cases r) (auto simp: resume_drive_def split: if_splits)
  ultimately show "vstore w' = vs \<and> changed (resume_mark dry) (dstore w) (dstore w') \<and> advances (dstore w) (dstore w')"
    using k(2) by auto
qed (simp add: resume_drive_def)

lemma suspend_volume_step: "handler vstore (\<lambda>w. dstore w = ds) (suspend_mark dry) (suspend_volume C dry)"
proof (rule handlerI)
  fix v p w b p' w'
  assume k: "suspend_volume C dry (Inr v) p w = (b, p', w')" "dstore w = ds"
  let ?f = "\<lambda>volume. snd (Volume_Suspend C volume)"
  obtain r w1 where r: "RetryOnConflict C (change_volume C dry ?f (objName v)) w = (r, w1)" by fastforce
  have "dstore w1 = dstore w \<and> changed (suspend_mark dry) (vstore w) (vstore w1) \<and> advances (vstore w) (vstore w1)"
    by (rule change_volume_retried [OF r transp_label_becomes])
      (auto simp: Volume_Suspend_def set_label_updates true_value label_becomes_def)
  moreover have "w' = w \<or> w' = w1" using k(1) r by (cases r) (auto simp: suspend_volume_def split: if_splits)
  ultimately show "dstore w' = ds \<and> changed (suspend_mark dry) (vstore w) (vstore w') \<and> advances (vstore w) (vstore w')"
    using k(2) by auto
qed (simp add: suspend_volume_def)

lemma resume_volume_step: "handler vstore (\<lambda>w. dstore w = ds) (resume_mark dry) (resume_volume C dry)"
proof (rule handlerI)
  fix v p w b p' w'
  assume k: "resume_volume C dry (Inr v) p w = (b, p', w')" "dstore w = ds"
  let ?f = "\<lambda>volume. snd (Volume_Resume volume)"
  obtain r w1 where r: "RetryOnConflict C (change_volume C dry ?f (objName v)) w = (r, w1)" by fastforce
  have "dstore w1 = dstore w \<and> changed (resume_mark dry) (vstore w) (vstore w1) \<and> advances (vstore w) (vstore w1)"
    by (rule change_volume_retried [OF r transp_label_becomes])
      (auto simp: Volume_Resume_def set_label_updates label_becomes_def)
  moreover have "w' = w \<or> w' = w1" using k(1) r by (cases r) (auto simp: resume_volume_def split: if_splits)
  ultimately show "dstore w' = ds \<and> changed (resume_mark dry) (vstore w) (vstore w') \<and> advances (vstore w) (vstore w')"
    using k(2) by auto
qed (simp add: resume_volume_def)

lemma SuspendDrives_spec:
  "vstore (snd (SuspendDrives C args w)) = vstore w \<and>
   changed (suspend_mark (sdDryRun args)) (dstore w) (dstore (snd (SuspendDrives C args w)))"
proof -
  obtain p v where run: "DriveLister_List C (suspend_lister C args) (suspend_drive C (sdDryRun args)) start w = (p, v)"
    by fastforce
  show ?thesis using drive_loop [OF transp_label_becomes suspend_drive_step run refl] run by (simp add: SuspendDrives_def)
qed

lemma ResumeDrives_spec:
  "vstore (snd (ResumeDrives C args w)) = vstore w \<and>
   changed (resume_mark (sdDryRun args)) (dstore w) (dstore (snd (ResumeDrives C args w)))"
proof -
  obtain p v where run: "DriveLister_List C (suspend_lister C args) (resume_drive C (sdDryRun args)) start w = (p, v)"
    by fastforce
  show ?thesis using drive_loop [OF transp_label_becomes resume_drive_step run refl] run by (simp add: ResumeDrives_def)
qed

lemma SuspendVolumes_spec:
  "dstore (snd (SuspendVolumes C args w)) = dstore w \<and>
   changed (suspend_mark (svDryRun args)) (vstore w) (vstore (snd (SuspendVolumes C args w)))"
proof -
  obtain p v where run: "VolumeLister_List C (suspend_volume_lister C args) (suspend_volume C (svDryRun args)) start w = (p, v)"
    by fastforce
  show ?thesis using volume_loop [OF transp_label_becomes suspend_volume_step run refl] run by (simp add: SuspendVolumes_def)
qed

lemma ResumeVolumes_spec:
  "dstore (snd (ResumeVolumes C args w)) = dstore w \<and>
   changed (resume_mark (svDryRun args)) (vstore w) (vstore (snd (ResumeVolumes C args w)))"
proof -
  obtain p v where run: "VolumeLister_List C (suspend_volume_lister C args) (resume_volume C (svDryRun args)) start w = (p, v)"
    by fastforce
  show ?thesis using volume_loop [OF transp_label_becomes resume_volume_step run refl] run by (simp add: ResumeVolumes_def)
qed

lemma label_loop_dry:
  "(\<And>x w. snd (write x w) = w) \<Longrightarrow> snd (label_loop write set_label remove_label res ls x rs w) = w"
proof (induction ls arbitrary: x rs w)
  case (Cons l ls)
  obtain b x' where bx: "(if labelRemove l then remove_label (labelKey l) x
      else set_label (labelKey l) (labelValue l) x) = (b, x')" by fastforce
  obtain r where "write x' w = (r, w)" using Cons.prems [of x' w] by (metis prod.collapse)
  then show ?case using Cons bx by (cases b; cases r) simp_all
qed simp

lemma drive_labels_step:
  "handler dstore (\<lambda>w. vstore w = vs) (\<lambda>d d'. \<not> dry \<and> relabelled (labelKey ` set labels) d d')
     (label_step (drive_labels C dry labels))"
proof (rule handlerI)
  fix d p w b p' w'
  assume k: "label_step (drive_labels C dry labels) (Inr d) p w = (b, p', w')" "vstore w = vs" "at_most (dstore w) d"
  obtain out w1 where l: "drive_labels C dry labels d (results p) w = (out, w1)" by fastforce
  have w': "w' = w1" using k(1) l by (auto simp: label_step_def split: prod.splits option.splits)
  show "vstore w' = vs \<and> changed (\<lambda>d d'. \<not> dry \<and> relabelled (labelKey ` set labels) d d') (dstore w) (dstore w') \<and>
      advances (dstore w) (dstore w')"
  proof (cases dry)
    case True
    have "w1 = w" using label_loop_dry [of "write_drive C dry"] l True by (metis drive_labels_def snd_conv write_drive_def)
    then show ?thesis using k(2) w' by simp
  next
    case False
    then have "write_drive C dry = api_Update (DriveClient C)" by (simp add: write_drive_def fun_eq_iff)
    then show ?thesis
      using d.label_loop_changed [OF l [unfolded drive_labels_def \<open>write_drive C dry = _\<close>] k(3) order.refl,
          of "\<lambda>w. vstore w = vs"] drive_ops_volumes(3) drv_labels.set_unchanged k(2) w' False
      by (simp add: set_label_updates Drive_RemoveLabel_def Drive_GetLabels_def fun_upd_idem)
  qed
qed (simp add: label_step_def)

lemma volume_labels_step:
  "handler vstore (\<lambda>w. dstore w = ds) (\<lambda>v v'. \<not> dry \<and> relabelled (labelKey ` set labels) v v')
     (label_step (volume_labels C dry labels))"
proof (rule handlerI)
  fix v p w b p' w'
  assume k: "label_step (volume_labels C dry labels) (Inr v) p w = (b, p', w')" "dstore w = ds" "at_most (vstore w) v"
  obtain out w1 where l: "volume_labels C dry labels v (results p) w = (out, w1)" by fastforce
  have w': "w' = w1" using k(1) l by (auto simp: label_step_def split: prod.splits option.splits)
  show "dstore w' = ds \<and> changed (\<lambda>v v'. \<not> dry \<and> relabelled (labelKey ` set labels) v v') (vstore w) (vstore w') \<and>
      advances (vstore w) (vstore w')"
  proof (cases dry)
    case True
    have "w1 = w" using label_loop_dry [of "write_volume C dry"] l True by (metis volume_labels_def snd_conv write_volume_def)
    then show ?thesis using k(2) w' by simp
  next
    case False
    then have "write_volume C dry = api_Update (VolumeClient C)" by (simp add: write_volume_def fun_eq_iff)
    then show ?thesis
      using v.label_loop_changed [OF l [unfolded volume_labels_def \<open>write_volume C dry = _\<close>] k(3) order.refl,
          of "\<lambda>w. dstore w = ds"] volume_ops_drives(3) vol_labels.set_unchanged k(2) w' False
      by (simp add: set_label_updates Volume_RemoveLabel_def Volume_GetLabels_def fun_upd_idem)
  qed
qed (simp add: label_step_def)

lemma LabelDrives_spec:
  assumes "reserved_label labels = None"
  shows "vstore (snd (LabelDrives C args labels w)) = vstore w \<and>
    changed (\<lambda>d d'. \<not> ldDryRun args \<and> relabelled (labelKey ` set labels) d d') (dstore w)
      (dstore (snd (LabelDrives C args labels w)))"
proof -
  define l where "l = DriveLister_LabelSelector (ldLabelSelectors args)
              (DriveLister_DriveIDSelector (ldDriveIDs args)
                 (DriveLister_StatusSelector (ldDriveStatus args)
                    (DriveLister_DriveNameSelector (ToLabelValues C (ldDrives args))
                       (DriveLister_NodeSelector (ToLabelValues C (ldNodes args)) NewDriveLister))))"
  obtain p v where run: "DriveLister_List C l (label_step (drive_labels C (ldDryRun args) labels)) start w = (p, v)"
    by fastforce
  then have "snd (LabelDrives C args labels w) = v" using assms by (simp add: LabelDrives_def l_def)
  then show ?thesis using drive_loop [OF transp_relabelled drive_labels_step run refl] by simp
qed

lemma LabelVolumes_spec:
  assumes "reserved_label labels = None"
  shows "dstore (snd (LabelVolumes C args labels w)) = dstore w \<and>
    changed (\<lambda>v v'. \<not> lvDryRun args \<and> relabelled (labelKey ` set labels) v v') (vstore w)
      (vstore (snd (LabelVolumes C args labels w)))"
proof -
  define l where "l = VolumeLister_LabelSelector (lvLabelSelectors args)
              (VolumeLister_VolumeNameSelector (lvVolumeNames args)
                 (VolumeLister_StatusSelector (lvVolumeStatus args)
                    (VolumeLister_PodNSSelector (ToLabelValues C (lvPodNamespaces args))
                       (VolumeLister_PodNameSelector (ToLabelValues C (lvPodNames args))
                          (VolumeLister_DriveIDSelector (ToLabelValues C (lvDriveIDs args))
                             (VolumeLister_DriveNameSelector (ToLabelValues C (lvDrives args))
                                (VolumeLister_NodeSelector (ToLabelValues C (lvNodes args)) NewVolumeLister)))))))"
  obtain p v where run: "VolumeLister_List C l (label_step (volume_labels C (lvDryRun args) labels)) start w = (p, v)"
    by fastforce
  then have "snd (LabelVolumes C args labels w) = v" using assms by (simp add: LabelVolumes_def l_def)
  then show ?thesis using volume_loop [OF transp_relabelled volume_labels_step run refl] by simp
qed

end

section \<open>Loops that leave the objects alone\<close>

context object_api
begin

lemma send_items_visits:
  assumes k: "\<And>r s w b s' w'. k r s w = (b, s', w') \<Longrightarrow> I s w \<Longrightarrow> (\<And>x. r = Inr x \<Longrightarrow> \<sigma> (objName x) = Some x) \<Longrightarrow> I s' w'"
    and "send_items sel k items names s w = (b, ns, s', w')" and "I s w" and "\<forall>x \<in> set items. \<sigma> (objName x) = Some x"
  shows "I s' w'"
  using assms(2-4)
proof (induction items arbitrary: names s w)
  case (Cons x items)
  obtain found names' where t: "take_name names (objName x) = (found, names')" by fastforce
  obtain b1 s1 w1 where k1: "k (Inr x) s w = (b1, s1, w1)" by (metis prod_cases3)
  have i: "I s1 w1" using k [OF k1 Cons.prems(2)] Cons.prems(3) by simp
  show ?case
    using Cons.IH [of names' s1 w1] Cons.IH [of names' s w] Cons.prems t k1 i by (auto split: if_splits bool.splits)
qed simp

lemma list_pages_visits:
  assumes k: "\<And>r s w b s' w'. k r s w = (b, s', w') \<Longrightarrow> I s w \<Longrightarrow> (\<And>x. r = Inr x \<Longrightarrow> \<sigma> (objName x) = Some x) \<Longrightarrow> I s' w'"
    and st: "\<And>s w. I s w \<Longrightarrow> store w = \<sigma>"
    and reads: "\<And>s w w'. I s w \<Longrightarrow> (\<exists>n. w' = snd (api_Get A n w)) \<or> (\<exists>opts. w' = snd (api_List A opts w)) \<Longrightarrow> I s w'"
    and "list_pages fuel A ign sel k opts names s w = (b, ns, s', w')" and "I s w"
  shows "I s' w'"
  using assms(4,5)
proof (induction fuel arbitrary: opts names s w)
  case 0
  then show ?case using k [of "Inl OutOfFuel" s w] by (cases "k (Inl OutOfFuel) s w") auto
next
  case (Suc fuel)
  obtain r w1 where l: "api_List A opts w = (r, w1)" by fastforce
  have i: "I s w1" using reads [OF Suc.prems(2)] l by (metis snd_conv)
  show ?case
  proof (cases r)
    case (Inl e)
    then show ?thesis
      using Suc.prems(1) l i k [of "Inl e" s w1] by (cases "k (Inl e) s w1") (auto split: if_splits)
  next
    case (Inr ic)
    obtain items cont where ic: "ic = (items, cont)" by fastforce
    have sound: "\<forall>x \<in> set items. \<sigma> (objName x) = Some x"
      using list_sound [of opts w items cont w1] l Inr ic st [OF Suc.prems(2)] by auto
    obtain b1 ns1 s1 w2 where si: "send_items sel k items names s w1 = (b1, ns1, s1, w2)" by (metis prod_cases4)
    have "I s1 w2" by (rule send_items_visits [of k I, OF k si i sound])
    then show ?thesis using Suc.IH [of "opts\<lparr>Continue := cont\<rparr>" ns1 s1 w2] Suc.prems(1) l Inr ic si
      by (cases b1) (auto split: if_splits)
  qed
qed

lemma get_names_visits:
  assumes k: "\<And>r s w b s' w'. k r s w = (b, s', w') \<Longrightarrow> I s w \<Longrightarrow> (\<And>x. r = Inr x \<Longrightarrow> \<sigma> (objName x) = Some x) \<Longrightarrow> I s' w'"
    and st: "\<And>s w. I s w \<Longrightarrow> store w = \<sigma>"
    and reads: "\<And>s w w'. I s w \<Longrightarrow> (\<exists>n. w' = snd (api_Get A n w)) \<or> (\<exists>opts. w' = snd (api_List A opts w)) \<Longrightarrow> I s w'"
    and "get_names A ign k names s w = (s', w')" and "I s w"
  shows "I s' w'"
  using assms(4,5)
proof (induction names arbitrary: s w)
  case (Cons n names)
  obtain r w1 where g: "api_Get A n w = (r, w1)" by fastforce
  have i: "I s w1" using reads [OF Cons.prems(2)] g by (metis snd_conv)
  show ?case
  proof (cases r)
    case (Inl e)
    then show ?thesis
      using Cons g i k [of "Inl e" s w1] by (cases "k (Inl e) s w1") (auto split: if_splits)
  next
    case (Inr x)
    obtain b1 s1 w2 where k1: "k (Inr x) s w1 = (b1, s1, w2)" by (metis prod_cases3)
    have "\<sigma> (objName x) = Some x"
      using get_found [of n w x w1] get_name [of n w x w1] g Inr st [OF Cons.prems(2)] by auto
    then have "I s1 w2" using k [OF k1 i] by simp
    then show ?thesis using Cons g Inr k1 by (cases b1) auto
  qed
qed simp

text \<open>A receiver that may use the rest of the world and leaves the objects alone sees stored objects only.\<close>

lemma run_lister_visits:
  assumes k: "\<And>r s w b s' w'. k r s w = (b, s', w') \<Longrightarrow> I s w \<Longrightarrow> (\<And>x. r = Inr x \<Longrightarrow> \<sigma> (objName x) = Some x) \<Longrightarrow> I s' w'"
    and st: "\<And>s w. I s w \<Longrightarrow> store w = \<sigma>"
    and reads: "\<And>s w w'. I s w \<Longrightarrow> (\<exists>n. w' = snd (api_Get A n w)) \<or> (\<exists>opts. w' = snd (api_List A opts w)) \<Longrightarrow> I s w'"
    and run: "run_lister fuel A getOnly ign sel k opts names s w = (s', w')" and "I s w"
  shows "I s' w'"
proof (cases getOnly)
  case True
  show ?thesis by (rule get_names_visits [of k I, OF k st reads]) (use True run assms(5) in \<open>auto simp: run_lister_def\<close>)
next
  case False
  obtain b ns s1 w1 where lp: "list_pages fuel A ign sel k opts names s w = (b, ns, s1, w1)" by (metis prod_cases4)
  have i: "I s1 w1" by (rule list_pages_visits [of k I, OF k st reads lp assms(5)])
  show ?thesis
  proof (cases b)
    case True
    then have "get_names A ign k ns s1 w1 = (s', w')" using run False lp by (simp add: run_lister_def)
    from get_names_visits [of k I, OF k st reads this i] show ?thesis .
  qed (use run False lp i in \<open>auto simp: run_lister_def\<close>)
qed

end

context cluster
begin

lemma drive_visits:
  assumes k: "\<And>r s w b s' w'. k r s w = (b, s', w') \<Longrightarrow> Q s \<Longrightarrow> dstore w = ds \<Longrightarrow> vstore w = vs \<Longrightarrow>
      (\<And>x. r = Inr x \<Longrightarrow> ds (objName x) = Some x) \<Longrightarrow> Q s' \<and> dstore w' = ds \<and> vstore w' = vs"
    and run: "DriveLister_List C l k s w = (s', w')" and "Q s" and "dstore w = ds" and "vstore w = vs"
  shows "Q s' \<and> dstore w' = ds \<and> vstore w' = vs"
proof -
  let ?I = "\<lambda>s x. Q s \<and> dstore x = ds \<and> vstore x = vs"
  have reads: "?I s v'" if "?I s v"
      "(\<exists>n. v' = snd (api_Get (DriveClient C) n v)) \<or> (\<exists>opts. v' = snd (api_List (DriveClient C) opts v))" for s v v'
    using that d.get_frame d.list_frame drive_ops_volumes(1,5) by (metis prod.collapse)
  note run' = run [unfolded DriveLister_List_def Let_def]
  show ?thesis
    by (rule d.run_lister_visits [where I = ?I and \<sigma> = ds, OF _ _ _ run']) (use k reads assms(3-5) in blast)+
qed

lemma volume_visits:
  assumes k: "\<And>r s w b s' w'. k r s w = (b, s', w') \<Longrightarrow> Q s \<Longrightarrow> dstore w = ds \<Longrightarrow> vstore w = vs \<Longrightarrow>
      (\<And>x. r = Inr x \<Longrightarrow> vs (objName x) = Some x) \<Longrightarrow> Q s' \<and> dstore w' = ds \<and> vstore w' = vs"
    and run: "VolumeLister_List C l k s w = (s', w')" and "Q s" and "dstore w = ds" and "vstore w = vs"
  shows "Q s' \<and> dstore w' = ds \<and> vstore w' = vs"
proof -
  let ?I = "\<lambda>s x. Q s \<and> dstore x = ds \<and> vstore x = vs"
  have reads: "?I s v'" if "?I s v"
      "(\<exists>n. v' = snd (api_Get (VolumeClient C) n v)) \<or> (\<exists>opts. v' = snd (api_List (VolumeClient C) opts v))" for s v v'
    using that v.get_frame v.list_frame volume_ops_drives(1,5) by (metis prod.collapse)
  note run' = run [unfolded VolumeLister_List_def Let_def]
  show ?thesis
    by (rule v.run_lister_visits [where I = ?I and \<sigma> = vs, OF _ _ _ run']) (use k reads assms(3-5) in blast)+
qed

end

end
