(* ===== verification/Admin_Correct.thy ===== *)
theory Admin_Correct
  imports Admin_Loops Ledger
begin

text \<open>
  The correctness of the administrator's commands: what cordoning, removing, suspending and labelling
  change, that cleaning touches only volumes whose claim is gone, and the accounts of a move.
\<close>

section \<open>Cleaning\<close>

text \<open>\<open>pv\<close> gives the phase of the persistent volume of a volume.\<close>

definition reclaimable :: "(string \<Rightarrow> string result) \<Rightarrow> Volume \<Rightarrow> bool" where
  "reclaimable pv v \<longleftrightarrow>
     (case pv (objName v) of Inl e \<Rightarrow> IsNotFound e | Inr phase \<Rightarrow> phase = ''Released'' \<or> phase = ''Failed'')"

definition cleaned :: "Volume \<Rightarrow> Volume \<Rightarrow> bool" where
  "cleaned v v' \<longleftrightarrow> (\<exists>ts rv. v' = (RemovePVProtection v)\<lparr>DeletionTimestamp := ts, ResourceVersion := rv\<rparr>)"

lemma RemovePVProtection_again:
  "RemovePVProtection ((RemovePVProtection v)\<lparr>DeletionTimestamp := ts, ResourceVersion := rv\<rparr>) =
     (RemovePVProtection v)\<lparr>DeletionTimestamp := ts, ResourceVersion := rv\<rparr>"
  by (simp add: RemovePVProtection_def removeFinalizer_def Let_def)

lemma RemovePVProtection_name [simp]: "objName (RemovePVProtection v) = objName v"
  "ResourceVersion (RemovePVProtection v) = ResourceVersion v"
  by (simp_all add: RemovePVProtection_def removeFinalizer_def Let_def)

lemma transp_cleaned: "transp (\<lambda>v v'. \<not> dry \<and> reclaimable pv v \<and> cleaned v v')"
proof (rule transpI)
  fix x y z
  assume "\<not> dry \<and> reclaimable pv x \<and> cleaned x y" "\<not> dry \<and> reclaimable pv y \<and> cleaned y z"
  then obtain ts rv ts' rv' where "\<not> dry" "reclaimable pv x"
      "y = (RemovePVProtection x)\<lparr>DeletionTimestamp := ts, ResourceVersion := rv\<rparr>"
      "z = (RemovePVProtection y)\<lparr>DeletionTimestamp := ts', ResourceVersion := rv'\<rparr>"
    unfolding cleaned_def by blast
  then have "\<not> dry" "reclaimable pv x" "z = (RemovePVProtection x)\<lparr>DeletionTimestamp := ts', ResourceVersion := rv'\<rparr>"
    using RemovePVProtection_again [where v = x] by simp_all
  then show "\<not> dry \<and> reclaimable pv x \<and> cleaned x z" unfolding cleaned_def by blast
qed

context cluster
begin

text \<open>Deleting a volume whose protection was taken off before.\<close>

lemma delete_cleaned:
  assumes "api_Delete (VolumeClient C) n w = (r, w')"
    and "\<And>v. vstore w n = Some v \<Longrightarrow> RemovePVProtection v = v \<and> reclaimable pv v"
  shows "changed (\<lambda>v v'. reclaimable pv v \<and> cleaned v v') (vstore w) (vstore w')"
proof (cases r)
  case (Inl e)
  then show ?thesis using v.delete_err assms(1) by auto
next
  case (Inr u)
  then obtain cur where c: "vstore w n = Some cur"
      "if Finalizers cur = [] then vstore w' = (vstore w)(n := None)
       else \<exists>ts rv. ResourceVersion cur < rv \<and>
           vstore w' = (vstore w)(n \<mapsto> cur\<lparr>DeletionTimestamp := Some ts, ResourceVersion := rv\<rparr>)"
    using v.delete_ok assms(1) by blast
  note p = assms(2) [OF c(1)]
  obtain ts rv where w': "vstore w' = (vstore w)(n := None) \<and> gone (cur\<lparr>DeletionTimestamp := Some ts, ResourceVersion := rv\<rparr>) \<or>
      vstore w' = (vstore w)(n \<mapsto> cur\<lparr>DeletionTimestamp := Some ts, ResourceVersion := rv\<rparr>)"
    using c(2) by (auto simp: gone_def split: if_splits)
  have "cleaned cur (cur\<lparr>DeletionTimestamp := Some ts, ResourceVersion := rv\<rparr>)" unfolding cleaned_def using p by metis
  then have "became (\<lambda>v v'. reclaimable pv v \<and> cleaned v v') (vstore w n) (vstore w' n)"
    unfolding became_def using c(1) w' p by auto
  moreover have "vstore w' m = vstore w m" if "m \<noteq> n" for m using w' that by auto
  ultimately show ?thesis unfolding changed_def became_def by metis
qed

lemma clean_volume_step:
  assumes pv: "\<And>n w. fst (getPhase n w) = pv n"
    and frame: "\<And>n w. dstore (snd (getPhase n w)) = dstore w \<and> vstore (snd (getPhase n w)) = vstore w"
  shows "handler vstore (\<lambda>w. dstore w = ds) (\<lambda>v v'. \<not> dry \<and> reclaimable pv v \<and> cleaned v v') (clean_volume C getPhase dry)"
    (is "handler _ _ ?R _")
proof (rule handlerI)
  fix v p w b p' w'
  assume k: "clean_volume C getPhase dry (Inr v) p w = (b, p', w')" "dstore w = ds" "at_most (vstore w) v"
  obtain w1 where m: "match_pv getPhase v w = (reclaimable pv v, w1)" and f: "dstore w1 = dstore w" "vstore w1 = vstore w"
    using pv [of "objName v" w] frame [of "objName v" w]
    by (cases "getPhase (objName v) w"; cases "pv (objName v)") (auto simp: match_pv_def reclaimable_def)
  show "dstore w' = ds \<and> changed ?R (vstore w) (vstore w') \<and> advances (vstore w) (vstore w')"
  proof (cases "reclaimable pv v \<and> \<not> dry")
    case False
    then have "w' = w1" using k(1) m by (auto simp: clean_volume_def split: if_splits bool.splits)
    then show ?thesis using k(2) f by simp
  next
    case True
    obtain r w2 where u: "api_Update (VolumeClient C) (RemovePVProtection v) w1 = (r, w2)" by fastforce
    have "cur = v" if "vstore w1 (objName (RemovePVProtection v)) = Some cur"
        "ResourceVersion (RemovePVProtection v) = ResourceVersion cur" for cur
      using k(3) that f by (auto simp: at_most_def)
    moreover have "cleaned v ((RemovePVProtection v)\<lparr>ResourceVersion := rv\<rparr>)" for rv
      unfolding cleaned_def by (intro exI [of _ "DeletionTimestamp (RemovePVProtection v)"] exI [of _ rv]) simp
    ultimately have ch: "changed ?R (vstore w1) (vstore w2)" using v.update_changed [OF u, of ?R] True by blast
    have w2: "dstore w2 = ds" "advances (vstore w1) (vstore w2)"
      using volume_ops_drives(3) [OF u] v.update_advances [OF u] k(2) f by auto
    show ?thesis
    proof (cases r)
      case (Inl e)
      then have "w' = w2" using k(1) m True u by (simp add: clean_volume_def)
      then show ?thesis using ch w2 f by simp
    next
      case (Inr y)
      obtain rd w3 where d: "api_Delete (VolumeClient C) (objName v) w2 = (rd, w3)" by fastforce
      have "RemovePVProtection x = x \<and> reclaimable pv x" if x: "vstore w2 (objName v) = Some x" for x
      proof -
        obtain rv where "x = (RemovePVProtection v)\<lparr>ResourceVersion := rv\<rparr>"
          using v.update_ok [OF u [unfolded Inr]] x by (auto split: if_splits)
        then show ?thesis
          using RemovePVProtection_again [where v = v and rv = rv and ts = "DeletionTimestamp (RemovePVProtection v)"] True by (simp add: reclaimable_def)
      qed
      then have "changed (\<lambda>v v'. reclaimable pv v \<and> cleaned v v') (vstore w2) (vstore w3)"
        by (rule delete_cleaned [OF d])
      then have "changed ?R (vstore w2) (vstore w3)" using True by simp
      then have "changed ?R (vstore w1) (vstore w3)" by (rule changed_trans [OF transp_cleaned ch])
      moreover have "dstore w3 = ds" "advances (vstore w1) (vstore w3)"
        using volume_ops_drives(4) [OF d] v.delete_advances [OF d] w2 advances_trans by auto
      moreover have "w' = w3" using k(1) m True u Inr d by (cases rd) (auto simp: clean_volume_def split: if_splits)
      ultimately show ?thesis using f by simp
    qed
  qed
qed (simp add: clean_volume_def)

lemma Clean_spec:
  assumes "\<And>n w. fst (getPhase n w) = pv n"
    and "\<And>n w. dstore (snd (getPhase n w)) = dstore w \<and> vstore (snd (getPhase n w)) = vstore w"
  shows "dstore (snd (Clean C getPhase args w)) = dstore w \<and>
    changed (\<lambda>v v'. \<not> clDryRun args \<and> reclaimable pv v \<and> cleaned v v') (vstore w) (vstore (snd (Clean C getPhase args w)))"
proof -
  define l where "l = VolumeLister_VolumeNameSelector (clVolumeNames args)
            (VolumeLister_StatusSelector (clVolumeStatus args)
               (VolumeLister_PodNSSelector (ToLabelValues C (clPodNamespaces args))
                  (VolumeLister_PodNameSelector (ToLabelValues C (clPodNames args))
                     (VolumeLister_DriveIDSelector (ToLabelValues C (clDriveIDs args))
                        (VolumeLister_DriveNameSelector (ToLabelValues C (clDrives args))
                           (VolumeLister_NodeSelector (ToLabelValues C (clNodes args)) NewVolumeLister))))))"
  obtain p v where run: "VolumeLister_List C l (clean_volume C getPhase (clDryRun args)) start w = (p, v)"
    by fastforce
  then have "snd (Clean C getPhase args w) = v" by (simp add: Clean_def l_def)
  moreover have "dstore v = dstore w \<and> changed (\<lambda>v v'. \<not> clDryRun args \<and> reclaimable pv v \<and> cleaned v v') (vstore w) (vstore v)"
    by (rule volume_loop [OF transp_cleaned clean_volume_step run refl]) (use assms in auto)
  ultimately show ?thesis by simp
qed

end

section \<open>Moving\<close>

definition volume_sum :: "Volume list \<Rightarrow> int" where
  "volume_sum vols = (\<Sum>v \<leftarrow> vols. vTotalCapacity (volumeStatus v))"

lemma moving_drive_simps [simp]:
  "objName (set_drive_status st d) = objName d" "ResourceVersion (set_drive_status st d) = ResourceVersion d"
  "Finalizers (set_drive_status st d) = Finalizers d" "GetVolumes (set_drive_status st d) = GetVolumes d"
  "capacity_ok (set_drive_status st d) = capacity_ok d"
  "dFreeCapacity (driveStatus (set_drive_status st d)) = dFreeCapacity (driveStatus d)"
  "dTotalCapacity (driveStatus (set_drive_status st d)) = dTotalCapacity (driveStatus d)"
  by (simp_all add: set_drive_status_def GetVolumes_def capacity_ok_def)

lemma charged_drive_simps [simp]:
  "objName (add_capacity sz d) = objName d" "ResourceVersion (add_capacity sz d) = ResourceVersion d"
  "Finalizers (add_capacity sz d) = Finalizers d" "GetVolumes (add_capacity sz d) = GetVolumes d"
  "dTotalCapacity (driveStatus (add_capacity sz d)) = dTotalCapacity (driveStatus d)"
  by (simp_all add: add_capacity_def GetVolumes_def)

text \<open>Volumes that the destination does not have are recorded there and paid for.\<close>

lemma move_in_account:
  assumes "capacity_ok d" and "distinct (map objName vols)" and "\<And>v. v \<in> set vols \<Longrightarrow> objName v \<notin> set (GetVolumes d)"
    and "\<And>v. v \<in> set vols \<Longrightarrow> 0 \<le> vTotalCapacity (volumeStatus v)" and "volume_sum vols \<le> dFreeCapacity (driveStatus d)"
  shows "capacity_ok (move_in vols d) \<and> GetVolumes (move_in vols d) = GetVolumes d @ map objName vols \<and>
    dFreeCapacity (driveStatus (move_in vols d)) = dFreeCapacity (driveStatus d) - volume_sum vols \<and>
    dTotalCapacity (driveStatus (move_in vols d)) = dTotalCapacity (driveStatus d) \<and>
    objName (move_in vols d) = objName d \<and> ResourceVersion (move_in vols d) = ResourceVersion d"
  using assms
proof (induction vols arbitrary: d)
  case Nil
  then show ?case by (simp add: move_in_def volume_sum_def)
next
  case (Cons v vols)
  define d1 where "d1 = snd (AddVolumeFinalizer (objName v) d)"
  let ?sz = "vTotalCapacity (volumeStatus v)"
  have new: "objName v \<notin> set (GetVolumes d)" using Cons.prems(3) by simp
  then have "AddVolumeFinalizer (objName v) d = (True, d1)" unfolding d1_def using drv_volumes.added_iff by (metis prod.collapse)
  then have step: "move_in (v # vols) d = move_in vols (add_capacity ?sz d1)" by (simp add: move_in_def)
  have vols: "GetVolumes d1 = GetVolumes d @ [objName v]" unfolding d1_def using new by (rule drv_volumes.volumes_add)
  have pos: "0 \<le> volume_sum vols" unfolding volume_sum_def using Cons.prems(4) by (intro sum_list_nonneg) auto
  have sum: "volume_sum (v # vols) = ?sz + volume_sum vols" by (simp add: volume_sum_def)
  have d1: "driveStatus d1 = driveStatus d" "objName d1 = objName d" "ResourceVersion d1 = ResourceVersion d"
    by (simp_all add: d1_def)
  have fits: "0 \<le> ?sz" "?sz \<le> dFreeCapacity (driveStatus d1)" using Cons.prems(4,5) sum pos d1 by simp_all
  have c: "capacity_ok d1" using Cons.prems(1) by (simp add: d1_def)
  note a = add_capacity_ok [OF c fits]
  have "capacity_ok (move_in vols (add_capacity ?sz d1)) \<and>
      GetVolumes (move_in vols (add_capacity ?sz d1)) = GetVolumes (add_capacity ?sz d1) @ map objName vols \<and>
      dFreeCapacity (driveStatus (move_in vols (add_capacity ?sz d1))) = dFreeCapacity (driveStatus (add_capacity ?sz d1)) - volume_sum vols \<and>
      dTotalCapacity (driveStatus (move_in vols (add_capacity ?sz d1))) = dTotalCapacity (driveStatus (add_capacity ?sz d1)) \<and>
      objName (move_in vols (add_capacity ?sz d1)) = objName (add_capacity ?sz d1) \<and>
      ResourceVersion (move_in vols (add_capacity ?sz d1)) = ResourceVersion (add_capacity ?sz d1)"
  proof (rule Cons.IH [OF a(1)])
    fix x
    assume "x \<in> set vols"
    moreover then have "objName x \<noteq> objName v" using Cons.prems(2) by (auto simp: image_iff)
    ultimately show "objName x \<notin> set (GetVolumes (add_capacity ?sz d1))" using Cons.prems(3) [of x] vols by simp
  qed (use Cons.prems a(2) sum d1 in simp_all)
  then show ?case unfolding step using a(2) vols sum d1 by simp
qed

lemma fold_i64_sum:
  assumes "\<And>v. v \<in> set vols \<Longrightarrow> 0 \<le> vTotalCapacity (volumeStatus v)" and "0 \<le> c" and "c + volume_sum vols < 2 ^ 63"
  shows "fold (\<lambda>v c. i64 (c + vTotalCapacity (volumeStatus v))) vols c = c + volume_sum vols"
  using assms
proof (induction vols arbitrary: c)
  case (Cons v vols)
  have pos: "0 \<le> volume_sum vols" unfolding volume_sum_def using Cons.prems(1) by (intro sum_list_nonneg) auto
  have sum: "volume_sum (v # vols) = vTotalCapacity (volumeStatus v) + volume_sum vols" by (simp add: volume_sum_def)
  have "0 \<le> vTotalCapacity (volumeStatus v)" using Cons.prems(1) by simp
  then have "i64 (c + vTotalCapacity (volumeStatus v)) = c + vTotalCapacity (volumeStatus v)"
    using Cons.prems(2,3) sum pos by (intro i64_id) (simp add: in_i64_def)
  then show ?case using Cons.IH [of "c + vTotalCapacity (volumeStatus v)"] Cons.prems sum \<open>0 \<le> vTotalCapacity (volumeStatus v)\<close> by simp
qed (simp add: volume_sum_def)

context cluster
begin

lemma gather_volumes:
  assumes "get_names (VolumeClient C) ign (receive gather_volume) names ((c, vols), None) w = (((c', vols'), None), w')"
    and "\<not> ign"
  shows "dstore w' = dstore w \<and> vstore w' = vstore w \<and>
    (\<exists>vs. vols' = vols @ vs \<and> map objName vs = names \<and>
       (\<forall>v \<in> set vs. vstore w (objName v) = Some v \<and> \<not> IsPublished v) \<and>
       c' = fold (\<lambda>v c. i64 (c + vTotalCapacity (volumeStatus v))) vs c)"
  using assms(1)
proof (induction names arbitrary: c vols w)
  case (Cons n names)
  obtain r w1 where g: "api_Get (VolumeClient C) n w = (r, w1)" by fastforce
  have f: "dstore w1 = dstore w" "vstore w1 = vstore w" using volume_ops_drives(1) v.get_frame g by blast+
  show ?case
  proof (cases r)
    case (Inl err)
    then show ?thesis using Cons.prems g assms(2) by (simp add: receive_def gather_volume_def)
  next
    case (Inr x)
    have x: "objName x = n" "vstore w n = Some x" using v.get_name v.get_found g Inr by blast+
    have np: "\<not> IsPublished x" using Cons.prems g Inr by (auto simp: receive_def gather_volume_def)
    have "receive gather_volume (Inr x) ((c, vols), None) w1 =
        (True, ((i64 (c + vTotalCapacity (volumeStatus x)), vols @ [x]), None), w1)"
      using np by (simp add: receive_def gather_volume_def)
    then have "get_names (VolumeClient C) ign (receive gather_volume) names
        ((i64 (c + vTotalCapacity (volumeStatus x)), vols @ [x]), None) w1 = (((c', vols'), None), w')"
      using Cons.prems g Inr by simp
    then obtain vs where "dstore w' = dstore w1 \<and> vstore w' = vstore w1" "vols' = (vols @ [x]) @ vs" "map objName vs = names"
        "\<forall>v \<in> set vs. vstore w1 (objName v) = Some v \<and> \<not> IsPublished v"
        "c' = fold (\<lambda>v c. i64 (c + vTotalCapacity (volumeStatus v))) vs (i64 (c + vTotalCapacity (volumeStatus x)))"
      using Cons.IH by blast
    then show ?thesis using f x np by (intro conjI exI [of _ "x # vs"]) simp_all
  qed
qed simp

text \<open>The guards a successful move passed and the two writes it made.\<close>

lemma Move_steps:
  assumes "Move C args w = (Inr u, w')"
  obtains src dest vols req w1 w2 y y' where
    "mvSource args \<noteq> mvDestination args" "dstore w (mvSource args) = Some src" "dstore w (mvDestination args) = Some dest"
    "IsUnschedulable src" "IsUnschedulable dest" "dStatus (driveStatus dest) = DriveStatusReady"
    "Drive_GetNodeID C dest = Drive_GetNodeID C src" "GetAccessTier C src = GetAccessTier C dest"
    "map objName vols = GetVolumes src" "vols \<noteq> []"
    "\<forall>v \<in> set vols. vstore w (objName v) = Some v \<and> \<not> IsPublished v"
    "req = fold (\<lambda>v c. i64 (c + vTotalCapacity (volumeStatus v))) vols 0" "req \<le> dFreeCapacity (driveStatus dest)"
    "dstore w1 = dstore w" "vstore w1 = vstore w"
    "api_Update (DriveClient C) (set_drive_status DriveStatusMoving (move_in vols dest)) w1 = (Inr y, w2)"
    "api_Update (DriveClient C) (ResetFinalizers src) w2 = (Inr y', w')"
proof -
  from assms have ne: "mvSource args \<noteq> mvDestination args" by (auto simp: Move_def split: if_splits)
  obtain rs wa where gs: "api_Get (DriveClient C) (mvSource args) w = (rs, wa)" by fastforce
  from assms gs ne obtain src where src: "rs = Inr src" by (cases rs) (auto simp: Move_def)
  have a: "dstore wa = dstore w" "vstore wa = vstore w" using gs d.get_frame drive_ops_volumes(1) by blast+
  let ?l = "VolumeLister_VolumeNameSelector (GetVolumes src) NewVolumeLister"
  obtain c vols err wb where run: "VolumeLister_List C ?l (receive gather_volume) ((0, []), None) wa = (((c, vols), err), wb)"
    by (metis surj_pair)
  from assms gs ne src run have g1: "IsUnschedulable src" "GetVolumes src \<noteq> []" "err = None" "vols \<noteq> []"
    by (auto simp: Move_def split: if_splits option.splits)
  then have "get_names (VolumeClient C) False (receive gather_volume) (GetVolumes src) ((0, []), None) wa = (((c, vols), None), wb)"
    using run by (simp add: VolumeLister_List_def run_lister_def NewVolumeLister_def VolumeLister_VolumeNameSelector_def)
  from gather_volumes [OF this]
  have b: "dstore wb = dstore w" "vstore wb = vstore w" and vols: "map objName vols = GetVolumes src"
      "\<forall>v \<in> set vols. vstore w (objName v) = Some v \<and> \<not> IsPublished v"
      "c = fold (\<lambda>v c. i64 (c + vTotalCapacity (volumeStatus v))) vols 0"
    using a by auto
  obtain rd wc where gd: "api_Get (DriveClient C) (mvDestination args) wb = (rd, wc)" by fastforce
  from assms gs ne src run g1 gd obtain dest where dest: "rd = Inr dest" by (cases rd) (auto simp: Move_def)
  have c: "dstore wc = dstore w" "vstore wc = vstore w" using gd d.get_frame drive_ops_volumes(1) b by metis+
  obtain r1 w2 where u1: "api_Update (DriveClient C) (set_drive_status DriveStatusMoving (move_in vols dest)) wc = (r1, w2)" by fastforce
  obtain r2 w3 where u2: "api_Update (DriveClient C) (ResetFinalizers src) w2 = (r2, w3)" by fastforce
  from assms gs ne src run g1 gd dest u1 u2 have g2: "Drive_GetNodeID C dest = Drive_GetNodeID C src" "IsUnschedulable dest"
      "dStatus (driveStatus dest) = DriveStatusReady" "GetAccessTier C src = GetAccessTier C dest" "c \<le> dFreeCapacity (driveStatus dest)"
    by (auto simp: Move_def split: if_splits)
  with assms gs ne src run g1 gd dest u1 u2 obtain y where y: "r1 = Inr y" by (cases r1) (auto simp: Move_def)
  with assms gs ne src run g1 gd dest u1 u2 g2 obtain y' where y': "r2 = Inr y'" "w3 = w'" by (cases r2) (auto simp: Move_def)
  show thesis
    using that [OF ne _ _ g1(1) g2(2,3,1,4) vols(1) g1(4) vols(2,3) g2(5) c] gs gd src dest u1 u2 y y' b d.get_found by metis
qed

end

lemma volume_sum_booked:
  assumes "map objName vols = GetVolumes d" and "\<forall>v \<in> set vols. vs (objName v) = Some v"
  shows "volume_sum vols = booked vs d"
proof -
  have "map (cap_of vs) (map objName vols) = map (\<lambda>v. vTotalCapacity (volumeStatus v)) vols"
    using assms(2) by (simp add: cap_of_def)
  then show ?thesis unfolding volume_sum_def booked_def assms(1) [symmetric] by (rule arg_cong [THEN sym])
qed

section \<open>The properties\<close>

text \<open>
  C15. Moving volumes. When the accounts are balanced, a successful \<^verbatim>\<open>Move\<close> found both
  drives cordoned, records the volumes of the source drive on the destination drive, takes exactly
  their capacities from its free capacity and never overdraws it; the source drive records no volume
  any more, no other drive and no volume changes. The capacity the volumes had taken on the source
  drive is not given back: its status is as before.
\<close>

theorem Move_accounts:
  assumes cl: "cluster C dstore vstore" and l: "ledger C (dstore w, vstore w)" and run: "Move C args w = (Inr u, w')"
  shows "\<exists>src dest src' dest'. dstore w (mvSource args) = Some src \<and> dstore w (mvDestination args) = Some dest \<and>
     IsUnschedulable src \<and> IsUnschedulable dest \<and> vstore w' = vstore w \<and>
     dstore w' = (dstore w)(mvDestination args \<mapsto> dest', mvSource args \<mapsto> src') \<and>
     GetVolumes dest' = GetVolumes dest @ GetVolumes src \<and>
     dFreeCapacity (driveStatus dest') = dFreeCapacity (driveStatus dest) - booked (vstore w) src \<and>
     capacity_ok dest' \<and> dFreeCapacity (driveStatus dest') + booked (vstore w) dest' \<le> dTotalCapacity (driveStatus dest') \<and>
     GetVolumes src' = [] \<and> driveStatus src' = driveStatus src"
proof -
  obtain src dest vols req w1 w2 y y' where m:
    "mvSource args \<noteq> mvDestination args" "dstore w (mvSource args) = Some src" "dstore w (mvDestination args) = Some dest"
    "IsUnschedulable src" "IsUnschedulable dest"
    "map objName vols = GetVolumes src" "vols \<noteq> []"
    "\<forall>v \<in> set vols. vstore w (objName v) = Some v \<and> \<not> IsPublished v"
    "req = fold (\<lambda>v c. i64 (c + vTotalCapacity (volumeStatus v))) vols 0" "req \<le> dFreeCapacity (driveStatus dest)"
    "dstore w1 = dstore w" "vstore w1 = vstore w"
    "api_Update (DriveClient C) (set_drive_status DriveStatusMoving (move_in vols dest)) w1 = (Inr y, w2)"
    "api_Update (DriveClient C) (ResetFinalizers src) w2 = (Inr y', w')"
    by (rule cluster.Move_steps [OF cl run]) blast
  note ls = ledgerD [OF l m(2)] and ld = ledgerD [OF l m(3)]
  have sum: "volume_sum vols = booked (vstore w) src" using volume_sum_booked m(6,8) by blast
  have pos: "0 \<le> vTotalCapacity (volumeStatus v)" if "v \<in> set vols" for v
    using that m(8) ledger_volume [OF l] by blast
  have "volume_sum vols < 2 ^ 63" using ls(4,5) sum by (simp add: capacity_ok_def)
  then have "req = volume_sum vols" using fold_i64_sum [of vols 0] pos m(9) by simp
  then have fit: "volume_sum vols \<le> dFreeCapacity (driveStatus dest)" using m(10) by simp
  have dist: "distinct (map objName vols)" using m(6) ls(3) by (simp add: drive_finalizers_wf_iff)
  have new: "objName v \<notin> set (GetVolumes dest)" if "v \<in> set vols" for v
  proof
    assume "objName v \<in> set (GetVolumes dest)"
    then have "protected_on (mvDestination args) v" using ld(6) m(8) that by fastforce
    moreover have "protected_on (mvSource args) v" using ls(6) [of "objName v"] m(6,8) that by (metis image_eqI list.set_map option.inject)
    ultimately show False using m(1) by (simp add: protected_on_def)
  qed
  let ?dest = "set_drive_status DriveStatusMoving (move_in vols dest)"
  have mi: "capacity_ok ?dest" "GetVolumes ?dest = GetVolumes dest @ GetVolumes src"
      "dFreeCapacity (driveStatus ?dest) = dFreeCapacity (driveStatus dest) - booked (vstore w) src"
      "dTotalCapacity (driveStatus ?dest) = dTotalCapacity (driveStatus dest)" "objName ?dest = mvDestination args"
    using move_in_account [OF ld(4) dist new pos fit] m(6) sum ld(1) by simp_all
  have "GetVolumes ?dest \<noteq> []" using mi(2) m(6,7) by auto
  then have "Finalizers ?dest \<noteq> []" by (auto simp: GetVolumes_def)
  then obtain rv where d2: "dstore w2 = (dstore w)(mvDestination args \<mapsto> ?dest\<lparr>ResourceVersion := rv\<rparr>)"
    using object_api.update_ok [OF cluster.axioms(1) [OF cl] m(13)] m(11) mi(5) by auto
  have "Finalizers (ResetFinalizers src) \<noteq> []" "objName (ResetFinalizers src) = mvSource args"
    using ls(1) by (simp_all add: ResetFinalizers_def)
  then obtain rv' where d3: "dstore w' = (dstore w2)(mvSource args \<mapsto> (ResetFinalizers src)\<lparr>ResourceVersion := rv'\<rparr>)"
    using object_api.update_ok [OF cluster.axioms(1) [OF cl] m(14)] by auto
  have "vstore w' = vstore w" using cluster.drive_ops_volumes(3) [OF cl] m(12-14) by metis
  moreover have "booked (vstore w) ?dest = booked (vstore w) dest + booked (vstore w) src" using mi(2) by (simp add: booked_def)
  ultimately show ?thesis
    using m(2-5) d2 d3 mi ld(5)
    by (intro exI [of _ src] exI [of _ dest] exI [of _ "(ResetFinalizers src)\<lparr>ResourceVersion := rv'\<rparr>"]
        exI [of _ "?dest\<lparr>ResourceVersion := rv\<rparr>"]) (simp add: GetVolumes_def booked_def ResetFinalizers_def)
qed

text \<open>Two cordoned drives of one node, the first with a volume.\<close>

definition source_drive :: Drive where
  "source_drive = Drive_Unschedulable (snd (reserve ''pvc-1'' [] 100 sample_drive))"

definition target_drive :: Drive where
  "target_drive = (Drive_Unschedulable sample_drive)\<lparr>objName := ''drive-2''\<rparr>"

definition move_world :: world where
  "move_world = \<lparr> wDrives = [source_drive, target_drive], wVolumes = [sample_volume], wNodes = [], wInitRequests = [] \<rparr>"

lemma move_world_drives:
  "world_drives move_world n = Some d \<Longrightarrow> n = ''drive-1'' \<and> d = source_drive \<or> n = ''drive-2'' \<and> d = target_drive"
proof -
  have "objName source_drive = ''drive-1''" "objName target_drive = ''drive-2''" by code_simp+
  then show "world_drives move_world n = Some d \<Longrightarrow> n = ''drive-1'' \<and> d = source_drive \<or> n = ''drive-2'' \<and> d = target_drive"
    by (auto simp: world_drives_def move_world_def lookup_obj_def split: if_splits)
qed

lemma move_world_volumes: "world_volumes move_world n = (if n = ''pvc-1'' then Some sample_volume else None)"
proof -
  have "objName sample_volume = ''pvc-1''" by code_simp
  then show ?thesis by (simp add: world_volumes_def move_world_def lookup_obj_def)
qed

lemma move_world_ledger: "ledger store_client (world_drives move_world, world_volumes move_world)"
proof -
  have "objName source_drive = ''drive-1''" "ToLabelValue store_client ''drive-1'' = ''drive-1''"
      "drive_finalizers_wf source_drive" "capacity_ok source_drive" "GetVolumes source_drive = [''pvc-1'']"
      "objName target_drive = ''drive-2''" "ToLabelValue store_client ''drive-2'' = ''drive-2''"
      "drive_finalizers_wf target_drive" "capacity_ok target_drive" "GetVolumes target_drive = []"
      "protected_on ''drive-1'' sample_volume"
      "dFreeCapacity (driveStatus source_drive) + vTotalCapacity (volumeStatus sample_volume) \<le> dTotalCapacity (driveStatus source_drive)"
      "dFreeCapacity (driveStatus target_drive) \<le> dTotalCapacity (driveStatus target_drive)"
      "objName sample_volume = ''pvc-1''" "0 \<le> vTotalCapacity (volumeStatus sample_volume)"
    by code_simp+
  then show ?thesis
    by (auto simp: ledger_def drive_account_def booked_def cap_of_def move_world_volumes dest!: move_world_drives split: if_splits)
qed

definition move_args :: MoveArgs where
  "move_args = \<lparr> mvSource = ''drive-1'', mvDestination = ''drive-2'' \<rparr>"

theorem Move_accounts_witness:
  "\<exists>w' src dest src' dest'. Move store_client move_args move_world = (Inr (), w') \<and>
     world_drives move_world ''drive-1'' = Some src \<and> world_drives move_world ''drive-2'' = Some dest \<and>
     world_drives w' = (world_drives move_world)(''drive-2'' \<mapsto> dest', ''drive-1'' \<mapsto> src') \<and>
     GetVolumes dest' = GetVolumes dest @ GetVolumes src \<and> GetVolumes src' = []"
proof -
  have "\<exists>u w'. Move store_client move_args move_world = (Inr u, w')" by (rule not_isl_ok) code_simp
  then obtain w' where m: "Move store_client move_args move_world = (Inr (), w')" by auto
  have a: "mvSource move_args = ''drive-1''" "mvDestination move_args = ''drive-2''" by (simp_all add: move_args_def)
  show ?thesis
    using Move_accounts [OF store_cluster.cluster_axioms, OF move_world_ledger, OF m] m unfolding a by blast
qed

text \<open>
  C16. Cordoning. \<^verbatim>\<open>Cordon\<close> leaves every volume alone and changes a drive, if at all, only
  from schedulable to unschedulable, and only when none of its volumes is pending; \<^verbatim>\<open>Uncordon\<close>
  only makes cordoned drives schedulable. With the dry-run flag neither changes anything. No request
  is ever placed on a drive that was cordoned.
\<close>

theorem Cordon_correct:
  assumes "cluster C dstore vstore"
  shows "vstore (snd (Cordon C args w)) = vstore w \<and>
     changed (\<lambda>d d'. \<not> caDryRun args \<and> cordoned (vstore w) d d') (dstore w) (dstore (snd (Cordon C args w))) \<and>
     vstore (snd (Uncordon C args w)) = vstore w \<and>
     changed (\<lambda>d d'. \<not> caDryRun args \<and> uncordoned d d') (dstore w) (dstore (snd (Uncordon C args w))) \<and>
     (\<forall>d d' req. cordoned (vstore w) d d' \<longrightarrow> \<not> matchDrive C d' req)"
proof -
  have "\<not> matchDrive C d' req" if "cordoned (vstore w) d d'" for d d' req
    using that by (auto simp: cordoned_def Drive_Unschedulable_def IsUnschedulable_def matchDrive_def)
  then show ?thesis
    using cluster.Cordon_spec [OF assms, of args w] cluster.Uncordon_spec [OF assms, of args w] by (metis prod.collapse)
qed

definition all_args :: CordonArgs where
  "all_args = \<lparr> caNodes = [], caDrives = [], caStatus = [], caDriveIDs = [], caDryRun = False \<rparr>"

theorem Cordon_correct_witness:
  "(\<exists>d. world_drives (snd (Cordon store_client all_args volume_world)) ''drive-1'' = Some d \<and> \<not> IsUnschedulable d) \<and>
   (\<exists>d. world_drives (snd (Cordon store_client all_args sample_world)) ''drive-1'' = Some d \<and> IsUnschedulable d) \<and>
   changed (\<lambda>d d'. \<not> caDryRun all_args \<and> cordoned (world_volumes sample_world) d d') (world_drives sample_world)
     (world_drives (snd (Cordon store_client all_args sample_world)))"
proof -
  have "case world_drives (snd (Cordon store_client all_args volume_world)) ''drive-1'' of None \<Rightarrow> False | Some d \<Rightarrow> \<not> IsUnschedulable d"
    and "case world_drives (snd (Cordon store_client all_args sample_world)) ''drive-1'' of None \<Rightarrow> False | Some d \<Rightarrow> IsUnschedulable d"
    by code_simp+
  then show ?thesis
    using Cordon_correct [OF store_cluster.cluster_axioms, of all_args sample_world] by (auto split: option.splits)
qed

text \<open>
  Removing drives. \<^verbatim>\<open>Remove\<close> changes a drive only by setting its status to
  removed, and only a drive that records no volume; no volume is touched, and a dry run changes
  nothing.
\<close>

theorem Remove_correct:
  assumes "cluster C dstore vstore"
    and "\<forall>n d. dstore w n = Some d \<longrightarrow> drive_finalizers_wf d"
  shows "vstore (snd (Remove C args w)) = vstore w \<and>
     changed (\<lambda>d d'. \<not> caDryRun args \<and> GetVolumes d = [] \<and> removed d d') (dstore w) (dstore (snd (Remove C args w)))"
proof -
  have "GetVolumes d = []" if "dstore w n = Some d" "removed d d'" for n d d'
    using that assms(2) drv_volumes.count_volumes [of d] by (auto simp: removed_def)
  moreover have "vstore (snd (Remove C args w)) = vstore w \<and>
     changed (\<lambda>d d'. \<not> caDryRun args \<and> removed d d') (dstore w) (dstore (snd (Remove C args w)))"
    using cluster.Remove_spec [OF assms(1), of args w] by (metis prod.collapse)
  ultimately show ?thesis unfolding changed_def became_def by blast
qed

theorem Remove_correct_witness:
  "(\<exists>d. world_drives (snd (Remove store_client all_args sample_world)) ''drive-1'' = Some d \<and>
      dStatus (driveStatus d) = DriveStatusRemoved) \<and>
   changed (\<lambda>d d'. \<not> caDryRun all_args \<and> GetVolumes d = [] \<and> removed d d') (world_drives sample_world)
     (world_drives (snd (Remove store_client all_args sample_world)))"
proof -
  have "case world_drives (snd (Remove store_client all_args sample_world)) ''drive-1'' of
      None \<Rightarrow> False | Some d \<Rightarrow> dStatus (driveStatus d) = DriveStatusRemoved"
    by code_simp
  moreover have "\<forall>n d. world_drives sample_world n = Some d \<longrightarrow> drive_finalizers_wf d"
  proof (intro allI impI)
    fix n d
    assume "world_drives sample_world n = Some d"
    then have "d \<in> set (wDrives sample_world)"
      by (auto simp: world_drives_def lookup_obj_def find_Some_iff)
    moreover have "list_all drive_finalizers_wf (wDrives sample_world)" by code_simp
    ultimately show "drive_finalizers_wf d" by (simp add: list_all_iff)
  qed
  ultimately show ?thesis
    using Remove_correct [OF store_cluster.cluster_axioms, of sample_world all_args] by (auto split: option.splits)
qed

text \<open>
  Suspending and resuming. \<^verbatim>\<open>SuspendDrives\<close>, \<^verbatim>\<open>ResumeDrives\<close>
  and their counterparts for volumes change objects of their own kind only, and there only the suspend
  label: it is set, so that the object counts as suspended, or taken off. This holds
  whatever fails and however often a write is retried; a dry run changes nothing.
\<close>

theorem suspend_resume_correct:
  assumes "cluster C dstore vstore"
  shows "vstore (snd (SuspendDrives C dargs w)) = vstore w \<and>
     changed (\<lambda>d d'. \<not> sdDryRun dargs \<and> label_becomes SuspendLabelKey (Some (FormatBool True)) d d' \<and> Drive_IsSuspended C d')
       (dstore w) (dstore (snd (SuspendDrives C dargs w))) \<and>
     vstore (snd (ResumeDrives C dargs w)) = vstore w \<and>
     changed (\<lambda>d d'. \<not> sdDryRun dargs \<and> label_becomes SuspendLabelKey None d d')
       (dstore w) (dstore (snd (ResumeDrives C dargs w))) \<and>
     dstore (snd (SuspendVolumes C vargs w)) = dstore w \<and>
     changed (\<lambda>v v'. \<not> svDryRun vargs \<and> label_becomes SuspendLabelKey (Some (FormatBool True)) v v' \<and> Volume_IsSuspended C v')
       (vstore w) (vstore (snd (SuspendVolumes C vargs w))) \<and>
     dstore (snd (ResumeVolumes C vargs w)) = dstore w \<and>
     changed (\<lambda>v v'. \<not> svDryRun vargs \<and> label_becomes SuspendLabelKey None v v')
       (vstore w) (vstore (snd (ResumeVolumes C vargs w)))"
proof -
  have d: "Drive_IsSuspended C d'" if "label_becomes SuspendLabelKey (Some (FormatBool True)) d d'" for d d'
    using that cluster.true_value [OF assms]
    by (auto simp: label_becomes_def Drive_IsSuspended_def Drive_getLabel_def Drive_GetLabels_def)
  have v: "Volume_IsSuspended C v'" if "label_becomes SuspendLabelKey (Some (FormatBool True)) v v'" for v v'
    using that cluster.true_value [OF assms]
    by (auto simp: label_becomes_def Volume_IsSuspended_def Volume_getLabel_def Volume_GetLabels_def)
  show ?thesis
    using cluster.SuspendDrives_spec [OF assms, of dargs w] cluster.ResumeDrives_spec [OF assms, of dargs w]
      cluster.SuspendVolumes_spec [OF assms, of vargs w] cluster.ResumeVolumes_spec [OF assms, of vargs w] d v
    by (simp cong: conj_cong)
qed

definition suspend_all :: SuspendVolumeArgs where
  "suspend_all = \<lparr> svNodes = [], svDrives = [], svPodNames = [], svPodNamespaces = [], svVolumeNames = [''pvc-1''], svDryRun = False \<rparr>"

definition suspend_drives_all :: SuspendDriveArgs where
  "suspend_drives_all = \<lparr> sdNodes = [''node-1''], sdDrives = [], sdDriveIDSelectors = [], sdDryRun = False \<rparr>"

theorem suspend_resume_correct_witness:
  "(\<exists>v. world_volumes (snd (SuspendVolumes store_client suspend_all volume_world)) ''pvc-1'' = Some v \<and> Volume_IsSuspended store_client v) \<and>
   world_drives (snd (SuspendVolumes store_client suspend_all volume_world)) = world_drives volume_world \<and>
   (\<exists>d. world_drives (snd (SuspendDrives store_client suspend_drives_all volume_world)) ''drive-1'' = Some d \<and> Drive_IsSuspended store_client d) \<and>
   world_volumes (snd (SuspendDrives store_client suspend_drives_all volume_world)) = world_volumes volume_world"
proof -
  have "case world_volumes (snd (SuspendVolumes store_client suspend_all volume_world)) ''pvc-1'' of
        None \<Rightarrow> False | Some v \<Rightarrow> Volume_IsSuspended store_client v"
    and "case world_drives (snd (SuspendDrives store_client suspend_drives_all volume_world)) ''drive-1'' of
        None \<Rightarrow> False | Some d \<Rightarrow> Drive_IsSuspended store_client d"
    by code_simp+
  then show ?thesis
    using suspend_resume_correct [OF store_cluster.cluster_axioms, of suspend_drives_all volume_world suspend_all]
    by (auto split: option.splits)
qed

text \<open>
  C17. Labelling. \<^verbatim>\<open>LabelDrives\<close> and \<^verbatim>\<open>LabelVolumes\<close> refuse
  a request that names a reserved key, before anything is changed; otherwise they change nothing
  but labels, and only under the keys of the request, so no label DirectPV itself relies on
  ever changes.
\<close>

theorem label_correct:
  assumes "cluster C dstore vstore"
  shows "vstore (snd (LabelDrives C dargs labels w)) = vstore w \<and>
     changed (\<lambda>d d'. \<not> ldDryRun dargs \<and> relabelled {k \<in> labelKey ` set labels. \<not> IsReserved k} d d')
       (dstore w) (dstore (snd (LabelDrives C dargs labels w))) \<and>
     dstore (snd (LabelVolumes C vargs labels w)) = dstore w \<and>
     changed (\<lambda>v v'. \<not> lvDryRun vargs \<and> relabelled {k \<in> labelKey ` set labels. \<not> IsReserved k} v v')
       (vstore w) (vstore (snd (LabelVolumes C vargs labels w))) \<and>
     ((\<exists>l \<in> set labels. IsReserved (labelKey l)) \<longrightarrow>
        (\<exists>e. LabelDrives C dargs labels w = (([], Some e), w) \<and> LabelVolumes C vargs labels w = (([], Some e), w)))"
proof (cases "\<exists>l \<in> set labels. IsReserved (labelKey l)")
  case True
  then obtain e where "reserved_label labels = Some e"
    by (cases "find (\<lambda>l. IsReserved (labelKey l)) labels") (auto simp: reserved_label_def find_None_iff)
  then show ?thesis by (simp add: LabelDrives_def LabelVolumes_def)
next
  case False
  then have "{k \<in> labelKey ` set labels. \<not> IsReserved k} = labelKey ` set labels" by auto
  moreover have "reserved_label labels = None" using False by (simp add: reserved_label_def find_None_iff)
  ultimately show ?thesis
    using False cluster.LabelDrives_spec [OF assms, of labels dargs w] cluster.LabelVolumes_spec [OF assms, of labels vargs w]
    by simp
qed

definition label_all :: LabelDriveArgs where
  "label_all = \<lparr> ldNodes = [], ldDrives = [], ldDriveStatus = [DriveStatusReady], ldDriveIDs = [], ldLabelSelectors = [], ldDryRun = False \<rparr>"

definition label_no_volume :: LabelVolumeArgs where
  "label_no_volume = \<lparr> lvNodes = [], lvDrives = [], lvDriveIDs = [], lvPodNames = [], lvPodNamespaces = [], lvVolumeStatus = [],
     lvVolumeNames = [], lvLabelSelectors = [], lvDryRun = False \<rparr>"

definition tier_label :: "Label list" where
  "tier_label = [\<lparr> labelKey = ''rack'', labelValue = ''r1'', labelRemove = False \<rparr>]"

theorem label_correct_witness:
  "(\<exists>d. world_drives (snd (LabelDrives store_client label_all tier_label sample_world)) ''drive-1'' = Some d \<and>
      objLabels d ''rack'' = Some ''r1'') \<and>
   (\<exists>d. world_drives (snd (LabelDrives store_client label_all tier_label sample_world)) ''drive-2'' = Some d \<and>
      objLabels d ''rack'' = None) \<and>
   world_volumes (snd (LabelDrives store_client label_all tier_label sample_world)) = world_volumes sample_world"
proof -
  have "case world_drives (snd (LabelDrives store_client label_all tier_label sample_world)) ''drive-1'' of
      None \<Rightarrow> False | Some d \<Rightarrow> objLabels d ''rack'' = Some ''r1''"
    and "case world_drives (snd (LabelDrives store_client label_all tier_label sample_world)) ''drive-2'' of
      None \<Rightarrow> False | Some d \<Rightarrow> objLabels d ''rack'' = None"
    by code_simp+
  then show ?thesis
    using label_correct [OF store_cluster.cluster_axioms, of label_all tier_label sample_world label_no_volume]
    by (auto split: option.splits)
qed

text \<open>
  C18. Cleaning. \<^verbatim>\<open>Clean\<close> changes no drive, and of the volumes only those whose
  persistent volume does not exist or is released or failed: they lose their
  protection by the persistent volume and are deleted, and nothing else of them changes. A dry run
  changes nothing.
\<close>

theorem Clean_correct:
  assumes "cluster C dstore vstore" and "\<And>n w. fst (getPhase n w) = pv n"
    and "\<And>n w. dstore (snd (getPhase n w)) = dstore w \<and> vstore (snd (getPhase n w)) = vstore w"
  shows "dstore (snd (Clean C getPhase args w)) = dstore w \<and>
     changed (\<lambda>v v'. \<not> clDryRun args \<and> reclaimable pv v \<and> cleaned v v') (vstore w) (vstore (snd (Clean C getPhase args w)))"
  using cluster.Clean_spec [OF assms(1), of getPhase pv args w] assms(2,3) by blast

definition clean_all :: CleanArgs where
  "clean_all = \<lparr> clNodes = [], clDrives = [], clDriveIDs = [], clPodNames = [], clPodNamespaces = [], clVolumeStatus = [],
     clVolumeNames = [], clDryRun = False \<rparr>"

definition released_phase :: "string \<Rightarrow> (world, string) io" where
  "released_phase n w = (Inr ''Released'', w)"

theorem Clean_correct_witness:
  "(\<exists>v. world_volumes (snd (Clean store_client released_phase clean_all volume_world)) ''pvc-1'' = Some v \<and> DeletionTimestamp v \<noteq> None) \<and>
   world_drives (snd (Clean store_client released_phase clean_all volume_world)) = world_drives volume_world"
proof -
  have "case world_volumes (snd (Clean store_client released_phase clean_all volume_world)) ''pvc-1'' of
      None \<Rightarrow> False | Some v \<Rightarrow> DeletionTimestamp v \<noteq> None"
    by code_simp
  then show ?thesis
    using Clean_correct [OF store_cluster.cluster_axioms, of released_phase "\<lambda>_. Inr ''Released''" clean_all volume_world]
    by (auto simp: released_phase_def split: option.splits)
qed

end
