(* ===== verification/Devices.thy ===== *)
theory Devices
  imports Host "HOL-Library.List_Lexorder" "HOL-Library.Char_ord"
begin

text \<open>
  Block devices of a node, \<^verbatim>\<open>pkg/device\<close>: reading them from udev, sysfs and procfs,
  their identity, and whether one may become a drive. Reading files is a parameter: \<open>probe_env\<close>
  extends the environment of a node service with the file system calls, the XFS prober and
  SHA-256. Maps of strings are association lists with distinct keys, in insertion order.
\<close>

section \<open>Text\<close>

text \<open>\<^verbatim>\<open>strings.TrimSpace\<close>: the runes of a string as byte strings, without the blank
  ones at both ends.\<close>

function rune_chunks :: "string \<Rightarrow> string list" where
  "rune_chunks s =
     (if s = [] then []
      else take (snd (decode_rune s)) s # rune_chunks (drop (snd (decode_rune s)) s))"
  by pat_completeness auto
termination
proof (relation "measure length")
  fix s :: string
  assume "s \<noteq> []"
  then show "(drop (snd (decode_rune s)) s, s) \<in> measure length" using decode_rune_width [of s] by simp
qed simp

declare rune_chunks.simps [simp del, code del]

lemma rune_chunks_code [code]:
  "rune_chunks [] = []"
  "rune_chunks (c # s) =
     (if byte c < 128 then [c] # rune_chunks s
      else take (snd (decode_rune (c # s))) (c # s) # rune_chunks (drop (snd (decode_rune (c # s))) (c # s)))"
  by (subst rune_chunks.simps, simp add: decode_rune_def)+

definition blank_chunk :: "string \<Rightarrow> bool" where
  "blank_chunk c = IsSpace (fst (decode_rune c))"

definition strings_TrimSpace :: "string \<Rightarrow> string" where
  "strings_TrimSpace s = concat (rev (dropWhile blank_chunk (rev (dropWhile blank_chunk (rune_chunks s)))))"

text \<open>\<^verbatim>\<open>toSlice\<close>: the entries in the order of their keys.\<close>

definition toSlice :: "(string \<times> string) list \<Rightarrow> string \<Rightarrow> string list" where
  "toSlice m separator = map (\<lambda>key. key @ separator @ the (map_of m key)) (sort (map fst m))"

lemma strings_Join_Nil: "strings_Join xs sep = [] \<Longrightarrow> sep \<noteq> [] \<Longrightarrow> xs = [] \<or> xs = [[]]"
  by (cases xs rule: remdups_adj.cases) auto

lemma strings_Join_eq_Nil: "[] \<notin> set xs \<Longrightarrow> sep \<noteq> [] \<Longrightarrow> strings_Join xs sep = [] \<longleftrightarrow> xs = []"
  using strings_Join_Nil [of xs sep] by auto

section \<open>Devices\<close>

definition UdevDataDir :: string where "UdevDataDir = ''/run/udev/data''"

definition AppPrettyName :: string where "AppPrettyName = ''DirectPV''"

definition minSupportedDeviceSize :: int where
  "minSupportedDeviceSize = 512 * 1024 * 1024"

text \<open>The size is an unsigned 64-bit number, kept in range where it is computed.\<close>

record Device =
  dvName :: string
  dvMajorMinor :: string
  dvSize :: int
  dvHidden :: bool
  dvRemovable :: bool
  dvReadOnly :: bool
  dvPartitioned :: bool
  dvHolders :: "string list"
  dvMountPoints :: "string list"
  dvSwapOn :: bool
  dvCDROM :: bool
  dvDMName :: string
  dvUdevData :: "(string \<times> string) list"

text \<open>Opening a file gives a reader; \<open>readdir\<close> opens and lists a directory. \<open>xfs_Probe\<close> gives
  UUID, label, total and free capacity of the file system on a device, \<open>hash64\<close> is SHA-256 in
  base 64, \<open>errorText\<close> the text of an error and \<open>lowerErrorText\<close> that text in lower
  case. \<^verbatim>\<open>sys.NewMountInfo\<close> is \<open>getMounts\<close> of the environment.\<close>

record 'w probe_env = "'w env" +
  os_Open :: "string \<Rightarrow> ('w, reader) io"
  readdir :: "string \<Rightarrow> ('w, string list) io"
  xfs_Probe :: "string \<Rightarrow> ('w, string \<times> string \<times> int \<times> int) io"
  os_Symlink :: "string \<Rightarrow> string \<Rightarrow> ('w, unit) io"
  hash64 :: "string \<Rightarrow> string"
  errorText :: "error \<Rightarrow> string"
  lowerErrorText :: "error \<Rightarrow> string"

definition udev_get :: "Device \<Rightarrow> string \<Rightarrow> string" where
  "udev_get d key = (case map_of (dvUdevData d) key of None \<Rightarrow> [] | Some v \<Rightarrow> v)"

definition Device_ID :: "(string \<Rightarrow> string) \<Rightarrow> NodeID \<Rightarrow> Device \<Rightarrow> string" where
  "Device_ID hash node d =
     (let deviceMap =
            [(''node'', node), (''name'', dvName d), (''majorminor'', dvMajorMinor d),
             (''size'', FormatUint (nat (dvSize d))), (''hidden'', FormatBool (dvHidden d)),
             (''removable'', FormatBool (dvRemovable d)), (''readonly'', FormatBool (dvReadOnly d)),
             (''partitioned'', FormatBool (dvPartitioned d)),
             (''holders'', strings_Join (sort (dvHolders d)) '',''),
             (''mountpoints'', strings_Join (sort (dvMountPoints d)) '',''),
             (''swapon'', FormatBool (dvSwapOn d)), (''cdrom'', FormatBool (dvCDROM d)),
             (''dmname'', dvDMName d), (''udevdata'', strings_Join (toSlice (dvUdevData d) ''='') '';'')]
      in dvMajorMinor d @ ''$'' @ hash (strings_Join (toSlice deviceMap '':'') [CHR 0x0A]))"

definition Device_Make :: "Device \<Rightarrow> string" where
  "Device_Make d =
     strings_Join
       ((if dvDMName d \<noteq> [] then [dvDMName d] else []) @
        (if udev_get d ''E:ID_VENDOR'' \<noteq> [] then [udev_get d ''E:ID_VENDOR''] else []) @
        (if udev_get d ''E:ID_MODEL'' \<noteq> [] then [udev_get d ''E:ID_MODEL''] else []) @
        (case map_of (dvUdevData d) ''E:ID_PART_ENTRY_NUMBER'' of
           None \<Rightarrow> [] | Some number \<Rightarrow> [''(Part '' @ number @ '')'']))
       '' ''"

definition PartTableType :: "Device \<Rightarrow> string" where
  "PartTableType d = udev_get d ''E:ID_PART_TABLE_TYPE''"

definition Device_FSType :: "Device \<Rightarrow> string" where
  "Device_FSType d = udev_get d ''E:ID_FS_TYPE''"

definition Device_FSUUID :: "Device \<Rightarrow> string" where
  "Device_FSUUID d = udev_get d ''E:ID_FS_UUID''"

definition used_reasons :: "('w, 'b) probe_env_scheme \<Rightarrow> Device \<Rightarrow> 'w \<Rightarrow> string list \<times> 'w" where
  "used_reasons E d w =
     (if Device_FSType d = ''xfs'' \<and> Device_FSUUID d \<noteq> [] then
        call (api_Get (DriveClient E) (Device_FSUUID d) w)
          (\<lambda>err w. (if IsNotFound err then [] else [''internal error; '' @ errorText E err], w))
          (\<lambda>_ w. ([''Used by '' @ AppPrettyName], w))
      else ([], w))"

definition device_reasons :: "Device \<Rightarrow> string list" where
  "device_reasons d =
     (if dvSize d < minSupportedDeviceSize then [''Too small''] else []) @
     (if dvHidden d then [''Hidden''] else []) @
     (if dvReadOnly d then [''Read only''] else []) @
     (if dvPartitioned d then [''Partitioned''] else []) @
     (if dvHolders d \<noteq> [] then [''Held by other device''] else []) @
     (if dvMountPoints d \<noteq> [] then [''Mounted''] else []) @
     (if dvSwapOn d then [''Swap''] else []) @
     (if dvCDROM d then [''CDROM''] else [])"

definition DeniedReason :: "('w, 'b) probe_env_scheme \<Rightarrow> Device \<Rightarrow> 'w \<Rightarrow> string \<times> 'w" where
  "DeniedReason E d w =
     (case used_reasons E d w of (used, w') \<Rightarrow> (strings_Join (device_reasons d @ used) ''; '', w'))"

definition ToNodeDevice :: "('w, 'b) probe_env_scheme \<Rightarrow> NodeID \<Rightarrow> Device \<Rightarrow> 'w \<Rightarrow> NodeDevice \<times> 'w" where
  "ToNodeDevice E node d w =
     (case DeniedReason E d w of
        (reason, w') \<Rightarrow>
          (\<lparr> devName = dvName d, devID = Device_ID (hash64 E) node d, devMajorMinor = dvMajorMinor d, devSize = dvSize d,
             devMake = Device_Make d, devFSType = Device_FSType d, devFSUUID = Device_FSUUID d, devDeniedReason = reason \<rparr>, w'))"

section \<open>Files\<close>

text \<open>The first line of a file. An unreadable or missing attribute counts as empty.
  (\<^verbatim>\<open>os.ErrInvalid\<close> is no error of a system call on a file that was opened.)\<close>

definition readFirstLine_error :: "('w, 'b) probe_env_scheme \<Rightarrow> error \<Rightarrow> string result" where
  "readFirstLine_error E err =
     (if errors_Is_ErrNotExist err \<or> strings_Contains (lowerErrorText E err) ''no such device'' \<or>
         strings_Contains (lowerErrorText E err) ''invalid argument''
      then Inr [] else Inl err)"

definition readFirstLine :: "('w, 'b) probe_env_scheme \<Rightarrow> string \<Rightarrow> ('w, string) io" where
  "readFirstLine E filename w =
     call (os_Open E filename w)
       (\<lambda>err w. (readFirstLine_error E err, w))
       (\<lambda>file w.
          (case lines_from [] (fst file) of
             l # _ \<Rightarrow> Inr (strings_TrimSpace l)
           | [] \<Rightarrow> (case snd file of
                      None \<Rightarrow> Inr (strings_TrimSpace (fst file))
                    | Some err \<Rightarrow> readFirstLine_error E err), w))"

definition readdirnames :: "('w, 'b) probe_env_scheme \<Rightarrow> string \<Rightarrow> ('w, string list) io" where
  "readdirnames E dirname w =
     call (readdir E dirname w)
       (\<lambda>err w. (if errors_Is_ErrNotExist err then Inr [] else Inl err, w))
       (\<lambda>names w. (Inr names, w))"

definition getHidden :: "('w, 'b) probe_env_scheme \<Rightarrow> string \<Rightarrow> 'w \<Rightarrow> bool \<times> 'w" where
  "getHidden E name w =
     call (readFirstLine E (''/sys/class/block/'' @ name @ ''/hidden'') w)
       (\<lambda>_ w. (False, w)) (\<lambda>v w. (v = ''1'', w))"

definition getFlag :: "('w, 'b) probe_env_scheme \<Rightarrow> string \<Rightarrow> string \<Rightarrow> ('w, bool) io" where
  "getFlag E attr name w =
     call (readFirstLine E (''/sys/class/block/'' @ name @ ''/'' @ attr) w)
       (\<lambda>err w. (Inl err, w)) (\<lambda>s w. (Inr (s \<noteq> [] \<and> s \<noteq> ''0''), w))"

definition getRemovable :: "('w, 'b) probe_env_scheme \<Rightarrow> string \<Rightarrow> ('w, bool) io" where
  "getRemovable E name = getFlag E ''removable'' name"

definition getReadOnly :: "('w, 'b) probe_env_scheme \<Rightarrow> string \<Rightarrow> ('w, bool) io" where
  "getReadOnly E name = getFlag E ''ro'' name"

definition defaultBlockSize :: int where "defaultBlockSize = 512"

definition getSize :: "('w, 'b) probe_env_scheme \<Rightarrow> string \<Rightarrow> ('w, int) io" where
  "getSize E name w =
     call (readFirstLine E (''/sys/class/block/'' @ name @ ''/size'') w)
       (\<lambda>err w. (Inl err, w))
       (\<lambda>s w.
          (if s = [] then Inr 0
           else case ParseUint s of
                  None \<Rightarrow> Inl (ErrorString ''invalid size'')
                | Some n \<Rightarrow> Inr (u64 (int n * defaultBlockSize)), w))"

definition getPartitions :: "('w, 'b) probe_env_scheme \<Rightarrow> string \<Rightarrow> ('w, string list) io" where
  "getPartitions E name w =
     call (readdirnames E (''/sys/block/'' @ name) w)
       (\<lambda>err w. (Inl err, w)) (\<lambda>names w. (Inr (filter (\<lambda>n. HasPrefix n name) names), w))"

definition getHolders :: "('w, 'b) probe_env_scheme \<Rightarrow> string \<Rightarrow> ('w, string list) io" where
  "getHolders E name = readdirnames E (''/sys/class/block/'' @ name @ ''/holders'')"

definition getDMName :: "('w, 'b) probe_env_scheme \<Rightarrow> string \<Rightarrow> ('w, string) io" where
  "getDMName E name = readFirstLine E (''/sys/class/block/'' @ name @ ''/dm/name'')"

text \<open>\<^verbatim>\<open>GetStat\<close>: the numbers of a device's statistics, in \<^verbatim>\<open>uint64\<close>.\<close>

fun parse_stats :: "string list \<Rightarrow> nat list \<Rightarrow> nat list result" where
  "parse_stats [] stats = Inr stats"
| "parse_stats (token # tokens) stats =
     (case ParseUint token of
        None \<Rightarrow> Inl (ErrorString ''invalid number'')
      | Some n \<Rightarrow> parse_stats tokens (stats @ [n]))"

definition GetStat :: "('w, 'b) probe_env_scheme \<Rightarrow> string \<Rightarrow> ('w, nat list) io" where
  "GetStat E name w =
     call (readFirstLine E (''/sys/class/block/'' @ name @ ''/stat'') w)
       (\<lambda>err w. (Inl err, w)) (\<lambda>line w. (parse_stats (strings_Fields line) [], w))"

text \<open>The device name in a uevent file; a file without one ends with the end-of-file error.\<close>

fun uevent_name :: "string list \<Rightarrow> string option" where
  "uevent_name [] = None"
| "uevent_name (s # ss) = (if HasPrefix s ''DEVNAME='' then Some (strings_TrimSpace (drop 8 s)) else uevent_name ss)"

definition getDeviceName :: "('w, 'b) probe_env_scheme \<Rightarrow> string \<Rightarrow> ('w, string) io" where
  "getDeviceName E majorMinor w =
     call (os_Open E (''/sys/dev/block/'' @ majorMinor @ ''/uevent'') w)
       (\<lambda>err w. (Inl err, w))
       (\<lambda>file w.
          (case uevent_name (lines_from [] (fst file)) of
             Some name \<Rightarrow> if name = [] then Inl (ErrorString ''empty device name'') else Inr name
           | None \<Rightarrow> (case snd file of None \<Rightarrow> Inl (ErrorString ''EOF'') | Some err \<Rightarrow> Inl err), w))"

section \<open>Parsers\<close>

text \<open>A line of udev data without \<^verbatim>\<open>=\<close> becomes a key as it is, its newline included.\<close>

definition udev_property :: "string \<Rightarrow> (string \<times> string) list \<Rightarrow> (string \<times> string) list" where
  "udev_property s props =
     (case strings_SplitN2 s ''='' of
        [t] \<Rightarrow> assign_key t [] props
      | [k, v] \<Rightarrow> assign_key k (strings_TrimSpace v) props
      | _ \<Rightarrow> props)"

definition parseUdevData :: "reader \<Rightarrow> (string \<times> string) list result" where
  "parseUdevData r =
     (case snd r of
        Some err \<Rightarrow> Inl err
      | None \<Rightarrow> Inr (fold udev_property (lines_from [] (fst r)) []))"

definition readUdevData :: "('w, 'b) probe_env_scheme \<Rightarrow> string \<Rightarrow> ('w, (string \<times> string) list) io" where
  "readUdevData E majorMinor w =
     call (os_Open E (path_Join [UdevDataDir, ''b'' @ majorMinor]) w)
       (\<lambda>err w. (Inl err, w)) (\<lambda>file w. (parseUdevData file, w))"

fun cdrom_lines :: "string list \<Rightarrow> StringSet option" where
  "cdrom_lines [] = None"
| "cdrom_lines (s # ss) =
     (case strings_Index s ''drive name:'' of
        None \<Rightarrow> cdrom_lines ss
      | Some i \<Rightarrow> Some (fold StringSet_Set (strings_Fields (drop (i + length ''drive name:'') s)) []))"

definition parseCDROMs :: "reader \<Rightarrow> StringSet result" where
  "parseCDROMs r =
     (case cdrom_lines (lines_from [] (fst r)) of
        Some names \<Rightarrow> Inr names
      | None \<Rightarrow> (case snd r of None \<Rightarrow> Inr [] | Some err \<Rightarrow> Inl err))"

text \<open>A blank line has no first field.\<close>

fun swap_lines :: "string list \<Rightarrow> StringSet \<Rightarrow> StringSet result" where
  "swap_lines [] filenames = Inr filenames"
| "swap_lines (s # ss) filenames =
     (case strings_Fields s of
        [] \<Rightarrow> Inl (Panic ''index out of range'')
      | f # _ \<Rightarrow> swap_lines ss (StringSet_Set f filenames))"

definition parseSwaps :: "reader \<Rightarrow> StringSet result" where
  "parseSwaps r =
     (case swap_lines (lines_from [] (fst r)) [] of
        Inl e \<Rightarrow> Inl e
      | Inr names \<Rightarrow> (case snd r of None \<Rightarrow> Inr names | Some err \<Rightarrow> Inl err))"

definition read_set :: "('w, 'b) probe_env_scheme \<Rightarrow> string \<Rightarrow> (reader \<Rightarrow> StringSet result) \<Rightarrow> ('w, StringSet) io" where
  "read_set E filename parse w =
     call (os_Open E filename w)
       (\<lambda>err w. (if errors_Is_ErrNotExist err then Inr [] else Inl err, w))
       (\<lambda>file w. (parse file, w))"

definition getCDROMs :: "('w, 'b) probe_env_scheme \<Rightarrow> ('w, StringSet) io" where
  "getCDROMs E = read_set E ''/proc/sys/dev/cdrom/info'' parseCDROMs"

definition getSwaps :: "('w, 'b) probe_env_scheme \<Rightarrow> ('w, StringSet) io" where
  "getSwaps E = read_set E ''/proc/swaps'' parseSwaps"

section \<open>Probing\<close>

definition newDevice ::
  "('w, 'b) probe_env_scheme \<Rightarrow> MountInfo \<Rightarrow> StringSet \<Rightarrow> StringSet \<Rightarrow> string \<Rightarrow> string \<Rightarrow> (string \<times> string) list \<Rightarrow>
   ('w, Device) io" where
  "newDevice E mountInfo cdroms swaps name majorMinor udevData w =
     (let mountPoints = fold (\<lambda>e. StringSet_Set (MountPoint e)) (MountInfo_List (FilterByMajorMinor majorMinor mountInfo)) []
      in call (getSize E name w)
        (\<lambda>err w. (Inl (Wrap ''unable to get size'' err), w))
        (\<lambda>size w. case getHidden E name w of (hidden, w) \<Rightarrow>
           call (getRemovable E name w)
             (\<lambda>err w. (Inl (Wrap ''unable to get removable flag'' err), w))
             (\<lambda>removable w. call (getReadOnly E name w)
                (\<lambda>err w. (Inl (Wrap ''unable to get read-only flag'' err), w))
                (\<lambda>readOnly w. call (getHolders E name w)
                   (\<lambda>err w. (Inl (Wrap ''unable to get holders'' err), w))
                   (\<lambda>holders w. call (getPartitions E name w)
                      (\<lambda>err w. (Inl (Wrap ''unable to get partition info'' err), w))
                      (\<lambda>partitions w. call (getDMName E name w)
                         (\<lambda>err w. (Inl (Wrap ''unable to get DM name'' err), w))
                         (\<lambda>dmName w.
                            (Inr \<lparr> dvName = name, dvMajorMinor = majorMinor, dvSize = size, dvHidden = hidden,
                                   dvRemovable = removable, dvReadOnly = readOnly, dvPartitioned = (partitions \<noteq> []),
                                   dvHolders = holders, dvMountPoints = StringSet_ToSlice mountPoints,
                                   dvSwapOn = StringSet_Exist swaps (AddDevPrefix name),
                                   dvCDROM = StringSet_Exist cdroms name, dvDMName = dmName,
                                   dvUdevData = udevData \<rparr>, w))))))))"

text \<open>Loop devices are left out: \<^verbatim>\<open>^loop[0-9]*\<close> matches every name with that start.\<close>

fun udev_names ::
  "('w, 'b) probe_env_scheme \<Rightarrow> string list \<Rightarrow> (string \<times> string) list \<Rightarrow> (string \<times> (string \<times> string) list) list \<Rightarrow>
   ('w, (string \<times> string) list \<times> (string \<times> (string \<times> string) list) list) io" where
  "udev_names E [] deviceMap udevDataMap w = (Inr (deviceMap, udevDataMap), w)"
| "udev_names E (name # names) deviceMap udevDataMap w =
     (if \<not> HasPrefix name ''b'' then udev_names E names deviceMap udevDataMap w
      else
        call (getDeviceName E (drop 1 name) w)
          (\<lambda>err w. (Inl err, w))
          (\<lambda>deviceName w.
             if HasPrefix deviceName ''loop'' then udev_names E names deviceMap udevDataMap w
             else call (readUdevData E (drop 1 name) w)
               (\<lambda>err w. (Inl err, w))
               (\<lambda>properties w.
                  udev_names E names (assign_key deviceName (drop 1 name) deviceMap)
                    (assign_key deviceName properties udevDataMap) w)))"

definition probeFromUdev ::
  "('w, 'b) probe_env_scheme \<Rightarrow> ('w, (string \<times> string) list \<times> (string \<times> (string \<times> string) list) list) io" where
  "probeFromUdev E w =
     call (readdir E UdevDataDir w) (\<lambda>err w. (Inl err, w)) (\<lambda>names w. udev_names E names [] [] w)"

text \<open>The inputs both probes start with.\<close>

definition with_tables ::
  "('w, 'b) probe_env_scheme \<Rightarrow> (MountInfo \<Rightarrow> StringSet \<Rightarrow> StringSet \<Rightarrow> ('w, 'a) io) \<Rightarrow> ('w, 'a) io" where
  "with_tables E k w =
     call (getMounts E w)
       (\<lambda>err w. (Inl (Wrap ''unable to get mounts'' err), w))
       (\<lambda>mountInfo w. call (getCDROMs E w)
          (\<lambda>err w. (Inl (Wrap ''unable to get CDROM information'' err), w))
          (\<lambda>cdroms w. call (getSwaps E w)
             (\<lambda>err w. (Inl (Wrap ''unable to get swap information'' err), w))
             (\<lambda>swaps w. k mountInfo cdroms swaps w)))"

text \<open>Go ranges over the map of udev data in any order; the model takes the order of the map.\<close>

fun probe_all ::
  "('w, 'b) probe_env_scheme \<Rightarrow> MountInfo \<Rightarrow> StringSet \<Rightarrow> StringSet \<Rightarrow> (string \<times> string) list \<Rightarrow>
   (string \<times> (string \<times> string) list) list \<Rightarrow> Device list \<Rightarrow> ('w, Device list) io" where
  "probe_all E mountInfo cdroms swaps deviceMap [] devices w = (Inr devices, w)"
| "probe_all E mountInfo cdroms swaps deviceMap ((name, udevData) # rest) devices w =
     call (newDevice E mountInfo cdroms swaps name (map_get (map_of deviceMap) name) udevData w)
       (\<lambda>err w. (Inl err, w))
       (\<lambda>device w. probe_all E mountInfo cdroms swaps deviceMap rest (devices @ [device]) w)"

definition probe :: "('w, 'b) probe_env_scheme \<Rightarrow> ('w, Device list) io" where
  "probe E w =
     call (probeFromUdev E w)
       (\<lambda>err w. (Inl (Wrap ''unable to probe from udev'' err), w))
       (\<lambda>(deviceMap, udevDataMap) w.
          with_tables E (\<lambda>mountInfo cdroms swaps. probe_all E mountInfo cdroms swaps deviceMap udevDataMap []) w)"

fun probe_each ::
  "('w, 'b) probe_env_scheme \<Rightarrow> MountInfo \<Rightarrow> StringSet \<Rightarrow> StringSet \<Rightarrow> string list \<Rightarrow> Device list \<Rightarrow> ('w, Device list) io" where
  "probe_each E mountInfo cdroms swaps [] devices w = (Inr devices, w)"
| "probe_each E mountInfo cdroms swaps (mm # mms) devices w =
     call (readUdevData E mm w)
       (\<lambda>err w. if errors_Is_ErrNotExist err then probe_each E mountInfo cdroms swaps mms devices w
                else (Inl (Wrap ''unable to read udev data'' err), w))
       (\<lambda>udevData w. call (getDeviceName E mm w)
          (\<lambda>err w. (Inl (Wrap ''unable to get device name'' err), w))
          (\<lambda>name w. call (newDevice E mountInfo cdroms swaps name mm udevData w)
             (\<lambda>err w. (Inl err, w))
             (\<lambda>device w. probe_each E mountInfo cdroms swaps mms (devices @ [device]) w)))"

definition probeDevices :: "('w, 'b) probe_env_scheme \<Rightarrow> string list \<Rightarrow> ('w, Device list) io" where
  "probeDevices E majorMinor w =
     with_tables E (\<lambda>mountInfo cdroms swaps. probe_each E mountInfo cdroms swaps majorMinor []) w"

section \<open>What reading devices leaves alone\<close>

definition probe_step :: "('w, 'b) probe_env_scheme \<Rightarrow> 'w \<Rightarrow> 'w \<Rightarrow> bool" where
  "probe_step E w w' \<longleftrightarrow>
     (\<exists>a. w' = snd (os_Open E a w)) \<or> (\<exists>a. w' = snd (readdir E a w)) \<or> (\<exists>a. w' = snd (xfs_Probe E a w)) \<or>
     (\<exists>a b. w' = snd (os_Symlink E a b w))"

text \<open>What the calls of a probe keep, the probe keeps.\<close>

locale probe_frame =
  fixes E :: "('w, 'b) probe_env_scheme" and F :: "'w \<Rightarrow> 'f"
  assumes files_keep: "probe_step E w w' \<Longrightarrow> F w' = F w"
    and host_keep: "host_step E w w' \<Longrightarrow> F w' = F w"
    and reads_keep: "keeps F (api_Get (DriveClient E) n)"
begin

lemma keeps_probe_step: "(\<And>w. probe_step E w (snd (f w))) \<Longrightarrow> keeps F f"
  unfolding keeps_def by (simp add: files_keep)

lemma keeps_files:
  "keeps F (os_Open E a)" "keeps F (readdir E a)" "keeps F (xfs_Probe E a)" "keeps F (os_Symlink E a b)"
  by (rule keeps_probe_step, auto simp: probe_step_def)+

lemma keeps_host: "keeps F (getMounts E)" "keeps F (xfs_Mount E a b)" "keeps F (unmount E a)" "keeps F (mkdir E a)"
  by (rule keepsI, rule host_keep, erule host_stepI)+

lemma keeps_readFirstLine: "keeps F (readFirstLine E a)"
  unfolding readFirstLine_def [abs_def] by (intro keeps_rules keeps_files)

lemma keeps_readdirnames: "keeps F (readdirnames E a)"
  unfolding readdirnames_def [abs_def] by (intro keeps_rules keeps_files)

lemma keeps_sysfs:
  "keeps F (getHidden E n)" "keeps F (getRemovable E n)" "keeps F (getReadOnly E n)" "keeps F (getSize E n)"
  "keeps F (getPartitions E n)" "keeps F (getHolders E n)" "keeps F (getDMName E n)" "keeps F (getDeviceName E n)"
  unfolding getHidden_def [abs_def] getRemovable_def getReadOnly_def getFlag_def [abs_def] getSize_def [abs_def]
    getPartitions_def [abs_def] getHolders_def getDMName_def getDeviceName_def [abs_def]
  by (intro keeps_rules keeps_files keeps_readFirstLine keeps_readdirnames)+

lemma keeps_tables: "keeps F (readUdevData E mm)" "keeps F (getCDROMs E)" "keeps F (getSwaps E)"
  unfolding readUdevData_def [abs_def] getCDROMs_def getSwaps_def read_set_def [abs_def]
  by (intro keeps_rules keeps_files)+

lemma keeps_newDevice: "keeps F (newDevice E mi cds sws n mm u)"
  unfolding newDevice_def [abs_def] Let_def by (intro keeps_rules keeps_sysfs)

lemma keeps_udev_names: "keeps F (udev_names E names m u)"
proof (induction names arbitrary: m u)
  case (Cons n names)
  have "udev_names E (n # names) m u = (\<lambda>w. if \<not> HasPrefix n ''b'' then udev_names E names m u w
      else call (getDeviceName E (drop 1 n) w) (\<lambda>err w. (Inl err, w))
        (\<lambda>dn w. if HasPrefix dn ''loop'' then udev_names E names m u w
           else call (readUdevData E (drop 1 n) w) (\<lambda>err w. (Inl err, w))
             (\<lambda>ps w. udev_names E names (assign_key dn (drop 1 n) m) (assign_key dn ps u) w)))"
    by (simp add: fun_eq_iff)
  then show ?case by (simp only:) (intro keeps_rules keeps_sysfs keeps_tables Cons.IH)
qed (simp add: keeps_def)

lemma keeps_with_tables: "(\<And>mi cds sws. keeps F (k mi cds sws)) \<Longrightarrow> keeps F (with_tables E k)"
  unfolding with_tables_def [abs_def] by (intro keeps_rules keeps_host keeps_tables)

lemma keeps_probe_all: "keeps F (probe_all E mi cds sws m us ds)"
proof (induction us arbitrary: ds)
  case (Cons u us)
  obtain n props where u: "u = (n, props)" by fastforce
  have "probe_all E mi cds sws m (u # us) ds = (\<lambda>w. call (newDevice E mi cds sws n (map_get (map_of m) n) props w)
      (\<lambda>err w. (Inl err, w)) (\<lambda>d w. probe_all E mi cds sws m us (ds @ [d]) w))"
    by (simp add: fun_eq_iff u)
  then show ?case by (simp only:) (intro keeps_rules keeps_newDevice Cons.IH)
qed (simp add: keeps_def)

lemma keeps_probe_each: "keeps F (probe_each E mi cds sws mms ds)"
proof (induction mms arbitrary: ds)
  case (Cons mm mms)
  have "probe_each E mi cds sws (mm # mms) ds = (\<lambda>w. call (readUdevData E mm w)
       (\<lambda>err w. if errors_Is_ErrNotExist err then probe_each E mi cds sws mms ds w
                else (Inl (Wrap ''unable to read udev data'' err), w))
       (\<lambda>udevData w. call (getDeviceName E mm w)
          (\<lambda>err w. (Inl (Wrap ''unable to get device name'' err), w))
          (\<lambda>name w. call (newDevice E mi cds sws name mm udevData w)
             (\<lambda>err w. (Inl err, w))
             (\<lambda>device w. probe_each E mi cds sws mms (ds @ [device]) w))))"
    by (simp add: fun_eq_iff)
  then show ?case by (simp only:) (intro keeps_rules keeps_newDevice keeps_sysfs keeps_tables Cons.IH)
qed (simp add: keeps_def)

lemma keeps_probe: "keeps F (probe E)" "keeps F (probeDevices E mms)"
proof -
  have "keeps F (probeFromUdev E)"
    unfolding probeFromUdev_def [abs_def] by (intro keeps_rules keeps_files keeps_udev_names)
  then show "keeps F (probe E)"
    unfolding probe_def [abs_def] case_prod_beta by (intro keeps_rules keeps_with_tables keeps_probe_all)
  show "keeps F (probeDevices E mms)"
    unfolding probeDevices_def [abs_def] by (intro keeps_with_tables keeps_probe_each)
qed

lemma keeps_DeniedReason: "keeps F (DeniedReason E dev)"
proof -
  have "keeps F (used_reasons E dev)"
    unfolding used_reasons_def [abs_def] by (intro keeps_rules reads_keep)
  then show ?thesis unfolding DeniedReason_def [abs_def] by (intro keeps_rules)
qed

end

text \<open>A node whose probes change no object.\<close>

locale probe_cluster = host_cluster E dstore vstore
  for E :: "('w, 'b) probe_env_scheme" and dstore vstore +
  assumes files_drives: "probe_step E w w' \<Longrightarrow> dstore w' = dstore w"
    and files_volumes: "probe_step E w w' \<Longrightarrow> vstore w' = vstore w"

sublocale probe_cluster \<subseteq> drives_frame: probe_frame E dstore
proof unfold_locales
  show "keeps dstore (api_Get (DriveClient E) n)" for n by (rule keepsI) (rule d.get_frame)
qed (rule files_drives host_drives, assumption)+

sublocale probe_cluster \<subseteq> volumes_frame: probe_frame E vstore
proof unfold_locales
  show "keeps vstore (api_Get (DriveClient E) n)" for n by (rule keepsI) (rule drive_ops_volumes)
qed (rule files_volumes host_volumes, assumption)+

context probe_cluster
begin

text \<open>An operation that leaves the stored drives and volumes alone.\<close>

definition quiet :: "('w \<Rightarrow> 'r \<times> 'w) \<Rightarrow> bool" where
  "quiet f \<longleftrightarrow> keeps dstore f \<and> keeps vstore f"

lemma quietD: "quiet f \<Longrightarrow> f w = (r, w') \<Longrightarrow> dstore w' = dstore w \<and> vstore w' = vstore w"
  unfolding quiet_def using keepsD by metis

lemma quietI: "keeps dstore f \<Longrightarrow> keeps vstore f \<Longrightarrow> quiet f"
  by (simp add: quiet_def)

lemma quiet_call: "quiet f \<Longrightarrow> (\<And>e. quiet (h e)) \<Longrightarrow> (\<And>x. quiet (k x)) \<Longrightarrow> quiet (\<lambda>w. call (f w) h k)"
  unfolding quiet_def by (intro conjI keeps_call) simp_all

lemma quiet_case: "quiet f \<Longrightarrow> (\<And>x. quiet (k x)) \<Longrightarrow> quiet (\<lambda>w. case f w of (x, w') \<Rightarrow> k x w')"
  unfolding quiet_def by (intro conjI keeps_case) simp_all

lemma quiet_if: "quiet f \<Longrightarrow> quiet g \<Longrightarrow> quiet (\<lambda>w. if b then f w else g w)"
  unfolding quiet_def by (intro conjI keeps_if) simp_all

lemma quiet_value: "quiet (\<lambda>w. (f w, w))"
  by (intro quietI keeps_value)

lemma quiet_files: "quiet (os_Open E a)" "quiet (readdir E a)" "quiet (xfs_Probe E a)" "quiet (os_Symlink E a b)"
  by (intro quietI drives_frame.keeps_files volumes_frame.keeps_files)+

lemma quiet_host: "quiet (getMounts E)" "quiet (xfs_Mount E a b)"
  by (intro quietI drives_frame.keeps_host volumes_frame.keeps_host)+

lemma quiet_reads: "quiet (api_Get (DriveClient E) n)"
  by (intro quietI drives_frame.reads_keep volumes_frame.reads_keep)

lemma quiet_probe: "quiet (probe E)"
  by (intro quietI drives_frame.keeps_probe volumes_frame.keeps_probe)

lemma used_reasons_spec:
  assumes "\<forall>n e w'. api_Get (DriveClient E) n w = (Inl e, w') \<longrightarrow> IsNotFound e"
  shows "[] \<notin> set (fst (used_reasons E dev w)) \<and>
    (fst (used_reasons E dev w) = [] \<longleftrightarrow>
       (Device_FSType dev = ''xfs'' \<and> Device_FSUUID dev \<noteq> [] \<longrightarrow> dstore w (Device_FSUUID dev) = None))"
proof -
  obtain a w1 where g: "api_Get (DriveClient E) (Device_FSUUID dev) w = (a, w1)" by fastforce
  show ?thesis
    using g assms d.get_not_found [of "Device_FSUUID dev" w _ w1] d.get_found [of "Device_FSUUID dev" w _ w1]
    by (cases a) (auto simp: used_reasons_def)
qed

lemma permitted_device:
  assumes "DeniedReason E dev w = ([], w')"
  shows "device_reasons dev = []"
    and "Device_FSType dev = ''xfs'' \<Longrightarrow> Device_FSUUID dev \<noteq> [] \<Longrightarrow> dstore w (Device_FSUUID dev) = None"
proof -
  obtain a w1 where g: "api_Get (DriveClient E) (Device_FSUUID dev) w = (a, w1)" by fastforce
  have "[] \<notin> set (device_reasons dev)" by (simp add: device_reasons_def)
  moreover have "[] \<notin> set (fst (used_reasons E dev w))"
    using g by (cases a) (auto simp: used_reasons_def)
  moreover have "strings_Join (device_reasons dev @ fst (used_reasons E dev w)) ''; '' = []"
    using assms by (simp add: DeniedReason_def split: prod.splits)
  ultimately have none: "device_reasons dev = [] \<and> fst (used_reasons E dev w) = []"
    using strings_Join_Nil [of "device_reasons dev @ fst (used_reasons E dev w)" "''; ''"] by (auto simp: append_eq_Cons_conv)
  then show "device_reasons dev = []" ..
  show "dstore w (Device_FSUUID dev) = None" if "Device_FSType dev = ''xfs''" "Device_FSUUID dev \<noteq> []"
    using none g that d.get_not_found [of "Device_FSUUID dev" w _ w1]
    by (cases a) (auto simp: used_reasons_def split: if_splits)
qed

end
section \<open>What a probe finds\<close>

lemma getSize_range: "getSize E n w = (Inr sz, w') \<Longrightarrow> 0 \<le> sz \<and> sz < 2 ^ 64 \<and> sz mod 512 = 0"
proof -
  assume a: "getSize E n w = (Inr sz, w')"
  have "u64 (x * 512) mod 512 = 0" for x
    by (simp add: u64_def mod_mod_cancel)
  moreover have "0 \<le> u64 x \<and> u64 x < 2 ^ 64" for x
    by (simp add: u64_def)
  ultimately show ?thesis
    using a unfolding getSize_def defaultBlockSize_def by (auto simp: call_def split: prod.splits sum.splits if_splits option.splits)
qed

lemma newDevice_fields:
  assumes "newDevice E mi cds sws n mm u w = (Inr d, w')"
  shows "dvName d = n \<and> dvMajorMinor d = mm \<and> dvUdevData d = u \<and> 0 \<le> dvSize d \<and> dvSize d < 2 ^ 64 \<and> dvSize d mod 512 = 0"
proof -
  obtain a w1 where s: "getSize E n w = (a, w1)" by fastforce
  then obtain sz where a: "a = Inr sz" using assms by (cases a) (simp_all add: newDevice_def)
  have "dvName d = n \<and> dvMajorMinor d = mm \<and> dvUdevData d = u \<and> dvSize d = sz"
    using assms s a unfolding newDevice_def Let_def by (auto simp: call_def split: prod.splits sum.splits)
  then show ?thesis using getSize_range [of E n w sz w1] s a by simp
qed

definition udev_maps_ok :: "(string \<times> string) list \<Rightarrow> (string \<times> (string \<times> string) list) list \<Rightarrow> bool" where
  "udev_maps_ok m u \<longleftrightarrow>
     map fst m = map fst u \<and> distinct (map fst u) \<and> (\<forall>n \<in> set (map fst u). n \<noteq> [] \<and> \<not> HasPrefix n ''loop'')"

lemma getDeviceName_nonempty: "getDeviceName E mm w = (Inr n, w') \<Longrightarrow> n \<noteq> []"
  by (auto simp: getDeviceName_def call_def split: prod.splits sum.splits option.splits if_splits)

lemma udev_names_ok:
  "udev_names E names m u w = (Inr (m', u'), w') \<Longrightarrow> udev_maps_ok m u \<Longrightarrow> udev_maps_ok m' u'"
proof (induction names arbitrary: m u w)
  case (Cons n names)
  show ?case
  proof (cases "HasPrefix n ''b''")
    case True
    obtain a w1 where g: "getDeviceName E (drop 1 n) w = (a, w1)" by fastforce
    then obtain dn where a: "a = Inr dn" using Cons.prems(1) True by (cases a) simp_all
    show ?thesis
    proof (cases "HasPrefix dn ''loop''")
      case False
      obtain b w2 where r: "readUdevData E (drop 1 n) w1 = (b, w2)" by fastforce
      then obtain ps where b: "b = Inr ps" using Cons.prems(1) True g a False by (cases b) simp_all
      have "dn \<noteq> []" using g unfolding a by (rule getDeviceName_nonempty)
      then have "udev_maps_ok (assign_key dn (drop 1 n) m) (assign_key dn ps u)"
        using Cons.prems(2) False by (auto simp: udev_maps_ok_def keys_assign_key)
      then show ?thesis using Cons.IH Cons.prems(1) True g a False r b by simp
    qed (use Cons True g a in simp)
  qed (use Cons in simp)
qed simp

lemma probe_all_devices:
  "probe_all E mi cds sws m us ds w = (Inr ds', w') \<Longrightarrow>
   \<exists>new. ds' = ds @ new \<and> map dvName new = map fst us \<and>
     (\<forall>d \<in> set new. 0 \<le> dvSize d \<and> dvSize d < 2 ^ 64 \<and> dvSize d mod 512 = 0)"
proof (induction us arbitrary: ds w)
  case (Cons u us)
  obtain n props where u: "u = (n, props)" by fastforce
  obtain a w1 where nd: "newDevice E mi cds sws n (map_get (map_of m) n) props w = (a, w1)" by fastforce
  then obtain d where a: "a = Inr d" using Cons.prems u by (cases a) simp_all
  obtain new where "ds' = (ds @ [d]) @ new" "map dvName new = map fst us"
      "\<forall>d \<in> set new. 0 \<le> dvSize d \<and> dvSize d < 2 ^ 64 \<and> dvSize d mod 512 = 0"
    using Cons.IH [of "ds @ [d]" w1] Cons.prems u nd a by auto
  then show ?case using newDevice_fields [OF nd [unfolded a]] u by (intro exI [of _ "d # new"]) simp
qed simp



section \<open>A node for the witnesses\<close>

text \<open>One disk with an XFS file system.\<close>

definition lf :: string where "lf = [CHR 0x0A]"

definition sample_files :: "(string \<times> string) list" where
  "sample_files =
     [(''/sys/dev/block/8:0/uevent'', ''MAJOR=8'' @ lf @ ''DEVNAME=sda'' @ lf),
      (''/run/udev/data/b8:0'', ''E:ID_MODEL=DISK'' @ lf @ ''E:ID_FS_TYPE=xfs'' @ lf),
      (''/sys/class/block/sda/size'', ''2097152'' @ lf)]"

definition probe_fields :: "('w probe_env \<Rightarrow> 'w probe_env) \<Rightarrow> 'w env \<Rightarrow> 'w probe_env" where
  "probe_fields f E =
     f (env.extend E (probe_env.fields
       (\<lambda>p w. (case map_of sample_files p of None \<Rightarrow> Inl (Errno ENOENT) | Some c \<Rightarrow> Inr (c, None), w))
       (\<lambda>p w. (if p = UdevDataDir then Inr [''b8:0''] else Inl (Errno ENOENT), w))
       (\<lambda>p w. (if p = ''/dev/sda'' then Inr (''drive-1'', ''DIRECTPV'', 2000, 1900) else Inl (ErrorString ''no file system''), w))
       (\<lambda>a b w. (Inr (), w)) (\<lambda>_. ''hash'') (\<lambda>_. ''error'') (\<lambda>_. ''error'')))"

definition store_probe :: "('b hworld_scheme) probe_env" where
  "store_probe = probe_fields id store_env"

interpretation store_prober: probe_cluster store_probe world_drives world_volumes
proof (intro probe_cluster.intro host_cluster.intro host_cluster_axioms.intro probe_cluster_axioms.intro cluster_of_store, goal_cases)
  case (5 w w')
  then show ?case by (auto simp: host_step_def store_probe_def probe_fields_def store_env_def world_drives_def env.defs)
next
  case (6 w w')
  then show ?case by (auto simp: host_step_def store_probe_def probe_fields_def store_env_def world_volumes_def env.defs)
qed (auto simp: probe_step_def store_probe_def probe_fields_def store_env_def store_client_def env.defs probe_env.defs)

text \<open>The same numbers in binary, for evaluation.\<close>

definition digits_int :: "string \<Rightarrow> int" where
  "digits_int s = foldl (\<lambda>n c. 10 * n + int (byte c - 48)) 0 s"

lemma digits_int: "int (digits_value s) = digits_int s"
proof -
  have "int (foldl (\<lambda>n c. 10 * n + (byte c - 48)) a s) = foldl (\<lambda>n c. 10 * n + int (byte c - 48)) (int a) s" for a
    by (induction s arbitrary: a) simp_all
  then show ?thesis by (simp add: digits_value_def digits_int_def)
qed

lemma getSize_code [code]:
  "getSize E name w =
     call (readFirstLine E (''/sys/class/block/'' @ name @ ''/size'') w)
       (\<lambda>err w. (Inl err, w))
       (\<lambda>s w.
          (if s = [] then Inr 0
           else if \<not> list_all is_digit s \<or> 18446744073709551616 \<le> digits_int s then Inl (ErrorString ''invalid size'')
           else Inr (u64 (digits_int s * defaultBlockSize)), w))"
  by (auto simp: getSize_def ParseUint_def digits_int [symmetric] intro!: call_cong)

function format_int :: "int \<Rightarrow> string" where
  "format_int i = (if i < 10 then [digit_char (nat i)] else format_int (i div 10) @ [digit_char (nat (i mod 10))])"
  by pat_completeness auto
termination by (relation "measure nat") auto

declare format_int.simps [simp del]

lemma format_int: "FormatUint (nat i) = format_int i"
proof (induction i rule: format_int.induct)
  case (1 i)
  then show ?case
    by (subst FormatUint.simps, subst format_int.simps) (auto simp: nat_div_distrib nat_mod_distrib)
qed

declare format_int [code_unfold]

definition probe_world :: hworld where
  "probe_world = world.extend sample_world (hworld.fields [])"


definition free_device :: Device where
  "free_device =
     \<lparr> dvName = ''sdb'', dvMajorMinor = ''8:16'', dvSize = 1073741824, dvHidden = False, dvRemovable = False,
       dvReadOnly = False, dvPartitioned = False, dvHolders = [], dvMountPoints = [], dvSwapOn = False, dvCDROM = False,
       dvDMName = [], dvUdevData = [(''E:ID_FS_TYPE'', ''xfs''), (''E:ID_FS_UUID'', ''drive-3'')] \<rparr>"


end
