(* ===== verification/Device_Sync.thy ===== *)
theory Device_Sync
  imports Devices Admin_Loops
begin

text \<open>
  Matching the drives of a node with the devices found on it, \<^verbatim>\<open>pkg/device/sync.go\<close>
  and \<^verbatim>\<open>pkg/node\<close>. \<open>Device_Sync.Sync\<close> reads every drive of the node again and
  writes it back under retry; the lemmas show what it can change of a drive. Log lines and events are
  left out, and with them the checks of the mount table that only log.
\<close>

section \<open>Probing for file systems\<close>

record fs_device = Device +
  fdFSUUID :: string
  fdLabel :: string
  fdTotalCapacity :: int
  fdFreeCapacity :: int

definition skip_device :: "Device \<Rightarrow> bool" where
  "skip_device dev \<longleftrightarrow>
     dvHidden dev \<or> dvPartitioned dev \<or> dvHolders dev \<noteq> [] \<or> dvSwapOn dev \<or> dvCDROM dev \<or> dvSize dev = 0"

text \<open>\<^verbatim>\<open>deviceMap[fsuuid]\<close>, a Go map of slices.\<close>

definition devices_of :: "(string \<times> fs_device list) list \<Rightarrow> string \<Rightarrow> fs_device list" where
  "devices_of m fsuuid = (case map_of m fsuuid of None \<Rightarrow> [] | Some ds \<Rightarrow> ds)"

fun probe_fs :: "('w, 'b) probe_env_scheme \<Rightarrow> Device list \<Rightarrow> (string \<times> fs_device list) list \<Rightarrow> 'w \<Rightarrow>
    (string \<times> fs_device list) list \<times> 'w" where
  "probe_fs E [] m w = (m, w)"
| "probe_fs E (dev # devs) m w =
     (if skip_device dev then probe_fs E devs m w
      else call (xfs_Probe E (AddDevPrefix (dvName dev)) w)
        (\<lambda>err w. probe_fs E devs m w)
        (\<lambda>(fsuuid, label, totalCapacity, freeCapacity) w.
           probe_fs E devs
             (assign_key fsuuid
                (devices_of m fsuuid @
                 [Device.extend dev (fs_device.fields fsuuid label (i64 totalCapacity) (i64 freeCapacity))]) m) w))"

definition probeDeviceMap :: "('w, 'b) probe_env_scheme \<Rightarrow> ('w, (string \<times> fs_device list) list) io" where
  "probeDeviceMap E w =
     call (probe E w) (\<lambda>err w. (Inl err, w))
       (\<lambda>devices w. case probe_fs E devices [] w of (m, w) \<Rightarrow> (Inr m, w))"

section \<open>One drive\<close>

definition sync_name :: "'a lib_scheme \<Rightarrow> fs_device \<Rightarrow> Drive \<Rightarrow> bool \<times> Drive" where
  "sync_name L dev d =
     (if Drive_GetDriveName L d \<noteq> dvName dev then (True, Drive_SetDriveName L (dvName dev) d) else (False, d))"

definition sync_capacity :: "fs_device \<Rightarrow> Drive \<Rightarrow> bool \<times> Drive" where
  "sync_capacity dev d =
     (if dTotalCapacity (driveStatus d) \<noteq> fdTotalCapacity dev then
        let free = i64 (fdTotalCapacity dev - dAllocatedCapacity (driveStatus d))
        in (True, d\<lparr>driveStatus := (driveStatus d)\<lparr>dTotalCapacity := fdTotalCapacity dev,
                      dFreeCapacity := if free < 0 then 0 else free\<rparr>\<rparr>)
      else (False, d))"

definition sync_make :: "fs_device \<Rightarrow> Drive \<Rightarrow> bool \<times> Drive" where
  "sync_make dev d =
     (if dMake (driveStatus d) \<noteq> Device_Make (Device.truncate dev)
      then (True, d\<lparr>driveStatus := (driveStatus d)\<lparr>dMake := Device_Make (Device.truncate dev)\<rparr>\<rparr>)
      else (False, d))"

definition syncDrive :: "'a lib_scheme \<Rightarrow> fs_device \<Rightarrow> Drive \<Rightarrow> bool \<times> Drive" where
  "syncDrive L dev d =
     (case sync_name L dev d of (u1, d) \<Rightarrow>
        case sync_capacity dev d of (u2, d) \<Rightarrow>
          case sync_make dev d of (u3, d) \<Rightarrow> (u1 \<or> u2 \<or> u3, d))"

text \<open>The end of \<^verbatim>\<open>verifyDrive\<close>: the symbolic link of a drive to be relabelled.\<close>

definition relabel_drive :: "('w, 'b) probe_env_scheme \<Rightarrow> string \<Rightarrow> Drive \<Rightarrow> 'w \<Rightarrow> Drive \<times> 'w" where
  "relabel_drive E latestErrorConditionType d w =
     (let relabelled_drive = d\<lparr>driveSpec := (driveSpec d)\<lparr>Relabel := False\<rparr>\<rparr>
      in call (os_Symlink E ''.'' (GetVolumeRootDir (dFSUUID (driveStatus d))) w)
        (\<lambda>err w.
           if errors_Is_ErrExist err then (relabelled_drive, w)
           else if latestErrorConditionType \<noteq> DriveConditionTypeIOError
             then (SetRelabelErrorCondition (Now E w) (''unable to relabel; '' @ errorText E err)
                     (set_drive_status DriveStatusError d), w)
           else (d, w))
        (\<lambda>_ w. (relabelled_drive, w)))"

definition revive_drive :: "Drive \<Rightarrow> bool \<times> Drive" where
  "revive_drive d =
     (let lost = (dStatus (driveStatus d) = DriveStatusLost);
          d1 = (if lost then set_drive_status DriveStatusReady d else d);
          failed = (dStatus (driveStatus d1) = DriveStatusError \<and>
             GetLatestErrorConditionType d1 \<in> {DriveConditionTypeMountError, DriveConditionTypeMultipleMatches, DriveConditionTypeRelabelError})
      in (lost \<or> failed, if failed then set_drive_status DriveStatusReady d1 else d1))"

definition verifyDrive :: "('w, 'b) probe_env_scheme \<Rightarrow> Drive \<Rightarrow> 'w \<Rightarrow> (bool \<times> Drive) \<times> 'w" where
  "verifyDrive E d w =
     (if dStatus (driveStatus d) \<notin> {DriveStatusReady, DriveStatusLost, DriveStatusError, DriveStatusMoving} then ((False, d), w)
      else call (xfs_Mount E (AddDevPrefix (Drive_GetDriveName E d)) (GetDriveMountDir (dFSUUID (driveStatus d))) w)
        (\<lambda>err w.
           ((True, SetMountErrorCondition (Now E w) (''unable to mount; '' @ errorText E err) (set_drive_status DriveStatusError d)), w))
        (\<lambda>_ w.
           case revive_drive d of (updated, d1) \<Rightarrow>
             if \<not> Relabel (driveSpec d1) then ((updated, d1), w)
             else case relabel_drive E (GetLatestErrorConditionType d1) d1 w of (d2, w) \<Rightarrow> ((True, d2), w)))"

definition device_names :: "fs_device list \<Rightarrow> string" where
  "device_names devs = fold (\<lambda>dev names. (if names \<noteq> [] then names @ '', '' else names) @ dvName dev) devs []"

text \<open>The end of \<^verbatim>\<open>updateDrive\<close>: only a changed drive is written.\<close>

definition update_if :: "('w, 'b) probe_env_scheme \<Rightarrow> bool \<Rightarrow> Drive \<Rightarrow> ('w, unit) io" where
  "update_if E updated d w =
     (if updated then call (api_Update (DriveClient E) d w) (\<lambda>err w. (Inl err, w)) (\<lambda>_ w. (Inr (), w))
      else (Inr (), w))"

definition updateDrive :: "('w, 'b) probe_env_scheme \<Rightarrow> (string \<times> fs_device list) list \<Rightarrow> string \<Rightarrow> ('w, unit) io" where
  "updateDrive E deviceMap driveName w =
     call (api_Get (DriveClient E) driveName w)
       (\<lambda>err w. if IsNotFound err then (Inr (), w) else (Inl err, w))
       (\<lambda>drive w.
          case devices_of deviceMap (dFSUUID (driveStatus drive)) of
            [] \<Rightarrow>
              update_if E (dStatus (driveStatus drive) \<noteq> DriveStatusLost) (set_drive_status DriveStatusLost drive) w
          | [dev] \<Rightarrow>
              (case syncDrive E dev drive of (u1, d1) \<Rightarrow>
                 case verifyDrive E d1 w of ((u2, d2), w) \<Rightarrow> update_if E (u1 \<or> u2) d2 w)
          | devs \<Rightarrow>
              update_if E True (SetMultipleMatchesErrorCondition (Now E w)
                (''multiple devices found by FSUUID; '' @ device_names devs) (set_drive_status DriveStatusError drive)) w)"

section \<open>All drives of the node\<close>

fun update_drives :: "('w, 'b) probe_env_scheme \<Rightarrow> (string \<times> fs_device list) list \<Rightarrow> Drive list \<Rightarrow> ('w, unit) io" where
  "update_drives E deviceMap [] w = (Inr (), w)"
| "update_drives E deviceMap (d # ds) w =
     call (RetryOnConflict E (updateDrive E deviceMap (objName d)) w)
       (\<lambda>err w. (Inl err, w)) (\<lambda>_ w. update_drives E deviceMap ds w)"

definition Sync :: "('w, 'b) probe_env_scheme \<Rightarrow> NodeID \<Rightarrow> ('w, unit) io" where
  "Sync E node w =
     call (probeDeviceMap E w) (\<lambda>err w. (Inl err, w))
       (\<lambda>deviceMap w. call (getMounts E w) (\<lambda>err w. (Inl err, w))
          (\<lambda>mountInfo w.
             case DriveLister_Get E (DriveLister_NodeSelector [ToLabelValue E node] NewDriveLister) w of
               ((drives, Some err), w) \<Rightarrow> (Inl err, w)
             | ((drives, None), w) \<Rightarrow> update_drives E deviceMap drives w))"

section \<open>The node object\<close>

fun to_node_devices :: "('w, 'b) probe_env_scheme \<Rightarrow> NodeID \<Rightarrow> Device list \<Rightarrow> 'w \<Rightarrow> NodeDevice list \<times> 'w" where
  "to_node_devices E node [] w = ([], w)"
| "to_node_devices E node (d # ds) w =
     (case ToNodeDevice E node d w of (nd, w) \<Rightarrow> case to_node_devices E node ds w of (nds, w) \<Rightarrow> (nd # nds, w))"

definition node_probeDevices :: "('w, 'b) probe_env_scheme \<Rightarrow> NodeID \<Rightarrow> ('w, NodeDevice list) io" where
  "node_probeDevices E node w =
     call (probe E w) (\<lambda>err w. (Inl err, w))
       (\<lambda>devices w. case to_node_devices E node devices w of (nds, w) \<Rightarrow> (Inr nds, w))"

definition update_node :: "('w, 'b) probe_env_scheme \<Rightarrow> NodeID \<Rightarrow> NodeDevice list \<Rightarrow> ('w, unit) io" where
  "update_node E node devices w =
     call (api_Get (NodeClient E) node w)
       (\<lambda>err w. if \<not> IsNotFound err then (Inl err, w)
                else call (api_Create (NodeClient E) (NewDirectPVNode node devices) w) (\<lambda>err w. (Inl err, w)) (\<lambda>_ w. (Inr (), w)))
       (\<lambda>obj w. call (api_Update (NodeClient E) (obj\<lparr>nodeDevices := devices, nodeRefresh := False\<rparr>) w)
          (\<lambda>err w. (Inl err, w)) (\<lambda>_ w. (Inr (), w)))"

definition node_Sync :: "('w, 'b) probe_env_scheme \<Rightarrow> NodeID \<Rightarrow> ('w, unit) io" where
  "node_Sync E node w =
     call (node_probeDevices E node w) (\<lambda>err w. (Inl err, w))
       (\<lambda>devices w. RetryOnConflict E (update_node E node devices) w)"

definition node_Handle :: "('w, 'b) probe_env_scheme \<Rightarrow> EventType \<Rightarrow> NodeObj \<Rightarrow> ('w, unit) io" where
  "node_Handle E eventType obj w =
     (if (eventType = UpdateEvent \<or> eventType = AddEvent) \<and> nodeRefresh obj then node_Sync E (objName obj) w
      else (Inr (), w))"

section \<open>What a sync changes of a drive\<close>

text \<open>The free capacity is left alone or computed again from the new total, never below zero.\<close>

definition capacity_synced :: "DriveStatus \<Rightarrow> DriveStatus \<Rightarrow> bool" where
  "capacity_synced s s' \<longleftrightarrow>
     dAllocatedCapacity s' = dAllocatedCapacity s \<and>
     (dTotalCapacity s' = dTotalCapacity s \<and> dFreeCapacity s' = dFreeCapacity s \<or>
      dFreeCapacity s' = max 0 (i64 (dTotalCapacity s' - dAllocatedCapacity s)))"

definition drive_synced :: "Drive \<Rightarrow> Drive \<Rightarrow> bool" where
  "drive_synced d d' \<longleftrightarrow>
     objName d' = objName d \<and> Finalizers d' = Finalizers d \<and> DeletionTimestamp d' = DeletionTimestamp d \<and>
     (\<forall>k. k \<noteq> DriveNameLabelKey \<longrightarrow> objLabels d' k = objLabels d k) \<and>
     Unschedulable (driveSpec d') = Unschedulable (driveSpec d) \<and>
     (Relabel (driveSpec d') \<longrightarrow> Relabel (driveSpec d)) \<and>
     dFSUUID (driveStatus d') = dFSUUID (driveStatus d) \<and> dTopology (driveStatus d') = dTopology (driveStatus d) \<and>
     capacity_synced (driveStatus d) (driveStatus d')"

lemma capacity_synced_trans: "capacity_synced a b \<Longrightarrow> capacity_synced b c \<Longrightarrow> capacity_synced a c"
  unfolding capacity_synced_def by auto

lemma drive_synced_trans: "drive_synced a b \<Longrightarrow> drive_synced b c \<Longrightarrow> drive_synced a c"
  unfolding drive_synced_def using capacity_synced_trans [of "driveStatus a" "driveStatus b" "driveStatus c"] by simp

lemma transp_drive_synced: "transp drive_synced"
  by (rule transpI) (rule drive_synced_trans)

lemma drive_synced_refl [simp]: "drive_synced d d"
  by (simp add: drive_synced_def capacity_synced_def)

lemma drive_synced_version [simp]: "drive_synced d (d'\<lparr>ResourceVersion := rv\<rparr>) = drive_synced d d'"
  by (simp add: drive_synced_def)

lemma drive_synced_status [simp]: "drive_synced d (set_drive_status s d') = drive_synced d d'"
  by (simp add: drive_synced_def set_drive_status_def capacity_synced_def)

lemma drive_synced_condition [simp]: "drive_synced d (setErrorCondition t k r m d') = drive_synced d d'"
  by (simp add: drive_synced_def setErrorCondition_def capacity_synced_def)

lemmas condition_defs = SetMountErrorCondition_def SetMultipleMatchesErrorCondition_def SetRelabelErrorCondition_def

lemma ResourceVersion_drive [simp]:
  "ResourceVersion (set_drive_status s d) = ResourceVersion d"
  "ResourceVersion (setErrorCondition t k r m d) = ResourceVersion d"
  by (simp_all add: set_drive_status_def setErrorCondition_def)

lemma status_updates [simp]:
  "dStatus (driveStatus (set_drive_status s d)) = s"
  "dStatus (driveStatus (setErrorCondition t k r m d)) = dStatus (driveStatus d)"
  "dTotalCapacity (driveStatus (set_drive_status s d)) = dTotalCapacity (driveStatus d)"
  "dTotalCapacity (driveStatus (setErrorCondition t k r m d)) = dTotalCapacity (driveStatus d)"
  by (simp_all add: set_drive_status_def setErrorCondition_def)

lemma set_drive_status_same: "dStatus (driveStatus d) = s \<Longrightarrow> set_drive_status s d = d"
  by (auto simp: set_drive_status_def)

lemma sync_name_synced:
  "sync_name L dev d = (u, d') \<Longrightarrow> drive_synced d d' \<and> ResourceVersion d' = ResourceVersion d \<and> (\<not> u \<longrightarrow> d' = d) \<and> driveStatus d' = driveStatus d"
  by (auto simp: sync_name_def Drive_SetDriveName_def set_label_updates drive_synced_def capacity_synced_def split: if_splits)

lemma sync_capacity_synced:
  "sync_capacity dev d = (u, d') \<Longrightarrow>
     drive_synced d d' \<and> ResourceVersion d' = ResourceVersion d \<and> (\<not> u \<longrightarrow> d' = d) \<and>
     dStatus (driveStatus d') = dStatus (driveStatus d) \<and> dTotalCapacity (driveStatus d') = fdTotalCapacity dev"
  by (auto simp: sync_capacity_def Let_def drive_synced_def capacity_synced_def split: if_splits)

lemma sync_make_synced:
  "sync_make dev d = (u, d') \<Longrightarrow>
     drive_synced d d' \<and> ResourceVersion d' = ResourceVersion d \<and> (\<not> u \<longrightarrow> d' = d) \<and>
     dStatus (driveStatus d') = dStatus (driveStatus d) \<and> dTotalCapacity (driveStatus d') = dTotalCapacity (driveStatus d)"
  by (auto simp: sync_make_def drive_synced_def capacity_synced_def split: if_splits)

lemma syncDrive_synced:
  assumes "syncDrive L dev d = (u, d')"
  shows "drive_synced d d'" and "ResourceVersion d' = ResourceVersion d" and "\<not> u \<Longrightarrow> d' = d"
    and "dStatus (driveStatus d') = dStatus (driveStatus d)" and "dTotalCapacity (driveStatus d') = fdTotalCapacity dev"
proof -
  obtain u1 d1 u2 d2 u3 d3 where
    s: "sync_name L dev d = (u1, d1)" "sync_capacity dev d1 = (u2, d2)" "sync_make dev d2 = (u3, d3)"
    by (metis prod.exhaust)
  then have r: "u = (u1 \<or> u2 \<or> u3)" "d' = d3" using assms by (auto simp: syncDrive_def)
  note f = sync_name_synced [OF s(1)] sync_capacity_synced [OF s(2)] sync_make_synced [OF s(3)]
  show "drive_synced d d'" using f drive_synced_trans r(2) by meson
  show "ResourceVersion d' = ResourceVersion d" "\<not> u \<Longrightarrow> d' = d"
    "dStatus (driveStatus d') = dStatus (driveStatus d)" "dTotalCapacity (driveStatus d') = fdTotalCapacity dev"
    using f r by simp_all
qed

lemma revive_drive_synced:
  assumes "revive_drive d = (u, d')"
  shows "drive_synced d d'" and "ResourceVersion d' = ResourceVersion d" and "\<not> u \<Longrightarrow> d' = d"
    and "dStatus (driveStatus d') \<noteq> DriveStatusLost" and "dTotalCapacity (driveStatus d') = dTotalCapacity (driveStatus d)"
    and "dStatus (driveStatus d') = dStatus (driveStatus d) \<or> dStatus (driveStatus d') = DriveStatusReady"
  using assms by (auto simp: revive_drive_def Let_def drive_synced_def capacity_synced_def set_drive_status_def split: if_splits)

text \<open>The statuses a sync may change.\<close>

definition verified_status :: "DriveStatusValue \<Rightarrow> bool" where
  "verified_status s \<longleftrightarrow> s \<in> {DriveStatusReady, DriveStatusLost, DriveStatusError, DriveStatusMoving}"

definition verified_from :: "Drive \<Rightarrow> Drive \<Rightarrow> bool" where
  "verified_from d d' \<longleftrightarrow>
     (if verified_status (dStatus (driveStatus d))
      then dStatus (driveStatus d') \<in> {DriveStatusReady, DriveStatusError, DriveStatusMoving} else d' = d)"

text \<open>The drive that a pass over one drive writes, by the number of devices with its file system.\<close>

definition matched :: "fs_device list \<Rightarrow> Drive \<Rightarrow> Drive \<Rightarrow> bool" where
  "matched devs d d' \<longleftrightarrow>
     (case devs of
        [] \<Rightarrow> dStatus (driveStatus d') = DriveStatusLost
      | [dev] \<Rightarrow> dTotalCapacity (driveStatus d') = fdTotalCapacity dev \<and>
          (if verified_status (dStatus (driveStatus d))
           then dStatus (driveStatus d') \<in> {DriveStatusReady, DriveStatusError, DriveStatusMoving}
           else dStatus (driveStatus d') = dStatus (driveStatus d))
      | _ \<Rightarrow> dStatus (driveStatus d') = DriveStatusError)"

context probe_cluster
begin

lemma relabel_drive_synced:
  assumes "relabel_drive E t d w = (d', w')"
  shows "drive_synced d d'" and "ResourceVersion d' = ResourceVersion d"
    and "dTotalCapacity (driveStatus d') = dTotalCapacity (driveStatus d)"
    and "dStatus (driveStatus d') = dStatus (driveStatus d) \<or> dStatus (driveStatus d') = DriveStatusError"
    and "dstore w' = dstore w" and "vstore w' = vstore w"
proof -
  obtain r w1 where l: "os_Symlink E ''.'' (GetVolumeRootDir (dFSUUID (driveStatus d))) w = (r, w1)" by fastforce
  have "drive_synced d (d\<lparr>driveSpec := (driveSpec d)\<lparr>Relabel := False\<rparr>\<rparr>)"
    by (simp add: drive_synced_def capacity_synced_def)
  then have all: "w' = w1 \<and> drive_synced d d' \<and> ResourceVersion d' = ResourceVersion d \<and>
      dTotalCapacity (driveStatus d') = dTotalCapacity (driveStatus d) \<and>
      (dStatus (driveStatus d') = dStatus (driveStatus d) \<or> dStatus (driveStatus d') = DriveStatusError)"
    using assms l
    by (cases r) (auto simp: relabel_drive_def Let_def condition_defs split: if_splits)
  then show "drive_synced d d'" "ResourceVersion d' = ResourceVersion d"
    "dTotalCapacity (driveStatus d') = dTotalCapacity (driveStatus d)"
    "dStatus (driveStatus d') = dStatus (driveStatus d) \<or> dStatus (driveStatus d') = DriveStatusError"
    by simp_all
  show "dstore w' = dstore w" "vstore w' = vstore w" using quietD [OF quiet_files(4) l] all by simp_all
qed

lemma verifyDrive_synced:
  assumes "verifyDrive E d w = ((u, d'), w')"
  shows "drive_synced d d' \<and> ResourceVersion d' = ResourceVersion d \<and> (\<not> u \<longrightarrow> d' = d) \<and>
    dTotalCapacity (driveStatus d') = dTotalCapacity (driveStatus d) \<and> verified_from d d' \<and>
    dstore w' = dstore w \<and> vstore w' = vstore w"
proof (cases "verified_status (dStatus (driveStatus d))")
  case False
  then show ?thesis using assms by (auto simp: verifyDrive_def verified_status_def verified_from_def)
next
  case True
  then have st: "dStatus (driveStatus d) \<in> {DriveStatusReady, DriveStatusLost, DriveStatusError, DriveStatusMoving}"
    by (simp add: verified_status_def)
  obtain r w1 where m: "xfs_Mount E (AddDevPrefix (Drive_GetDriveName E d)) (GetDriveMountDir (dFSUUID (driveStatus d))) w = (r, w1)"
    by fastforce
  have q: "dstore w1 = dstore w" "vstore w1 = vstore w" using quietD [OF quiet_host(2) m] by simp_all
  show ?thesis
  proof (cases r)
    case (Inl e)
    then have "u" "w' = w1" "d' = setErrorCondition (Now E w1) DriveConditionTypeMountError ''DriveHasMountError''
        (''unable to mount; '' @ errorText E e) (set_drive_status DriveStatusError d)"
      using assms m st by (auto simp: verifyDrive_def condition_defs)
    then show ?thesis using q True by (simp add: verified_from_def)
  next
    case (Inr x)
    obtain u1 d1 where rv: "revive_drive d = (u1, d1)" by fastforce
    note f = revive_drive_synced [OF rv]
    show ?thesis
    proof (cases "Relabel (driveSpec d1)")
      case False
      then have "u = u1" "d' = d1" "w' = w1" using assms m st Inr rv by (auto simp: verifyDrive_def)
      moreover have "dStatus (driveStatus d1) \<in> {DriveStatusReady, DriveStatusError, DriveStatusMoving}"
        using f(4,6) st by auto
      ultimately show ?thesis using f(1,2,3,5) q by (simp add: verified_from_def \<open>verified_status (dStatus (driveStatus d))\<close>)
    next
      case True
      obtain d2 w2 where rl: "relabel_drive E (GetLatestErrorConditionType d1) d1 w1 = (d2, w2)" by fastforce
      then have "u" "d' = d2" "w' = w2" using assms m st Inr rv True by (auto simp: verifyDrive_def)
      moreover have "drive_synced d d2" using f(1) relabel_drive_synced(1) [OF rl] by (rule drive_synced_trans)
      moreover have "dStatus (driveStatus d2) \<in> {DriveStatusReady, DriveStatusError, DriveStatusMoving}"
        using f(4,6) relabel_drive_synced(4) [OF rl] st by auto
      ultimately show ?thesis
        using f(2,5) relabel_drive_synced(2,3,5,6) [OF rl] q
        by (simp add: verified_from_def \<open>verified_status (dStatus (driveStatus d))\<close>)
    qed
  qed
qed

lemma update_if_synced:
  assumes "update_if E u x w = (r, w')" and "dstore w (objName d) = Some d"
    and "drive_synced d x" and "ResourceVersion x = ResourceVersion d"
  shows "vstore w' = vstore w" and "changed drive_synced (dstore w) (dstore w')"
    and "r = Inr () \<Longrightarrow> (\<not> u \<longrightarrow> x = d) \<Longrightarrow> \<not> gone d \<Longrightarrow> \<exists>rv. dstore w' (objName d) = Some (x\<lparr>ResourceVersion := rv\<rparr>)"
proof -
  have n: "objName x = objName d" using assms(3) by (simp add: drive_synced_def)
  have all: "vstore w' = vstore w \<and> changed drive_synced (dstore w) (dstore w') \<and>
      (r = Inr () \<longrightarrow> (\<not> u \<longrightarrow> x = d) \<longrightarrow> \<not> gone d \<longrightarrow> (\<exists>rv. dstore w' (objName d) = Some (x\<lparr>ResourceVersion := rv\<rparr>)))"
  proof (cases u)
    case False
    then show ?thesis using assms(1,2) by (auto simp: update_if_def intro: exI [of _ "ResourceVersion d"])
  next
    case True
    obtain a w1 where up: "api_Update (DriveClient E) x w = (a, w1)" by fastforce
    have w: "w' = w1" using assms(1) True up by (cases a) (auto simp: update_if_def)
    have ch: "changed drive_synced (dstore w) (dstore w1)"
      by (rule d.update_changed [OF up]) (use assms(2,3) n in simp)
    have "\<exists>rv. dstore w1 (objName d) = Some (x\<lparr>ResourceVersion := rv\<rparr>)" if "r = Inr ()" "\<not> gone d"
    proof (cases a)
      case (Inl e)
      then show ?thesis using assms(1) True up that by (simp add: update_if_def)
    next
      case (Inr y)
      have "\<not> (Finalizers x = [] \<and> DeletionTimestamp x \<noteq> None)"
        using that(2) assms(3) by (simp add: gone_def drive_synced_def)
      then obtain rv where "y = x\<lparr>ResourceVersion := rv\<rparr>" "dstore w1 = (dstore w)(objName x := Some y)"
        using d.update_ok [OF up [unfolded Inr]] by auto
      then show ?thesis using n by auto
    qed
    then show ?thesis using w ch drive_ops_volumes(3) [OF up] by blast
  qed
  then show "vstore w' = vstore w" "changed drive_synced (dstore w) (dstore w')"
    "r = Inr () \<Longrightarrow> (\<not> u \<longrightarrow> x = d) \<Longrightarrow> \<not> gone d \<Longrightarrow> \<exists>rv. dstore w' (objName d) = Some (x\<lparr>ResourceVersion := rv\<rparr>)"
    by simp_all
qed

lemma updateDrive_found:
  assumes "updateDrive E m n w = (r, w')" and "api_Get (DriveClient E) n w = (Inr d, w1)"
  obtains u x w2 where "update_if E u x w2 = (r, w')" and "dstore w2 = dstore w" and "vstore w2 = vstore w"
    and "dstore w2 (objName d) = Some d" and "drive_synced d x" and "ResourceVersion x = ResourceVersion d"
    and "\<not> u \<longrightarrow> x = d" and "matched (devices_of m (dFSUUID (driveStatus d))) d x"
proof -
  have g: "dstore w1 = dstore w" "vstore w1 = vstore w" using quietD [OF quiet_reads assms(2)] by simp_all
  have d: "dstore w1 (objName d) = Some d" using d.get_found [OF assms(2)] d.get_name [OF assms(2)] g by simp
  let ?devs = "devices_of m (dFSUUID (driveStatus d))"
  consider "?devs = []" | dev where "?devs = [dev]" | a b ds where "?devs = a # b # ds"
    by (metis list.exhaust)
  then show thesis
  proof cases
    case 1
    then have "update_if E (dStatus (driveStatus d) \<noteq> DriveStatusLost) (set_drive_status DriveStatusLost d) w1 = (r, w')"
      using assms by (simp add: updateDrive_def)
    then show thesis by (rule that) (use g d 1 set_drive_status_same [of d] in \<open>auto simp: matched_def\<close>)
  next
    case 2
    obtain u1 d1 where s: "syncDrive E dev d = (u1, d1)" by fastforce
    obtain u2 d2 w2 where v: "verifyDrive E d1 w1 = ((u2, d2), w2)" by (metis prod.exhaust)
    note vs = verifyDrive_synced [OF v] and ss = syncDrive_synced [OF s]
    have "update_if E (u1 \<or> u2) d2 w2 = (r, w')" using assms 2 s v by (simp add: updateDrive_def)
    moreover have "drive_synced d d2" using ss(1) vs drive_synced_trans by blast
    moreover have "matched ?devs d d2" using vs ss(4,5) 2 by (auto simp: matched_def verified_from_def split: if_splits)
    ultimately show thesis using vs ss(2,3) g d that by simp
  next
    case 3
    then obtain k rs ms where "update_if E True (setErrorCondition (Now E w1) k rs ms (set_drive_status DriveStatusError d)) w1 = (r, w')"
      using assms by (simp add: updateDrive_def condition_defs)
    then show thesis by (rule that) (use g d 3 in \<open>auto simp: matched_def\<close>)
  qed
qed

lemma updateDrive_synced:
  assumes "updateDrive E m n w = (r, w')"
  shows "vstore w' = vstore w \<and> changed drive_synced (dstore w) (dstore w')"
proof -
  obtain a w1 where g: "api_Get (DriveClient E) n w = (a, w1)" by fastforce
  show ?thesis
  proof (cases a)
    case (Inl e)
    then have "w' = w1" using assms g by (auto simp: updateDrive_def split: if_splits)
    then show ?thesis using quietD [OF quiet_reads g] by simp
  next
    case (Inr d)
    show ?thesis
      by (rule updateDrive_found [OF assms g [unfolded Inr]]) (use update_if_synced(1,2) in metis)
  qed
qed

lemma update_drives_synced:
  "update_drives E m ds w = (r, w') \<Longrightarrow> vstore w' = vstore w \<and> changed drive_synced (dstore w) (dstore w')"
proof (induction ds arbitrary: w)
  case (Cons x ds)
  let ?f = "updateDrive E m (objName x)"
  let ?P = "\<lambda>v. vstore v = vstore w \<and> changed drive_synced (dstore w) (dstore v)"
  obtain a w1 where t: "RetryOnConflict E ?f w = (a, w1)" by fastforce
  have "?P (snd (a, w1))"
  proof (rule retried_preserves [of ?f w "(a, w1)" ?P])
    show "retried ?f w (a, w1)" using retry [of ?f w] t by simp
  next
    fix v
    assume "?P v"
    then show "?P (snd (?f v))"
      using updateDrive_synced [of m "objName x" v "fst (?f v)" "snd (?f v)"] changed_trans [OF transp_drive_synced] by auto
  qed simp
  then have one: "vstore w1 = vstore w" "changed drive_synced (dstore w) (dstore w1)" by simp_all
  show ?case
  proof (cases a)
    case (Inl e)
    then show ?thesis using Cons.prems t one by simp
  next
    case (Inr u)
    then have "vstore w' = vstore w1 \<and> changed drive_synced (dstore w1) (dstore w')" using Cons t by simp
    then show ?thesis using one changed_trans [OF transp_drive_synced, of "dstore w" "dstore w1"] by simp
  qed
qed simp

lemma quiet_probe_fs: "quiet (probe_fs E devs m)"
proof (induction devs arbitrary: m)
  case (Cons dev devs)
  have "probe_fs E (dev # devs) m = (\<lambda>w. if skip_device dev then probe_fs E devs m w
      else call (xfs_Probe E (AddDevPrefix (dvName dev)) w) (\<lambda>err w. probe_fs E devs m w)
        (\<lambda>x. probe_fs E devs (case x of (fsuuid, label, totalCapacity, freeCapacity) \<Rightarrow>
          assign_key fsuuid (devices_of m fsuuid @
             [Device.extend dev (fs_device.fields fsuuid label (i64 totalCapacity) (i64 freeCapacity))]) m)))"
    by (auto simp: fun_eq_iff intro!: call_cong split: prod.splits)
  then show ?case by (simp only:) (intro quiet_if quiet_call quiet_files Cons.IH)
qed (simp add: quiet_def keeps_def)

lemma quiet_probeDeviceMap: "quiet (probeDeviceMap E)"
  unfolding probeDeviceMap_def [abs_def] by (intro quiet_call quiet_case quiet_probe quiet_probe_fs quiet_value)

lemma lister_frame:
  assumes "DriveLister_Get E l w = (p, w')"
  shows "dstore w' = dstore w \<and> vstore w' = vstore w"
proof -
  let ?R = "\<lambda>d d' :: Drive. False"
  have run: "DriveLister_List E l collect ([], None) w = (p, w')" using assms by (simp add: DriveLister_Get_def)
  have "transp ?R" by (rule transpI)
  moreover have "handler dstore (\<lambda>v. vstore v = vstore w) ?R collect"
    by (rule handlerI) (auto simp: receive_def split: prod.splits)
  ultimately have "vstore w' = vstore w \<and> changed ?R (dstore w) (dstore w')"
    using run refl by (rule drive_loop)
  then show ?thesis by (auto simp: changed_def became_def)
qed

lemma Sync_synced:
  assumes "Sync E node w = (r, w')"
  shows "vstore w' = vstore w \<and> changed drive_synced (dstore w) (dstore w')"
proof -
  obtain a w1 where p: "probeDeviceMap E w = (a, w1)" by fastforce
  note q1 = quietD [OF quiet_probeDeviceMap p]
  show ?thesis
  proof (cases a)
    case (Inl e)
    then show ?thesis using assms p q1 by (simp add: Sync_def)
  next
    case (Inr m)
    obtain b w2 where g: "getMounts E w1 = (b, w2)" by fastforce
    note q2 = quietD [OF quiet_host(1) g]
    obtain ds err w3 where l: "DriveLister_Get E (DriveLister_NodeSelector [ToLabelValue E node] NewDriveLister) w2 = ((ds, err), w3)"
      by (metis prod.exhaust)
    note q3 = lister_frame [OF l]
    show ?thesis
    proof (cases "\<exists>mi. b = Inr mi \<and> err = None")
      case True
      then have "update_drives E m ds w3 = (r, w')" using assms p Inr g l by (auto simp: Sync_def)
      then show ?thesis using update_drives_synced q1 q2 q3 by metis
    next
      case False
      then have "w' = w2 \<or> w' = w3" using assms p Inr g l by (cases b; cases err) (auto simp: Sync_def)
      then show ?thesis using q1 q2 q3 by auto
    qed
  qed
qed

lemma updateDrive_matched:
  assumes "updateDrive E m n w = (Inr (), w')" and "dstore w n = Some d" and "\<not> gone d"
  shows "(\<exists>d'. dstore w' n = Some d' \<and> matched (devices_of m (dFSUUID (driveStatus d))) d d')"
proof -
  obtain a w1 where g: "api_Get (DriveClient E) n w = (a, w1)" by fastforce
  have "a = Inr d"
  proof (cases a)
    case (Inl e)
    then have "IsNotFound e" using assms(1) g by (auto simp: updateDrive_def split: if_splits)
    then show ?thesis using d.get_not_found g Inl assms(2) by fastforce
  next
    case (Inr x)
    then show ?thesis using d.get_found [of n w x w1] g assms(2) by simp
  qed
  note f = g [unfolded this]
  have n: "objName d = n" using d.get_name [OF f] .
  show ?thesis
  proof (rule updateDrive_found [OF assms(1) f])
    fix u x w2
    assume u: "update_if E u x w2 = (Inr (), w')" "dstore w2 (objName d) = Some d" "drive_synced d x"
        "ResourceVersion x = ResourceVersion d" "\<not> u \<longrightarrow> x = d"
      and m: "matched (devices_of m (dFSUUID (driveStatus d))) d x"
    obtain rv where "dstore w' n = Some (x\<lparr>ResourceVersion := rv\<rparr>)"
      using update_if_synced(3) [OF u(1-4)] u(5) assms(3) n by auto
    moreover have "matched ds d (x\<lparr>ResourceVersion := rv\<rparr>) = matched ds d x" for ds by (simp add: matched_def cong: list.case_cong)
    ultimately show ?thesis using m by blast
  qed
qed

end

section \<open>Properties\<close>

text \<open>C30. A sync of a node, however far it gets, creates and deletes no drive that is not already on its
  way out and touches no volume. Of a drive it may change the drive name, make, status, conditions, the
  relabel request (only clearing it) and the capacities: the allocated capacity stays, and the free
  capacity is left alone or is the new total less the allocated capacity, never below zero. Finalizers,
  claims, access tier, topology and file system stay as they are.\<close>

theorem Sync_correct:
  assumes "probe_cluster E dstore vstore" and "Sync E node w = (r, w')"
  shows "vstore w' = vstore w \<and> changed drive_synced (dstore w) (dstore w')"
  using probe_cluster.Sync_synced [OF assms] .

text \<open>Matching one drive against the probed devices: without a device of its file system the drive
  is lost, with several it is in error, and with exactly one it takes the capacity of that device; a lost
  drive is then found again, as ready or, if it cannot be mounted, in error, and a status the sync does
  not manage stays.\<close>

theorem updateDrive_correct:
  assumes "probe_cluster E dstore vstore" and "updateDrive E m n w = (Inr (), w')"
    and "dstore w n = Some d" and "\<not> gone d"
  shows "\<exists>d'. dstore w' n = Some d' \<and>
    (case devices_of m (dFSUUID (driveStatus d)) of
       [] \<Rightarrow> dStatus (driveStatus d') = DriveStatusLost
     | [dev] \<Rightarrow> dTotalCapacity (driveStatus d') = fdTotalCapacity dev \<and>
         (if verified_status (dStatus (driveStatus d))
          then dStatus (driveStatus d') \<in> {DriveStatusReady, DriveStatusError, DriveStatusMoving}
          else dStatus (driveStatus d') = dStatus (driveStatus d))
     | _ \<Rightarrow> dStatus (driveStatus d') = DriveStatusError)"
  using probe_cluster.updateDrive_matched [OF assms] unfolding matched_def .

definition lost_world :: hworld where
  "lost_world = probe_world\<lparr>wDrives := [set_drive_status DriveStatusLost (snd (reserve ''pvc-1'' [] 100 sample_drive))]\<rparr>"

theorem Sync_correct_witness:
  "\<exists>w'. Sync store_probe ''node-1'' lost_world = (Inr (), w') \<and>
     changed drive_synced (world_drives lost_world) (world_drives w') \<and>
     (\<exists>d. world_drives w' ''drive-1'' = Some d \<and> dStatus (driveStatus d) = DriveStatusReady \<and>
        dTotalCapacity (driveStatus d) = 2000 \<and> dFreeCapacity (driveStatus d) = 1900)"
proof -
  have "case Sync store_probe ''node-1'' lost_world of (Inl e, w) \<Rightarrow> False
      | (Inr u, w) \<Rightarrow> (case world_drives w ''drive-1'' of None \<Rightarrow> False
          | Some d \<Rightarrow> dStatus (driveStatus d) = DriveStatusReady \<and> dTotalCapacity (driveStatus d) = 2000 \<and>
              dFreeCapacity (driveStatus d) = 1900)"
    by code_simp
  then obtain w' d where s: "Sync store_probe ''node-1'' lost_world = (Inr (), w')"
      and d: "world_drives w' ''drive-1'' = Some d" "dStatus (driveStatus d) = DriveStatusReady"
        "dTotalCapacity (driveStatus d) = 2000" "dFreeCapacity (driveStatus d) = 1900"
    by (auto split: prod.splits sum.splits option.splits)
  then show ?thesis using Sync_correct [OF store_prober.probe_cluster_axioms, OF s] by blast
qed

theorem updateDrive_correct_witness:
  "\<exists>w' d'. updateDrive store_probe [] ''drive-1'' probe_world = (Inr (), w') \<and>
     world_drives w' ''drive-1'' = Some d' \<and> dStatus (driveStatus d') = DriveStatusLost"
proof -
  have "\<exists>u w'. updateDrive store_probe [] ''drive-1'' probe_world = (Inr u, w')"
    by (rule not_isl_ok) code_simp
  then obtain w' where u: "updateDrive store_probe [] ''drive-1'' probe_world = (Inr (), w')" by auto
  have d: "world_drives probe_world ''drive-1'' = Some sample_drive" "\<not> gone sample_drive"
    by (simp_all add: world_drives_def probe_world_def world.defs hworld.defs sample_world_def lookup_obj_def
        sample_drive_def NewDirectPVDrive_def gone_def)
  show ?thesis
    using updateDrive_correct [OF store_prober.probe_cluster_axioms, OF u d] u by (auto simp: devices_of_def)
qed

end
