(* ===== verification/Drive_Repair.thy ===== *)
theory Drive_Repair
  imports Device_Sync
begin

text \<open>
  Repairing the file system of a drive: \<^verbatim>\<open>pkg/drive/repair.go\<close> and the command
  \<^verbatim>\<open>startRepair\<close> of \<^verbatim>\<open>cmd/directpv/repair.go\<close>, which runs in a job on the
  node of the drive. \<^verbatim>\<open>xfs_repair\<close> is the argument \<open>run\<close>. The output of the
  program goes through \<open>logWriter\<close>, which hands on whole lines.
\<close>

section \<open>Log lines\<close>

record logWriter =
  lwBuffer :: string
  lwClosed :: bool

text \<open>The lines that are complete, and the rest of the buffer.\<close>

fun take_lines :: "string \<Rightarrow> string \<Rightarrow> string list \<times> string" where
  "take_lines line [] = ([], line)"
| "take_lines line (c # s) =
     (if c = CHR 0x0A then case take_lines [] s of (ls, rest) \<Rightarrow> ((line @ [c]) # ls, rest)
      else take_lines (line @ [c]) s)"

text \<open>The strings given to \<^verbatim>\<open>klog.Info\<close> are part of the result.\<close>

definition logWriter_Write :: "string \<Rightarrow> logWriter \<Rightarrow> (nat \<times> error option) \<times> string list \<times> logWriter" where
  "logWriter_Write data lw =
     (if lwClosed lw then ((length data, Some (ErrorString ''EOF'')), [data], lw)
      else case take_lines [] (lwBuffer lw @ data) of
        (ls, rest) \<Rightarrow> ((length data, None), ls, lw\<lparr>lwBuffer := rest\<rparr>))"

definition logWriter_Close :: "logWriter \<Rightarrow> string list \<times> logWriter" where
  "logWriter_Close lw = ([lwBuffer lw], lw\<lparr>lwBuffer := [], lwClosed := True\<rparr>)"

fun log_writes :: "string list \<Rightarrow> logWriter \<Rightarrow> string list \<times> logWriter" where
  "log_writes [] lw = ([], lw)"
| "log_writes (d # ds) lw =
     (case logWriter_Write d lw of (_, ls, lw') \<Rightarrow> case log_writes ds lw' of (ls', lw'') \<Rightarrow> (ls @ ls', lw''))"

section \<open>Repair\<close>

definition other_mounts :: "MountInfo \<Rightarrow> string \<Rightarrow> string \<Rightarrow> StringSet" where
  "other_mounts mountInfo device fsuuid =
     fold StringSet_Set
       (filter (\<lambda>p. p \<noteq> GetDriveMountDir fsuuid \<and> p \<noteq> LegacyDriveMountDir fsuuid)
          (map MountPoint (MountInfo_List (FilterByMountSource device mountInfo)))) []"

definition repaired_drive :: "('w, 'b) probe_env_scheme \<Rightarrow> error option \<Rightarrow> 'w \<Rightarrow> Drive \<Rightarrow> Drive" where
  "repaired_drive E merr w d =
     (case merr of
        Some e \<Rightarrow> set_drive_status DriveStatusError (SetMountErrorCondition (Now E w) (''unable to mount; '' @ errorText E e) d)
      | None \<Rightarrow> set_drive_status DriveStatusReady d)"

definition repair_update :: "('w, 'b) probe_env_scheme \<Rightarrow> error option \<Rightarrow> string \<Rightarrow> ('w, unit) io" where
  "repair_update E merr driveID w =
     call (api_Get (DriveClient E) driveID w) (\<lambda>err w. (Inl err, w))
       (\<lambda>drive w. call (api_Update (DriveClient E) (repaired_drive E merr w drive) w)
          (\<lambda>err w. (Inl err, w)) (\<lambda>_ w. (Inr (), w)))"

text \<open>The end of \<^verbatim>\<open>repair\<close>: the drive is mounted again, and its status says whether
  that worked.\<close>

definition repair_mount :: "('w, 'b) probe_env_scheme \<Rightarrow> Drive \<Rightarrow> string \<Rightarrow> ('w, unit) io" where
  "repair_mount E drive device w =
     call (xfs_Mount E device (GetDriveMountDir (dFSUUID (driveStatus drive))) w)
       (\<lambda>merr w. RetryOnConflict E (repair_update E (Some merr) (Drive_GetDriveID drive)) w)
       (\<lambda>_ w. RetryOnConflict E (repair_update E None (Drive_GetDriveID drive)) w)"

definition repair ::
  "('w, 'b) probe_env_scheme \<Rightarrow> (string \<Rightarrow> bool \<Rightarrow> bool \<Rightarrow> bool \<Rightarrow> ('w, unit) io) \<Rightarrow> Drive \<Rightarrow> bool \<Rightarrow> bool \<Rightarrow> bool \<Rightarrow>
   ('w, unit) io" where
  "repair E run drive force disablePrefetch dryRun w =
     (let fsuuid = dFSUUID (driveStatus drive)
      in call (getDeviceByFSUUID E fsuuid w)
        (\<lambda>err w. (Inl (Wrap ''unable to find device by FSUUID'' err), w))
        (\<lambda>device w. call (getMounts E w) (\<lambda>err w. (Inl err, w))
           (\<lambda>mountInfo w.
              if other_mounts mountInfo device fsuuid \<noteq> []
              then (Inl (ErrorString ''unable to run xfs repair; device still mounted''), w)
              else call (unmount E (GetDriveMountDir fsuuid) w) (\<lambda>err w. (Inl err, w))
                (\<lambda>_ w. call (unmount E (LegacyDriveMountDir fsuuid) w) (\<lambda>err w. (Inl err, w))
                   (\<lambda>_ w. call (run device force disablePrefetch dryRun w) (\<lambda>err w. (Inl err, w))
                      (\<lambda>_ w. repair_mount E drive device w))))))"

definition startRepair ::
  "('w, 'b) probe_env_scheme \<Rightarrow> (string \<Rightarrow> bool \<Rightarrow> bool \<Rightarrow> bool \<Rightarrow> ('w, unit) io) \<Rightarrow> bool \<Rightarrow> bool \<Rightarrow> bool \<Rightarrow> string \<Rightarrow>
   ('w, unit) io" where
  "startRepair E run force disablePrefetch dryRun driveID w =
     call (api_Get (DriveClient E) driveID w) (\<lambda>err w. (Inl err, w))
       (\<lambda>drive w. call (api_Update (DriveClient E) (set_drive_status DriveStatusRepairing drive) w)
          (\<lambda>err w. (Inl err, w))
          (\<lambda>updatedDrive w. repair E run updatedDrive force disablePrefetch dryRun w))"

section \<open>The log loses nothing\<close>

lemma take_lines_concat: "take_lines line s = (ls, rest) \<Longrightarrow> concat ls @ rest = line @ s"
  by (induction line s arbitrary: ls rest rule: take_lines.induct) (auto split: if_splits prod.splits)

lemma take_lines_shape:
  "take_lines line s = (ls, rest) \<Longrightarrow> CHR 0x0A \<notin> set line \<Longrightarrow>
     CHR 0x0A \<notin> set rest \<and> (\<forall>l \<in> set ls. \<exists>t. l = t @ [CHR 0x0A] \<and> CHR 0x0A \<notin> set t)"
  by (induction line s arbitrary: ls rest rule: take_lines.induct) (auto split: if_splits prod.splits)

lemma log_writes_open:
  "log_writes ds lw = (ls, lw') \<Longrightarrow> \<not> lwClosed lw \<Longrightarrow> CHR 0x0A \<notin> set (lwBuffer lw) \<Longrightarrow>
     \<not> lwClosed lw' \<and> concat ls @ lwBuffer lw' = lwBuffer lw @ concat ds \<and>
     (\<forall>l \<in> set ls. \<exists>t. l = t @ [CHR 0x0A] \<and> CHR 0x0A \<notin> set t)"
proof (induction ds arbitrary: lw ls)
  case (Cons d ds)
  obtain l1 r where t: "take_lines [] (lwBuffer lw @ d) = (l1, r)" by fastforce
  let ?lw = "lw\<lparr>lwBuffer := r\<rparr>"
  obtain l2 lw2 where w: "log_writes ds ?lw = (l2, lw2)" by fastforce
  have e: "ls = l1 @ l2" "lw' = lw2" using Cons.prems(1,2) t w by (simp_all add: logWriter_Write_def)
  have "CHR 0x0A \<notin> set r" "\<forall>l \<in> set l1. \<exists>t. l = t @ [CHR 0x0A] \<and> CHR 0x0A \<notin> set t" "concat l1 @ r = lwBuffer lw @ d"
    using take_lines_shape [OF t] take_lines_concat [OF t] by simp_all
  then show ?case using Cons.IH [OF w [folded e(2)]] Cons.prems(2) e by auto
qed simp

text \<open>Whatever pieces the output of a repair comes in, what is logged until and by \<^verbatim>\<open>Close\<close> is
  the output, and what is logged before \<^verbatim>\<open>Close\<close> are whole lines.\<close>

theorem logWriter_correct:
  assumes "log_writes ds \<lparr> lwBuffer = [], lwClosed = False \<rparr> = (ls, lw)" and "logWriter_Close lw = (ls', lw')"
  shows "concat (ls @ ls') = concat ds \<and> (\<forall>l \<in> set ls. \<exists>t. l = t @ [CHR 0x0A] \<and> CHR 0x0A \<notin> set t) \<and> lwClosed lw'"
  using log_writes_open [OF assms(1)] assms(2) by (auto simp: logWriter_Close_def)

theorem logWriter_correct_witness:
  "\<exists>ls lw ls' lw'. log_writes [''a'', ''b'' @ [CHR 0x0A] @ ''c''] \<lparr> lwBuffer = [], lwClosed = False \<rparr> = (ls, lw) \<and>
     logWriter_Close lw = (ls', lw') \<and> concat (ls @ ls') = ''ab'' @ [CHR 0x0A] @ ''c''"
proof -
  obtain ls lw where w: "log_writes [''a'', ''b'' @ [CHR 0x0A] @ ''c''] \<lparr> lwBuffer = [], lwClosed = False \<rparr> = (ls, lw)" by fastforce
  obtain ls' lw' where c: "logWriter_Close lw = (ls', lw')" by fastforce
  show ?thesis using logWriter_correct [OF w c] w c by auto
qed

section \<open>What a repair changes\<close>

text \<open>A program that leaves the stored objects alone.\<close>

definition run_keeps :: "('w \<Rightarrow> 'f) \<Rightarrow> (string \<Rightarrow> bool \<Rightarrow> bool \<Rightarrow> bool \<Rightarrow> ('w, unit) io) \<Rightarrow> bool" where
  "run_keeps F run \<longleftrightarrow> (\<forall>device force disablePrefetch dryRun. keeps F (run device force disablePrefetch dryRun))"

definition set_status :: "string \<Rightarrow> DriveStatusValue set \<Rightarrow> (string \<Rightarrow> Drive option) \<Rightarrow> (string \<Rightarrow> Drive option) \<Rightarrow> bool" where
  "set_status n S ds ds' \<longleftrightarrow>
     (\<exists>d d'. ds n = Some d \<and> ds' = ds(n := if gone d then None else Some d') \<and> drive_synced d d' \<and>
        dStatus (driveStatus d') \<in> S)"

context probe_cluster
begin

lemma repair_update_effect:
  assumes "repair_update E merr n w = (r, w')"
  shows "vstore w' = vstore w"
    and "r = Inl e \<Longrightarrow> dstore w' = dstore w"
    and "r = Inr () \<Longrightarrow> set_status n {DriveStatusReady, DriveStatusError} (dstore w) (dstore w')"
proof -
  obtain a w1 where g: "api_Get (DriveClient E) n w = (a, w1)" by fastforce
  note q = quietD [OF quiet_reads g]
  have all: "vstore w' = vstore w \<and> (case r of Inl e \<Rightarrow> dstore w' = dstore w
      | Inr u \<Rightarrow> set_status n {DriveStatusReady, DriveStatusError} (dstore w) (dstore w'))"
  proof (cases a)
    case (Inl e)
    then show ?thesis using assms g q by (auto simp: repair_update_def)
  next
    case (Inr d)
    let ?x = "repaired_drive E merr w1 d"
    obtain b w2 where u: "api_Update (DriveClient E) ?x w1 = (b, w2)" by fastforce
    have x: "drive_synced d ?x" "ResourceVersion ?x = ResourceVersion d" "dStatus (driveStatus ?x) \<in> {DriveStatusReady, DriveStatusError}"
      by (simp_all add: repaired_drive_def condition_defs split: option.splits)
    then have n: "objName ?x = n" "(Finalizers ?x = [] \<and> DeletionTimestamp ?x \<noteq> None) = gone d"
      using d.get_name g Inr by (auto simp: drive_synced_def gone_def)
    have d: "dstore w n = Some d" using d.get_found g Inr by blast
    show ?thesis
    proof (cases b)
      case (Inl e)
      then show ?thesis
        using assms g Inr u q d.update_err [of ?x w1 e w2] drive_ops_volumes(3) [OF u] by (auto simp: repair_update_def)
    next
      case b: (Inr y)
      then have w: "r = Inr ()" "w' = w2" using assms g Inr u by (auto simp: repair_update_def)
      obtain rv where y: "y = ?x\<lparr>ResourceVersion := rv\<rparr>" "dstore w2 = (dstore w1)(objName ?x := if gone d then None else Some y)"
        using d.update_ok [OF u [unfolded b]] n(2) by auto
      then have "set_status n {DriveStatusReady, DriveStatusError} (dstore w) (dstore w2)"
        unfolding set_status_def using d q n(1) x by (intro exI [of _ d] exI [of _ y]) auto
      then show ?thesis using w drive_ops_volumes(3) [OF u] q by simp
    qed
  qed
  then show "vstore w' = vstore w" "r = Inl e \<Longrightarrow> dstore w' = dstore w"
    "r = Inr () \<Longrightarrow> set_status n {DriveStatusReady, DriveStatusError} (dstore w) (dstore w')" by auto
qed

lemma repair_retried_effect:
  assumes "RetryOnConflict E (repair_update E merr n) w = (r, w')"
  shows "vstore w' = vstore w \<and> (case r of Inl e \<Rightarrow> dstore w' = dstore w
      | Inr u \<Rightarrow> set_status n {DriveStatusReady, DriveStatusError} (dstore w) (dstore w'))"
proof -
  let ?f = "repair_update E merr n"
  have t: "retried ?f w (r, w')" using retry [of ?f w] assms by simp
  have k: "dstore v' = dstore v" if "?f v = (Inl e, v')" for v e v' using repair_update_effect(2) that by blast
  have "vstore (snd (r, w')) = vstore w"
    by (rule retried_preserves [OF t]) (metis prod.collapse repair_update_effect(1), rule refl)
  moreover have "case r of Inl e \<Rightarrow> dstore w' = dstore w
      | Inr u \<Rightarrow> set_status n {DriveStatusReady, DriveStatusError} (dstore w) (dstore w')"
  proof -
    obtain v where v: "?f v = (r, w')" "dstore v = dstore w" using retried_attempt [OF t, of dstore] k by auto
    then show ?thesis using repair_update_effect(3) [of merr n v r w'] k by (cases r) auto
  qed
  ultimately show ?thesis by simp
qed

text \<open>A chain of calls that leave the objects alone, any of which may end it, and then \<open>K\<close>.\<close>

definition leads_to :: "('w \<Rightarrow> unit result \<Rightarrow> 'w \<Rightarrow> bool) \<Rightarrow> ('w, unit) io \<Rightarrow> bool" where
  "leads_to K f \<longleftrightarrow>
     (\<forall>w r w'. f w = (r, w') \<longrightarrow> (\<exists>v. dstore v = dstore w \<and> vstore v = vstore w \<and> (isl r \<and> w' = v \<or> K v r w')))"

lemma leads_to_call:
  assumes "quiet f" and "\<And>x. leads_to K (k x)"
  shows "leads_to K (\<lambda>w. call (f w) (\<lambda>e w. (Inl (h e), w)) k)"
  unfolding leads_to_def
proof (intro allI impI)
  fix w r w'
  assume c: "call (f w) (\<lambda>e w. (Inl (h e), w)) k = (r, w')"
  obtain a w1 where f: "f w = (a, w1)" by fastforce
  note q = quietD [OF assms(1) f]
  show "\<exists>v. dstore v = dstore w \<and> vstore v = vstore w \<and> (isl r \<and> w' = v \<or> K v r w')"
  proof (cases a)
    case (Inl e)
    then show ?thesis using c f q by auto
  next
    case (Inr x)
    then have "k x w1 = (r, w')" using c f by simp
    then show ?thesis using assms(2) q unfolding leads_to_def by metis
  qed
qed

lemma leads_to_error: "leads_to K (\<lambda>w. (Inl e, w))"
  by (auto simp: leads_to_def)

lemma leads_to_if: "leads_to K f \<Longrightarrow> leads_to K g \<Longrightarrow> leads_to K (\<lambda>w. if b then f w else g w)"
  by (simp add: leads_to_def)

lemma leads_to_end: "(\<And>w r w'. f w = (r, w') \<Longrightarrow> K w r w') \<Longrightarrow> leads_to K f"
  by (auto simp: leads_to_def)

lemma quiet_repair: "quiet (getDeviceByFSUUID E u)" "quiet (unmount E p)" "quiet (getMounts E)" "quiet (xfs_Mount E a b)"
  by (intro quietI keepsI; erule host_ops_drives host_ops_volumes)+

text \<open>What \<^verbatim>\<open>repair\<close> does to the stored objects.\<close>

definition repaired_to :: "string \<Rightarrow> 'w \<Rightarrow> unit result \<Rightarrow> 'w \<Rightarrow> bool" where
  "repaired_to n w r w' \<longleftrightarrow> vstore w' = vstore w \<and>
     (case r of Inl e \<Rightarrow> dstore w' = dstore w
      | Inr u \<Rightarrow> set_status n {DriveStatusReady, DriveStatusError} (dstore w) (dstore w'))"

lemma repair_mount_effect: "repair_mount E drive device w = (r, w') \<Longrightarrow> repaired_to (Drive_GetDriveID drive) w r w'"
proof -
  assume m: "repair_mount E drive device w = (r, w')"
  obtain a w1 where x: "xfs_Mount E device (GetDriveMountDir (dFSUUID (driveStatus drive))) w = (a, w1)" by fastforce
  note q = quietD [OF quiet_repair(4) x]
  obtain merr where "RetryOnConflict E (repair_update E merr (Drive_GetDriveID drive)) w1 = (r, w')"
    using m x by (cases a) (auto simp: repair_mount_def)
  from repair_retried_effect [OF this] q show ?thesis by (cases r) (simp_all add: repaired_to_def)
qed

lemma repair_effect:
  assumes "\<And>device. quiet (run device force disablePrefetch dryRun)"
    and "repair E run drive force disablePrefetch dryRun w = (r, w')"
  shows "repaired_to (Drive_GetDriveID drive) w r w'"
proof -
  have "leads_to (repaired_to (Drive_GetDriveID drive)) (repair E run drive force disablePrefetch dryRun)"
    unfolding repair_def [abs_def] Let_def
    by (intro leads_to_call leads_to_if leads_to_error quiet_repair assms(1) leads_to_end repair_mount_effect)
  then obtain v where v: "dstore v = dstore w" "vstore v = vstore w"
      "isl r \<and> w' = v \<or> repaired_to (Drive_GetDriveID drive) v r w'"
    using assms(2) unfolding leads_to_def by blast
  then show ?thesis by (cases r) (auto simp: repaired_to_def)
qed

lemma startRepair_effect:
  assumes "run_keeps dstore run" and "run_keeps vstore run"
    and "startRepair E run force disablePrefetch dryRun n w = (r, w')" and "dstore w n = Some d" and "\<not> gone d"
  shows "vstore w' = vstore w \<and>
    (case r of
       Inl e \<Rightarrow> dstore w' = dstore w \<or> set_status n {DriveStatusRepairing} (dstore w) (dstore w')
     | Inr u \<Rightarrow> \<exists>d'. dstore w' = (dstore w)(n \<mapsto> d') \<and> drive_synced d d' \<and> dStatus (driveStatus d') \<in> {DriveStatusReady, DriveStatusError})"
proof -
  let ?x = "set_drive_status DriveStatusRepairing d"
  have run: "quiet (run device force disablePrefetch dryRun)" for device
    using assms(1,2) by (simp add: run_keeps_def quietI)
  obtain a w1 where g: "api_Get (DriveClient E) n w = (a, w1)" by fastforce
  note q = quietD [OF quiet_reads g]
  show ?thesis
  proof (cases a)
    case (Inl e)
    then show ?thesis using assms(3) g q by (auto simp: startRepair_def)
  next
    case (Inr d0)
    have d0: "d0 = d" "objName d = n" using d.get_found [of n w d0 w1] d.get_name [of n w d0 w1] g Inr assms(4) by auto
    obtain b w2 where u: "api_Update (DriveClient E) ?x w1 = (b, w2)" by fastforce
    note uv = drive_ops_volumes(3) [OF u]
    show ?thesis
    proof (cases b)
      case (Inl e)
      then show ?thesis using assms(3) g Inr d0 u uv q d.update_err [of ?x w1 e w2] \<open>a = Inr d0\<close> by (auto simp: startRepair_def)
    next
      case b: (Inr y)
      have x: "objName ?x = n" "drive_synced d ?x" "\<not> (Finalizers ?x = [] \<and> DeletionTimestamp ?x \<noteq> None)"
        using d0(2) assms(5) by (auto simp: gone_def set_drive_status_def drive_synced_def capacity_synced_def)
      obtain rv where y: "y = ?x\<lparr>ResourceVersion := rv\<rparr>" "dstore w2 = (dstore w)(n \<mapsto> y)"
        using d.update_ok [OF u [unfolded b]] x q by auto
      have yd: "drive_synced d y" "\<not> gone y" "dStatus (driveStatus y) = DriveStatusRepairing" "Drive_GetDriveID y = n"
        using y(1) x assms(5) by (auto simp: gone_def Drive_GetDriveID_def)
      have "repair E run y force disablePrefetch dryRun w2 = (r, w')" using assms(3) g Inr d0 u b by (simp add: startRepair_def)
      from repair_effect [OF run this] have e: "repaired_to n w2 r w'" using yd(4) by simp
      have rep: "set_status n {DriveStatusRepairing} (dstore w) (dstore w2)"
        unfolding set_status_def using assms(4,5) y(2) yd by (intro exI [of _ d] exI [of _ y]) auto
      show ?thesis
      proof (cases r)
        case (Inr z)
        obtain d' where "dstore w' = (dstore w)(n \<mapsto> d')" "drive_synced y d'" "dStatus (driveStatus d') \<in> {DriveStatusReady, DriveStatusError}"
          using e y(2) yd(2) Inr by (auto simp: repaired_to_def set_status_def)
        then show ?thesis using Inr e uv q yd(1) drive_synced_trans by (auto simp: repaired_to_def)
      qed (use e rep uv q in \<open>auto simp: repaired_to_def\<close>)
    qed
  qed
qed

end

section \<open>Properties\<close>


text \<open>A repair that fails once the drive is marked leaves it under repair: matching the drive with
  its device on the node does not revive it.\<close>

theorem failed_repair_sticks:
  assumes "probe_cluster E dstore vstore" and "run_keeps dstore run" and "run_keeps vstore run"
    and "startRepair E run force disablePrefetch dryRun n w = (Inl e, w1)" and "dstore w n = Some d" and "\<not> gone d"
    and "dstore w1 \<noteq> dstore w" and "devices_of m (dFSUUID (driveStatus d)) = [dev]" and "updateDrive E m n w1 = (Inr (), w2)"
  shows "\<exists>d'. dstore w2 n = Some d' \<and> dStatus (driveStatus d') = DriveStatusRepairing"
proof -
  obtain d1 where d1: "dstore w1 n = Some d1" "drive_synced d d1" "dStatus (driveStatus d1) = DriveStatusRepairing"
    using probe_cluster.startRepair_effect [OF assms(1), OF assms(2-6)] assms(5-7) by (auto simp: set_status_def)
  have "\<not> gone d1" "dFSUUID (driveStatus d1) = dFSUUID (driveStatus d)"
    using d1(2) assms(6) by (simp_all add: drive_synced_def gone_def)
  then show ?thesis
    using probe_cluster.updateDrive_matched [OF assms(1), OF assms(9) d1(1)] assms(8) d1(3)
    by (auto simp: matched_def verified_status_def)
qed

definition run_ok :: "string \<Rightarrow> bool \<Rightarrow> bool \<Rightarrow> bool \<Rightarrow> (hworld, unit) io" where
  "run_ok device force disablePrefetch dryRun w = (Inr (), w)"

definition run_fails :: "string \<Rightarrow> bool \<Rightarrow> bool \<Rightarrow> bool \<Rightarrow> (hworld, unit) io" where
  "run_fails device force disablePrefetch dryRun w = (Inl (ErrorString ''dirty log''), w)"

lemma runs_keep: "run_keeps F run_ok" "run_keeps F run_fails"
  by (simp_all add: run_keeps_def keeps_def run_ok_def run_fails_def)

lemma probe_world_drive: "world_drives probe_world ''drive-1'' = Some sample_drive" "\<not> gone sample_drive"
  by (simp_all add: world_drives_def probe_world_def world.defs hworld.defs sample_world_def lookup_obj_def
      sample_drive_def NewDirectPVDrive_def gone_def)


definition sample_device :: fs_device where
  "sample_device = Device.extend free_device (fs_device.fields ''drive-1'' ''DIRECTPV'' 1000 1000)"

theorem failed_repair_sticks_witness:
  "\<exists>e w1 w2 d'. startRepair store_probe run_fails False False False ''drive-1'' probe_world = (Inl e, w1) \<and>
     updateDrive store_probe [(''drive-1'', [sample_device])] ''drive-1'' w1 = (Inr (), w2) \<and>
     world_drives w2 ''drive-1'' = Some d' \<and> dStatus (driveStatus d') = DriveStatusRepairing"
proof -
  let ?m = "[(''drive-1'', [sample_device])]"
  have "case startRepair store_probe run_fails False False False ''drive-1'' probe_world of (Inr u, w) \<Rightarrow> False
      | (Inl e, w) \<Rightarrow> (case world_drives w ''drive-1'' of None \<Rightarrow> False | Some d \<Rightarrow> dStatus (driveStatus d) = DriveStatusRepairing) \<and>
          \<not> isl (fst (updateDrive store_probe ?m ''drive-1'' w))"
    by code_simp
  then obtain e w1 d1 where s: "startRepair store_probe run_fails False False False ''drive-1'' probe_world = (Inl e, w1)"
      and d1: "world_drives w1 ''drive-1'' = Some d1" "dStatus (driveStatus d1) = DriveStatusRepairing"
      and u: "\<not> isl (fst (updateDrive store_probe ?m ''drive-1'' w1))"
    by (auto split: prod.splits sum.splits option.splits)
  obtain w2 where u2: "updateDrive store_probe ?m ''drive-1'' w1 = (Inr (), w2)"
    using not_isl_ok [OF u] by auto
  have "dStatus (driveStatus sample_drive) \<noteq> DriveStatusRepairing" by (simp add: sample_drive_def NewDirectPVDrive_def)
  then have ne: "world_drives w1 \<noteq> world_drives probe_world" using d1 probe_world_drive(1) by auto
  have m: "devices_of ?m (dFSUUID (driveStatus sample_drive)) = [sample_device]"
    by (simp add: devices_of_def sample_drive_def NewDirectPVDrive_def)
  show ?thesis
    using failed_repair_sticks [OF store_prober.probe_cluster_axioms, OF runs_keep(2) runs_keep(2) s probe_world_drive ne m u2] s u2 by auto
qed

end
