(* ===== verification/Xfs.thy ===== *)
theory Xfs
  imports Host "HOL-Library.Word" "HOL-Library.Log_Nat"
begin

text \<open>
  The XFS file system, \<^verbatim>\<open>pkg/xfs\<close>: reading UUID, label and capacities from a superblock
  (\<^verbatim>\<open>probe_linux.go\<close>), formatting (\<^verbatim>\<open>mkfs_linux.go\<close>), project quotas
  (\<^verbatim>\<open>quota_linux.go\<close>) and the command line of a repair
  (\<^verbatim>\<open>repair_linux.go\<close>). Integers have their width; system calls and programs are
  parameters. A superblock that was written is read back, whatever follows it on the device; a quota that
  was set is read back rounded up to a block.
\<close>

section \<open>Big-endian numbers\<close>

definition be_nat :: "string \<Rightarrow> nat" where
  "be_nat s = foldl (\<lambda>n c. n * 256 + byte c) 0 s"

definition be_word :: "string \<Rightarrow> 'a::len word" where
  "be_word s = of_nat (be_nat s)"

fun to_be :: "nat \<Rightarrow> nat \<Rightarrow> string" where
  "to_be 0 x = []"
| "to_be (Suc n) x = to_be n (x div 256) @ [char_of (x mod 256)]"

definition slice :: "nat \<Rightarrow> nat \<Rightarrow> string \<Rightarrow> string" where
  "slice from n s = take n (drop from s)"

lemma length_to_be [simp]: "length (to_be n x) = n"
  by (induction n arbitrary: x) auto

lemma be_nat_snoc: "be_nat (s @ [c]) = be_nat s * 256 + byte c"
  by (simp add: be_nat_def)

lemma be_nat_to_be: "be_nat (to_be n x) = x mod 256 ^ n"
proof (induction n arbitrary: x)
  case (Suc n)
  have "be_nat (to_be (Suc n) x) = (x div 256) mod 256 ^ n * 256 + x mod 256"
    using Suc by (simp add: be_nat_snoc byte_def)
  also have "\<dots> = x mod (256 * 256 ^ n)" by (simp add: mod_mult2_eq mult.commute)
  finally show ?case by simp
qed (simp add: be_nat_def)

lemma be_word_to_be:
  assumes "LENGTH('a) = 8 * n"
  shows "be_word (to_be n (unat (x :: 'a::len word))) = x"
proof -
  have "unat x < 256 ^ n" using unsigned_less [of x] assms by (simp add: power_mult)
  then show ?thesis by (simp add: be_word_def be_nat_to_be)
qed

section \<open>Superblocks\<close>

record superBlock =
  MagicNumber :: "32 word"
  BlockSize :: "32 word"
  TotalBlocks :: "64 word"
  RBlocks :: "64 word"
  RExtents :: "64 word"
  sbUUID :: string
  FirstBlock :: "64 word"
  RootInode :: "64 word"
  ExtentsBitmapInode :: "64 word"
  BitmapSummaryInode :: "64 word"
  ExtentSize :: "32 word"
  AGSize :: "32 word"
  AGCount :: "32 word"
  BitmapBlocks :: "32 word"
  JournalBlocks :: "32 word"
  FilesystemVersion :: "16 word"
  SectorSize :: "16 word"
  InodeSize :: "16 word"
  Inodes :: "16 word"
  FilesystemName :: string
  LogBlockSize :: "8 word"
  LogSectorSize :: "8 word"
  LogInodeSize :: "8 word"
  LogInodeOrBlockSize :: "8 word"
  LogAGSize :: "8 word"
  LogExtents :: "8 word"
  InProgress :: "8 word"
  MaxInodePercentage :: "8 word"
  AllocatedInodes :: "64 word"
  FreeInodes :: "64 word"
  FreeBlocks :: "64 word"
  FreeExtents :: "64 word"

definition superBlock_size :: nat where "superBlock_size = 160"

text \<open>\<^verbatim>\<open>binary.Read\<close> in big-endian order, field by field.\<close>

definition decode_superBlock :: "string \<Rightarrow> superBlock" where
  "decode_superBlock s =
     \<lparr> MagicNumber = be_word (slice 0 4 s), BlockSize = be_word (slice 4 4 s), TotalBlocks = be_word (slice 8 8 s),
       RBlocks = be_word (slice 16 8 s), RExtents = be_word (slice 24 8 s), sbUUID = slice 32 16 s,
       FirstBlock = be_word (slice 48 8 s), RootInode = be_word (slice 56 8 s),
       ExtentsBitmapInode = be_word (slice 64 8 s), BitmapSummaryInode = be_word (slice 72 8 s),
       ExtentSize = be_word (slice 80 4 s), AGSize = be_word (slice 84 4 s), AGCount = be_word (slice 88 4 s),
       BitmapBlocks = be_word (slice 92 4 s), JournalBlocks = be_word (slice 96 4 s),
       FilesystemVersion = be_word (slice 100 2 s), SectorSize = be_word (slice 102 2 s),
       InodeSize = be_word (slice 104 2 s), Inodes = be_word (slice 106 2 s), FilesystemName = slice 108 12 s,
       LogBlockSize = be_word (slice 120 1 s), LogSectorSize = be_word (slice 121 1 s),
       LogInodeSize = be_word (slice 122 1 s), LogInodeOrBlockSize = be_word (slice 123 1 s),
       LogAGSize = be_word (slice 124 1 s), LogExtents = be_word (slice 125 1 s), InProgress = be_word (slice 126 1 s),
       MaxInodePercentage = be_word (slice 127 1 s), AllocatedInodes = be_word (slice 128 8 s),
       FreeInodes = be_word (slice 136 8 s), FreeBlocks = be_word (slice 144 8 s), FreeExtents = be_word (slice 152 8 s) \<rparr>"

text \<open>The layout on disk.\<close>

definition encode_superBlock :: "superBlock \<Rightarrow> string" where
  "encode_superBlock sb = concat
     [to_be 4 (unat (MagicNumber sb)), to_be 4 (unat (BlockSize sb)), to_be 8 (unat (TotalBlocks sb)),
      to_be 8 (unat (RBlocks sb)), to_be 8 (unat (RExtents sb)), sbUUID sb,
      to_be 8 (unat (FirstBlock sb)), to_be 8 (unat (RootInode sb)), to_be 8 (unat (ExtentsBitmapInode sb)),
      to_be 8 (unat (BitmapSummaryInode sb)), to_be 4 (unat (ExtentSize sb)), to_be 4 (unat (AGSize sb)),
      to_be 4 (unat (AGCount sb)), to_be 4 (unat (BitmapBlocks sb)), to_be 4 (unat (JournalBlocks sb)),
      to_be 2 (unat (FilesystemVersion sb)), to_be 2 (unat (SectorSize sb)), to_be 2 (unat (InodeSize sb)),
      to_be 2 (unat (Inodes sb)), FilesystemName sb, to_be 1 (unat (LogBlockSize sb)), to_be 1 (unat (LogSectorSize sb)),
      to_be 1 (unat (LogInodeSize sb)), to_be 1 (unat (LogInodeOrBlockSize sb)), to_be 1 (unat (LogAGSize sb)),
      to_be 1 (unat (LogExtents sb)), to_be 1 (unat (InProgress sb)), to_be 1 (unat (MaxInodePercentage sb)),
      to_be 8 (unat (AllocatedInodes sb)), to_be 8 (unat (FreeInodes sb)), to_be 8 (unat (FreeBlocks sb)),
      to_be 8 (unat (FreeExtents sb))]"

text \<open>\<^verbatim>\<open>%x\<close> of a number in a fixed number of digits (with \<^verbatim>\<open>%08x\<close> and its
  kin no number of that width needs more), and of bytes.\<close>

definition hex_digit :: "nat \<Rightarrow> char" where
  "hex_digit d = (if d < 10 then char_of (48 + d) else char_of (87 + d))"

fun pad_hex :: "nat \<Rightarrow> nat \<Rightarrow> string" where
  "pad_hex 0 x = []"
| "pad_hex (Suc n) x = pad_hex n (x div 16) @ [hex_digit (x mod 16)]"

definition hex_bytes :: "string \<Rightarrow> string" where
  "hex_bytes s = concat (map (\<lambda>c. pad_hex 2 (byte c)) s)"

definition bytesToUUIDString :: "string \<Rightarrow> string" where
  "bytesToUUIDString uuid =
     pad_hex 8 (unat (be_word (slice 0 4 uuid) :: 32 word)) @ ''-'' @
     pad_hex 4 (unat (be_word (slice 4 2 uuid) :: 16 word)) @ ''-'' @
     pad_hex 4 (unat (be_word (slice 6 2 uuid) :: 16 word)) @ ''-'' @
     hex_bytes (slice 8 2 uuid) @ ''-'' @ hex_bytes (drop 10 uuid)"

definition ErrFSNotFound :: error where "ErrFSNotFound = ErrorString ''filesystem not found''"

definition ErrCanceled :: error where "ErrCanceled = ErrorString ''canceled by context''"

definition io_EOF :: error where "io_EOF = ErrorString ''EOF''"

definition io_ErrUnexpectedEOF :: error where "io_ErrUnexpectedEOF = ErrorString ''unexpected EOF''"

type_synonym fs_info = "string \<times> string \<times> 64 word \<times> 64 word"

definition fs_info_of :: "superBlock \<Rightarrow> fs_info" where
  "fs_info_of sb =
     (bytesToUUIDString (sbUUID sb), rev (dropWhile (\<lambda>c. c = CHR 0x00) (rev (FilesystemName sb))),
      TotalBlocks sb * ucast (BlockSize sb), FreeBlocks sb * ucast (BlockSize sb))"

definition readSuperBlock :: "reader \<Rightarrow> fs_info result" where
  "readSuperBlock r =
     (if length (fst r) < superBlock_size then
        Inl (case snd r of Some err \<Rightarrow> err | None \<Rightarrow> if fst r = [] then io_EOF else io_ErrUnexpectedEOF)
      else let sb = decode_superBlock (fst r)
           in if MagicNumber sb = 0x58465342 then Inr (fs_info_of sb) else Inl ErrFSNotFound)"

text \<open>\<^verbatim>\<open>probe\<close> waits for the goroutine that reads, up to 15 seconds: \<open>timely\<close>
  says whether reading ends before. A file that cannot be opened ends the goroutine without closing the
  channel, so the wait always runs into the deadline.\<close>

definition deadline_error :: error where
  "deadline_error = Join ErrCanceled (ErrorString ''context deadline exceeded'')"

definition xfs_probe :: "(string \<Rightarrow> ('w, reader) io) \<Rightarrow> bool \<Rightarrow> string \<Rightarrow> ('w, fs_info) io" where
  "xfs_probe OpenFile timely path w =
     call (OpenFile path w) (\<lambda>err w. (Inl deadline_error, w))
       (\<lambda>devFile w. (if timely then readSuperBlock devFile else Inl deadline_error, w))"

definition FSLabel :: string where "FSLabel = ''DIRECTPV''"

definition mkfs_args :: "string \<Rightarrow> string \<Rightarrow> bool \<Rightarrow> bool \<Rightarrow> string list" where
  "mkfs_args device uuid force reflink =
     [''-i'', ''maxpct=50'', ''-m'', ''uuid='' @ uuid] @ (if \<not> reflink then [''-m'', ''reflink=0''] else []) @
     (if force then [''-f''] else []) @ [''-L'', FSLabel, device]"

definition makeFS ::
  "(string list \<Rightarrow> ('w, unit) io) \<Rightarrow> (string \<Rightarrow> ('w, fs_info) io) \<Rightarrow> string \<Rightarrow> string \<Rightarrow> bool \<Rightarrow> bool \<Rightarrow> ('w, fs_info) io" where
  "makeFS mkfs probe device uuid force reflink w =
     call (mkfs (mkfs_args device uuid force reflink) w)
       (\<lambda>err w. (Inl (Wrap ''unable to execute command'' err), w)) (\<lambda>_ w. probe device w)"

definition xfs_repair ::
  "(string list \<Rightarrow> ('w, unit) io) \<Rightarrow> string \<Rightarrow> bool \<Rightarrow> bool \<Rightarrow> bool \<Rightarrow> ('w, unit) io" where
  "xfs_repair run device force disablePrefetch dryRun w =
     call (run ([device, ''-v''] @ (if force then [''-L''] else []) @ (if disablePrefetch then [''-P''] else []) @
                (if dryRun then [''-n''] else [])) w)
       (\<lambda>err w. (Inl (Wrap ''unable to run xfs_repair'' err), w)) (\<lambda>_ w. (Inr (), w))"

section \<open>Project quotas\<close>

record fsDiskQuota =
  qVersion :: "8 word"
  qFlags :: "8 word"
  qFieldmask :: "16 word"
  qId :: "32 word"
  hardLimitBlocks :: "64 word"
  softLimitBlocks :: "64 word"
  blocksCount :: "64 word"

record fsXAttr =
  fsXXFlags :: "32 word"
  fsXProjID :: "32 word"

text \<open>The system calls: reading and writing a project quota of a device, opening a directory, and
  reading and writing its attributes; \<open>Sum256\<close> is SHA-256.\<close>

record 'w quota_sys =
  quotactl_get :: "string \<Rightarrow> 32 word \<Rightarrow> ('w, fsDiskQuota) io"
  quotactl_set :: "string \<Rightarrow> 32 word \<Rightarrow> fsDiskQuota \<Rightarrow> ('w, unit) io"
  openDir :: "string \<Rightarrow> ('w, unit) io"
  ioctl_get :: "string \<Rightarrow> ('w, fsXAttr) io"
  ioctl_set :: "string \<Rightarrow> fsXAttr \<Rightarrow> ('w, unit) io"
  Sum256 :: "string \<Rightarrow> string"

definition getProjectIDHash :: "('w, 'a) quota_sys_scheme \<Rightarrow> string \<Rightarrow> 32 word" where
  "getProjectIDHash Q volumeID = be_word (rev (take 4 (Sum256 Q volumeID)))"

text \<open>\<^verbatim>\<open>syscall.BytePtrFromString\<close> refuses a string with a NUL byte.\<close>

definition EINVAL :: error where "EINVAL = ErrorString ''invalid argument''"

definition has_nul :: "string \<Rightarrow> bool" where
  "has_nul s = list_ex (\<lambda>c. c = CHR 0x00) s"

definition quota_of :: "fsDiskQuota \<Rightarrow> Quota" where
  "quota_of q =
     \<lparr> HardLimit = uint (hardLimitBlocks q * 512), SoftLimit = uint (softLimitBlocks q * 512),
       CurrentSpace = uint (blocksCount q * 512) \<rparr>"

definition xfs_getQuota :: "('w, 'a) quota_sys_scheme \<Rightarrow> string \<Rightarrow> string \<Rightarrow> ('w, Quota) io" where
  "xfs_getQuota Q device volumeID w =
     (if has_nul device then (Inl EINVAL, w)
      else call (quotactl_get Q device (getProjectIDHash Q volumeID) w)
        (\<lambda>err w. (Inl (Wrap ''quotactl'' err), w)) (\<lambda>q w. (Inr (quota_of q), w)))"

definition setProjectID :: "('w, 'a) quota_sys_scheme \<Rightarrow> string \<Rightarrow> 32 word \<Rightarrow> ('w, unit) io" where
  "setProjectID Q path projectID w =
     call (openDir Q path w) (\<lambda>err w. (Inl err, w))
       (\<lambda>_ w. call (ioctl_get Q path w) (\<lambda>err w. (Inl (Wrap ''FS_IOC_FSGETXATTR'' err), w))
          (\<lambda>fsx w. call (ioctl_set Q path (fsx\<lparr>fsXProjID := projectID, fsXXFlags := or (fsXXFlags fsx) 0x200\<rparr>) w)
             (\<lambda>err w. (Inl (Wrap ''FS_IOC_FSSETXATTR'' err), w)) (\<lambda>_ w. (Inr (), w))))"

text \<open>\<^verbatim>\<open>float64(x)\<close> of an unsigned number: 53 significant bits, rounded to the nearest,
  halves to even. Dividing by 512 and rounding up are exact.\<close>

definition float64 :: "nat \<Rightarrow> nat" where
  "float64 n =
     (if n < 2 ^ 53 then n
      else let e = floorlog 2 n - 53; q = n div 2 ^ e; r = n mod 2 ^ e
           in (if 2 * r > 2 ^ e \<or> 2 * r = 2 ^ e \<and> odd q then q + 1 else q) * 2 ^ e)"

definition quota_blocks :: "int \<Rightarrow> 64 word" where
  "quota_blocks limit = of_nat ((float64 (nat limit) + 511) div 512)"

definition setProjectQuota :: "('w, 'a) quota_sys_scheme \<Rightarrow> string \<Rightarrow> 32 word \<Rightarrow> Quota \<Rightarrow> ('w, unit) io" where
  "setProjectQuota Q device projectID quota w =
     (if has_nul device then (Inl EINVAL, w)
      else call (quotactl_set Q device projectID
                   \<lparr> qVersion = 1, qFlags = 2, qFieldmask = or 8 4, qId = projectID,
                     hardLimitBlocks = quota_blocks (HardLimit quota), softLimitBlocks = quota_blocks (SoftLimit quota),
                     blocksCount = 0 \<rparr> w)
        (\<lambda>err w. (Inl (Wrap ''quotactl'' err), w)) (\<lambda>_ w. (Inr (), w)))"

definition xfs_setQuota ::
  "('w, 'a) quota_sys_scheme \<Rightarrow> string \<Rightarrow> string \<Rightarrow> string \<Rightarrow> Quota \<Rightarrow> bool \<Rightarrow> ('w, unit) io" where
  "xfs_setQuota Q device path volumeID quota update w =
     (let projectID = getProjectIDHash Q volumeID
      in if update then setProjectQuota Q device projectID quota w
         else call (xfs_getQuota Q device volumeID w)
           (\<lambda>_ w. call (setProjectID Q path projectID w) (\<lambda>err w. (Inl err, w))
              (\<lambda>_ w. setProjectQuota Q device projectID quota w))
           (\<lambda>info w. if HardLimit info = HardLimit quota then (Inr (), w)
                     else setProjectQuota Q device projectID quota w))"

text \<open>\<^verbatim>\<open>GetQuota\<close> and \<^verbatim>\<open>SetQuota\<close> wait for the call or for the end of
  the context; a call that is given up may still take place (\<open>late\<close>).\<close>

definition with_context :: "bool \<Rightarrow> bool \<Rightarrow> ('w, 'a) io \<Rightarrow> ('w, 'a) io" where
  "with_context canceled late f w =
     (if canceled then (Inl (Join ErrCanceled (ErrorString ''context canceled'')), if late then snd (f w) else w) else f w)"

definition xfs_GetQuota :: "('w, 'a) quota_sys_scheme \<Rightarrow> bool \<Rightarrow> bool \<Rightarrow> string \<Rightarrow> string \<Rightarrow> ('w, Quota) io" where
  "xfs_GetQuota Q canceled late device volumeID = with_context canceled late (xfs_getQuota Q device volumeID)"

definition xfs_SetQuota ::
  "('w, 'a) quota_sys_scheme \<Rightarrow> bool \<Rightarrow> bool \<Rightarrow> string \<Rightarrow> string \<Rightarrow> string \<Rightarrow> Quota \<Rightarrow> bool \<Rightarrow> ('w, unit) io" where
  "xfs_SetQuota Q canceled late device path volumeID quota update =
     with_context canceled late (xfs_setQuota Q device path volumeID quota update)"

section \<open>Reading back a superblock\<close>

lemma decode_encode:
  assumes "length (sbUUID sb) = 16" and "length (FilesystemName sb) = 12"
  shows "decode_superBlock (encode_superBlock sb @ rest) = sb"
proof -
  have "be_word [char_of (unat x)] = x" for x :: "8 word"
    using be_word_to_be [of 1 x] unsigned_less [of x] by simp
  then show ?thesis
    using assms unfolding decode_superBlock_def encode_superBlock_def by (simp add: slice_def be_word_to_be)
qed

lemma length_encode:
  "length (sbUUID sb) = 16 \<Longrightarrow> length (FilesystemName sb) = 12 \<Longrightarrow> length (encode_superBlock sb) = superBlock_size"
  by (simp add: encode_superBlock_def superBlock_size_def)

text \<open>Hexadecimal digits and the UUID they write.\<close>

lemma length_pad_hex [simp]: "length (pad_hex n x) = n"
  by (induction n arbitrary: x) auto

lemma hex_digit_inj: "a < 16 \<Longrightarrow> b < 16 \<Longrightarrow> hex_digit a = hex_digit b \<Longrightarrow> a = b"
  by (auto simp: hex_digit_def char_of_eq_iff take_bit_eq_mod split: if_splits)

lemma pad_hex_inj: "x < 16 ^ n \<Longrightarrow> y < 16 ^ n \<Longrightarrow> pad_hex n x = pad_hex n y \<Longrightarrow> x = y"
proof (induction n arbitrary: x y)
  case (Suc n)
  have "x div 16 < 16 ^ n" "y div 16 < 16 ^ n" using Suc.prems by (simp_all add: less_mult_imp_div_less)
  then have "x div 16 = y div 16" using Suc by simp
  moreover have "x mod 16 = y mod 16" using Suc.prems hex_digit_inj by simp
  ultimately show ?case by (metis div_mult_mod_eq)
qed simp

lemma be_nat_bound: "be_nat s < 256 ^ length s"
proof (induction s rule: rev_induct)
  case (snoc c s)
  have "byte c < 256" by (simp add: byte_def)
  with snoc show ?case by (simp add: be_nat_snoc)
qed (simp add: be_nat_def)

lemma unat_be_word: "LENGTH('a) = 8 * length s \<Longrightarrow> unat (be_word s :: 'a::len word) = be_nat s"
  using be_nat_bound [of s] by (simp add: be_word_def unat_of_nat power_mult)

lemma pad_hex_two: "b < 256 \<Longrightarrow> pad_hex (Suc (Suc n)) (x * 256 + b) = pad_hex n x @ pad_hex 2 b"
proof -
  assume "b < 256"
  then have "b div 16 < 16" by (simp add: less_mult_imp_div_less)
  moreover have "(x * 256 + b) div 16 = x * 16 + b div 16" "(x * 256 + b) mod 16 = b mod 16"
    using div_mult_self2 [of 16 b "x * 16"] mod_mult_self2 [of b 16 "x * 16"] by (simp_all add: algebra_simps)
  ultimately show ?thesis by (simp add: numeral_2_eq_2)
qed

lemma pad_hex_be: "pad_hex (2 * length s) (be_nat s) = hex_bytes s"
proof (induction s rule: rev_induct)
  case (snoc c s)
  have "byte c < 256" by (simp add: byte_def)
  with snoc show ?case by (simp add: be_nat_snoc pad_hex_two hex_bytes_def del: pad_hex.simps)
qed (simp add: hex_bytes_def be_nat_def)

lemma hex_bytes_inj: "length s = length t \<Longrightarrow> hex_bytes s = hex_bytes t \<Longrightarrow> s = t"
proof (induction s t rule: list_induct2)
  case (Cons c s d t)
  then have e: "pad_hex 2 (byte c) = pad_hex 2 (byte d)" and r: "hex_bytes s = hex_bytes t"
    by (simp_all add: hex_bytes_def append_eq_append_conv)
  have "byte c < 16 ^ 2" "byte d < 16 ^ 2" by (simp_all add: byte_def)
  then have "byte c = byte d" using e by (rule pad_hex_inj)
  then show ?case using Cons r by (simp add: byte_def)
qed simp

lemma uuid_digits:
  assumes "length u = 16"
  shows "bytesToUUIDString u = hex_bytes (slice 0 4 u) @ ''-'' @ hex_bytes (slice 4 2 u) @ ''-'' @ hex_bytes (slice 6 2 u) @
    ''-'' @ hex_bytes (slice 8 2 u) @ ''-'' @ hex_bytes (drop 10 u)"
proof -
  have "length (slice 0 4 u) = 4" "length (slice 4 2 u) = 2" "length (slice 6 2 u) = 2"
    using assms by (simp_all add: slice_def)
  then show ?thesis
    using pad_hex_be [of "slice 0 4 u"] pad_hex_be [of "slice 4 2 u"] pad_hex_be [of "slice 6 2 u"]
    unfolding bytesToUUIDString_def by (simp add: unat_be_word)
qed

lemma length_hex_bytes [simp]: "length (hex_bytes s) = 2 * length s"
  by (induction s) (simp_all add: hex_bytes_def)

lemma uuid_inj:
  assumes "length u = 16" and "length v = 16" and "bytesToUUIDString u = bytesToUUIDString v"
  shows "u = v"
proof -
  have l: "length (slice 0 4 x) = 4" "length (slice 4 2 x) = 2" "length (slice 6 2 x) = 2" "length (slice 8 2 x) = 2" "length (drop 10 x) = 6"
    if "length x = 16" for x :: string using that by (simp_all add: slice_def)
  have "slice 0 4 u = slice 0 4 v" "slice 4 2 u = slice 4 2 v" "slice 6 2 u = slice 6 2 v" "slice 8 2 u = slice 8 2 v" "drop 10 u = drop 10 v"
    using assms(3) l [OF assms(1)] l [OF assms(2)] unfolding uuid_digits [OF assms(1)] uuid_digits [OF assms(2)]
    by (simp_all add: append_eq_append_conv hex_bytes_inj)
  moreover have "x = slice 0 4 x @ slice 4 2 x @ slice 6 2 x @ slice 8 2 x @ drop 10 x" for x :: string
    using append_take_drop_id [of 4 x] append_take_drop_id [of 2 "drop 4 x"] append_take_drop_id [of 2 "drop 6 x"]
      append_take_drop_id [of 2 "drop 8 x"] by (simp add: slice_def)
  ultimately show ?thesis by metis
qed

lemma trim_right:
  "(\<exists>n. s = rev (dropWhile (\<lambda>c. c = a) (rev s)) @ replicate n a) \<and>
   (rev (dropWhile (\<lambda>c. c = a) (rev s)) = [] \<or> last (rev (dropWhile (\<lambda>c. c = a) (rev s))) \<noteq> a)"
proof
  have t: "takeWhile (\<lambda>c. c = a) (rev s) = replicate (length (takeWhile (\<lambda>c. c = a) (rev s))) a"
    by (rule replicate_eqI [THEN sym, THEN sym]) (auto dest: set_takeWhileD)
  have "rev s = takeWhile (\<lambda>c. c = a) (rev s) @ dropWhile (\<lambda>c. c = a) (rev s)" by simp
  then have "s = rev (dropWhile (\<lambda>c. c = a) (rev s)) @ rev (takeWhile (\<lambda>c. c = a) (rev s))"
    by (metis rev_append rev_rev_ident)
  then show "\<exists>n. s = rev (dropWhile (\<lambda>c. c = a) (rev s)) @ replicate n a"
    by (metis t rev_replicate)
  show "rev (dropWhile (\<lambda>c. c = a) (rev s)) = [] \<or> last (rev (dropWhile (\<lambda>c. c = a) (rev s))) \<noteq> a"
    using hd_dropWhile [of "\<lambda>c. c = a" "rev s"] by (auto simp: last_rev)
qed

text \<open>C34. Reading a superblock gives back what is on disk, whatever follows it: the UUID in its textual
  form, which tells file systems apart, the label without its padding, and the capacities, which are
  exact while they fit 64 bits. With another magic number there is no file system.\<close>

theorem readSuperBlock_correct:
  assumes "length (sbUUID sb) = 16" and "length (FilesystemName sb) = 12"
    and "unat (TotalBlocks sb) * unat (BlockSize sb) < 2 ^ 64" and "unat (FreeBlocks sb) * unat (BlockSize sb) < 2 ^ 64"
  shows "if MagicNumber sb = 0x58465342
    then \<exists>uuid label total free. readSuperBlock (encode_superBlock sb @ rest, e) = Inr (uuid, label, total, free) \<and>
      (\<forall>u. length u = 16 \<longrightarrow> (uuid = bytesToUUIDString u) = (u = sbUUID sb)) \<and>
      (\<exists>n. FilesystemName sb = label @ replicate n (CHR 0x00)) \<and> (label = [] \<or> last label \<noteq> CHR 0x00) \<and>
      unat total = unat (TotalBlocks sb) * unat (BlockSize sb) \<and> unat free = unat (FreeBlocks sb) * unat (BlockSize sb)
    else readSuperBlock (encode_superBlock sb @ rest, e) = Inl ErrFSNotFound"
proof -
  let ?label = "rev (dropWhile (\<lambda>c. c = CHR 0x00) (rev (FilesystemName sb)))"
  have r: "readSuperBlock (encode_superBlock sb @ rest, e) =
      (if MagicNumber sb = 0x58465342 then Inr (fs_info_of sb) else Inl ErrFSNotFound)"
    using decode_encode [OF assms(1,2)] length_encode [OF assms(1,2)] by (simp add: readSuperBlock_def)
  have "unat (x * ucast b) = unat x * unat b" if "unat x * unat b < 2 ^ 64" for x :: "64 word" and b :: "32 word"
  proof -
    have "unat b < 2 ^ LENGTH(32)" by (rule unsigned_less)
    then have "unat (ucast b :: 64 word) = unat b" by (simp add: unsigned_ucast_eq take_bit_nat_eq_self)
    then show ?thesis using that by (simp add: unat_word_ariths)
  qed
  then have c: "unat (TotalBlocks sb * ucast (BlockSize sb)) = unat (TotalBlocks sb) * unat (BlockSize sb)"
      "unat (FreeBlocks sb * ucast (BlockSize sb)) = unat (FreeBlocks sb) * unat (BlockSize sb)"
    using assms(3,4) by simp_all
  have u: "\<forall>u. length u = 16 \<longrightarrow> (bytesToUUIDString (sbUUID sb) = bytesToUUIDString u) = (u = sbUUID sb)"
    using uuid_inj assms(1) by metis
  have l: "(\<exists>n. FilesystemName sb = ?label @ replicate n (CHR 0x00)) \<and> (?label = [] \<or> last ?label \<noteq> CHR 0x00)"
    by (rule trim_right)
  show ?thesis unfolding r fs_info_of_def using c u l by (cases "MagicNumber sb = 0x58465342") auto
qed

section \<open>Setting a quota\<close>

lemma quota_blocks_bounds:
  assumes "0 \<le> limit" and "limit < 2 ^ 53"
  shows "limit \<le> uint (quota_blocks limit * 512) \<and> uint (quota_blocks limit * 512) < limit + 512"
proof -
  let ?n = "nat limit"
  let ?b = "(?n + 511) div 512"
  have "?n < 2 ^ 53" using assms by simp
  then have q: "quota_blocks limit = of_nat ?b" by (simp add: quota_blocks_def float64_def)
  have "?b * 512 < 2 ^ 64" using \<open>?n < 2 ^ 53\<close> by simp
  then have "unat (of_nat (?b * 512) :: 64 word) = ?b * 512" by (simp only: unat_of_nat) simp
  moreover have "quota_blocks limit * 512 = of_nat (?b * 512)" by (simp add: q)
  ultimately have "uint (quota_blocks limit * 512) = int (?b * 512)" by (metis of_nat_unat)
  moreover have "?n \<le> ?b * 512" "?b * 512 < ?n + 512"
    using div_mult_mod_eq [of "?n + 511" 512] mod_less_divisor [of 512 "?n + 511"] by linarith+
  then have "int ?n \<le> int (?b * 512)" "int (?b * 512) < int ?n + 512" by linarith+
  ultimately show ?thesis using assms(1) by simp
qed

text \<open>The kernel keeps the quotas it is given, and reading one does not change it.\<close>

locale quota_host =
  fixes Q :: "('w, 'a) quota_sys_scheme"
  assumes get_after_set: "quotactl_set Q device projectID q w = (Inr (), w') \<Longrightarrow>
      \<exists>q' w''. quotactl_get Q device projectID w' = (Inr q', w'') \<and>
        hardLimitBlocks q' = hardLimitBlocks q \<and> softLimitBlocks q' = softLimitBlocks q"
    and get_again: "quotactl_get Q device projectID w = (r, w') \<Longrightarrow> fst (quotactl_get Q device projectID w') = r"
begin

lemma setProjectQuota_stored:
  assumes "setProjectQuota Q device (getProjectIDHash Q volumeID) quota w = (Inr (), w')"
  shows "\<exists>q. fst (xfs_getQuota Q device volumeID w') = Inr q \<and>
    HardLimit q = uint (quota_blocks (HardLimit quota) * 512) \<and> SoftLimit q = uint (quota_blocks (SoftLimit quota) * 512)"
proof -
  let ?id = "getProjectIDHash Q volumeID"
  let ?q = "\<lparr> qVersion = 1, qFlags = 2, qFieldmask = or 8 4, qId = ?id,
    hardLimitBlocks = quota_blocks (HardLimit quota), softLimitBlocks = quota_blocks (SoftLimit quota), blocksCount = 0 \<rparr>"
  have n: "\<not> has_nul device" using assms by (auto simp: setProjectQuota_def)
  obtain r w1 where s: "quotactl_set Q device ?id ?q w = (r, w1)" by fastforce
  then have "r = Inr ()" "w1 = w'" using assms n by (cases r; simp add: setProjectQuota_def)+
  then obtain q' w'' where "quotactl_get Q device ?id w' = (Inr q', w'')"
      "hardLimitBlocks q' = hardLimitBlocks ?q" "softLimitBlocks q' = softLimitBlocks ?q"
    using get_after_set s by blast
  then show ?thesis using n by (simp add: xfs_getQuota_def quota_of_def)
qed

lemma getQuota_again: "xfs_getQuota Q device volumeID w = (r, w') \<Longrightarrow> fst (xfs_getQuota Q device volumeID w') = r"
proof -
  assume a: "xfs_getQuota Q device volumeID w = (r, w')"
  obtain b w1 where g: "quotactl_get Q device (getProjectIDHash Q volumeID) w = (b, w1)" by fastforce
  obtain c w2 where h: "quotactl_get Q device (getProjectIDHash Q volumeID) w1 = (c, w2)" by fastforce
  have "c = b" using get_again [OF g] h by simp
  then show ?thesis using a g h by (cases b) (auto simp: xfs_getQuota_def split: if_splits)
qed

lemma setQuota_stored:
  assumes "xfs_setQuota Q device path volumeID quota update w = (Inr (), w')"
  shows "\<exists>q. fst (xfs_getQuota Q device volumeID w') = Inr q \<and>
    (HardLimit q = HardLimit quota \<or> HardLimit q = uint (quota_blocks (HardLimit quota) * 512))"
proof (cases update)
  case True
  then show ?thesis using assms setProjectQuota_stored by (fastforce simp: xfs_setQuota_def Let_def)
next
  case False
  obtain r w1 where g: "xfs_getQuota Q device volumeID w = (r, w1)" by fastforce
  show ?thesis
  proof (cases r)
    case (Inl e)
    obtain p w2 where s: "setProjectID Q path (getProjectIDHash Q volumeID) w1 = (p, w2)" by fastforce
    then have "setProjectQuota Q device (getProjectIDHash Q volumeID) quota w2 = (Inr (), w')"
      using assms False g Inl by (cases p) (simp_all add: xfs_setQuota_def Let_def)
    then show ?thesis using setProjectQuota_stored by blast
  next
    case (Inr info)
    show ?thesis
    proof (cases "HardLimit info = HardLimit quota")
      case True
      then have "w' = w1" using assms False g Inr by (simp add: xfs_setQuota_def Let_def)
      then show ?thesis using getQuota_again [OF g] Inr True by auto
    next
      case f: False
      then show ?thesis using assms False g Inr setProjectQuota_stored by (fastforce simp: xfs_setQuota_def Let_def)
    qed
  qed
qed

end

text \<open>A \<^verbatim>\<open>SetQuota\<close> without error makes the quota that is read back at least the limit and
  less than a block of 512 bytes more, for limits below 8 PiB, where the floating point computation is
  exact.\<close>

theorem SetQuota_correct:
  assumes "quota_host Q" and "xfs_SetQuota Q canceled late device path volumeID quota update w = (Inr (), w')"
    and "0 \<le> HardLimit quota" and "HardLimit quota < 2 ^ 53"
  shows "\<exists>q. fst (xfs_GetQuota Q False r device volumeID w') = Inr q \<and>
    HardLimit quota \<le> HardLimit q \<and> HardLimit q < HardLimit quota + 512"
proof -
  have "xfs_setQuota Q device path volumeID quota update w = (Inr (), w')"
    using assms(2) by (cases canceled) (simp_all add: xfs_SetQuota_def with_context_def)
  then show ?thesis
    using quota_host.setQuota_stored [OF assms(1)] quota_blocks_bounds [OF assms(3,4)]
    unfolding xfs_GetQuota_def with_context_def by fastforce
qed

section \<open>Examples\<close>

definition sample_superBlock :: superBlock where
  "sample_superBlock =
     (decode_superBlock (replicate 160 (CHR 0x00)))\<lparr> MagicNumber := 0x58465342, BlockSize := 4096, TotalBlocks := 1000,
       FreeBlocks := 900, sbUUID := replicate 16 (CHR ''a''), FilesystemName := ''DIRECTPV'' @ replicate 4 (CHR 0x00) \<rparr>"

theorem readSuperBlock_correct_witness:
  "\<exists>uuid label total free. readSuperBlock (encode_superBlock sample_superBlock @ ''rest'', None) = Inr (uuid, label, total, free) \<and>
     unat total = 4096000 \<and> unat free = 3686400"
proof -
  have "length (sbUUID sample_superBlock) = 16" "length (FilesystemName sample_superBlock) = 12"
      "unat (TotalBlocks sample_superBlock) * unat (BlockSize sample_superBlock) = 4096000"
      "unat (FreeBlocks sample_superBlock) * unat (BlockSize sample_superBlock) = 3686400"
      "MagicNumber sample_superBlock = 0x58465342"
    by (simp_all add: sample_superBlock_def)
  then show ?thesis using readSuperBlock_correct [of sample_superBlock "''rest''" None] by auto
qed

text \<open>A kernel that keeps its quotas in a list.\<close>

type_synonym quota_world = "((string \<times> 32 word) \<times> fsDiskQuota) list"

definition store_quota :: "quota_world quota_sys" where
  "store_quota =
     \<lparr> quotactl_get = (\<lambda>device projectID w.
         (case map_of w (device, projectID) of None \<Rightarrow> Inl (Errno ENOENT) | Some q \<Rightarrow> Inr q, w)),
       quotactl_set = (\<lambda>device projectID q w. (Inr (), ((device, projectID), q) # w)),
       openDir = (\<lambda>path w. (Inr (), w)), ioctl_get = (\<lambda>path w. (Inr \<lparr> fsXXFlags = 0, fsXProjID = 0 \<rparr>, w)),
       ioctl_set = (\<lambda>path fsx w. (Inr (), w)), Sum256 = (\<lambda>s. s) \<rparr>"

interpretation stored_quotas: quota_host store_quota
  by unfold_locales (auto simp: store_quota_def)

theorem SetQuota_correct_witness:
  "\<exists>w' q. xfs_SetQuota store_quota False True ''/dev/sda'' ''/mnt'' ''pvc-1'' (capacity_quota 1000) False [] = (Inr (), w') \<and>
     fst (xfs_GetQuota store_quota False True ''/dev/sda'' ''pvc-1'' w') = Inr q \<and> 1000 \<le> HardLimit q \<and> HardLimit q < 1512"
proof -
  obtain w' where s: "xfs_SetQuota store_quota False True ''/dev/sda'' ''/mnt'' ''pvc-1'' (capacity_quota 1000) False [] = (Inr (), w')"
    by (simp add: xfs_SetQuota_def with_context_def xfs_setQuota_def xfs_getQuota_def setProjectID_def setProjectQuota_def
        store_quota_def has_nul_def Let_def)
  moreover have "HardLimit (capacity_quota 1000) = 1000" by (simp add: capacity_quota_def u64_def)
  ultimately show ?thesis
    using SetQuota_correct [OF stored_quotas.quota_host_axioms s, of True] by auto
qed

end
