(* ===== verification/Ellipsis.thy ===== *)
theory Ellipsis
  imports GoStd "HOL-Library.Word"
begin

text \<open>
  Ellipsis patterns such as \<^verbatim>\<open>node-{1...4}/sd{a...c}\<close>, \<^verbatim>\<open>pkg/ellipsis\<close>.
  Bounds are 64-bit words, so the counter of an ellipsis wraps. The chain of ellipses linked by their
  \<^verbatim>\<open>next\<close> pointers is the first ellipsis and the list of those after it. The two loops that
  need not end are partial functions: \<open>None\<close> is the call that does not return. The lemmas show
  the letter numbering to be a bijection, and the expansion of a well-formed pattern to return and to
  be the product of its ranges in order.
\<close>

section \<open>Letters as numbers\<close>

definition alphaRegexp_MatchString :: "string \<Rightarrow> bool" where
  "alphaRegexp_MatchString value \<longleftrightarrow> value \<noteq> [] \<and> list_all (\<lambda>c. 97 \<le> byte c \<and> byte c \<le> 122) value"

text \<open>\<^verbatim>\<open>value[i]-96\<close> is computed on a byte.\<close>

definition alpha2int :: "string \<Rightarrow> 64 word" where
  "alpha2int value =
     fst (fold (\<lambda>c (ui64, p). (ui64 + of_nat ((byte c + 160) mod 256) * p, p * 26)) (rev value) (0, 1))"

function int2alpha_loop :: "64 word \<Rightarrow> string \<Rightarrow> string" where
  "int2alpha_loop ui64 value =
     (let r = (if ui64 mod 26 = 0 then 26 else ui64 mod 26);
          ui64' = (if ui64 mod 26 = 0 then ui64 - 26 else ui64);
          value' = char_of (unat (r + 96)) # value
      in if ui64' < 26 then value' else int2alpha_loop (ui64' div 26) value')"
  by pat_completeness auto

lemma word_div_26: "26 \<le> (u :: 64 word) \<Longrightarrow> unat (u div 26) = unat u div 26 \<and> u div 26 \<noteq> 0"
proof -
  assume "26 \<le> u"
  then have "26 \<le> unat u" by (simp add: word_le_nat_alt)
  then have "unat (u div 26) = unat u div 26" "unat u div 26 \<noteq> 0" by (simp_all add: unat_div div_eq_0_iff)
  then show ?thesis by (metis unat_0)
qed

text \<open>The counter of the loop decreases, except when it starts at zero, where it wraps once.\<close>

lemma word_mod_26: "(u :: 64 word) mod 26 = 0 \<longleftrightarrow> unat u mod 26 = 0"
  by (simp flip: unat_eq_0 add: unat_mod)

lemma word_minus_26: "(u :: 64 word) \<noteq> 0 \<Longrightarrow> u mod 26 = 0 \<Longrightarrow> unat (u - 26) = unat u - 26 \<and> 26 \<le> unat u"
proof -
  assume "u \<noteq> 0" "u mod 26 = 0"
  then have "0 < unat u" "unat u mod 26 = 0" by (simp_all add: word_mod_26 unat_gt_0)
  then have le: "26 \<le> unat u" by (metis linorder_not_less mod_less not_less0)
  then show ?thesis by (simp add: unat_sub word_le_nat_alt)
qed

termination int2alpha_loop
proof (relation "measure (\<lambda>(u, _). if u = 0 then 2 ^ 64 else unat u)", goal_cases)
  case (2 u s r u' s')
  have u': "26 \<le> u'" using 2(4) by simp
  note d = word_div_26 [OF u']
  have less: "unat u' div 26 < unat u'" using u' by (simp add: word_le_nat_alt)
  show ?case
  proof (cases "u = 0")
    case True
    have "unat (u' div 26) < 2 ^ 64" using unsigned_less [of "u' div 26"] by simp
    then show ?thesis using True d by simp
  next
    case False
    then have "unat u' \<le> unat u" using 2(2) word_minus_26 [OF False] by auto
    then show ?thesis using False d less by simp
  qed
qed simp

declare int2alpha_loop.simps [simp del]

definition int2alpha :: "64 word \<Rightarrow> string" where
  "int2alpha ui64 = int2alpha_loop ui64 []"

section \<open>Ellipses\<close>

text \<open>An ellipsis; \<^verbatim>\<open>next\<close> is the chain the operations get beside it.\<close>

record ellipsis =
  eStart :: "64 word"
  eEnd :: "64 word"
  eIsAlpha :: bool
  eStartIndex :: nat
  eEndIndex :: nat
  eCurrent :: "64 word"
  ePrefix :: string
  eSuffix :: string

definition ellipsis_reset :: "ellipsis \<Rightarrow> ellipsis" where
  "ellipsis_reset e = e\<lparr>eCurrent := eStart e\<rparr>"

definition format_value :: "ellipsis \<Rightarrow> 64 word \<Rightarrow> string" where
  "format_value e c = (if eIsAlpha e then int2alpha c else FormatUint (unat c))"

partial_function (option) ellipsis_get ::
  "ellipsis \<Rightarrow> ellipsis list \<Rightarrow> string \<Rightarrow> (string \<times> ellipsis \<times> ellipsis list) option" where
  "ellipsis_get e nexts prefix =
     (if eCurrent e > eEnd e then Some ([], e, nexts)
      else let v = prefix @ ePrefix e @ format_value e (eCurrent e) @ eSuffix e in
        case nexts of
          [] \<Rightarrow> Some (v, e\<lparr>eCurrent := eCurrent e + 1\<rparr>, [])
        | n # ns \<Rightarrow>
            Option.bind (ellipsis_get n ns v)
              (\<lambda>(newValue, n', ns').
                 if newValue \<noteq> [] then Some (newValue, e, n' # ns')
                 else ellipsis_get (e\<lparr>eCurrent := eCurrent e + 1\<rparr>) (ellipsis_reset n' # ns') prefix))"

partial_function (option) ellipsis_expand ::
  "ellipsis \<Rightarrow> ellipsis list \<Rightarrow> string list \<Rightarrow> string list option" where
  "ellipsis_expand e nexts acc =
     Option.bind (ellipsis_get e nexts [])
       (\<lambda>(v, e', nexts'). if v = [] then Some acc else ellipsis_expand e' nexts' (acc @ [v]))"

section \<open>Parsing\<close>

text \<open>\<^verbatim>\<open>arg[a:b]\<close>.\<close>

definition go_slice :: "string \<Rightarrow> nat \<Rightarrow> nat \<Rightarrow> string" where
  "go_slice arg a b = take (b - a) (drop a arg)"

definition parse_value :: "string \<Rightarrow> (64 word \<times> bool) option" where
  "parse_value v =
     (case ParseUint v of
        Some n \<Rightarrow> Some (of_nat n, False)
      | None \<Rightarrow> if alphaRegexp_MatchString v then Some (alpha2int v, True) else None)"

definition parseEllipsis :: "string \<Rightarrow> nat \<Rightarrow> nat \<Rightarrow> ellipsis result" where
  "parseEllipsis arg i j =
     (case strings_Split (go_slice arg (i + 1) (j - 1)) ''...'' of
        t0 # t1 # _ \<Rightarrow>
          (case parse_value t0 of
             None \<Rightarrow> Inl (ErrorString ''invalid start value in ellipsis'')
           | Some (startValue, isAlphaStart) \<Rightarrow>
               (case parse_value t1 of
                  None \<Rightarrow> Inl (ErrorString ''invalid end value in ellipsis'')
                | Some (endValue, isAlphaEnd) \<Rightarrow>
                    if isAlphaStart \<noteq> isAlphaEnd then Inl (ErrorString ''start/end must be same kind'')
                    else
                      let lo = (if startValue > endValue then endValue else startValue);
                          hi = (if startValue > endValue then startValue else endValue)
                      in Inr \<lparr> eStart = lo, eEnd = hi, eIsAlpha = isAlphaStart, eStartIndex = i, eEndIndex = j,
                               eCurrent = lo, ePrefix = [], eSuffix = [] \<rparr>))
      | _ \<Rightarrow> Inl (ErrorString ''invalid ellipsis''))"

text \<open>The loop over the argument from offset \<open>i\<close> on, where \<open>cs\<close> starts. Go steps from
  rune to rune; a brace is one byte and never a part of another rune, so stepping from byte to byte
  meets the same braces at the same offsets.\<close>

fun scan_ellipses :: "string \<Rightarrow> nat \<Rightarrow> string \<Rightarrow> bool \<Rightarrow> nat \<Rightarrow> ellipsis list \<Rightarrow> ellipsis list result" where
  "scan_ellipses arg i [] curlyOpened st es = Inr es"
| "scan_ellipses arg i (c # cs) curlyOpened st es =
     (if c = CHR ''{'' then
        if curlyOpened then Inl (ErrorString ''nested ellipsis pattern'')
        else scan_ellipses arg (i + 1) cs True i es
      else if c = CHR ''}'' then
        if \<not> curlyOpened then Inl (ErrorString ''invalid ellipsis pattern'')
        else (case parseEllipsis arg st (i + 1) of
                Inl err \<Rightarrow> Inl err
              | Inr e \<Rightarrow> scan_ellipses arg (i + 1) cs False st (es @ [e]))
      else scan_ellipses arg (i + 1) cs curlyOpened st es)"

definition getEllipses :: "string \<Rightarrow> ellipsis list result" where
  "getEllipses arg = scan_ellipses arg 0 arg False 0 []"

text \<open>The loop of \<^verbatim>\<open>Expand\<close>: every ellipsis gets the text before it, the last one also
  the text after it.\<close>

fun link_ellipses :: "string \<Rightarrow> nat \<Rightarrow> ellipsis list \<Rightarrow> ellipsis list" where
  "link_ellipses arg startIndex [] = []"
| "link_ellipses arg startIndex [e] =
     [e\<lparr>ePrefix := go_slice arg startIndex (eStartIndex e), eSuffix := drop (eEndIndex e) arg\<rparr>]"
| "link_ellipses arg startIndex (e # es) =
     e\<lparr>ePrefix := go_slice arg startIndex (eStartIndex e)\<rparr> # link_ellipses arg (eEndIndex e) es"

definition Expand :: "string \<Rightarrow> string list result option" where
  "Expand arg =
     (case getEllipses arg of
        Inl err \<Rightarrow> Some (Inl err)
      | Inr es \<Rightarrow>
          (case link_ellipses arg 0 es of
             [] \<Rightarrow> Some (Inr [arg])
           | e # ns \<Rightarrow> map_option Inr (ellipsis_expand e ns [])))"

section \<open>The letter numbering\<close>

text \<open>The number a word stands for, without a bound: the digits are one to twenty-six.\<close>

definition alpha_value :: "string \<Rightarrow> nat" where
  "alpha_value s = foldl (\<lambda>n c. 26 * n + (byte c - 96)) 0 s"

lemma alpha_value_Nil [simp]: "alpha_value [] = 0"
  by (simp add: alpha_value_def)

lemma alpha_value_snoc [simp]: "alpha_value (s @ [c]) = 26 * alpha_value s + (byte c - 96)"
  by (simp add: alpha_value_def)

lemma foldl_alpha: "foldl (\<lambda>n c. 26 * n + (byte c - 96)) k s = k * 26 ^ length s + alpha_value s"
proof (induction s arbitrary: k rule: rev_induct)
  case (snoc c s)
  then show ?case by (simp add: algebra_simps)
qed (simp add: alpha_value_def)

lemma alpha_value_Cons: "alpha_value (c # s) = (byte c - 96) * 26 ^ length s + alpha_value s"
  using foldl_alpha [of "byte c - 96" s] by (simp add: alpha_value_def)

abbreviation lower :: "char \<Rightarrow> bool" where
  "lower c \<equiv> 97 \<le> byte c \<and> byte c \<le> 122"

lemma alpha_value_pos: "s \<noteq> [] \<Longrightarrow> list_all lower s \<Longrightarrow> 0 < alpha_value s"
  by (cases s rule: rev_cases) auto

lemma alpha2int_value:
  assumes "list_all lower s"
  shows "alpha2int s = of_nat (alpha_value s)"
proof -
  have "fold (\<lambda>c (ui64, p). (ui64 + of_nat ((byte c + 160) mod 256) * p, p * 26)) (rev s) (k, p) =
      (k + of_nat (alpha_value s) * p, p * 26 ^ length s)" for k p :: "64 word"
    using assms
  proof (induction s arbitrary: k p)
    case (Cons c s)
    have "byte c + 160 = (byte c - 96) + 256" "byte c - 96 < 256" using Cons.prems by auto
    then have "(byte c + 160) mod 256 = byte c - 96" by (metis mod_add_self2 mod_less)
    then show ?case using Cons by (simp add: alpha_value_Cons distrib_left mult.assoc mult.commute mult.left_commute)
  qed simp
  then show ?thesis by (simp add: alpha2int_def)
qed

lemma alpha_value_bound: "list_all lower s \<Longrightarrow> 25 * alpha_value s + 26 \<le> 26 ^ Suc (length s)"
  by (induction s rule: rev_induct) auto

lemma alpha_value_fits: "list_all lower s \<Longrightarrow> length s \<le> 13 \<Longrightarrow> alpha_value s < 2 ^ 64"
proof -
  assume s: "list_all lower s" "length s \<le> 13"
  then have "(26 :: nat) ^ Suc (length s) \<le> 26 ^ 14" by (intro power_increasing) auto
  then show ?thesis using alpha_value_bound [OF s(1)] by simp
qed

text \<open>One pass of the loop takes off one letter.\<close>

lemma int2alpha_loop_digit:
  assumes "lower c" and "26 * q + (byte c - 96) < 2 ^ 64"
  shows "int2alpha_loop (of_nat (26 * q + (byte c - 96))) acc =
    (if q = 0 then c # acc else int2alpha_loop (of_nat q) (c # acc))"
proof -
  define d where "d = byte c - 96"
  have d: "1 \<le> d" "d \<le> 26" "char_of (96 + d) = c" using assms(1) by (auto simp: d_def byte_def)
  define u :: "64 word" where "u = of_nat (26 * q + d)"
  have u: "unat u = 26 * q + d"
    using unat_of_nat [of "26 * q + d", where 'a = 64] assms(2) unfolding u_def d_def by (simp del: of_nat_add of_nat_mult)
  have um: "u mod 26 = 0 \<longleftrightarrow> d = 26" using u d(1,2) by (auto simp: word_mod_26)
  define r where "r = (if u mod 26 = 0 then 26 else u mod 26)"
  have "unat r = d"
  proof (cases "d = 26")
    case False
    then have "unat (u mod 26) = d" using u d by (simp add: unat_mod)
    then show ?thesis using False um by (simp add: r_def)
  qed (simp add: r_def um)
  then have "unat (r + 96) = 96 + d" using d(2) by (simp add: unat_word_ariths)
  then have c: "char_of (unat (r + 96)) = c" using d(3) by simp
  define u' where "u' = (if u mod 26 = 0 then u - 26 else u)"
  have u': "unat u' = (if d = 26 then 26 * q else 26 * q + d)"
    using u um word_minus_26 [of u] d(1) by (cases "u = 0") (auto simp: u'_def)
  then have small: "u' < 26 \<longleftrightarrow> q = 0" using d by (auto simp: word_less_nat_alt split: if_splits)
  have "u' div 26 = of_nat q" if "q \<noteq> 0"
  proof -
    have "unat (u' div 26) = q" using u' d by (auto simp: unat_div)
    then show ?thesis by (metis of_nat_unat ucast_id)
  qed
  then show ?thesis
    unfolding d_def [symmetric] u_def [symmetric]
    by (subst int2alpha_loop.simps) (simp add: Let_def r_def [symmetric] u'_def [symmetric] c small)
qed

lemma int2alpha_loop_value:
  "s \<noteq> [] \<Longrightarrow> list_all lower s \<Longrightarrow> alpha_value s < 2 ^ 64 \<Longrightarrow> int2alpha_loop (of_nat (alpha_value s)) acc = s @ acc"
proof (induction s arbitrary: acc rule: rev_induct)
  case (snoc c s)
  have bound: "26 * alpha_value s + (byte c - 96) < 2 ^ 64" using snoc.prems(3) by simp
  have c: "lower c" and s: "list_all lower s" using snoc.prems(2) by simp_all
  note step = int2alpha_loop_digit [OF c bound, of acc]
  show ?case
  proof (cases "s = []")
    case True
    then show ?thesis using step by (simp add: alpha_value_Cons)
  next
    case False
    then have "alpha_value s \<noteq> 0" using alpha_value_pos s by blast
    then show ?thesis using step snoc.IH [OF False s] bound by (simp del: of_nat_add of_nat_mult)
  qed
qed simp

text \<open>Every number from one is the number of its word.\<close>

lemma alpha_digits: "0 < n \<Longrightarrow> \<exists>s. s \<noteq> [] \<and> list_all lower s \<and> alpha_value s = n"
proof (induction n rule: less_induct)
  case (less n)
  define d where "d = (if n mod 26 = 0 then 26 else n mod 26)"
  have d: "1 \<le> d" "d \<le> 26" "d \<le> n" "26 dvd n - d"
    using less.prems by (auto simp: d_def Suc_le_eq dest: dvd_imp_le intro: dvd_minus_mod)
  define q where "q = (n - d) div 26"
  have n: "n = 26 * q + d" using d(3,4) by (simp add: q_def)
  define c where "c = (char_of (96 + d) :: char)"
  have c: "byte c = 96 + d" using d(2) by (simp add: c_def byte_def)
  show ?case
  proof (cases "q = 0")
    case True
    then show ?thesis using n c d by (intro exI [of _ "[c]"]) (simp add: alpha_value_def)
  next
    case False
    then obtain s where "s \<noteq> []" "list_all lower s" "alpha_value s = q" using less.IH [of q] n by auto
    then show ?thesis using n c d by (intro exI [of _ "s @ [c]"]) simp
  qed
qed

lemma int2alpha_lower: "u \<noteq> 0 \<Longrightarrow> int2alpha u \<noteq> [] \<and> list_all lower (int2alpha u) \<and> alpha_value (int2alpha u) = unat u"
proof -
  assume "u \<noteq> 0"
  then obtain s where s: "s \<noteq> []" "list_all lower s" "alpha_value s = unat u"
    using alpha_digits [of "unat u"] by (auto simp: unat_gt_0)
  have "alpha_value s < 2 ^ 64" using s(3) unsigned_less [of u] by simp
  from int2alpha_loop_value [OF s(1,2) this, of "[]"] have "int2alpha u = s" using s(3) by (simp add: int2alpha_def)
  then show ?thesis using s by simp
qed

text \<open>
  Letters and numbers. On the non-zero words \<^verbatim>\<open>int2alpha\<close> is a bijection with
  its inverse \<^verbatim>\<open>alpha2int\<close>: a number is read back from its letters, and letters (up to
  thirteen, so that their number fits 64 bits) are read back from their number.
\<close>

theorem int2alpha_roundtrip:
  "(u \<noteq> 0 \<longrightarrow> alphaRegexp_MatchString (int2alpha u) \<and> alpha2int (int2alpha u) = u) \<and>
   (alphaRegexp_MatchString s \<and> length s \<le> 13 \<longrightarrow> alpha2int s \<noteq> 0 \<and> int2alpha (alpha2int s) = s)"
proof (intro conjI impI)
  assume u: "u \<noteq> 0"
  note l = int2alpha_lower [OF u]
  show "alphaRegexp_MatchString (int2alpha u)" using l by (simp add: alphaRegexp_MatchString_def)
  show "alpha2int (int2alpha u) = u" using alpha2int_value l by simp
next
  assume "alphaRegexp_MatchString s \<and> length s \<le> 13"
  then have s: "s \<noteq> []" "list_all lower s" "alpha_value s < 2 ^ 64"
    using alpha_value_fits by (auto simp: alphaRegexp_MatchString_def)
  have "unat (of_nat (alpha_value s) :: 64 word) = alpha_value s" using s(3) by (simp add: unat_of_nat)
  then show "alpha2int s \<noteq> 0" using alpha2int_value [OF s(2)] alpha_value_pos [OF s(1,2)] by (metis unat_0 less_irrefl)
  show "int2alpha (alpha2int s) = s"
    using int2alpha_loop_value [OF s, of "[]"] alpha2int_value [OF s(2)] by (simp add: int2alpha_def)
qed

theorem int2alpha_roundtrip_witness:
  "alpha2int ''sdaz'' \<noteq> 0 \<and> int2alpha (alpha2int ''sdaz'') = ''sdaz'' \<and> alpha2int (int2alpha 702) = 702"
proof -
  have "alphaRegexp_MatchString ''sdaz''" by code_simp
  then show ?thesis using int2alpha_roundtrip [of 702 "''sdaz''"] by simp
qed

section \<open>What a chain still has to deliver\<close>

definition vals :: "64 word \<Rightarrow> 64 word \<Rightarrow> 64 word list" where
  "vals lo hi = map of_nat [unat lo ..< Suc (unat hi)]"

definition item :: "ellipsis \<Rightarrow> 64 word \<Rightarrow> string" where
  "item e c = ePrefix e @ format_value e c @ eSuffix e"

fun remaining :: "ellipsis \<Rightarrow> ellipsis list \<Rightarrow> string \<Rightarrow> string list" where
  "remaining e [] p = map (\<lambda>c. p @ item e c) (vals (eCurrent e) (eEnd e))"
| "remaining e (n # ns) p =
     (if eCurrent e > eEnd e then []
      else remaining n ns (p @ item e (eCurrent e)) @
           concat (map (\<lambda>c. remaining (ellipsis_reset n) (map ellipsis_reset ns) (p @ item e c))
             (vals (eCurrent e + 1) (eEnd e))))"

text \<open>A counter that cannot wrap, and letters that start at one.\<close>

definition ellipsis_wf :: "ellipsis \<Rightarrow> bool" where
  "ellipsis_wf e \<longleftrightarrow>
     eStart e \<le> eEnd e \<and> eEnd e < - 1 \<and> eStart e \<le> eCurrent e \<and> eCurrent e \<le> eEnd e + 1 \<and>
     (eIsAlpha e \<longrightarrow> 0 < eStart e)"

fun chain_ok :: "ellipsis \<Rightarrow> ellipsis list \<Rightarrow> bool" where
  "chain_ok e [] \<longleftrightarrow> ellipsis_wf e"
| "chain_ok e (n # ns) \<longleftrightarrow>
     ellipsis_wf e \<and> chain_ok n ns \<and> (eCurrent e > eEnd e \<longrightarrow> map ellipsis_reset (n # ns) = n # ns)"

lemma unat_succ: "(c :: 64 word) \<le> h \<Longrightarrow> h < - 1 \<Longrightarrow> unat (c + 1) = unat c + 1"
proof -
  assume "c \<le> h" "h < - 1"
  moreover have "unat (- 1 :: 64 word) = 2 ^ 64 - 1" by (simp add: unsigned_minus_1_eq_mask mask_eq_exp_minus_1)
  ultimately have "unat c < 2 ^ 64 - 1" by (simp add: word_le_nat_alt word_less_nat_alt)
  then show ?thesis by (simp add: unat_word_ariths)
qed

lemma vals_Cons: "c \<le> h \<Longrightarrow> h < - 1 \<Longrightarrow> vals c h = c # vals (c + 1) h"
  unfolding vals_def by (subst upt_rec) (simp add: unat_succ word_le_nat_alt del: upt_Suc)

lemma vals_empty: "h < c \<Longrightarrow> vals c h = []"
  by (simp add: vals_def word_less_nat_alt)

lemma ellipsis_reset_simps [simp]:
  "ellipsis_reset (ellipsis_reset e) = ellipsis_reset e"
  "ellipsis_reset (e\<lparr>eCurrent := c\<rparr>) = ellipsis_reset e"
  "eCurrent (ellipsis_reset e) = eStart e" "eEnd (ellipsis_reset e) = eEnd e" "eStart (ellipsis_reset e) = eStart e"
  "item (ellipsis_reset e) = item e"
  "item (e\<lparr>eCurrent := c\<rparr>) = item e"
  by (simp_all add: ellipsis_reset_def item_def format_value_def fun_eq_iff)

lemma item_nonempty: "ellipsis_wf e \<Longrightarrow> item e (eCurrent e) \<noteq> []"
proof -
  assume w: "ellipsis_wf e"
  have "int2alpha (eCurrent e) \<noteq> []" if "eIsAlpha e"
  proof -
    have "eCurrent e \<noteq> 0" using w that by (auto simp: ellipsis_wf_def)
    then show ?thesis using int2alpha_lower by blast
  qed
  then show ?thesis using FormatUint_digits by (auto simp: item_def format_value_def)
qed

lemma wf_step:
  assumes "ellipsis_wf e" and "\<not> eEnd e < eCurrent e"
  shows "ellipsis_wf (e\<lparr>eCurrent := eCurrent e + 1\<rparr>)"
    and "unat (eEnd e) + 1 - unat (eCurrent e + 1) < unat (eEnd e) + 1 - unat (eCurrent e)"
proof -
  have "unat (eCurrent e + 1) = unat (eCurrent e) + 1" "unat (eEnd e + 1) = unat (eEnd e) + 1"
    using assms unat_succ [of _ "eEnd e"] by (simp_all add: ellipsis_wf_def)
  then show "ellipsis_wf (e\<lparr>eCurrent := eCurrent e + 1\<rparr>)"
    and "unat (eEnd e) + 1 - unat (eCurrent e + 1) < unat (eEnd e) + 1 - unat (eCurrent e)"
    using assms by (auto simp: ellipsis_wf_def word_le_nat_alt word_less_nat_alt)
qed

lemma wf_reset: "ellipsis_wf e \<Longrightarrow> ellipsis_wf (ellipsis_reset e)"
  by (auto simp: ellipsis_wf_def ellipsis_reset_def unat_succ word_le_nat_alt)

lemma chain_ok_wf: "chain_ok e ns \<Longrightarrow> ellipsis_wf e"
  by (cases ns) simp_all

lemma chain_ok_reset: "chain_ok e ns \<Longrightarrow> chain_ok (ellipsis_reset e) (map ellipsis_reset ns)"
  by (induction ns arbitrary: e) (auto simp: wf_reset)

text \<open>One call returns, delivers the next string, and leaves the rest for later; when nothing is
  left it returns the empty string and the chain behind is rewound.\<close>

definition delivers :: "ellipsis \<Rightarrow> ellipsis list \<Rightarrow> string \<Rightarrow> string \<Rightarrow> ellipsis \<Rightarrow> ellipsis list \<Rightarrow> bool" where
  "delivers e ns p v e' ns' \<longleftrightarrow>
     chain_ok e' ns' \<and> ellipsis_reset e' = ellipsis_reset e \<and> map ellipsis_reset ns' = map ellipsis_reset ns \<and>
     (case remaining e ns p of
        [] \<Rightarrow> v = [] \<and> map ellipsis_reset ns' = ns'
      | x # xs \<Rightarrow> v = x \<and> x \<noteq> [] \<and> remaining e' ns' p = xs)"

lemma remaining_next:
  assumes "ellipsis_wf e" and "\<not> eEnd e < eCurrent e"
  shows "concat (map (\<lambda>c. remaining (ellipsis_reset n) (map ellipsis_reset ns) (p @ item e c)) (vals (eCurrent e + 1) (eEnd e))) =
    remaining (e\<lparr>eCurrent := eCurrent e + 1\<rparr>) (ellipsis_reset n # map ellipsis_reset ns) p"
proof (cases "eEnd e < eCurrent e + 1")
  case True
  then show ?thesis by (simp add: vals_empty)
next
  case False
  then show ?thesis using assms(1) by (simp add: vals_Cons [of "eCurrent e + 1"] ellipsis_wf_def comp_def)
qed

lemma get_last:
  assumes "ellipsis_wf e"
  shows "\<exists>v e'. ellipsis_get e [] p = Some (v, e', []) \<and> delivers e [] p v e' []"
proof (cases "eEnd e < eCurrent e")
  case True
  then show ?thesis using assms by (subst ellipsis_get.simps) (simp add: delivers_def vals_empty)
next
  case False
  then have "vals (eCurrent e) (eEnd e) = eCurrent e # vals (eCurrent e + 1) (eEnd e)"
    using assms by (intro vals_Cons) (simp_all add: ellipsis_wf_def)
  then show ?thesis using False item_nonempty [OF assms] wf_step(1) [OF assms False]
    by (subst ellipsis_get.simps) (simp add: delivers_def Let_def item_def [symmetric])
qed

text \<open>One pass with an ellipsis behind: its string, or the next value of the counter.\<close>

lemma get_unfold:
  assumes "\<not> eEnd e < eCurrent e" and "ellipsis_get n ns (p @ item e (eCurrent e)) = Some (v, n', ns')"
  shows "ellipsis_get e (n # ns) p =
    (if v \<noteq> [] then Some (v, e, n' # ns')
     else ellipsis_get (e\<lparr>eCurrent := eCurrent e + 1\<rparr>) (ellipsis_reset n' # ns') p)"
  using assms by (subst ellipsis_get.simps) (simp add: Let_def item_def)

lemma get_next:
  assumes IH: "\<And>n ns p. length ns = k \<Longrightarrow> chain_ok n ns \<Longrightarrow>
      \<exists>v n' ns'. ellipsis_get n ns p = Some (v, n', ns') \<and> delivers n ns p v n' ns'"
    and "length ns = k" and "chain_ok e (n # ns)"
  shows "\<exists>v e' ns'. ellipsis_get e (n # ns) p = Some (v, e', ns') \<and> delivers e (n # ns) p v e' ns'"
  using assms(2,3)
proof (induction "unat (eEnd e) + 1 - unat (eCurrent e)" arbitrary: e n ns rule: less_induct)
  case less
  note w = chain_ok_wf [OF less.prems(2)]
  have on: "chain_ok n ns" using less.prems(2) by simp
  show ?case
  proof (cases "eEnd e < eCurrent e")
    case True
    then show ?thesis using less.prems(2) by (subst ellipsis_get.simps) (simp add: delivers_def)
  next
    case False
    let ?q = "p @ item e (eCurrent e)"
    let ?e = "e\<lparr>eCurrent := eCurrent e + 1\<rparr>"
    obtain v n' ns' where g: "ellipsis_get n ns ?q = Some (v, n', ns')" and d: "delivers n ns ?q v n' ns'"
      using IH [OF less.prems(1) on] by blast
    have d': "chain_ok n' ns'" "ellipsis_reset n' = ellipsis_reset n" "map ellipsis_reset ns' = map ellipsis_reset ns"
      using d by (simp_all add: delivers_def)
    note rem = remaining_next [OF w False, of n ns p]
    show ?thesis
    proof (cases "remaining n ns ?q")
      case (Cons x xs)
      then have v: "v = x" "x \<noteq> []" "remaining n' ns' ?q = xs" using d by (simp_all add: delivers_def)
      then have "ellipsis_get e (n # ns) p = Some (x, e, n' # ns')" using get_unfold [OF False g] by simp
      moreover have "delivers e (n # ns) p x e (n' # ns')"
        unfolding delivers_def using False v Cons d' w by simp
      ultimately show ?thesis by blast
    next
      case Nil
      then have "v = []" "map ellipsis_reset ns' = ns'" using d unfolding delivers_def Nil list.case by blast+
      then have v: "v = []" "ns' = map ellipsis_reset ns" using d'(3) by simp_all
      have e1: "chain_ok ?e (ellipsis_reset n # map ellipsis_reset ns)"
        using wf_step(1) [OF w False] chain_ok_reset [OF on] by (simp add: comp_def)
      have "\<exists>v e' ns'. ellipsis_get ?e (ellipsis_reset n # map ellipsis_reset ns) p = Some (v, e', ns') \<and>
          delivers ?e (ellipsis_reset n # map ellipsis_reset ns) p v e' ns'"
        by (rule less.hyps) (use wf_step(2) [OF w False] less.prems(1) e1 in simp_all)
      then obtain u e2 ns2 where u: "ellipsis_get ?e (ellipsis_reset n # map ellipsis_reset ns) p = Some (u, e2, ns2)"
          and d2: "delivers ?e (ellipsis_reset n # map ellipsis_reset ns) p u e2 ns2" by blast
      have "ellipsis_get e (n # ns) p = Some (u, e2, ns2)" using get_unfold [OF False g] v d'(2) u by simp
      moreover have "remaining e (n # ns) p = remaining ?e (ellipsis_reset n # map ellipsis_reset ns) p"
        using Nil False rem by simp
      then have "delivers e (n # ns) p u e2 ns2" using d2 unfolding delivers_def by (simp add: comp_def)
      ultimately show ?thesis by blast
    qed
  qed
qed

lemma get_delivers: "chain_ok e ns \<Longrightarrow> \<exists>v e' ns'. ellipsis_get e ns p = Some (v, e', ns') \<and> delivers e ns p v e' ns'"
proof (induction "length ns" arbitrary: e ns p)
  case 0
  then show ?case using get_last [of e p] by auto
next
  case (Suc k)
  then obtain n ms where ns: "ns = n # ms" "length ms = k" by (metis length_Suc_conv)
  show ?case unfolding ns(1)
    by (rule get_next [of k]) (use Suc ns in auto)
qed

lemma expand_remaining: "chain_ok e ns \<Longrightarrow> ellipsis_expand e ns acc = Some (acc @ remaining e ns [])"
proof (induction "length (remaining e ns [])" arbitrary: e ns acc)
  case 0
  obtain v e' ns' where "ellipsis_get e ns [] = Some (v, e', ns')" "delivers e ns [] v e' ns'"
    using get_delivers [OF 0(2)] by blast
  then show ?case using 0 by (subst ellipsis_expand.simps) (simp add: delivers_def)
next
  case (Suc k)
  then obtain x xs where r: "remaining e ns [] = x # xs" "length xs = k" by (metis length_Suc_conv)
  obtain v e' ns' where g: "ellipsis_get e ns [] = Some (v, e', ns')" "delivers e ns [] v e' ns'"
    using get_delivers [OF Suc(3)] by blast
  then have "v = x" "x \<noteq> []" "remaining e' ns' [] = xs" "chain_ok e' ns'" using r by (simp_all add: delivers_def)
  then show ?case using g r Suc(1) [of e' ns' "acc @ [x]"] by (subst ellipsis_expand.simps) simp
qed

section \<open>Patterns\<close>

text \<open>The reference: a pattern is text, a lower and an upper bound, and so on, and text at the end. It
  stands for the product of its ranges, the last one changing fastest.\<close>

type_synonym pattern = "(string \<times> string \<times> string) list"

fun render :: "pattern \<Rightarrow> string \<Rightarrow> string" where
  "render [] t = t"
| "render ((l, a, b) # ps) t = l @ ''{'' @ a @ ''...'' @ b @ ''}'' @ render ps t"

definition range_values :: "string \<Rightarrow> string \<Rightarrow> string list" where
  "range_values a b =
     (if alphaRegexp_MatchString a
      then map (\<lambda>n. int2alpha (of_nat n)) [min (alpha_value a) (alpha_value b) ..< Suc (max (alpha_value a) (alpha_value b))]
      else map FormatUint [min (digits_value a) (digits_value b) ..< Suc (max (digits_value a) (digits_value b))])"

fun expansions :: "pattern \<Rightarrow> string \<Rightarrow> string list" where
  "expansions [] t = [t]"
| "expansions ((l, a, b) # ps) t =
     concat (map (\<lambda>v. map (\<lambda>rest. l @ v @ rest) (expansions ps t)) (range_values a b))"

definition no_brace :: "string \<Rightarrow> bool" where
  "no_brace s \<longleftrightarrow> CHR ''{'' \<notin> set s \<and> CHR ''}'' \<notin> set s"

text \<open>Bounds of the same kind: numbers below the largest word, or words of at most thirteen
  letters.\<close>

definition number_ok :: "string \<Rightarrow> bool" where
  "number_ok s \<longleftrightarrow> s \<noteq> [] \<and> list_all is_digit s \<and> digits_value s < 2 ^ 64 - 1"

definition word_ok :: "string \<Rightarrow> bool" where
  "word_ok s \<longleftrightarrow> alphaRegexp_MatchString s \<and> length s \<le> 13"

definition bounds_ok :: "string \<Rightarrow> string \<Rightarrow> bool" where
  "bounds_ok a b \<longleftrightarrow> number_ok a \<and> number_ok b \<or> word_ok a \<and> word_ok b"

fun pattern_ok :: "pattern \<Rightarrow> string \<Rightarrow> bool" where
  "pattern_ok [] t \<longleftrightarrow> no_brace t"
| "pattern_ok ((l, a, b) # ps) t \<longleftrightarrow> no_brace l \<and> bounds_ok a b \<and> pattern_ok ps t"

text \<open>The text of a bound holds neither braces nor dots.\<close>

lemma bound_chars: "number_ok a \<or> word_ok a \<Longrightarrow> no_brace a \<and> CHR ''.'' \<notin> set a"
proof -
  assume "number_ok a \<or> word_ok a"
  then have "list_all is_digit a \<or> list_all lower a" by (auto simp: number_ok_def word_ok_def alphaRegexp_MatchString_def)
  moreover have "\<not> is_digit c \<and> \<not> lower c" if "c = CHR ''{'' \<or> c = CHR ''}'' \<or> c = CHR ''.''" for c
    using that by (auto simp: is_digit_def byte_def)
  ultimately show ?thesis by (auto simp: no_brace_def list_all_iff)
qed

lemma parse_number: "number_ok a \<Longrightarrow> parse_value a = Some (of_nat (digits_value a), False) \<and> unat (of_nat (digits_value a) :: 64 word) = digits_value a"
  by (simp add: number_ok_def parse_value_def ParseUint_def unat_of_nat)

lemma parse_word: "word_ok a \<Longrightarrow> parse_value a = Some (of_nat (alpha_value a), True) \<and> unat (of_nat (alpha_value a) :: 64 word) = alpha_value a \<and>
    0 < alpha_value a \<and> alpha_value a < 2 ^ 64 - 1"
proof -
  assume w: "word_ok a"
  then have a: "a \<noteq> []" "list_all lower a" "length a \<le> 13" by (auto simp: word_ok_def alphaRegexp_MatchString_def)
  have "\<not> list_all is_digit a" using a by (cases a) (auto simp: is_digit_def)
  then have "parse_value a = Some (of_nat (alpha_value a), True)"
    using w alpha2int_value [OF a(2)] by (simp add: parse_value_def ParseUint_def word_ok_def)
  moreover have "alpha_value a < 2 ^ 64 - 1"
  proof -
    have "(26 :: nat) ^ Suc (length a) \<le> 26 ^ 14" using a(3) by (intro power_increasing) auto
    then show ?thesis using alpha_value_bound [OF a(2)] by simp
  qed
  ultimately show ?thesis using alpha_value_pos [OF a(1,2)] by (simp add: unat_of_nat)
qed

lemma Index_dots: "CHR ''.'' \<notin> set a \<Longrightarrow> strings_Index (a @ ''...'' @ b) ''...'' = Some (length a)"
  by (induction a) (auto simp: HasPrefix_def)

lemma Split_dots:
  "CHR ''.'' \<notin> set a \<Longrightarrow> \<exists>ts. strings_Split (a @ ''...'' @ b) ''...'' = a # ts \<and> strings_Split b ''...'' = ts"
  using Index_dots [of a b] by (subst strings_Split.simps) simp

lemma Index_no_dots: "CHR ''.'' \<notin> set b \<Longrightarrow> strings_Index b ''...'' = None"
  by (induction b) (auto simp: HasPrefix_def)

lemma Split_bounds: "CHR ''.'' \<notin> set a \<Longrightarrow> CHR ''.'' \<notin> set b \<Longrightarrow> strings_Split (a @ ''...'' @ b) ''...'' = [a, b]"
  using Split_dots [of a b] Index_no_dots [of b] by (simp add: strings_Split.simps [of b])

text \<open>The ellipsis of two bounds, placed at an offset, and the values it runs through.\<close>

definition of_bounds :: "64 word \<Rightarrow> 64 word \<Rightarrow> bool \<Rightarrow> nat \<Rightarrow> nat \<Rightarrow> ellipsis" where
  "of_bounds x y al i j =
     (let lo = (if x > y then y else x); hi = (if x > y then x else y)
      in \<lparr> eStart = lo, eEnd = hi, eIsAlpha = al, eStartIndex = i, eEndIndex = j, eCurrent = lo, ePrefix = [], eSuffix = [] \<rparr>)"

lemma of_bounds_wf:
  assumes "x < - 1" and "y < - 1" and "al \<Longrightarrow> 0 < x \<and> 0 < y"
  shows "ellipsis_wf (of_bounds x y al i j)"
  using assms unat_succ [of x x] unat_succ [of y y]
  by (auto simp: of_bounds_def ellipsis_wf_def Let_def word_le_nat_alt word_less_nat_alt)

lemma of_bounds_values:
  "map (format_value (of_bounds x y al i j)) (vals (eStart (of_bounds x y al i j)) (eEnd (of_bounds x y al i j))) =
     map (\<lambda>n. if al then int2alpha (of_nat n) else FormatUint n) [min (unat x) (unat y) ..< Suc (max (unat x) (unat y))]"
proof -
  let ?e = "of_bounds x y al i j"
  have lo: "unat (eStart ?e) = min (unat x) (unat y)" and hi: "unat (eEnd ?e) = max (unat x) (unat y)"
    and al: "eIsAlpha ?e = al"
    by (auto simp: of_bounds_def Let_def word_less_nat_alt)
  have "format_value ?e (of_nat n) = (if al then int2alpha (of_nat n) else FormatUint n)"
    if "n \<in> set [min (unat x) (unat y) ..< Suc (max (unat x) (unat y))]" for n
  proof -
    have "n < 2 ^ 64" using that unsigned_less [of x] unsigned_less [of y] by (auto simp: less_Suc_eq_le)
    then have "unat (of_nat n :: 64 word) = n" by (simp add: unat_of_nat)
    then show ?thesis by (simp add: format_value_def al)
  qed
  then show ?thesis unfolding vals_def lo hi by (simp only: map_map comp_def cong: map_cong)
qed

lemma go_slice_mid: "go_slice (x @ y @ z) (length x) (length x + length y) = y"
  by (simp add: go_slice_def)

lemma parseEllipsis_bounds:
  assumes "bounds_ok a b" and "arg = pre @ ''{'' @ a @ ''...'' @ b @ ''}'' @ post" and "i = length pre"
    and "j = i + length a + length b + 5"
  shows "\<exists>e. parseEllipsis arg i j = Inr e \<and> eStartIndex e = i \<and> eEndIndex e = j \<and> eCurrent e = eStart e \<and>
    eSuffix e = [] \<and> ellipsis_wf e \<and> map (format_value e) (vals (eStart e) (eEnd e)) = range_values a b"
proof -
  have "arg = (pre @ ''{'') @ (a @ ''...'' @ b) @ ''}'' @ post" "i + 1 = length (pre @ ''{'')"
      "j - 1 = length (pre @ ''{'') + length (a @ ''...'' @ b)"
    using assms(2-4) by simp_all
  then have sl: "go_slice arg (i + 1) (j - 1) = a @ ''...'' @ b" by (simp only: go_slice_mid)
  have "number_ok a \<or> word_ok a" "number_ok b \<or> word_ok b" using assms(1) by (auto simp: bounds_ok_def)
  then have split: "strings_Split (go_slice arg (i + 1) (j - 1)) ''...'' = [a, b]"
    unfolding sl using bound_chars by (intro Split_bounds) blast+
  have parse: "parseEllipsis arg i j = Inr (of_bounds x y al i j)"
    if "parse_value a = Some (x, al)" "parse_value b = Some (y, al)" for x y al
    unfolding parseEllipsis_def split of_bounds_def Let_def using that by simp
  have m1: "unat (- 1 :: 64 word) = 2 ^ 64 - 1" by (simp add: unsigned_minus_1_eq_mask mask_eq_exp_minus_1)
  have fields: "eStartIndex (of_bounds x y al i j) = i \<and> eEndIndex (of_bounds x y al i j) = j \<and>
      eCurrent (of_bounds x y al i j) = eStart (of_bounds x y al i j) \<and> eSuffix (of_bounds x y al i j) = []" for x y al
    by (simp add: of_bounds_def Let_def)
  from assms(1) consider "number_ok a" "number_ok b" | "word_ok a" "word_ok b" by (auto simp: bounds_ok_def)
  then show ?thesis
  proof cases
    case 1
    note pa = parse_number [OF 1(1)] and pb = parse_number [OF 1(2)]
    have "\<not> alphaRegexp_MatchString a" using 1(1)
      by (cases a) (auto simp: number_ok_def alphaRegexp_MatchString_def is_digit_def)
    then have "map (format_value (of_bounds (of_nat (digits_value a)) (of_nat (digits_value b)) False i j))
        (vals (eStart (of_bounds (of_nat (digits_value a)) (of_nat (digits_value b)) False i j))
          (eEnd (of_bounds (of_nat (digits_value a)) (of_nat (digits_value b)) False i j))) = range_values a b"
      unfolding of_bounds_values using pa pb by (simp add: range_values_def del: upt_Suc)
    moreover have "ellipsis_wf (of_bounds (of_nat (digits_value a)) (of_nat (digits_value b)) False i j)"
      using 1 pa pb by (intro of_bounds_wf) (simp_all add: word_less_nat_alt m1 number_ok_def)
    ultimately show ?thesis using parse pa pb fields by blast
  next
    case 2
    note pa = parse_word [OF 2(1)] and pb = parse_word [OF 2(2)]
    have "alphaRegexp_MatchString a" using 2(1) by (simp add: word_ok_def)
    then have "map (format_value (of_bounds (of_nat (alpha_value a)) (of_nat (alpha_value b)) True i j))
        (vals (eStart (of_bounds (of_nat (alpha_value a)) (of_nat (alpha_value b)) True i j))
          (eEnd (of_bounds (of_nat (alpha_value a)) (of_nat (alpha_value b)) True i j))) = range_values a b"
      unfolding of_bounds_values using pa pb by (simp add: range_values_def del: upt_Suc)
    moreover have "ellipsis_wf (of_bounds (of_nat (alpha_value a)) (of_nat (alpha_value b)) True i j)"
      using pa pb by (intro of_bounds_wf) (simp_all add: word_less_nat_alt m1)
    ultimately show ?thesis using parse pa pb fields by blast
  qed
qed

lemma scan_text: "no_brace l \<Longrightarrow> scan_ellipses arg i (l @ r) b st es = scan_ellipses arg (i + length l) r b st es"
  by (induction l arbitrary: i) (auto simp: no_brace_def)

text \<open>Scanning a rendered pattern: one ellipsis per range, at its place.\<close>

fun placed :: "nat \<Rightarrow> pattern \<Rightarrow> ellipsis list \<Rightarrow> bool" where
  "placed k [] es \<longleftrightarrow> es = []"
| "placed k ((l, a, b) # ps) es \<longleftrightarrow>
     (\<exists>e es'. es = e # es' \<and> eStartIndex e = k + length l \<and> eEndIndex e = k + length l + length a + length b + 5 \<and>
        eCurrent e = eStart e \<and> eSuffix e = [] \<and> ellipsis_wf e \<and>
        map (format_value e) (vals (eStart e) (eEnd e)) = range_values a b \<and>
        placed (k + length l + length a + length b + 5) ps es')"

lemma scan_pattern:
  assumes "pattern_ok ps t" and "arg = pre @ render ps t"
  shows "\<exists>es. scan_ellipses arg (length pre) (render ps t) False st acc = Inr (acc @ es) \<and> placed (length pre) ps es"
  using assms
proof (induction ps arbitrary: pre st acc)
  case Nil
  then show ?case using scan_text [of t arg "length pre" "[]"] by simp
next
  case (Cons lab ps)
  obtain l a b where lab: "lab = (l, a, b)" by (metis prod_cases3)
  have ok: "no_brace l" "bounds_ok a b" "pattern_ok ps t" using Cons.prems(1) lab by simp_all
  have chars: "no_brace a" "no_brace b" using ok(2) bound_chars by (auto simp: bounds_ok_def)
  let ?j = "length pre + length l + length a + length b + 5"
  have inner: "no_brace (a @ ''...'' @ b)" using chars by (simp add: no_brace_def)
  obtain e where e: "parseEllipsis arg (length pre + length l) ?j = Inr e" "eStartIndex e = length pre + length l"
      "eEndIndex e = ?j" "eCurrent e = eStart e" "eSuffix e = []" "ellipsis_wf e"
      "map (format_value e) (vals (eStart e) (eEnd e)) = range_values a b"
    using parseEllipsis_bounds [OF ok(2), of arg "pre @ l" "render ps t" "length pre + length l" ?j] Cons.prems(2) lab by auto
  let ?k = "length pre + length l"
  let ?m = "?k + 1 + length (a @ ''...'' @ b)"
  have j: "?m + 1 = ?j" by simp
  have "scan_ellipses arg (length pre) (render (lab # ps) t) False st acc =
      scan_ellipses arg ?k (''{'' @ (a @ ''...'' @ b) @ ''}'' @ render ps t) False st acc"
    using scan_text [OF ok(1), of arg "length pre" "''{'' @ (a @ ''...'' @ b) @ ''}'' @ render ps t" False st acc] lab by simp
  also have "\<dots> = scan_ellipses arg (?k + 1) ((a @ ''...'' @ b) @ ''}'' @ render ps t) True ?k acc" by simp
  also have "\<dots> = scan_ellipses arg ?m (''}'' @ render ps t) True ?k acc" by (rule scan_text [OF inner])
  also have "\<dots> = scan_ellipses arg ?j (render ps t) False ?k (acc @ [e])"
    using e(1) unfolding j [symmetric] by (simp only: scan_ellipses.simps append.simps) simp
  finally have "scan_ellipses arg (length pre) (render (lab # ps) t) False st acc =
      scan_ellipses arg ?j (render ps t) False ?k (acc @ [e])" .
  moreover obtain es where "scan_ellipses arg ?j (render ps t) False (length pre + length l) (acc @ [e]) = Inr ((acc @ [e]) @ es)"
      "placed ?j ps es"
  proof -
    let ?pre = "pre @ l @ ''{'' @ a @ ''...'' @ b @ ''}''"
    have "length ?pre = ?j" "arg = ?pre @ render ps t" using Cons.prems(2) lab by simp_all
    then show thesis using Cons.IH [OF ok(3), of ?pre ?k "acc @ [e]"] that by (simp only:) blast
  qed
  ultimately show ?case using e lab by auto
qed

lemma format_value_update [simp]:
  "format_value (e\<lparr>ePrefix := x\<rparr>) = format_value e" "format_value (e\<lparr>eSuffix := x\<rparr>) = format_value e"
  by (simp_all add: format_value_def fun_eq_iff)

lemma ellipsis_wf_update [simp]:
  "ellipsis_wf (e\<lparr>ePrefix := x\<rparr>) = ellipsis_wf e" "ellipsis_wf (e\<lparr>eSuffix := x\<rparr>) = ellipsis_wf e"
  by (simp_all add: ellipsis_wf_def)

lemma fresh_chain: "ellipsis_wf e \<Longrightarrow> eCurrent e = eStart e \<Longrightarrow> \<not> eEnd e < eCurrent e \<and> ellipsis_reset e = e"
  by (auto simp: ellipsis_wf_def ellipsis_reset_def)

lemma linked_pattern:
  assumes "placed k ps es" and "ps \<noteq> []" and "arg = pre @ render ps t" and "k = length pre"
  shows "\<exists>e ns. link_ellipses arg k es = e # ns \<and> chain_ok e ns \<and> map ellipsis_reset (e # ns) = e # ns \<and>
    (\<forall>p. remaining e ns p = map ((@) p) (expansions ps t))"
  using assms
proof (induction ps arbitrary: k es pre)
  case (Cons lab ps)
  obtain l a b where lab: "lab = (l, a, b)" by (metis prod_cases3)
  let ?j = "k + length l + length a + length b + 5"
  obtain e es' where e: "es = e # es'" "eStartIndex e = k + length l" "eEndIndex e = ?j" "eCurrent e = eStart e" "eSuffix e = []"
      "ellipsis_wf e" "map (format_value e) (vals (eStart e) (eEnd e)) = range_values a b" and es': "placed ?j ps es'"
    using Cons.prems(1) lab by auto
  have "arg = pre @ l @ (''{'' @ a @ ''...'' @ b @ ''}'' @ render ps t)" using Cons.prems(3) lab by simp
  then have pre: "go_slice arg k (eStartIndex e) = l" unfolding e(2) Cons.prems(4) by (simp only: go_slice_mid)
  have arg: "arg = (pre @ l @ ''{'' @ a @ ''...'' @ b @ ''}'') @ render ps t" "?j = length (pre @ l @ ''{'' @ a @ ''...'' @ b @ ''}'')"
    using Cons.prems(3,4) lab by simp_all
  define e' where "e' = e\<lparr>ePrefix := l\<rparr>"
  have e': "ellipsis_wf e'" "eCurrent e' = eStart e'" using e by (simp_all add: e'_def)
  note fresh = fresh_chain [OF e']
  have rv: "range_values a b = map (format_value e') (vals (eStart e') (eEnd e'))" using e(7) by (simp add: e'_def)
  show ?case
  proof (cases "ps = []")
    case True
    have "drop (eEndIndex e) arg = t" unfolding e(3) using arg True by (metis append_eq_conv_conj render.simps(1))
    then have l: "link_ellipses arg k es = [e'\<lparr>eSuffix := t\<rparr>]" using True es' e pre by (simp add: e'_def)
    have "remaining (e'\<lparr>eSuffix := t\<rparr>) [] p = map ((@) p) (expansions (lab # ps) t)" for p
      using e'(2) by (simp add: lab True rv item_def comp_def concat_map_singleton) (simp add: e'_def)
    moreover have "map ellipsis_reset [e'\<lparr>eSuffix := t\<rparr>] = [e'\<lparr>eSuffix := t\<rparr>]" using e'(2) by (simp add: ellipsis_reset_def)
    ultimately show ?thesis using l e'(1) by simp
  next
    case False
    obtain n ns where n: "link_ellipses arg ?j es' = n # ns" "chain_ok n ns" "map ellipsis_reset (n # ns) = n # ns"
        "\<forall>p. remaining n ns p = map ((@) p) (expansions ps t)"
      using Cons.IH [OF es' False arg] by (elim exE conjE) (rule that)
    have "es' \<noteq> []" using es' False by (cases ps) auto
    then have l: "link_ellipses arg k es = e' # n # ns" using e n(1) pre by (cases es') (simp_all add: e'_def)
    have nn: "ellipsis_reset n = n" "map ellipsis_reset ns = ns" using n(3) by simp_all
    have "vals (eStart e') (eEnd e') = eStart e' # vals (eStart e' + 1) (eEnd e')"
      using e'(1) by (intro vals_Cons) (simp_all add: ellipsis_wf_def)
    then have "remaining e' (n # ns) p = concat (map (\<lambda>c. remaining n ns (p @ item e' c)) (vals (eStart e') (eEnd e')))" for p
      using fresh e'(2) nn by simp
    moreover have "map ((@) (p @ item e' c)) xs = map (\<lambda>x. p @ l @ format_value e' c @ x) xs" for p c and xs :: "string list"
      by (intro map_cong refl) (simp add: item_def e'_def e(5))
    ultimately have "remaining e' (n # ns) p = map ((@) p) (expansions (lab # ps) t)" for p
      using n(4) by (simp add: lab rv map_concat comp_def)
    then show ?thesis using l e' fresh n(2,3) by simp
  qed
qed simp

text \<open>
  C37. Expanding ellipses. For a pattern whose ranges are numbers below the largest word or words of at
  most thirteen letters, \<^verbatim>\<open>Expand\<close> returns, without an error, and its result is the product of
  the ranges, in order, with the text around them.
\<close>

theorem Expand_correct:
  assumes "pattern_ok ps t"
  shows "Expand (render ps t) = Some (Inr (expansions ps t))"
proof -
  obtain es where es: "getEllipses (render ps t) = Inr es" "placed 0 ps es"
    using scan_pattern [OF assms, of "render ps t" "[]" 0 "[]"] by (auto simp: getEllipses_def)
  show ?thesis
  proof (cases "ps = []")
    case True
    then show ?thesis using es by (simp add: Expand_def)
  next
    case False
    obtain e ns where l: "link_ellipses (render ps t) 0 es = e # ns" "chain_ok e ns"
        "\<forall>p. remaining e ns p = map ((@) p) (expansions ps t)"
      using linked_pattern [OF es(2) False, of "render ps t" "[]" t] by auto
    then show ?thesis using es(1) expand_remaining [OF l(2), of "[]"] by (simp add: Expand_def map_idI)
  qed
qed

theorem Expand_correct_witness:
  "Expand ''node-{1...2}/sd{b...a}x'' =
     Some (Inr [''node-1/sdax'', ''node-1/sdbx'', ''node-2/sdax'', ''node-2/sdbx''])"
proof -
  let ?ps = "[(''node-'', ''1'', ''2''), (''/sd'', ''b'', ''a'')]"
  have "number_ok ''1''" "number_ok ''2''" "word_ok ''b''" "word_ok ''a''"
    by (simp_all add: number_ok_def word_ok_def alphaRegexp_MatchString_def is_digit_def digits_value_def byte_def)
  then have ok: "pattern_ok ?ps ''x''" by (simp add: bounds_ok_def no_brace_def)
  have "int2alpha 1 = ''a''" "int2alpha 2 = ''b''"
    by code_simp+
  then have "range_values ''b'' ''a'' = [''a'', ''b'']"
    by (simp add: range_values_def alphaRegexp_MatchString_def alpha_value_def byte_def upt_rec)
  moreover have "FormatUint 1 = ''1''" "FormatUint (Suc (Suc 0)) = ''2''" by code_simp+
  then have "range_values ''1'' ''2'' = [''1'', ''2'']"
    by (simp add: range_values_def alphaRegexp_MatchString_def digits_value_def byte_def upt_rec)
  ultimately show ?thesis using Expand_correct [OF ok] by simp
qed

section \<open>The largest word\<close>

lemma get_max:
  assumes "eEnd e = - 1"
  shows "ellipsis_get e [] p = Some (p @ item e (eCurrent e), e\<lparr>eCurrent := eCurrent e + 1\<rparr>, [])"
proof -
  have "\<not> eEnd e < eCurrent e" using assms by (simp add: word_order.not_eq_extremum)
  then show ?thesis by (subst ellipsis_get.simps) (simp add: Let_def item_def)
qed

lemma expand_max_diverges:
  "ellipsis_expand e ns acc = Some r \<Longrightarrow> ns = [] \<longrightarrow> eEnd e = - 1 \<longrightarrow> eIsAlpha e"
proof (erule ellipsis_expand.raw_induct [rotated], intro impI)
  fix f :: "ellipsis \<Rightarrow> ellipsis list \<Rightarrow> string list \<Rightarrow> string list option" and e ns acc r
  assume IH: "\<And>e ns acc r. f e ns acc = Some r \<Longrightarrow> ns = [] \<longrightarrow> eEnd e = - 1 \<longrightarrow> eIsAlpha e"
    and body: "Option.bind (ellipsis_get e ns []) (\<lambda>(v, e', nexts'). if v = [] then Some acc else f e' nexts' (acc @ [v])) = Some r"
    and e: "ns = []" "eEnd e = - 1"
  show "eIsAlpha e"
  proof (rule ccontr)
    assume n: "\<not> eIsAlpha e"
    then have "item e (eCurrent e) \<noteq> []" using FormatUint_digits by (simp add: item_def format_value_def)
    then have "f (e\<lparr>eCurrent := eCurrent e + 1\<rparr>) [] (acc @ [item e (eCurrent e)]) = Some r"
      using body e get_max [OF e(2), of "[]"] by simp
    from IH [OF this] show False using e(2) n by simp
  qed
qed

text \<open>
  C38. An ellipsis that ends at the largest word. Its counter wraps to zero after the last value and is
  never above the end, so \<^verbatim>\<open>Expand\<close> of a range up to 18446744073709551615 does not
  return, whatever number it starts with.
\<close>

theorem Expand_largest_word_diverges:
  assumes "ParseUint a = Some n"
  shows "Expand (''{'' @ a @ ''...18446744073709551615}'') = None"
proof -
  define b :: string where "b = ''18446744073709551615''"
  define arg where "arg = ''{'' @ a @ ''...'' @ b @ ''}''"
  have b: "parse_value b = Some (- 1, False)" "no_brace b" "CHR ''.'' \<notin> set b"
    by (simp_all add: b_def parse_value_def ParseUint_def is_digit_def digits_value_def byte_def no_brace_def)
  have a: "parse_value a = Some (of_nat n, False)" using assms by (simp add: parse_value_def)
  have "list_all is_digit a" using assms by (auto simp: ParseUint_def split: if_splits)
  moreover have "\<not> is_digit c" if "c = CHR ''{'' \<or> c = CHR ''}'' \<or> c = CHR ''.''" for c
    using that by (auto simp: is_digit_def byte_def)
  ultimately have ac: "no_brace a" "CHR ''.'' \<notin> set a" by (auto simp: no_brace_def list_all_iff)
  let ?j = "1 + length (a @ ''...'' @ b) + 1"
  have "go_slice arg (0 + 1) (?j - 1) = a @ ''...'' @ b"
    using go_slice_mid [of "''{''" "a @ ''...'' @ b" "''}''"] by (simp add: arg_def)
  then have split: "strings_Split (go_slice arg (0 + 1) (?j - 1)) ''...'' = [a, b]" using Split_bounds [OF ac(2) b(3)] by simp
  let ?e = "of_bounds (of_nat n) (- 1) False 0 ?j"
  have p: "parseEllipsis arg 0 ?j = Inr ?e"
    unfolding parseEllipsis_def split of_bounds_def Let_def using a b(1) by simp
  have "no_brace (a @ ''...'' @ b)" using ac(1) b(2) by (simp add: no_brace_def)
  from scan_text [OF this, of arg 1 "''}''" True 0 "[]"]
  have "scan_ellipses arg 1 ((a @ ''...'' @ b) @ ''}'') True 0 [] = Inr [?e]" using p by simp
  then have g: "getEllipses arg = Inr [?e]" by (simp add: getEllipses_def arg_def)
  let ?l = "?e\<lparr>ePrefix := go_slice arg 0 (eStartIndex ?e), eSuffix := drop (eEndIndex ?e) arg\<rparr>"
  have "eEnd ?l = - 1" "\<not> eIsAlpha ?l"
    by (auto simp: of_bounds_def Let_def word_order.extremum_unique word_order.not_eq_extremum)
  then have "ellipsis_expand ?l [] [] = None" using expand_max_diverges [of ?l "[]" "[]"] by (cases "ellipsis_expand ?l [] []") auto
  then have "Expand arg = None" using g by (simp add: Expand_def)
  then show ?thesis by (simp add: arg_def b_def)
qed

theorem Expand_largest_word_diverges_witness:
  "Expand ''{18446744073709551615...18446744073709551615}'' = None"
proof -
  have "ParseUint ''18446744073709551615'' = Some 18446744073709551615"
    by (simp add: ParseUint_def is_digit_def digits_value_def byte_def)
  from Expand_largest_word_diverges [OF this] show ?thesis by simp
qed

end
