(* ===== verification/Init_Request.thy ===== *)
theory Init_Request
  imports Device_Sync
begin

text \<open>
  Initialising devices as drives, \<^verbatim>\<open>pkg/initrequest/event.go\<close>: a request names devices
  by ID; each is probed again, checked against the ID and the rules of \<open>DeniedReason\<close>, formatted,
  mounted and registered as a drive. \<open>init_env\<close> adds the function fields of the handler to the
  environment. The goroutines that format devices run one after the other, in any order, when the loop
  that starts them is done; the calls of two goroutines are not interleaved.
\<close>

section \<open>The handler\<close>

record 'w init_env = "'w probe_env" +
  reflink :: bool
  topology :: "string \<rightharpoonup> string"
  newUUID :: "'w \<Rightarrow> string \<times> 'w"
  init_makeFS :: "string \<Rightarrow> string \<Rightarrow> bool \<Rightarrow> bool \<Rightarrow> ('w, string \<times> string \<times> int \<times> int) io"
  init_mount :: "string \<Rightarrow> string \<Rightarrow> ('w, unit) io"
  init_unmount :: "string \<Rightarrow> ('w, unit) io"
  init_symlink :: "string \<Rightarrow> ('w, unit) io"
  init_makeMetaDir :: "string \<Rightarrow> ('w, unit) io"
  init_writeFile :: "string \<Rightarrow> string \<Rightarrow> ('w, unit) io"

text \<open>\<^verbatim>\<open>err = fmt.Errorf(..., err)\<close> around a call.\<close>

definition wrapped :: "string \<Rightarrow> ('w, 'a) io \<Rightarrow> ('w, 'a) io" where
  "wrapped message f w = call (f w) (\<lambda>err w. (Inl (Wrap message err), w)) (\<lambda>x w. (Inr x, w))"

text \<open>The fields in production. \<^verbatim>\<open>reflinkSupported\<close>, \<^verbatim>\<open>xfs.MakeFS\<close>,
  \<^verbatim>\<open>os.WriteFile\<close> and \<^verbatim>\<open>uuid.New\<close> are arguments.\<close>

definition newInitRequestEventHandler ::
  "('w, bool) io \<Rightarrow> (string \<Rightarrow> string \<Rightarrow> bool \<Rightarrow> bool \<Rightarrow> ('w, string \<times> string \<times> int \<times> int) io) \<Rightarrow>
   (string \<Rightarrow> string \<Rightarrow> ('w, unit) io) \<Rightarrow> ('w \<Rightarrow> string \<times> 'w) \<Rightarrow> (string \<rightharpoonup> string) \<Rightarrow> 'w probe_env \<Rightarrow>
   ('w, 'w init_env) io" where
  "newInitRequestEventHandler reflinkSupported MakeFS WriteFile uuid_New topo E w =
     call (reflinkSupported w) (\<lambda>err w. (Inl err, w))
       (\<lambda>reflink w.
          (Inr (probe_env.extend (E\<lparr>getMounts := wrapped ''unable get mount info from /proc'' (getMounts E)\<rparr>)
             (init_env.fields reflink topo uuid_New
               (\<lambda>device fsuuid force reflink. wrapped ''unable to format device'' (MakeFS device fsuuid force reflink))
               (\<lambda>device fsuuid. wrapped ''unable to mount'' (xfs_Mount E device (GetDriveMountDir fsuuid)))
               (\<lambda>fsuuid. wrapped ''unable to unmount'' (unmount E (GetDriveMountDir fsuuid)))
               (\<lambda>fsuuid. wrapped ''unable to create symlink'' (os_Symlink E ''.'' (GetVolumeRootDir fsuuid)))
               (\<lambda>fsuuid. wrapped ''unable to create meta directory'' (mkdir E (GetDriveMetaDir fsuuid)))
               (\<lambda>fsuuid data. wrapped ''unable to create meta file'' (WriteFile (GetDriveMetaFile fsuuid) data)))), w))"

section \<open>One device\<close>

definition meta_data :: "string \<Rightarrow> string" where
  "meta_data fsuuid =
     ''APP_NAME='' @ AppName @ [CHR 0x0A] @ ''APP_VERSION='' @ LatestAPIVersion @ [CHR 0x0A] @
     ''FSUUID='' @ fsuuid @ [CHR 0x0A]"

definition new_drive :: "('w, 'b) init_env_scheme \<Rightarrow> Device \<Rightarrow> string \<Rightarrow> int \<Rightarrow> int \<Rightarrow> Drive" where
  "new_drive E device fsuuid totalCapacity freeCapacity =
     NewDirectPVDrive fsuuid
       \<lparr> dTotalCapacity = i64 totalCapacity, dAllocatedCapacity = 0, dFreeCapacity = i64 freeCapacity, dFSUUID = fsuuid,
         dStatus = DriveStatusReady, dTopology = topology E, dMake = Device_Make device, dConditions = [] \<rparr>
       (nodeID E) (dvName device) AccessTierDefault"

text \<open>From the mount on, an error unmounts the device again. \<^verbatim>\<open>initDevice\<close> has no named
  result, so the error of that unmount, joined to the local variable, is lost.\<close>

definition register_drive ::
  "('w, 'b) init_env_scheme \<Rightarrow> Device \<Rightarrow> string \<Rightarrow> int \<Rightarrow> int \<Rightarrow> ('w, unit) io" where
  "register_drive E device fsuuid totalCapacity freeCapacity w =
     call (init_symlink E fsuuid w) (\<lambda>err w. (Inl err, w))
       (\<lambda>_ w. call (init_makeMetaDir E fsuuid w) (\<lambda>err w. (Inl err, w))
          (\<lambda>_ w. call (init_writeFile E fsuuid (meta_data fsuuid) w) (\<lambda>err w. (Inl err, w))
             (\<lambda>_ w. call (api_Create (DriveClient E) (new_drive E device fsuuid totalCapacity freeCapacity) w)
                (\<lambda>err w. (Inl (Wrap ''unable to create Drive CRD'' err), w)) (\<lambda>_ w. (Inr (), w)))))"

definition initDevice :: "('w, 'b) init_env_scheme \<Rightarrow> Device \<Rightarrow> bool \<Rightarrow> ('w, unit) io" where
  "initDevice E device force w =
     (let devPath = AddDevPrefix (dvName device)
      in call (getMounts E w) (\<lambda>err w. (Inl err, w))
        (\<lambda>mountInfo w.
           let mountPoints = fold (\<lambda>e. StringSet_Set (MountPoint e)) (MountInfo_List (FilterByMajorMinor (dvMajorMinor device) mountInfo)) []
           in if mountPoints \<noteq> [] then (Inl (ErrorString ''device mounted''), w)
              else case newUUID E w of (fsuuid, w) \<Rightarrow>
                call (init_makeFS E devPath fsuuid force (reflink E) w) (\<lambda>err w. (Inl err, w))
                  (\<lambda>(_, _, totalCapacity, freeCapacity) w.
                     call (init_mount E devPath fsuuid w) (\<lambda>err w. (Inl err, w))
                       (\<lambda>_ w. call (register_drive E device fsuuid totalCapacity freeCapacity w)
                          (\<lambda>err w. case init_unmount E fsuuid w of (_, w) \<Rightarrow> (Inl err, w))
                          (\<lambda>_ w. (Inr (), w))))))"

section \<open>A request\<close>

text \<open>The major and minor numbers of all IDs, unless one has no \<^verbatim>\<open>$\<close>.\<close>

fun init_ids :: "InitDevice list \<Rightarrow> string list option" where
  "init_ids [] = Some []"
| "init_ids (d # ds) =
     (case strings_SplitN2 (initID d) ''$'' of
        [mm, _] \<Rightarrow> map_option (Cons mm) (init_ids ds)
      | _ \<Rightarrow> None)"

definition probed_devices :: "Device list \<Rightarrow> (string \<times> Device) list" where
  "probed_devices devices = fold (\<lambda>d. assign_key (dvMajorMinor d) d) devices []"

text \<open>The loop of \<^verbatim>\<open>initDevices\<close>: the results so far and the goroutines it starts.\<close>

type_synonym init_task = "nat \<times> Device \<times> bool"

definition init_check :: "('w, 'b) init_env_scheme \<Rightarrow> (string \<times> Device) list \<Rightarrow> nat \<Rightarrow> InitDevice \<Rightarrow> 'w \<Rightarrow>
    (string \<times> init_task list) \<times> 'w" where
  "init_check E probed i d w =
     (case map_of probed (hd (strings_SplitN2 (initID d) ''$'')) of
        None \<Rightarrow> ((''device not found'', []), w)
      | Some device \<Rightarrow>
          if Device_ID (hash64 E) (nodeID E) device \<noteq> initID d then ((''device state changed'', []), w)
          else case DeniedReason E device w of (deniedReason, w) \<Rightarrow>
            if deniedReason = [] then (([], [(i, device, initForce d \<or> PartTableType device \<noteq> [])]), w)
            else ((''device init not permitted; '' @ deniedReason, []), w))"

fun init_loop :: "('w, 'b) init_env_scheme \<Rightarrow> (string \<times> Device) list \<Rightarrow> nat \<Rightarrow> InitDevice list \<Rightarrow> 'w \<Rightarrow>
    (InitDeviceResult list \<times> init_task list) \<times> 'w" where
  "init_loop E probed i [] w = (([], []), w)"
| "init_loop E probed i (d # ds) w =
     (case init_check E probed i d w of ((error, task), w) \<Rightarrow>
        case init_loop E probed (i + 1) ds w of ((rs, tasks), w) \<Rightarrow>
          ((\<lparr> resultName = initName d, resultError = error \<rparr> # rs, task @ tasks), w))"

fun run_tasks :: "('w, 'b) init_env_scheme \<Rightarrow> init_task list \<Rightarrow> InitDeviceResult list \<Rightarrow> 'w \<Rightarrow> InitDeviceResult list \<times> 'w" where
  "run_tasks E [] rs w = (rs, w)"
| "run_tasks E ((i, device, force) # tasks) rs w =
     call (initDevice E device force w)
       (\<lambda>err w. run_tasks E tasks (rs[i := (rs ! i)\<lparr>resultError := errorText E err\<rparr>]) w)
       (\<lambda>_ w. run_tasks E tasks rs w)"

definition set_request ::
  "('w, 'b) init_env_scheme \<Rightarrow> string \<Rightarrow> InitDeviceResult list \<Rightarrow> string \<Rightarrow> ('w, unit) io" where
  "set_request E name rs status w =
     call (api_Get (InitRequestClient E) name w) (\<lambda>err w. (Inl err, w))
       (\<lambda>initRequest w.
          call (api_Update (InitRequestClient E) (initRequest\<lparr>reqResults := rs, reqStatus := status\<rparr>) w)
            (\<lambda>err w. (Inl err, w)) (\<lambda>_ w. (Inr (), w)))"

definition updateInitRequest ::
  "('w, 'b) init_env_scheme \<Rightarrow> string \<Rightarrow> InitDeviceResult list \<Rightarrow> string \<Rightarrow> ('w, unit) io" where
  "updateInitRequest E name rs status = RetryOnConflict E (set_request E name rs status)"

text \<open>\<open>order\<close> is the order in which the goroutines get to run.\<close>

definition initDevices ::
  "('w, 'b) init_env_scheme \<Rightarrow> (init_task list \<Rightarrow> init_task list) \<Rightarrow> InitRequest \<Rightarrow> ('w, unit) io" where
  "initDevices E order req w =
     (case init_ids (reqDevices req) of
        None \<Rightarrow> updateInitRequest E (objName req) (reqResults req) InitStatusError w
      | Some majorMinorList \<Rightarrow>
          call (probeDevices E majorMinorList w)
            (\<lambda>err w. updateInitRequest E (objName req) (reqResults req) InitStatusError w)
            (\<lambda>devices w.
               case init_loop E (probed_devices devices) 0 (reqDevices req) w of
                 ((rs, tasks), w) \<Rightarrow>
                   case run_tasks E (order tasks) rs w of
                     (rs, w) \<Rightarrow> updateInitRequest E (objName req) rs InitStatusProcessed w))"

definition InitRequest_Handle ::
  "('w, 'b) init_env_scheme \<Rightarrow> (init_task list \<Rightarrow> init_task list) \<Rightarrow> EventType \<Rightarrow> InitRequest \<Rightarrow> ('w, unit) io" where
  "InitRequest_Handle E order eventType req w =
     (if (eventType = UpdateEvent \<or> eventType = AddEvent) \<and> reqStatus req = InitStatusPending
      then initDevices E order req w else (Inr (), w))"

section \<open>What an initialisation changes\<close>

text \<open>The calls of the handler other than formatting.\<close>

definition init_step :: "('w, 'b) init_env_scheme \<Rightarrow> 'w \<Rightarrow> 'w \<Rightarrow> bool" where
  "init_step E w w' \<longleftrightarrow>
     w' = snd (newUUID E w) \<or> (\<exists>a b. w' = snd (init_mount E a b w)) \<or> (\<exists>a. w' = snd (init_unmount E a w)) \<or>
     (\<exists>a. w' = snd (init_symlink E a w)) \<or> (\<exists>a. w' = snd (init_makeMetaDir E a w)) \<or>
     (\<exists>a b. w' = snd (init_writeFile E a b w))"

locale init_frame = probe_frame E F
  for E :: "('w, 'b) init_env_scheme" and F :: "'w \<Rightarrow> 'f" +
  assumes init_keep: "init_step E w w' \<Longrightarrow> F w' = F w"
begin

lemma keeps_init_step: "(\<And>w. init_step E w (snd (f w))) \<Longrightarrow> keeps F f"
  unfolding keeps_def by (simp add: init_keep)

lemma keeps_init:
  "keeps F (newUUID E)" "keeps F (init_mount E a b)" "keeps F (init_unmount E a)" "keeps F (init_symlink E a)"
  "keeps F (init_makeMetaDir E a)" "keeps F (init_writeFile E a b)"
  by (rule keeps_init_step, auto simp: init_step_def)+

lemma keeps_init_check: "keeps F (init_check E probed i d)"
proof (cases "map_of probed (hd (strings_SplitN2 (initID d) ''$''))")
  case None
  then show ?thesis unfolding init_check_def [abs_def] by (simp add: keeps_value)
next
  case (Some device)
  show ?thesis unfolding init_check_def [abs_def] Some option.case
    by (intro keeps_rules keeps_DeniedReason)
qed

lemma keeps_init_loop: "keeps F (init_loop E probed i ds)"
proof (induction ds arbitrary: i)
  case (Cons d ds)
  have "init_loop E probed i (d # ds) = (\<lambda>w. case init_check E probed i d w of (x, w) \<Rightarrow>
      case init_loop E probed (i + 1) ds w of (y, w) \<Rightarrow>
        ((\<lparr> resultName = initName d, resultError = fst x \<rparr> # fst y, snd x @ snd y), w))"
    by (simp add: fun_eq_iff split: prod.splits)
  then show ?case by (simp only:) (intro keeps_case keeps_value keeps_init_check Cons.IH)
qed (simp add: keeps_def)

end

text \<open>A node that keeps a record of what was formatted.\<close>

locale init_cluster = probe_cluster E dstore vstore + r: object_api "InitRequestClient E" rstore
  for E :: "('w, 'b) init_env_scheme" and dstore vstore and rstore :: "'w \<Rightarrow> string \<Rightarrow> InitRequest option" +
  fixes formatted :: "'w \<Rightarrow> string set"
  assumes init_drives: "init_step E w w' \<Longrightarrow> dstore w' = dstore w"
    and init_volumes: "init_step E w w' \<Longrightarrow> vstore w' = vstore w"
    and init_formats: "init_step E w w' \<Longrightarrow> formatted w' = formatted w"
    and files_formats: "probe_step E w w' \<Longrightarrow> formatted w' = formatted w"
    and host_formats: "host_step E w w' \<Longrightarrow> formatted w' = formatted w"
    and drive_step_formats: "api_step (DriveClient E) w w' \<Longrightarrow> formatted w' = formatted w"
    and request_step_formats: "api_step (InitRequestClient E) w w' \<Longrightarrow> formatted w' = formatted w"
    and request_step_drives: "api_step (InitRequestClient E) w w' \<Longrightarrow> dstore w' = dstore w"
    and request_step_volumes: "api_step (InitRequestClient E) w w' \<Longrightarrow> vstore w' = vstore w"
    and makeFS_drives: "init_makeFS E dev u f rl w = (a, w') \<Longrightarrow> dstore w' = dstore w"
    and makeFS_volumes: "init_makeFS E dev u f rl w = (a, w') \<Longrightarrow> vstore w' = vstore w"
    and makeFS_formats: "init_makeFS E dev u f rl w = (a, w') \<Longrightarrow> formatted w' \<subseteq> insert dev (formatted w)"

sublocale init_cluster \<subseteq> dinit: init_frame E dstore
  by unfold_locales (rule init_drives)

sublocale init_cluster \<subseteq> vinit: init_frame E vstore
  by unfold_locales (rule init_volumes)

sublocale init_cluster \<subseteq> finit: init_frame E formatted
proof unfold_locales
  show "keeps formatted (api_Get (DriveClient E) n)" for n
    by (rule keepsI, rule drive_step_formats, erule api_stepI)
qed (rule files_formats host_formats init_formats, assumption)+

text \<open>A device that may be formatted for a request: it is still the one that was asked for, eligible, and
  no drive has its file system.\<close>

definition permitted :: "('w, 'b) init_env_scheme \<Rightarrow> InitDevice list \<Rightarrow> (string \<Rightarrow> Drive option) \<Rightarrow> Device \<Rightarrow> bool" where
  "permitted E ds drives device \<longleftrightarrow>
     (\<exists>d \<in> set ds. initID d = Device_ID (hash64 E) (nodeID E) device) \<and> device_reasons device = [] \<and>
     (Device_FSType device = ''xfs'' \<and> Device_FSUUID device \<noteq> [] \<longrightarrow> drives (Device_FSUUID device) = None)"

text \<open>A drive that was registered: a new object, the rest as before.\<close>

definition drive_registered :: "('w, 'b) init_env_scheme \<Rightarrow> Device \<Rightarrow> (string \<Rightarrow> Drive option) \<Rightarrow> (string \<Rightarrow> Drive option) \<Rightarrow> bool" where
  "drive_registered E device ds ds' \<longleftrightarrow>
     (\<exists>fsuuid total free rv. ds fsuuid = None \<and>
        ds' = ds(fsuuid \<mapsto> (new_drive E device fsuuid total free)\<lparr>ResourceVersion := rv\<rparr>))"

context init_cluster
begin

definition same :: "'w \<Rightarrow> 'w \<Rightarrow> bool" where
  "same w w' \<longleftrightarrow> dstore w' = dstore w \<and> vstore w' = vstore w \<and> formatted w' = formatted w"

lemma same_refl: "same w w"
  by (simp add: same_def)

lemma same_trans: "same a b \<Longrightarrow> same b c \<Longrightarrow> same a c"
  by (simp add: same_def)

lemma sameI: "keeps dstore f \<Longrightarrow> keeps vstore f \<Longrightarrow> keeps formatted f \<Longrightarrow> f w = (r, w') \<Longrightarrow> same w w'"
  unfolding same_def using keepsD by metis

lemmas same_init =
  sameI [OF dinit.keeps_init(1) vinit.keeps_init(1) finit.keeps_init(1)]
  sameI [OF dinit.keeps_init(2) vinit.keeps_init(2) finit.keeps_init(2)]
  sameI [OF dinit.keeps_init(3) vinit.keeps_init(3) finit.keeps_init(3)]
  sameI [OF dinit.keeps_init(4) vinit.keeps_init(4) finit.keeps_init(4)]
  sameI [OF dinit.keeps_init(5) vinit.keeps_init(5) finit.keeps_init(5)]
  sameI [OF dinit.keeps_init(6) vinit.keeps_init(6) finit.keeps_init(6)]

lemmas same_mounts = sameI [OF drives_frame.keeps_host(1) volumes_frame.keeps_host(1) finit.keeps_host(1)]

lemma create_drive_effect:
  assumes "api_Create (DriveClient E) (new_drive E device u t f) w = (r, w')"
  shows "vstore w' = vstore w \<and> formatted w' = formatted w \<and>
    (case r of Inl e \<Rightarrow> dstore w' = dstore w | Inr x \<Rightarrow> drive_registered E device (dstore w) (dstore w'))"
proof -
  have "objName (new_drive E device u t f) = u" by (simp add: new_drive_def NewDirectPVDrive_def)
  then have "case r of Inl e \<Rightarrow> dstore w' = dstore w | Inr x \<Rightarrow> drive_registered E device (dstore w) (dstore w')"
    using d.create_ok [of "new_drive E device u t f" w _ w'] d.create_err [of "new_drive E device u t f" w _ w'] assms
    by (cases r) (auto simp: drive_registered_def)
  moreover have "formatted w' = formatted w" using assms by (rule drive_step_formats [OF api_stepI(2)])
  ultimately show ?thesis using drive_ops_volumes(2) [OF assms] by blast
qed

lemma register_drive_effect:
  assumes "register_drive E device u t f w = (r, w')"
  shows "vstore w' = vstore w \<and> formatted w' = formatted w \<and>
    (case r of Inl e \<Rightarrow> dstore w' = dstore w | Inr x \<Rightarrow> drive_registered E device (dstore w) (dstore w'))"
proof -
  obtain a w1 where s: "init_symlink E u w = (a, w1)" by fastforce
  obtain b w2 where m: "init_makeMetaDir E u w1 = (b, w2)" by fastforce
  obtain c w3 where f: "init_writeFile E u (meta_data u) w2 = (c, w3)" by fastforce
  obtain g w4 where k: "api_Create (DriveClient E) (new_drive E device u t f) w3 = (g, w4)" by fastforce
  note q = same_init(4) [OF s] same_init(5) [OF m] same_init(6) [OF f]
  consider e where "a = Inl e" | e where "a = Inr ()" "b = Inl e" | e where "a = Inr ()" "b = Inr ()" "c = Inl e"
    | "a = Inr ()" "b = Inr ()" "c = Inr ()"
    by (metis obj_sumE old.unit.exhaust)
  then show ?thesis
  proof cases
    case 4
    then show ?thesis
      using assms s m f k q create_drive_effect [OF k] by (cases g) (auto simp: register_drive_def same_def)
  qed (use assms s m f k q in \<open>auto simp: register_drive_def same_def\<close>)
qed

end

text \<open>Where \<^verbatim>\<open>initDevice\<close> may end.\<close>

lemma initDevice_cases:
  assumes "initDevice E device force w = (r, w')"
    and gm: "getMounts E w = (mi, w1)" and uu: "newUUID E w1 = (u, w2)"
    and mk: "init_makeFS E (AddDevPrefix (dvName device)) u force (reflink E) w2 = (a, w3)"
    and mt: "init_mount E (AddDevPrefix (dvName device)) u w3 = (b, w4)"
  obtains "w' = w1" "isl r" | "w' = w3" "isl r" | "w' = w4" "isl r"
    | x y t f c w5 where "a = Inr (x, y, t, f)" "b = Inr ()" "register_drive E device u t f w4 = (c, w5)"
        "case c of Inl e \<Rightarrow> w' = snd (init_unmount E u w5) \<and> r = Inl e | Inr z \<Rightarrow> w' = w5 \<and> r = Inr ()"
proof (cases mi)
  case (Inl e)
  then show thesis using assms(1) gm that(1) by (auto simp: initDevice_def Let_def)
next
  case mi: (Inr info)
  show thesis
  proof (cases a)
    case (Inl e)
    then show thesis using assms(1) gm mi uu mk that(1,2) by (auto simp: initDevice_def Let_def split: if_splits)
  next
    case a: (Inr z)
    obtain x y t f where z: "z = (x, y, t, f)" by (metis prod_cases4)
    obtain c w5 where rg: "register_drive E device u t f w4 = (c, w5)" by fastforce
    note run = assms(1) gm mi uu mk a z mt rg
    show thesis
    proof (cases b)
      case (Inl e)
      then show thesis using run that(1,3) by (auto simp: initDevice_def Let_def split: if_splits)
    next
      case (Inr v)
      then show thesis using run that(1,4)
        by (cases c) (auto simp: initDevice_def Let_def split: if_splits prod.splits)
    qed
  qed
qed

context init_cluster
begin

lemma initDevice_effect:
  assumes "initDevice E device force w = (r, w')"
  shows "vstore w' = vstore w \<and> formatted w' \<subseteq> insert (AddDevPrefix (dvName device)) (formatted w) \<and>
    (case r of Inl e \<Rightarrow> dstore w' = dstore w | Inr x \<Rightarrow> drive_registered E device (dstore w) (dstore w'))"
proof -
  let ?dev = "AddDevPrefix (dvName device)"
  obtain mi w1 where gm: "getMounts E w = (mi, w1)" by fastforce
  obtain u w2 where uu: "newUUID E w1 = (u, w2)" by fastforce
  obtain a w3 where mk: "init_makeFS E ?dev u force (reflink E) w2 = (a, w3)" by fastforce
  obtain b w4 where mt: "init_mount E ?dev u w3 = (b, w4)" by fastforce
  have q1: "same w w1" using same_mounts [OF gm] .
  have q: "same w w2" using q1 same_init(1) [OF uu] by (rule same_trans)
  have q3: "dstore w3 = dstore w" "vstore w3 = vstore w" "formatted w3 \<subseteq> insert ?dev (formatted w)"
    using q makeFS_drives [OF mk] makeFS_volumes [OF mk] makeFS_formats [OF mk] by (simp_all add: same_def)
  note q4 = same_init(2) [OF mt]
  show ?thesis
  proof (rule initDevice_cases [OF assms gm uu mk mt])
    fix x y t f c w5
    assume g: "register_drive E device u t f w4 = (c, w5)"
      and c: "case c of Inl e \<Rightarrow> w' = snd (init_unmount E u w5) \<and> r = Inl e | Inr z \<Rightarrow> w' = w5 \<and> r = Inr ()"
    obtain n w6 where un: "init_unmount E u w5 = (n, w6)" by fastforce
    show ?thesis
      using c register_drive_effect [OF g] un q3 q4 same_init(3) [OF un] by (cases c) (simp_all add: same_def)
  qed (use q1 q3 q4 in \<open>auto simp: same_def isl_def\<close>)
qed

text \<open>Drives are only added.\<close>

lemma registered_extends: "drive_registered E device ds ds' \<Longrightarrow> ds \<subseteq>\<^sub>m ds'"
  by (auto simp: drive_registered_def map_le_def)

lemma run_tasks_effect:
  "run_tasks E ts rs w = (rs', w') \<Longrightarrow>
     vstore w' = vstore w \<and> dstore w \<subseteq>\<^sub>m dstore w' \<and>
     formatted w' \<subseteq> formatted w \<union> (\<lambda>(i, device, force). AddDevPrefix (dvName device)) ` set ts \<and>
     map resultName rs' = map resultName rs"
proof (induction ts arbitrary: rs w)
  case (Cons t ts)
  obtain i device force where t: "t = (i, device, force)" by (metis prod_cases3)
  obtain a w1 where id: "initDevice E device force w = (a, w1)" by fastforce
  note eff = initDevice_effect [OF id]
  have "map resultName (rs[i := (rs ! i)\<lparr>resultError := e\<rparr>]) = map resultName rs" for e
    by (cases "i < length rs") (simp_all add: map_update list_update_same_conv list_update_beyond)
  then have "vstore w' = vstore w1 \<and> dstore w1 \<subseteq>\<^sub>m dstore w' \<and>
      formatted w' \<subseteq> formatted w1 \<union> (\<lambda>(i, device, force). AddDevPrefix (dvName device)) ` set ts \<and>
      map resultName rs' = map resultName rs"
    using Cons.IH Cons.prems t id by (cases a) auto
  moreover have "dstore w \<subseteq>\<^sub>m dstore w1"
    using eff registered_extends by (cases a) auto
  ultimately show ?case using eff t map_le_trans by auto
qed (simp add: map_le_def)

lemma init_check_permitted:
  assumes "init_check E probed i d w = ((e, ts), w')" and "(j, device, force) \<in> set ts"
  shows "permitted E [d] (dstore w) device"
proof -
  obtain dev where p: "map_of probed (hd (strings_SplitN2 (initID d) ''$'')) = Some dev"
    using assms by (auto simp: init_check_def split: option.splits)
  then have id: "Device_ID (hash64 E) (nodeID E) dev = initID d"
    using assms by (auto simp: init_check_def split: if_splits)
  obtain reason w1 where dr: "DeniedReason E dev w = (reason, w1)" by fastforce
  then have "device = dev" "reason = []" using assms p id by (auto simp: init_check_def split: if_splits)
  then show ?thesis using permitted_device [of dev w w1] dr id by (auto simp: permitted_def)
qed

lemma init_loop_effect:
  "init_loop E probed i ds w = ((rs, ts), w') \<Longrightarrow>
     map resultName rs = map initName ds \<and> (\<forall>(j, device, force) \<in> set ts. permitted E ds (dstore w) device)"
proof (induction ds arbitrary: i w rs ts w')
  case (Cons d ds)
  obtain e t1 w1 where c: "init_check E probed i d w = ((e, t1), w1)" by (metis prod.exhaust)
  obtain rs2 t2 w2 where l: "init_loop E probed (i + 1) ds w1 = ((rs2, t2), w2)" by (metis prod.exhaust)
  have "dstore w1 = dstore w" using dinit.keeps_init_check c by (rule keepsD)
  then have "map resultName rs2 = map initName ds" "\<forall>(j, device, force) \<in> set t2. permitted E ds (dstore w) device"
    using Cons.IH [OF l] by simp_all
  moreover have "permitted E [d] (dstore w) device" if "(j, device, force) \<in> set t1" for j device force
    using init_check_permitted [OF c that] .
  moreover have "rs = \<lparr> resultName = initName d, resultError = e \<rparr> # rs2" "ts = t1 @ t2"
    using Cons.prems c l by simp_all
  ultimately show ?case by (fastforce simp: permitted_def)
qed simp

lemma set_request_same: "keeps dstore (set_request E n rs st)" "keeps vstore (set_request E n rs st)" "keeps formatted (set_request E n rs st)"
proof -
  have "keeps F (set_request E n rs st)" if "\<And>w w'. api_step (InitRequestClient E) w w' \<Longrightarrow> F w' = F w" for F :: "'w \<Rightarrow> 'f"
  proof -
    have "keeps F (api_Get (InitRequestClient E) n)" by (rule keepsI, rule that, erule api_stepI)
    moreover have "keeps F (api_Update (InitRequestClient E) x)" for x by (rule keepsI, rule that, erule api_stepI)
    ultimately show ?thesis unfolding set_request_def [abs_def] by (intro keeps_rules)
  qed
  then show "keeps dstore (set_request E n rs st)" "keeps vstore (set_request E n rs st)" "keeps formatted (set_request E n rs st)"
    using request_step_drives request_step_volumes request_step_formats by blast+
qed

lemma updateInitRequest_same:
  assumes "updateInitRequest E n rs st w = (r, w')"
  shows "same w w'"
proof -
  let ?f = "set_request E n rs st"
  have "retried ?f w (r, w')" using retry [of ?f w] assms by (simp add: updateInitRequest_def)
  then have "same w (snd (r, w'))"
  proof (rule retried_preserves)
    show "same w (snd (?f v))" if "same w v" for v
      using that set_request_same [of n rs st] by (simp add: same_def keeps_def)
  qed (rule same_refl)
  then show ?thesis by simp
qed

lemma initDevices_effect:
  assumes "initDevices E order req w = (r, w')" and "\<And>ts. set (order ts) \<subseteq> set ts"
  shows "vstore w' = vstore w \<and> dstore w \<subseteq>\<^sub>m dstore w' \<and>
    (\<forall>path \<in> formatted w' - formatted w. \<exists>device. path = AddDevPrefix (dvName device) \<and> permitted E (reqDevices req) (dstore w) device)"
proof -
  have fin: ?thesis if "updateInitRequest E n rs st v = (r, w')" "same w v" for n rs st v
    using same_trans [OF that(2) updateInitRequest_same [OF that(1)]] by (auto simp: same_def map_le_def)
  show ?thesis
  proof (cases "init_ids (reqDevices req)")
    case None
    then show ?thesis using assms(1) fin [OF _ same_refl] by (simp add: initDevices_def)
  next
    case (Some mms)
    obtain a w1 where p: "probeDevices E mms w = (a, w1)" by fastforce
    have q1: "same w w1"
      using drives_frame.keeps_probe(2) volumes_frame.keeps_probe(2) finit.keeps_probe(2) p by (rule sameI)
    show ?thesis
    proof (cases a)
      case (Inl e)
      then show ?thesis using assms(1) Some p fin [OF _ q1] by (simp add: initDevices_def)
    next
      case (Inr devices)
      obtain rs ts w2 where l: "init_loop E (probed_devices devices) 0 (reqDevices req) w1 = ((rs, ts), w2)" by (metis prod.exhaust)
      obtain rs' w3 where t: "run_tasks E (order ts) rs w2 = (rs', w3)" by fastforce
      have u: "updateInitRequest E (objName req) rs' InitStatusProcessed w3 = (r, w')"
        using assms(1) Some p Inr l t by (simp add: initDevices_def)
      have "same w1 w2"
        using dinit.keeps_init_loop vinit.keeps_init_loop finit.keeps_init_loop l by (rule sameI)
      with q1 have q2: "same w w2" by (rule same_trans)
      have "\<exists>device. path = AddDevPrefix (dvName device) \<and> permitted E (reqDevices req) (dstore w) device"
        if "path \<in> (\<lambda>(i, device, force). AddDevPrefix (dvName device)) ` set (order ts)" for path
        using that init_loop_effect [OF l] q1 assms(2) [of ts] by (fastforce simp: same_def)
      note task = this
      have "formatted w' - formatted w \<subseteq> (\<lambda>(i, device, force). AddDevPrefix (dvName device)) ` set (order ts)"
        using run_tasks_effect [OF t] updateInitRequest_same [OF u] q2 by (auto simp: same_def)
      then show ?thesis
        using task run_tasks_effect [OF t] updateInitRequest_same [OF u] q2 unfolding same_def by (metis (no_types, lifting) subsetD)
    qed
  qed
qed

lemma set_request_stored:
  assumes "retried (set_request E n rs st) w r" and "fst r = Inr ()" and "rstore (snd r) n = Some x"
  shows "reqStatus x = st \<and> reqResults x = rs"
  using assms
proof (induction rule: retried.induct)
  case (once w)
  obtain a w1 where g: "api_Get (InitRequestClient E) n w = (a, w1)" by fastforce
  then obtain q where a: "a = Inr q" using once by (cases a) (auto simp: set_request_def)
  obtain b w2 where u: "api_Update (InitRequestClient E) (q\<lparr>reqResults := rs, reqStatus := st\<rparr>) w1 = (b, w2)" by fastforce
  then obtain y where b: "b = Inr y" using once g a by (cases b) (auto simp: set_request_def)
  have "snd (set_request E n rs st w) = w2" using g a u b by (simp add: set_request_def)
  moreover have "objName q = n" using r.get_name g a by blast
  moreover obtain rv where "y = q\<lparr>reqResults := rs, reqStatus := st, ResourceVersion := rv\<rparr>"
      "rstore w2 (objName q) = None \<or> rstore w2 (objName q) = Some y"
    using r.update_ok [OF u [unfolded b]] by (auto split: if_splits)
  ultimately show ?case using once by auto
qed simp

end

section \<open>Properties\<close>

text \<open>C28. Handling an initialisation request, whatever fails and in whatever order the goroutines run,
  formats only devices the request names whose state is unchanged since the request was made, that are
  eligible and that carry the file system of no drive. Existing drives and all volumes stay as they are.\<close>

theorem initDevices_formats_permitted:
  assumes "init_cluster E dstore vstore rstore formatted" and "initDevices E order req w = (r, w')"
    and "\<forall>ts. set (order ts) \<subseteq> set ts"
  shows "vstore w' = vstore w \<and> dstore w \<subseteq>\<^sub>m dstore w' \<and>
    (\<forall>path \<in> formatted w' - formatted w. \<exists>device. path = AddDevPrefix (dvName device) \<and>
       (\<exists>d \<in> set (reqDevices req). initID d = Device_ID (hash64 E) (nodeID E) device) \<and>
       minSupportedDeviceSize \<le> dvSize device \<and> \<not> dvHidden device \<and> \<not> dvReadOnly device \<and> \<not> dvPartitioned device \<and>
       dvHolders device = [] \<and> dvMountPoints device = [] \<and> \<not> dvSwapOn device \<and> \<not> dvCDROM device \<and>
       (Device_FSType device = ''xfs'' \<and> Device_FSUUID device \<noteq> [] \<longrightarrow> dstore w (Device_FSUUID device) = None))"
proof -
  have "permitted E (reqDevices req) (dstore w) device \<longleftrightarrow>
      (\<exists>d \<in> set (reqDevices req). initID d = Device_ID (hash64 E) (nodeID E) device) \<and>
       minSupportedDeviceSize \<le> dvSize device \<and> \<not> dvHidden device \<and> \<not> dvReadOnly device \<and> \<not> dvPartitioned device \<and>
       dvHolders device = [] \<and> dvMountPoints device = [] \<and> \<not> dvSwapOn device \<and> \<not> dvCDROM device \<and>
       (Device_FSType device = ''xfs'' \<and> Device_FSUUID device \<noteq> [] \<longrightarrow> dstore w (Device_FSUUID device) = None)" for device
    unfolding permitted_def device_reasons_def by auto
  then show ?thesis using init_cluster.initDevices_effect [OF assms(1), OF assms(2)] assms(3) by simp
qed

text \<open>C29. Initialising a device registers a drive on success, and no drive on failure: the drive is ready and
  schedulable, belongs to the node, is named after its new file system and the device, and nothing is
  allocated on it. All other drives and the volumes stay as they are.\<close>

theorem initDevice_correct:
  assumes "init_cluster E dstore vstore rstore formatted" and "initDevice E device force w = (r, w')"
  shows "vstore w' = vstore w \<and>
    (case r of
       Inl e \<Rightarrow> dstore w' = dstore w
     | Inr x \<Rightarrow> \<exists>fsuuid d. dstore w fsuuid = None \<and> dstore w' = (dstore w)(fsuuid \<mapsto> d) \<and>
         objName d = fsuuid \<and> dFSUUID (driveStatus d) = fsuuid \<and> dStatus (driveStatus d) = DriveStatusReady \<and>
         \<not> IsUnschedulable d \<and> GetVolumeCount d = 0 \<and> dAllocatedCapacity (driveStatus d) = 0 \<and>
         objLabels d NodeLabelKey = Some (nodeID E) \<and> objLabels d DriveNameLabelKey = Some (dvName device))"
proof -
  have "objName d = u \<and> dFSUUID (driveStatus d) = u \<and> dStatus (driveStatus d) = DriveStatusReady \<and>
      \<not> IsUnschedulable d \<and> GetVolumeCount d = 0 \<and> dAllocatedCapacity (driveStatus d) = 0 \<and>
      objLabels d NodeLabelKey = Some (nodeID E) \<and> objLabels d DriveNameLabelKey = Some (dvName device)"
    if "d = (new_drive E device u t f)\<lparr>ResourceVersion := rv\<rparr>" for d u t f rv
    using that by (simp add: new_drive_def NewDirectPVDrive_def IsUnschedulable_def GetVolumeCount_def
        NodeLabelKey_def DriveNameLabelKey_def AccessTierLabelKey_def VersionLabelKey_def CreatedByLabelKey_def)
  note new = this
  note eff = init_cluster.initDevice_effect [OF assms]
  show ?thesis
  proof (cases r)
    case (Inr x)
    then obtain u t f rv where "dstore w u = None" "dstore w' = (dstore w)(u \<mapsto> (new_drive E device u t f)\<lparr>ResourceVersion := rv\<rparr>)"
      using eff by (auto simp: drive_registered_def)
    then show ?thesis
      using Inr eff new [OF refl [of "(new_drive E device u t f)\<lparr>ResourceVersion := rv\<rparr>"]]
      by (auto intro!: exI [of _ u] exI [of _ "(new_drive E device u t f)\<lparr>ResourceVersion := rv\<rparr>"])
  qed (use eff in simp)
qed

text \<open>A request that was handled without error is not pending any more: it is in error or it has one
  result per device, in the order of the devices.\<close>

theorem initDevices_settles:
  assumes "init_cluster E dstore vstore rstore formatted" and "initDevices E order req w = (Inr (), w')"
    and "rstore w' (objName req) = Some x"
  shows "reqStatus x = InitStatusError \<and> reqResults x = reqResults req \<or>
    reqStatus x = InitStatusProcessed \<and> map resultName (reqResults x) = map initName (reqDevices req)"
proof -
  have upd: "reqStatus x = st \<and> reqResults x = rs"
    if "updateInitRequest E (objName req) rs st v = (Inr (), w')" for rs st v
    using init_cluster.set_request_stored [OF assms(1), of "objName req" rs st v "(Inr (), w')"]
      cluster.retry [of E dstore vstore "set_request E (objName req) rs st" v] that assms(3)
      assms(1) [unfolded init_cluster_def probe_cluster_def host_cluster_def] by (simp add: updateInitRequest_def)
  show ?thesis
  proof (cases "init_ids (reqDevices req)")
    case None
    then show ?thesis using assms(2) upd by (simp add: initDevices_def)
  next
    case (Some mms)
    obtain a w1 where p: "probeDevices E mms w = (a, w1)" by fastforce
    show ?thesis
    proof (cases a)
      case (Inl e)
      then show ?thesis using assms(2) Some p upd by (simp add: initDevices_def)
    next
      case (Inr devices)
      obtain rs ts w2 where l: "init_loop E (probed_devices devices) 0 (reqDevices req) w1 = ((rs, ts), w2)" by (metis prod.exhaust)
      obtain rs' w3 where t: "run_tasks E (order ts) rs w2 = (rs', w3)" by fastforce
      have "updateInitRequest E (objName req) rs' InitStatusProcessed w3 = (Inr (), w')"
        using assms(2) Some p Inr l t by (simp add: initDevices_def)
      then show ?thesis
        using upd init_cluster.run_tasks_effect [OF assms(1), OF t] init_cluster.init_loop_effect [OF assms(1), OF l] by simp
    qed
  qed
qed

section \<open>A node for the witnesses\<close>

record iworld = hworld +
  wFormatted :: "string list"

definition store_init :: "iworld init_env" where
  "store_init = probe_env.extend store_probe (init_env.fields False Map.empty (\<lambda>w. (''uuid-1'', w))
     (\<lambda>dev u f rl w. (Inr (u, ''DIRECTPV'', 1000, 900), w\<lparr>wFormatted := dev # wFormatted w\<rparr>))
     (\<lambda>dev u w. (Inr (), w)) (\<lambda>u w. (Inr (), w)) (\<lambda>u w. (Inr (), w)) (\<lambda>u w. (Inr (), w)) (\<lambda>u c w. (Inr (), w)))"

definition world_requests :: "'b world_scheme \<Rightarrow> string \<Rightarrow> InitRequest option" where
  "world_requests w = lookup_obj (wInitRequests w)"

lemmas store_init_defs = store_init_def store_probe_def probe_fields_def store_env_def store_client_def probe_env.defs env.defs init_env.defs

lemma store_init_step:
  assumes "host_step store_init w w' \<or> probe_step store_init w w' \<or> init_step store_init w w'"
  shows "world_drives w' = world_drives w \<and> world_volumes w' = world_volumes w \<and> wFormatted w' = wFormatted w"
  using assms unfolding host_step_def probe_step_def init_step_def
  by (auto simp: store_init_defs world_drives_def world_volumes_def)

lemma store_init_api:
  "DriveClient store_init = store_api wDrives (\<lambda>xs w. w\<lparr>wDrives := xs\<rparr>)"
  "InitRequestClient store_init = store_api wInitRequests (\<lambda>xs w. w\<lparr>wInitRequests := xs\<rparr>)"
  by (simp_all add: store_init_defs)

lemma store_init_api_step:
  "api_step (DriveClient store_init) w w' \<Longrightarrow> wFormatted w' = wFormatted w"
  "api_step (InitRequestClient store_init) w w' \<Longrightarrow> wFormatted w' = wFormatted w"
  "api_step (InitRequestClient store_init) w w' \<Longrightarrow> world_drives w' = world_drives w"
  "api_step (InitRequestClient store_init) w w' \<Longrightarrow> world_volumes w' = world_volumes w"
  unfolding store_init_api by (erule store_api_step_put, simp add: world_drives_def world_volumes_def)+

lemma store_init_cluster: "cluster store_init world_drives world_volumes"
  by (rule cluster_of_store) (simp_all add: store_init_defs)

interpretation store_initializer: init_cluster store_init world_drives world_volumes world_requests "\<lambda>w. set (wFormatted w)"
proof (intro init_cluster.intro probe_cluster.intro host_cluster.intro host_cluster_axioms.intro probe_cluster_axioms.intro
    init_cluster_axioms.intro store_init_cluster, goal_cases)
  case 5
  show ?case
    using object_api_store [of wInitRequests "\<lambda>xs w. w\<lparr>wInitRequests := xs\<rparr>"]
    by (simp add: store_init_api world_requests_def [abs_def])
next
  case (15 dev u f rl w a w')
  then show ?case by (auto simp: store_init_defs world_drives_def)
next
  case (16 dev u f rl w a w')
  then show ?case by (auto simp: store_init_defs world_volumes_def)
next
  case (17 dev u f rl w a w')
  then show ?case by (auto simp: store_init_defs)
qed (metis store_init_step store_init_api_step)+

definition init_request :: InitRequest where
  "init_request = NewDirectPVInitRequest ''request-1'' ''1'' ''node-1'' [\<lparr> initID = ''8:0$hash'', initName = ''sda'', initForce = False \<rparr>]"

definition init_world :: iworld where
  "init_world = hworld.extend (probe_world\<lparr>wInitRequests := [init_request]\<rparr>) (iworld.fields [])"

lemma init_run:
  "\<exists>w'. initDevices store_init (\<lambda>ts. ts) init_request init_world = (Inr (), w') \<and> wFormatted w' = [''/dev/sda''] \<and>
     (case world_requests w' ''request-1'' of None \<Rightarrow> False | Some x \<Rightarrow> reqStatus x = InitStatusProcessed \<and> resultError (hd (reqResults x)) = [])"
proof -
  have "case initDevices store_init (\<lambda>ts. ts) init_request init_world of (Inl e, w) \<Rightarrow> False
    | (Inr u, w) \<Rightarrow> wFormatted w = [''/dev/sda''] \<and>
     (case world_requests w ''request-1'' of None \<Rightarrow> False | Some x \<Rightarrow> reqStatus x = InitStatusProcessed \<and> resultError (hd (reqResults x)) = [])"
    by code_simp
  then show ?thesis by (auto split: prod.splits sum.splits)
qed

theorem initDevices_formats_permitted_witness:
  "\<exists>w'. \<exists>device :: Device. initDevices store_init (\<lambda>ts. ts) init_request init_world = (Inr (), w') \<and>
     ''/dev/sda'' \<in> set (wFormatted w') - set (wFormatted init_world) \<and>
     ''/dev/sda'' = AddDevPrefix (dvName device) \<and> minSupportedDeviceSize \<le> dvSize device \<and> dvMountPoints device = []"
proof -
  obtain w' where r: "initDevices store_init (\<lambda>ts. ts) init_request init_world = (Inr (), w')" "wFormatted w' = [''/dev/sda'']"
    using init_run by blast
  have n: "wFormatted init_world = []" by (simp add: init_world_def hworld.defs iworld.defs)
  have o: "\<forall>ts :: init_task list. set ts \<subseteq> set ts" by simp
  note all = initDevices_formats_permitted [OF store_initializer.init_cluster_axioms, OF r(1) o]
  have "''/dev/sda'' \<in> set (wFormatted w') - set (wFormatted init_world)" using r(2) n by simp
  with all obtain device :: Device where "''/dev/sda'' = AddDevPrefix (dvName device)" "minSupportedDeviceSize \<le> dvSize device"
      "dvMountPoints device = []"
    by blast
  then show ?thesis using r n by auto
qed

theorem initDevice_correct_witness:
  "\<exists>w' d. initDevice store_init free_device False init_world = (Inr (), w') \<and>
     world_drives w' ''uuid-1'' = Some d \<and> objLabels d DriveNameLabelKey = Some ''sdb''"
proof -
  have "case initDevice store_init free_device False init_world of (Inl e, w) \<Rightarrow> False
      | (Inr u, w) \<Rightarrow> world_drives w ''uuid-1'' \<noteq> None \<and> world_drives init_world ''uuid-1'' = None"
    by code_simp
  then obtain w' where r: "initDevice store_init free_device False init_world = (Inr (), w')"
      and n: "world_drives w' ''uuid-1'' \<noteq> None" "world_drives init_world ''uuid-1'' = None"
    by (auto split: prod.splits sum.splits)
  obtain u d where "world_drives w' = (world_drives init_world)(u \<mapsto> d)" "objLabels d DriveNameLabelKey = Some (dvName free_device)"
    using initDevice_correct [OF store_initializer.init_cluster_axioms, OF r] by auto
  then show ?thesis using r n by (auto simp: free_device_def split: if_splits)
qed

theorem initDevices_settles_witness:
  "\<exists>w' x. initDevices store_init (\<lambda>ts. ts) init_request init_world = (Inr (), w') \<and>
     world_requests w' ''request-1'' = Some x \<and> reqStatus x = InitStatusProcessed \<and> map resultName (reqResults x) = [''sda'']"
proof -
  obtain w' x where r: "initDevices store_init (\<lambda>ts. ts) init_request init_world = (Inr (), w')"
      and x: "world_requests w' ''request-1'' = Some x" "reqStatus x = InitStatusProcessed"
    using init_run by (auto split: option.splits)
  have "world_requests w' (objName init_request) = Some x" using x(1) by (simp add: init_request_def NewDirectPVInitRequest_def)
  then have "map resultName (reqResults x) = map initName (reqDevices init_request)"
    using initDevices_settles [OF store_initializer.init_cluster_axioms, OF r] x(2) by auto
  then show ?thesis using r x by (auto simp: init_request_def NewDirectPVInitRequest_def)
qed

end
