(* ===== verification/Discovery.thy ===== *)
theory Discovery
  imports Init_Request
begin

text \<open>
  The way from a cluster to initialisation requests: which nodes run the driver
  (\<^verbatim>\<open>GetCSINodes\<close> of \<^verbatim>\<open>pkg/k8s/client.go\<close>), the node objects that follow
  them (\<^verbatim>\<open>pkg/client/discovery.go\<close>), the request to probe again
  (\<^verbatim>\<open>pkg/admin/refresh.go\<close>), the watches of \<^verbatim>\<open>node_lister.go\<close> and
  \<^verbatim>\<open>initrequest_lister.go\<close>, the commands that wait on them
  (\<^verbatim>\<open>discoverDevices\<close> and \<^verbatim>\<open>initDevices\<close> of
  \<^verbatim>\<open>cmd/kubectl-directpv\<close>), and the configuration between the two
  (\<^verbatim>\<open>pkg/admin/init_config.go\<close>).

  Progress bars are left out. The channel of node names in \<open>RefreshNodes\<close> is the argument
  \<open>send\<close>, a call that hands a name to the receiver or reports that the context is done. A watch is
  the list of events that it delivers until it is closed; a deadline is the number of events received
  before it passes. The REST client for CSI nodes, the YAML decoder and \<^verbatim>\<open>uuid.New()\<close>
  are arguments.
\<close>

section \<open>Nodes of the driver\<close>

record 'w csi_server =
  csiVersion :: "('w, string) io"
  csiNodeList :: "string \<Rightarrow> ('w, (string \<times> string list) list) io"

text \<open>The spelling of the first version is the one of the source.\<close>

definition GetCSINodes :: "('w, 'a) csi_server_scheme \<Rightarrow> ('w, string list) io" where
  "GetCSINodes S w =
     call (csiVersion S w) (\<lambda>err w. (Inl err, w))
       (\<lambda>version w.
          if version = ''v1apha1'' then (Inl (ErrorString ''unsupported CSINode storage.k8s.io/v1alpha1''), w)
          else if version = ''v1'' \<or> version = ''v1beta1''
          then call (csiNodeList S version w) (\<lambda>err w. (Inl (Wrap ''unable to get csinodes'' err), w))
                 (\<lambda>items w. (Inr (map fst (filter (\<lambda>(name, drivers). utils_Contains drivers Identity) items)), w))
          else (Inr [], w))"

text \<open>The two loops of \<^verbatim>\<open>SyncNodes\<close>.\<close>

fun add_nodes :: "('w, 'b) client_scheme \<Rightarrow> string list \<Rightarrow> string list \<Rightarrow> ('w, unit) io" where
  "add_nodes C nodeNames [] w = (Inr (), w)"
| "add_nodes C nodeNames (csiNode # csiNodes) w =
     (if \<not> utils_Contains nodeNames csiNode
      then call (api_Create (NodeClient C) ((NewDirectPVNode csiNode [])\<lparr>nodeRefresh := True\<rparr>) w)
             (\<lambda>err w. (Inl (Wrap ''unable to create node'' err), w))
             (\<lambda>_ w. add_nodes C nodeNames csiNodes w)
      else add_nodes C nodeNames csiNodes w)"

fun remove_nodes :: "('w, 'b) client_scheme \<Rightarrow> string list \<Rightarrow> string list \<Rightarrow> ('w, unit) io" where
  "remove_nodes C csiNodes [] w = (Inr (), w)"
| "remove_nodes C csiNodes (nodeName # nodeNames) w =
     (if \<not> utils_Contains csiNodes nodeName
      then call (api_Delete (NodeClient C) nodeName w)
             (\<lambda>err w. (Inl (Wrap ''unable to remove non-existing node'' err), w))
             (\<lambda>_ w. remove_nodes C csiNodes nodeNames w)
      else remove_nodes C csiNodes nodeNames w)"

definition SyncNodes :: "('w, 'b) client_scheme \<Rightarrow> ('w, 'a) csi_server_scheme \<Rightarrow> ('w, unit) io" where
  "SyncNodes C S w =
     call (GetCSINodes S w) (\<lambda>err w. (Inl (Wrap ''unable to get CSI nodes'' err), w))
       (\<lambda>csiNodes w.
          case NodeLister_Get C NewNodeLister w of
            ((nodes, Some err), w) \<Rightarrow> (Inl (Wrap ''unable to get nodes'' err), w)
          | ((nodes, None), w) \<Rightarrow>
              let nodeNames = map objName nodes
              in call (add_nodes C nodeNames csiNodes w) (\<lambda>err w. (Inl err, w))
                   (\<lambda>_ w. remove_nodes C csiNodes nodeNames w))"

section \<open>Refreshing nodes\<close>

definition refresh_node :: "('w, 'b) client_scheme \<Rightarrow> (string \<Rightarrow> ('w, unit) io) \<Rightarrow> string \<Rightarrow> ('w, unit) io" where
  "refresh_node C send name w =
     call (api_Get (NodeClient C) name w) (\<lambda>err w. (Inl err, w))
       (\<lambda>node w. call (send (objName node) w) (\<lambda>err w. (Inl err, w))
          (\<lambda>_ w. call (api_Update (NodeClient C) (node\<lparr>nodeRefresh := True\<rparr>) w)
             (\<lambda>err w. (Inl err, w)) (\<lambda>_ w. (Inr (), w))))"

text \<open>The goroutine stops at the first error, which goes to the error channel.\<close>

fun refresh_nodes :: "('w, 'b) client_scheme \<Rightarrow> (string \<Rightarrow> ('w, unit) io) \<Rightarrow> string list \<Rightarrow> 'w \<Rightarrow> error option \<times> 'w" where
  "refresh_nodes C send [] w = (None, w)"
| "refresh_nodes C send (name # names) w =
     call (RetryOnConflict C (refresh_node C send name) w) (\<lambda>err w. (Some err, w))
       (\<lambda>_ w. refresh_nodes C send names w)"

definition RefreshNodes ::
  "('w, 'b) client_scheme \<Rightarrow> ('w, 'a) csi_server_scheme \<Rightarrow> (string \<Rightarrow> ('w, unit) io) \<Rightarrow> string list \<Rightarrow> ('w, error option) io" where
  "RefreshNodes C S send selectedNodes w =
     call (SyncNodes C S w) (\<lambda>err w. (Inl err, w))
       (\<lambda>_ w.
          case NodeLister_Get C (NodeLister_NodeSelector (ToLabelValues C selectedNodes) NewNodeLister) w of
            ((nodes, Some err), w) \<Rightarrow> (Inl err, w)
          | ((nodes, None), w) \<Rightarrow>
              if selectedNodes \<noteq> [] \<and> nodes = [] then (Inl (ErrorString ''node not found''), w)
              else case refresh_nodes C send (map objName nodes) w of (err, w) \<Rightarrow> (Inr err, w))"

section \<open>Watches\<close>

datatype watch_type = watch_Added | watch_Modified | watch_Deleted | watch_Bookmark | watch_Error

datatype 'o WatchEvent = WatchItem watch_type 'o | WatchFailed watch_type error

text \<open>\<open>watch\<close> is the request to the server and \<open>convert\<close> the conversion of an unstructured
  object.\<close>

definition watch_event :: "('u \<Rightarrow> 'o result) \<Rightarrow> watch_type \<times> 'u \<Rightarrow> 'o WatchEvent" where
  "watch_event convert = (\<lambda>(t, u). case convert u of
     Inl err \<Rightarrow> WatchFailed t (Wrap ''unable to convert unstructured object'' err) | Inr x \<Rightarrow> WatchItem t x)"

definition NodeLister_Watch ::
  "(ListOptions \<Rightarrow> ('w, (watch_type \<times> 'u) list) io) \<Rightarrow> ('u \<Rightarrow> NodeObj result) \<Rightarrow> NodeLister \<Rightarrow> ('w, NodeObj WatchEvent list) io" where
  "NodeLister_Watch watch convert l w =
     (if nlNodeNames l \<noteq> [] then (Inl (ErrorString ''unsupported selector''), w)
      else call (watch \<lparr> Limit = 0, LabelSelector = ToLabelSelector [(NodeLabelKey, nlNodes l)], Continue = [] \<rparr> w)
             (\<lambda>err w. (Inl err, w)) (\<lambda>raw w. (Inr (map (watch_event convert) raw), w)))"

definition named_event :: "string list \<Rightarrow> 'a ObjectMeta_scheme WatchEvent \<Rightarrow> bool" where
  "named_event names e =
     (case e of WatchFailed t err \<Rightarrow> True | WatchItem t x \<Rightarrow> names = [] \<or> utils_Contains names (objName x))"

definition InitRequestLister_Watch ::
  "(ListOptions \<Rightarrow> ('w, (watch_type \<times> 'u) list) io) \<Rightarrow> ('u \<Rightarrow> InitRequest result) \<Rightarrow> InitRequestLister \<Rightarrow>
   ('w, InitRequest WatchEvent list) io" where
  "InitRequestLister_Watch watch convert l w =
     call (watch \<lparr> Limit = 0,
             LabelSelector = ToLabelSelector [(NodeLabelKey, ilNodes l), (RequestIDLabelKey, ilRequestIDs l)], Continue = [] \<rparr> w)
       (\<lambda>err w. (Inl err, w))
       (\<lambda>raw w. (Inr (filter (named_event (ilNames l)) (map (watch_event convert) raw)), w))"

section \<open>Waiting for devices\<close>

type_synonym device_map = "(NodeID \<times> NodeDevice list) list"

definition discovery_deadline :: error where
  "discovery_deadline = Wrap ''unable to complete the discovery'' (ErrorString ''context deadline exceeded'')"

text \<open>The loop of \<^verbatim>\<open>discoverDevices\<close>; \<open>want\<close> is the number of node names.\<close>

fun discover_loop ::
  "string list \<Rightarrow> nat \<Rightarrow> nat option \<Rightarrow> NodeObj WatchEvent list \<Rightarrow> device_map \<Rightarrow> device_map \<times> error option" where
  "discover_loop drives want deadline [] devices =
     (devices, if deadline = Some 0 then Some discovery_deadline else None)"
| "discover_loop drives want deadline (e # events) devices =
     (if deadline = Some 0 then (devices, Some discovery_deadline)
      else case e of
        WatchFailed t err \<Rightarrow> (devices, Some err)
      | WatchItem t node \<Rightarrow>
          let next = map_option (\<lambda>n. n - 1) deadline
          in if t = watch_Modified \<or> t = watch_Added then
               let devices' = (if nodeRefresh node then devices
                               else assign_key (objName node) (GetDevicesByNames drives node) devices)
               in if want \<le> length devices' then (devices', None)
                  else discover_loop drives want next events devices'
             else if t = watch_Deleted then (devices, None)
             else discover_loop drives want next events devices)"

definition discoverDevices ::
  "('w, 'b) client_scheme \<Rightarrow> (ListOptions \<Rightarrow> ('w, (watch_type \<times> 'u) list) io) \<Rightarrow> ('u \<Rightarrow> NodeObj result) \<Rightarrow>
   nat option \<Rightarrow> string list \<Rightarrow> string list \<Rightarrow> 'w \<Rightarrow> (device_map \<times> error option) \<times> 'w" where
  "discoverDevices C watch convert deadline nodes drives w =
     call (NodeLister_Watch watch convert (NodeLister_NodeSelector (ToLabelValues C nodes) NewNodeLister) w)
       (\<lambda>err w. (([], Some err), w))
       (\<lambda>events w. (discover_loop drives (length nodes) deadline events [], w))"

section \<open>The configuration\<close>

record DriveInfo =
  diID :: string
  diName :: string
  diSize :: int
  diMake :: string
  diFS :: string
  diSelect :: string

record NodeInfo =
  niName :: NodeID
  niDrives :: "DriveInfo list"

record InitConfig =
  icVersion :: string
  icNodes :: "NodeInfo list"

definition DriveSelectedValue :: string where "DriveSelectedValue = ''yes''"

definition latestInitConfigVersion :: string where "latestInitConfigVersion = ''v1''"

definition errUnsupportedInitConfigVersion :: error where
  "errUnsupportedInitConfigVersion = ErrorString ''unsupported init config version''"

definition NewInitConfig :: InitConfig where
  "NewInitConfig = \<lparr> icVersion = latestInitConfigVersion, icNodes = [] \<rparr>"

text \<open>\<open>decode\<close> is the YAML decoder.\<close>

definition parseInitConfig :: "(string \<Rightarrow> InitConfig result) \<Rightarrow> string \<Rightarrow> InitConfig result" where
  "parseInitConfig decode s =
     (case decode s of
        Inl err \<Rightarrow> Inl err
      | Inr config \<Rightarrow>
          if icVersion config \<noteq> latestInitConfigVersion then Inl errUnsupportedInitConfigVersion else Inr config)"

definition drive_info :: "NodeDevice \<Rightarrow> DriveInfo" where
  "drive_info device =
     \<lparr> diID = devID device, diName = devName device, diSize = devSize device, diMake = devMake device,
       diFS = devFSType device, diSelect = DriveSelectedValue \<rparr>"

text \<open>The nodes come in the order in which Go walks the map.\<close>

definition ToInitConfig :: "device_map \<Rightarrow> InitConfig" where
  "ToInitConfig resultMap =
     NewInitConfig\<lparr> icNodes := map (\<lambda>(node, devices).
       \<lparr> niName = node, niDrives = map drive_info (filter (\<lambda>d. devDeniedReason d = []) devices) \<rparr>) resultMap \<rparr>"

text \<open>\<^verbatim>\<open>strings.ToLower\<close> on the ASCII letters; no other character has a lower case letter of
  \<^verbatim>\<open>yes\<close>.\<close>

definition lower_ascii :: "string \<Rightarrow> string" where
  "lower_ascii s = map (\<lambda>c. if 65 \<le> byte c \<and> byte c \<le> 90 then char_of (byte c + 32) else c) s"

definition init_device :: "DriveInfo \<Rightarrow> InitDevice" where
  "init_device d = \<lparr> initID = diID d, initName = diName d, initForce = (diFS d \<noteq> []) \<rparr>"

definition node_devices :: "NodeInfo \<Rightarrow> InitDevice list" where
  "node_devices node = map init_device (filter (\<lambda>d. lower_ascii (diSelect d) = DriveSelectedValue) (niDrives node))"

text \<open>\<open>uuid\<close> gives the identifiers in the order in which they are drawn.\<close>

fun node_requests :: "(nat \<Rightarrow> string) \<Rightarrow> string \<Rightarrow> nat \<Rightarrow> NodeInfo list \<Rightarrow> InitRequest list" where
  "node_requests uuid requestID i [] = []"
| "node_requests uuid requestID i (node # nodes) =
     (if node_devices node \<noteq> []
      then NewDirectPVInitRequest (uuid i) requestID (niName node) (node_devices node) # node_requests uuid requestID (i + 1) nodes
      else node_requests uuid requestID i nodes)"

definition ToInitRequestObjects :: "(nat \<Rightarrow> string) \<Rightarrow> InitConfig \<Rightarrow> InitRequest list \<times> string" where
  "ToInitRequestObjects uuid config = (node_requests uuid (uuid 0) 1 (icNodes config), uuid 0)"

section \<open>Waiting for the results\<close>

record initResult =
  irRequestID :: string
  irNodeID :: NodeID
  irFailed :: bool
  irDevices :: "InitDeviceResult list"

fun create_requests :: "('w, 'b) client_scheme \<Rightarrow> InitRequest list \<Rightarrow> ('w, unit) io" where
  "create_requests C [] w = (Inr (), w)"
| "create_requests C (req # reqs) w =
     call (api_Create (InitRequestClient C) req w) (\<lambda>err w. (Inl err, w)) (\<lambda>_ w. create_requests C reqs w)"

definition init_result :: "'a lib_scheme \<Rightarrow> InitRequest \<Rightarrow> initResult" where
  "init_result L req =
     \<lparr> irRequestID = objName req, irNodeID = InitRequest_GetNodeID L req, irFailed = (reqStatus req = InitStatusError),
       irDevices = reqResults req \<rparr>"

definition init_deadline :: error where
  "init_deadline = Wrap ''unable to initialize devices'' (ErrorString ''context deadline exceeded'')"

fun await_results ::
  "'a lib_scheme \<Rightarrow> nat \<Rightarrow> nat option \<Rightarrow> InitRequest WatchEvent list \<Rightarrow> initResult list \<Rightarrow> initResult list \<times> error option" where
  "await_results L want deadline [] rs = (rs, if deadline = Some 0 then Some init_deadline else None)"
| "await_results L want deadline (e # events) rs =
     (if deadline = Some 0 then (rs, Some init_deadline)
      else case e of
        WatchFailed t err \<Rightarrow> (rs, Some err)
      | WatchItem t req \<Rightarrow>
          let next = map_option (\<lambda>n. n - 1) deadline
          in if t = watch_Modified \<or> t = watch_Added then
               let rs' = (if reqStatus req \<noteq> InitStatusPending then rs @ [init_result L req] else rs)
               in if want \<le> length rs' then (rs', None) else await_results L want next events rs'
             else if t = watch_Deleted then (rs, None)
             else await_results L want next events rs)"

definition cmd_initDevices ::
  "('w, 'b) client_scheme \<Rightarrow> (ListOptions \<Rightarrow> ('w, (watch_type \<times> 'u) list) io) \<Rightarrow> ('u \<Rightarrow> InitRequest result) \<Rightarrow>
   nat option \<Rightarrow> InitRequest list \<Rightarrow> string \<Rightarrow> 'w \<Rightarrow> (initResult list \<times> error option) \<times> 'w" where
  "cmd_initDevices C watch convert deadline initRequests requestID w =
     call (create_requests C initRequests w) (\<lambda>err w. (([], Some err), w))
       (\<lambda>_ w. call (InitRequestLister_Watch watch convert
                (InitRequestLister_RequestIDSelector (ToLabelValues C [requestID]) NewInitRequestLister) w)
          (\<lambda>err w. (([], Some err), w))
          (\<lambda>events w. (await_results C (length initRequests) deadline events [], w)))"

section \<open>The node objects follow the nodes of the driver\<close>

definition fresh_node :: "string \<Rightarrow> NodeObj \<Rightarrow> bool" where
  "fresh_node n x \<longleftrightarrow> (\<exists>rv. x = (NewDirectPVNode n [])\<lparr>nodeRefresh := True, ResourceVersion := rv\<rparr>)"

definition node_options :: ListOptions where
  "node_options = \<lparr> Limit = MaxThreadCount, LabelSelector = ToLabelSelector [(NodeLabelKey, [])], Continue = [] \<rparr>"

text \<open>The server lists every node within the page bound.\<close>

definition lists_nodes :: "('w, 'b) client_scheme \<Rightarrow> ('w \<Rightarrow> string \<Rightarrow> NodeObj option) \<Rightarrow> 'w \<Rightarrow> bool" where
  "lists_nodes C nstore w \<longleftrightarrow> (\<exists>k items w'. paged (NodeClient C) k node_options w items w' \<and> k \<le> pageFuel C \<and>
     (\<forall>n x. nstore w n = Some x \<longrightarrow> x \<in> set items))"

lemma NodeLister_Get_all:
  assumes "paged (NodeClient C) k node_options w items w'" and "k \<le> pageFuel C"
  shows "NodeLister_Get C NewNodeLister w = ((items, None), w')"
proof -
  have "selected name_sel [] items = items" by (induction items) (auto simp: name_sel_def take_name_def)
  then show ?thesis
    using run_lister_complete [OF assms, where names = "[]" and sel = name_sel and ign = False and xs = "[]" and ?w2.0 = w']
    by (simp add: NodeLister_Get_def NodeLister_List_def NewNodeLister_def node_options_def leftover_def fetched.intros)
qed

text \<open>A node of the driver keeps its object or gets a new one; another node loses its object.\<close>

definition follows :: "string list \<Rightarrow> NodeObj option \<Rightarrow> NodeObj option \<Rightarrow> string \<Rightarrow> bool" where
  "follows csi x x' n \<longleftrightarrow>
     (if n \<in> set csi then x' = x \<or> x = None \<and> (\<exists>y. x' = Some y \<and> fresh_node n y) else x' = x \<or> x' = None)"

text \<open>Marking nodes.\<close>

definition marked :: "NodeObj option \<Rightarrow> NodeObj option \<Rightarrow> bool" where
  "marked x x' \<longleftrightarrow> (\<exists>y rv. x = Some y \<and> x' = (if gone y then None else Some (y\<lparr>nodeRefresh := True, ResourceVersion := rv\<rparr>)))"

lemma collected:
  assumes "\<forall>x \<in> set (fst s). P x" and "\<And>x. r = Inr x \<Longrightarrow> P x"
  shows "\<forall>x \<in> set (fst (snd (collect_step r s))). P x"
  using assms by (cases s; cases r) (auto simp: collect_step_def)

locale discovery = n: object_api "NodeClient C" nstore
  for C :: "('w, 'b) client_scheme" and nstore :: "'w \<Rightarrow> string \<Rightarrow> NodeObj option" +
  fixes S :: "('w, 'a) csi_server_scheme"
  assumes version_keeps: "keeps nstore (csiVersion S)"
    and nodes_keep: "keeps nstore (csiNodeList S v)"
    and retry: "retried f w (RetryOnConflict C f w)"
begin

lemma keeps_GetCSINodes: "keeps nstore (GetCSINodes S)"
  unfolding GetCSINodes_def [abs_def] by (intro keeps_rules version_keeps nodes_keep)

lemma keeps_NodeLister_Get: "keeps nstore (NodeLister_Get C l)"
proof (rule keepsI)
  fix w r w'
  assume "NodeLister_Get C l w = (r, w')"
  then show "nstore w' = nstore w"
    using n.run_lister_rule [where Q = "\<lambda>_. True" and step = collect_step]
    unfolding NodeLister_Get_def NodeLister_List_def by blast
qed

lemma add_nodes_effect:
  assumes "add_nodes C names csi w = (r, w')"
  shows "(nstore w' n = nstore w n \<or>
      n \<in> set csi \<and> n \<notin> set names \<and> nstore w n = None \<and> (\<exists>x. nstore w' n = Some x \<and> fresh_node n x)) \<and>
    (r = Inr () \<and> n \<in> set csi \<and> n \<notin> set names \<longrightarrow> nstore w' n \<noteq> None)"
  using assms
proof (induction csi arbitrary: w)
  case (Cons c csi)
  show ?case
  proof (cases "c \<in> set names")
    case True
    then have "add_nodes C names csi w = (r, w')" using Cons.prems by simp
    from Cons.IH [OF this] True show ?thesis by auto
  next
    case False
    let ?x = "(NewDirectPVNode c [])\<lparr>nodeRefresh := True\<rparr>"
    have nm: "objName ?x = c" by (simp add: NewDirectPVNode_def)
    obtain r1 w1 where c: "api_Create (NodeClient C) ?x w = (r1, w1)" by fastforce
    show ?thesis
    proof (cases r1)
      case (Inl e)
      then show ?thesis using n.create_err [of ?x w e w1] c False Cons.prems by auto
    next
      case (Inr y)
      then have y: "nstore w c = None" "nstore w1 = (nstore w)(c \<mapsto> y)" "fresh_node c y"
        using n.create_ok [of ?x w y w1] c nm by (auto simp: fresh_node_def)
      have "add_nodes C names csi w1 = (r, w')" using Cons.prems c Inr False by simp
      from Cons.IH [OF this] show ?thesis using y False by (cases "n = c") auto
    qed
  qed
qed simp

lemma remove_nodes_effect:
  assumes "remove_nodes C csi names w = (r, w')" and "\<forall>n x. nstore w n = Some x \<longrightarrow> Finalizers x = []"
  shows "(nstore w' n = nstore w n \<or> nstore w' n = None \<and> n \<notin> set csi) \<and>
    (r = Inr () \<and> n \<in> set names \<and> n \<notin> set csi \<longrightarrow> nstore w' n = None)"
  using assms
proof (induction names arbitrary: w)
  case (Cons m names)
  show ?case
  proof (cases "m \<in> set csi")
    case True
    then have "remove_nodes C csi names w = (r, w')" using Cons.prems(1) by simp
    from Cons.IH [OF this Cons.prems(2)] True show ?thesis by auto
  next
    case False
    obtain r1 w1 where d: "api_Delete (NodeClient C) m w = (r1, w1)" by fastforce
    show ?thesis
    proof (cases r1)
      case (Inl e)
      then show ?thesis using n.delete_err [of m w e w1] d False Cons.prems(1) by auto
    next
      case (Inr u)
      then have s: "nstore w1 = (nstore w)(m := None)" using n.delete_ok [of m w u w1] d Cons.prems(2) by auto
      have rm: "remove_nodes C csi names w1 = (r, w')" using Cons.prems(1) d Inr False by simp
      have "\<forall>n x. nstore w1 n = Some x \<longrightarrow> Finalizers x = []" using s Cons.prems(2) by simp
      from Cons.IH [OF rm this] show ?thesis using s False by (cases "n = m") auto
    qed
  qed
qed simp

lemma listed_stored:
  assumes "NodeLister_Get C l w = ((nodes, err), w')" and "x \<in> set nodes"
  shows "nstore w (objName x) = Some x"
proof -
  let ?Q = "\<lambda>s. \<forall>x \<in> set (fst s). nstore w (objName x) = Some x"
  have "?Q (nodes, err) \<and> nstore w' = nstore w"
    by (rule n.run_lister_rule [where Q = ?Q and step = collect_step, OF collected])
      (use assms(1) in \<open>auto simp: NodeLister_Get_def NodeLister_List_def\<close>)
  then show ?thesis using assms(2) by simp
qed

lemma listed_all:
  assumes "lists_nodes C nstore w" and "NodeLister_Get C NewNodeLister w = ((nodes, err), w')" and "nstore w n = Some x"
  shows "x \<in> set nodes" and "n \<in> set (map objName nodes)"
proof -
  obtain k items w2 where "paged (NodeClient C) k node_options w items w2" "k \<le> pageFuel C" "x \<in> set items"
    using assms(1,3) unfolding lists_nodes_def by force
  then show "x \<in> set nodes" using NodeLister_Get_all assms(2) by fastforce
  then show "n \<in> set (map objName nodes)" using n.store_name [OF assms(3)] by auto
qed

lemma SyncNodes_effect:
  assumes "GetCSINodes S w = (Inr csi, w1)" and "SyncNodes C S w = (r, w')"
    and "\<forall>n x. nstore w n = Some x \<longrightarrow> Finalizers x = []"
  shows "follows csi (nstore w n) (nstore w' n) n \<and>
    (r = Inr () \<and> lists_nodes C nstore w1 \<longrightarrow> (nstore w' n \<noteq> None \<longleftrightarrow> n \<in> set csi))"
proof -
  obtain nodes err w2 where l: "NodeLister_Get C NewNodeLister w1 = ((nodes, err), w2)" by (metis prod.exhaust)
  have st: "nstore w1 = nstore w" "nstore w2 = nstore w"
    using keepsD [OF keeps_GetCSINodes assms(1)] keepsD [OF keeps_NodeLister_Get l] by simp_all
  show ?thesis
  proof (cases err)
    case (Some e)
    then show ?thesis using assms(1,2) l st by (auto simp: SyncNodes_def follows_def)
  next
    case None
    let ?names = "map objName nodes"
    obtain r1 w3 where a: "add_nodes C ?names csi w2 = (r1, w3)" by fastforce
    note ae = add_nodes_effect [OF a, unfolded st]
    have listed: "n \<in> set ?names \<Longrightarrow> nstore w n \<noteq> None" using listed_stored [OF l] st by auto
    show ?thesis
    proof (cases r1)
      case (Inl e)
      then have "r = Inl e" "w' = w3" using assms(1,2) l None a by (simp_all add: SyncNodes_def)
      then show ?thesis using ae [of n] by (auto simp: follows_def)
    next
      case (Inr u)
      then have rm: "remove_nodes C csi ?names w3 = (r, w')" using assms(1,2) l None a by (simp add: SyncNodes_def)
      have "Finalizers x = []" if "nstore w3 m = Some x" for m x
        using ae [of m] assms(3) that by (auto simp: fresh_node_def NewDirectPVNode_def)
      then have re: "(nstore w' n = nstore w3 n \<or> nstore w' n = None \<and> n \<notin> set csi) \<and>
          (r = Inr () \<and> n \<in> set ?names \<and> n \<notin> set csi \<longrightarrow> nstore w' n = None)"
        using remove_nodes_effect [OF rm, of n] by blast
      have "nstore w' n \<noteq> None \<longleftrightarrow> n \<in> set csi" if "r = Inr ()" "lists_nodes C nstore w1"
      proof (cases "n \<in> set csi")
        case True
        then show ?thesis using re ae [of n] listed Inr by auto
      next
        case False
        then have "nstore w3 n = nstore w n" using ae [of n] by auto
        then show ?thesis using re that False listed_all(2) [OF that(2) l, of n] st by (cases "nstore w n") auto
      qed
      then show ?thesis using re ae [of n] by (auto simp: follows_def)
    qed
  qed
qed

lemma refresh_node_effect:
  assumes "keeps nstore (send m)" and "refresh_node C send m w = (r, w')"
  shows "case r of Inl e \<Rightarrow> nstore w' = nstore w
    | Inr u \<Rightarrow> marked (nstore w m) (nstore w' m) \<and> (\<forall>n. n \<noteq> m \<longrightarrow> nstore w' n = nstore w n)"
proof -
  obtain r1 w1 where g: "api_Get (NodeClient C) m w = (r1, w1)" by fastforce
  then have s1: "nstore w1 = nstore w" by (rule n.get_frame)
  show ?thesis
  proof (cases r1)
    case (Inl e)
    then show ?thesis using assms(2) g s1 by (auto simp: refresh_node_def)
  next
    case (Inr x)
    then have x: "nstore w m = Some x" "objName x = m" using g n.get_found n.get_name by blast+
    obtain r2 w2 where d: "send m w1 = (r2, w2)" by fastforce
    then have s2: "nstore w2 = nstore w" using keepsD [OF assms(1) d] s1 by simp
    show ?thesis
    proof (cases r2)
      case (Inl e)
      then show ?thesis using assms(2) g Inr x d s2 by (auto simp: refresh_node_def)
    next
      case r2: (Inr u)
      let ?y = "x\<lparr>nodeRefresh := True\<rparr>"
      obtain r3 w3 where p: "api_Update (NodeClient C) ?y w2 = (r3, w3)" by fastforce
      then have r: "w' = w3" "r = (case r3 of Inl e \<Rightarrow> Inl e | Inr _ \<Rightarrow> Inr ())"
        using assms(2) g Inr x d r2 by (cases r3; simp add: refresh_node_def)+
      show ?thesis
      proof (cases r3)
        case (Inl e)
        then show ?thesis using r n.update_err [of ?y w2 e w3] p s2 by simp
      next
        case (Inr y)
        then obtain rv where "y = ?y\<lparr>ResourceVersion := rv\<rparr>"
            "nstore w3 = (nstore w2)(m := (if Finalizers ?y = [] \<and> DeletionTimestamp ?y \<noteq> None then None else Some y))"
          using n.update_ok [of ?y w2 y w3] p x by auto
        then show ?thesis using r Inr x s2 by (auto simp: marked_def gone_def)
      qed
    qed
  qed
qed

lemma refresh_retried_effect:
  assumes "keeps nstore (send m)" and "RetryOnConflict C (refresh_node C send m) w = (r, w')"
  shows "case r of Inl e \<Rightarrow> nstore w' = nstore w
    | Inr u \<Rightarrow> marked (nstore w m) (nstore w' m) \<and> (\<forall>n. n \<noteq> m \<longrightarrow> nstore w' n = nstore w n)"
proof -
  let ?f = "refresh_node C send m"
  have "retried ?f w (r, w')" using retry [of ?f w] assms(2) by simp
  moreover have "nstore v' = nstore v" if "?f v = (Inl e, v')" for v e v'
    using refresh_node_effect [of send m, OF assms(1) that] by simp
  ultimately obtain v where v: "?f v = (r, w')" "nstore v = nstore w"
    using retried_attempt [of ?f w "(r, w')" nstore] by blast
  show ?thesis using refresh_node_effect [of send m, OF assms(1) v(1)] unfolding v(2) .
qed

lemma refresh_nodes_effect:
  assumes "\<And>m. keeps nstore (send m)" and "\<forall>n x. nstore w n = Some x \<longrightarrow> Finalizers x = [] \<and> DeletionTimestamp x = None"
    and "refresh_nodes C send names w = (e, w')"
  shows "(nstore w' n = nstore w n \<or> (\<exists>y rv. nstore w n = Some y \<and> nstore w' n = Some (y\<lparr>nodeRefresh := True, ResourceVersion := rv\<rparr>))) \<and>
    (e = None \<and> n \<in> set names \<longrightarrow> (\<exists>x. nstore w' n = Some x \<and> nodeRefresh x))"
  using assms(2,3)
proof (induction names arbitrary: w)
  case (Cons m names)
  obtain r w1 where f: "RetryOnConflict C (refresh_node C send m) w = (r, w1)" by fastforce
  note fe = refresh_retried_effect [OF assms(1) f]
  show ?case
  proof (cases r)
    case (Inl err)
    then show ?thesis using Cons.prems(2) f fe by auto
  next
    case (Inr u)
    then obtain y rv where y: "nstore w m = Some y" "nstore w1 m = Some (y\<lparr>nodeRefresh := True, ResourceVersion := rv\<rparr>)"
      using fe Cons.prems(1) by (auto simp: marked_def gone_def)
    have o: "nstore w1 k = nstore w k" if "k \<noteq> m" for k using fe Inr that by simp
    have "\<forall>n x. nstore w1 n = Some x \<longrightarrow> Finalizers x = [] \<and> DeletionTimestamp x = None"
    proof (intro allI impI)
      fix k x assume "nstore w1 k = Some x"
      then show "Finalizers x = [] \<and> DeletionTimestamp x = None"
        using y o [of k] Cons.prems(1) by (cases "k = m") auto
    qed
    moreover have "refresh_nodes C send names w1 = (e, w')" using Cons.prems(2) f Inr by simp
    ultimately have ih: "(nstore w' n = nstore w1 n \<or>
        (\<exists>y rv. nstore w1 n = Some y \<and> nstore w' n = Some (y\<lparr>nodeRefresh := True, ResourceVersion := rv\<rparr>))) \<and>
        (e = None \<and> n \<in> set names \<longrightarrow> (\<exists>x. nstore w' n = Some x \<and> nodeRefresh x))"
      by (rule Cons.IH)
    show ?thesis
    proof (cases "n = m")
      case True
      then show ?thesis using ih y by auto
    next
      case False
      then show ?thesis using ih o [of n] by auto
    qed
  qed
qed auto

lemma RefreshNodes_effect:
  assumes "\<And>m. keeps nstore (send m)" and "\<And>w. lists_nodes C nstore w"
    and "GetCSINodes S w = (Inr csi, w1)" and "RefreshNodes C S send [] w = (Inr None, w')"
    and "\<forall>n x. nstore w n = Some x \<longrightarrow> Finalizers x = [] \<and> DeletionTimestamp x = None"
  shows "(nstore w' n \<noteq> None \<longleftrightarrow> n \<in> set csi) \<and> (\<forall>x. nstore w' n = Some x \<longrightarrow> nodeRefresh x \<and>
    nodeDevices x = (case nstore w n of None \<Rightarrow> [] | Some y \<Rightarrow> nodeDevices y))"
proof -
  obtain r w2 where sy: "SyncNodes C S w = (r, w2)" by fastforce
  then have r: "r = Inr ()" using assms(4) by (cases r) (simp_all add: RefreshNodes_def)
  have se: "follows csi (nstore w m) (nstore w2 m) m \<and> (nstore w2 m \<noteq> None \<longleftrightarrow> m \<in> set csi)" for m
    using SyncNodes_effect [OF assms(3) sy, of m] assms(2,5) r by simp
  obtain nodes err w3 where l: "NodeLister_Get C NewNodeLister w2 = ((nodes, err), w3)" by (metis prod.exhaust)
  have l': "NodeLister_NodeSelector (ToLabelValues C []) NewNodeLister = NewNodeLister"
    by (simp add: NodeLister_NodeSelector_def ToLabelValues_def NewNodeLister_def)
  have err: "err = None" using assms(4) sy r l l' by (cases err) (simp_all add: RefreshNodes_def)
  have rf: "refresh_nodes C send (map objName nodes) w3 = (None, w')"
    using assms(4) sy r l l' err by (auto simp: RefreshNodes_def split: prod.splits)
  have s3: "nstore w3 = nstore w2" using keepsD [OF keeps_NodeLister_Get l] .
  have "Finalizers x = [] \<and> DeletionTimestamp x = None" if "nstore w3 m = Some x" for m x
    using se [of m] that assms(5) s3
    by (auto simp: follows_def fresh_node_def NewDirectPVNode_def split: if_splits)
  then have re: "(nstore w' n = nstore w2 n \<or>
      (\<exists>y rv. nstore w2 n = Some y \<and> nstore w' n = Some (y\<lparr>nodeRefresh := True, ResourceVersion := rv\<rparr>))) \<and>
      (n \<in> set (map objName nodes) \<longrightarrow> (\<exists>x. nstore w' n = Some x \<and> nodeRefresh x))"
    using refresh_nodes_effect [OF assms(1) _ rf, of n] s3 by simp
  have n: "n \<in> set (map objName nodes)" if "nstore w2 n = Some x" for x
    using listed_all(2) [OF assms(2) l that] .
  show ?thesis
  proof (cases "nstore w2 n")
    case None
    then show ?thesis using re se [of n] by auto
  next
    case (Some x)
    then have "nodeDevices x = (case nstore w n of None \<Rightarrow> [] | Some y \<Rightarrow> nodeDevices y)"
      using se [of n] by (cases "nstore w n") (auto simp: follows_def fresh_node_def NewDirectPVNode_def split: if_splits)
    then show ?thesis using re se [of n] n [OF Some] Some by auto
  qed
qed

end

section \<open>A node answers a refresh\<close>

locale node_host = n: object_api "NodeClient E" nstore + p: probe_frame E nstore
  for E :: "('w, 'b) probe_env_scheme" and nstore :: "'w \<Rightarrow> string \<Rightarrow> NodeObj option" +
  assumes retry: "retried f w (RetryOnConflict E f w)"
begin

lemma keeps_to_node_devices: "keeps nstore (to_node_devices E node ds)"
proof (induction ds)
  case Nil
  then show ?case by (simp add: keeps_def)
next
  case (Cons d ds)
  have t: "keeps nstore (ToNodeDevice E node d)"
    unfolding ToNodeDevice_def [abs_def] by (intro keeps_case keeps_value p.keeps_DeniedReason)
  have "to_node_devices E node (d # ds) = (\<lambda>w. case ToNodeDevice E node d w of (nd, w) \<Rightarrow>
      case to_node_devices E node ds w of (nds, w) \<Rightarrow> (nd # nds, w))"
    by (rule ext) simp
  then show ?case by (simp only:) (intro keeps_case keeps_value t Cons.IH)
qed

lemma keeps_node_probeDevices: "keeps nstore (node_probeDevices E node)"
  unfolding node_probeDevices_def [abs_def] by (intro keeps_rules p.keeps_probe keeps_to_node_devices)

lemma update_node_err:
  assumes "update_node E m devices w = (Inl e, w')"
  shows "nstore w' = nstore w"
proof -
  obtain r1 w1 where g: "api_Get (NodeClient E) m w = (r1, w1)" by fastforce
  then have s1: "nstore w1 = nstore w" by (rule n.get_frame)
  show ?thesis
  proof (cases r1)
    case (Inl e1)
    obtain r2 w2 where c: "api_Create (NodeClient E) (NewDirectPVNode m devices) w1 = (r2, w2)" by fastforce
    then show ?thesis
      using assms g Inl s1
      by (cases r2; cases "IsNotFound e1") (auto simp: update_node_def dest: n.create_err)
  next
    case (Inr z)
    obtain r2 w2 where c: "api_Update (NodeClient E) (z\<lparr>nodeDevices := devices, nodeRefresh := False\<rparr>) w1 = (r2, w2)" by fastforce
    then show ?thesis
      using assms g Inr s1 by (cases r2) (auto simp: update_node_def dest: n.update_err)
  qed
qed

lemma update_node_ok:
  assumes "update_node E m devices w = (Inr u, w')" and "nstore w m = Some x" and "\<not> gone x"
  shows "\<exists>y. nstore w' = (nstore w)(m \<mapsto> y) \<and> nodeDevices y = devices \<and> \<not> nodeRefresh y"
proof -
  obtain r1 w1 where g: "api_Get (NodeClient E) m w = (r1, w1)" by fastforce
  then have s1: "nstore w1 = nstore w" by (rule n.get_frame)
  obtain z where r1: "r1 = Inr z"
    using assms(1,2) g n.get_not_found by (cases r1) (fastforce simp: update_node_def)+
  then have x: "z = x" "objName x = m" using g assms(2) n.get_found n.get_name by fastforce+
  let ?y = "x\<lparr>nodeDevices := devices, nodeRefresh := False\<rparr>"
  obtain r2 w2 where p: "api_Update (NodeClient E) ?y w1 = (r2, w2)" by fastforce
  then obtain y where r2: "r2 = Inr y" "w2 = w'" using assms(1) g r1 x by (cases r2) (simp_all add: update_node_def)
  then obtain rv where y: "y = ?y\<lparr>ResourceVersion := rv\<rparr>" "nstore w' = (nstore w)(m \<mapsto> y)"
    using n.update_ok [of ?y w1 y w2] p x assms(3) s1 by (auto simp: gone_def)
  have "nodeDevices y = devices" "\<not> nodeRefresh y" unfolding y(1) by simp_all
  then show ?thesis using y(2) by blast
qed

lemma node_Sync_effect:
  assumes "node_Sync E m w = (Inr (), w')" and "nstore w m = Some x" and "\<not> gone x"
  shows "\<exists>devices w1 y. node_probeDevices E m w = (Inr devices, w1) \<and> nstore w' = (nstore w)(m \<mapsto> y) \<and>
    nodeDevices y = devices \<and> \<not> nodeRefresh y"
proof -
  obtain r1 w1 where d: "node_probeDevices E m w = (r1, w1)" by fastforce
  then obtain devices where r1: "r1 = Inr devices" using assms(1) by (cases r1) (auto simp: node_Sync_def)
  have s1: "nstore w1 = nstore w" using keepsD [OF keeps_node_probeDevices d] .
  let ?f = "update_node E m devices"
  have "RetryOnConflict E ?f w1 = (Inr (), w')" using assms(1) d r1 by (simp add: node_Sync_def)
  then have "retried ?f w1 (Inr (), w')" using retry [of ?f w1] by simp
  then obtain v where v: "?f v = (Inr (), w')" "nstore v = nstore w"
    using retried_attempt [of ?f w1 "(Inr (), w')" nstore] update_node_err s1 by auto
  then have "nstore v m = Some x" using assms(2) by simp
  from update_node_ok [OF v(1) this assms(3)] show ?thesis using d r1 unfolding v(2) by blast
qed

end

section \<open>What a discovery reports\<close>

definition reports :: "string list \<Rightarrow> NodeObj WatchEvent list \<Rightarrow> NodeID \<Rightarrow> NodeDevice list \<Rightarrow> bool" where
  "reports drives events n ds \<longleftrightarrow>
     (\<exists>t node. WatchItem t node \<in> set events \<and> (t = watch_Modified \<or> t = watch_Added) \<and> \<not> nodeRefresh node \<and>
        objName node = n \<and> ds = GetDevicesByNames drives node)"

text \<open>Events that do not end the wait.\<close>

fun quiet_event :: "'o WatchEvent \<Rightarrow> bool" where
  "quiet_event (WatchItem t x) = (t \<noteq> watch_Deleted)"
| "quiet_event (WatchFailed t err) = False"

lemma reports_Cons:
  "reports drives (e # events) n ds \<longleftrightarrow>
     (case e of WatchItem t node \<Rightarrow> (t = watch_Modified \<or> t = watch_Added) \<and> \<not> nodeRefresh node \<and> objName node = n \<and>
        ds = GetDevicesByNames drives node | WatchFailed t err \<Rightarrow> False) \<or> reports drives events n ds"
  by (cases e) (auto simp: reports_def)

lemma discover_loop_inv:
  assumes "discover_loop drives want deadline events devices = (ds, err)" and "I devices"
    and "\<And>t node ds. WatchItem t node \<in> set events \<Longrightarrow> t = watch_Modified \<or> t = watch_Added \<Longrightarrow> \<not> nodeRefresh node \<Longrightarrow> I ds \<Longrightarrow>
      I (assign_key (objName node) (GetDevicesByNames drives node) ds)"
  shows "I ds"
  using assms
proof (induction events arbitrary: deadline devices)
  case (Cons e events)
  have ih: "discover_loop drives want dl events devs = (ds, err) \<Longrightarrow> I devs \<Longrightarrow> I ds" for dl devs
    using Cons.IH Cons.prems(3) by (meson list.set_intros(2))
  show ?case
  proof (cases e)
    case (WatchItem t node)
    then have "I (if nodeRefresh node then devices else assign_key (objName node) (GetDevicesByNames drives node) devices)"
      if "t = watch_Modified \<or> t = watch_Added" using Cons.prems(2) Cons.prems(3) [of t node devices] that by simp
    then show ?thesis using Cons.prems(1,2) WatchItem ih by (auto simp: Let_def split: if_splits)
  qed (use Cons.prems in \<open>auto split: if_splits\<close>)
qed auto

lemma discover_loop_sound:
  assumes "discover_loop drives want deadline events [] = (ds, err)"
  shows "distinct (map fst ds)" and "(n, d) \<in> set ds \<Longrightarrow> reports drives events n d"
proof -
  let ?I = "\<lambda>ds. distinct (map fst ds) \<and> (\<forall>n d. (n, d) \<in> set ds \<longrightarrow> reports drives events n d)"
  have "?I ds"
  proof (rule discover_loop_inv [where I = ?I, OF assms], goal_cases)
    case (2 t node ds)
    have "reports drives events (objName node) (GetDevicesByNames drives node)" using 2 by (auto simp: reports_def)
    then show ?case
      using 2(4) set_assign_key [of "objName node" "GetDevicesByNames drives node" ds] by (auto simp: distinct_assign_key)
  qed simp
  then show "distinct (map fst ds)" "(n, d) \<in> set ds \<Longrightarrow> reports drives events n d" by blast+
qed

lemma discover_loop_complete:
  assumes "list_all quiet_event events" and "distinct (map fst devices)"
    and "want \<le> card (fst ` set devices \<union> {n. \<exists>d. reports drives events n d})"
  shows "\<exists>ds. discover_loop drives want None events devices = (ds, None) \<and> want \<le> length ds"
  using assms
proof (induction events arbitrary: devices)
  case Nil
  then have "want \<le> length devices" using distinct_card [of "map fst devices"] by (simp add: reports_def)
  then show ?case by simp
next
  case (Cons e events)
  obtain t node where e: "e = WatchItem t node" "t \<noteq> watch_Deleted" using Cons.prems(1) by (cases e) auto
  let ?devices = "if (t = watch_Modified \<or> t = watch_Added) \<and> \<not> nodeRefresh node
    then assign_key (objName node) (GetDevicesByNames drives node) devices else devices"
  have k: "fst ` set ?devices \<union> {n. \<exists>d. reports drives events n d} =
      fst ` set devices \<union> {n. \<exists>d. reports drives (e # events) n d}"
    using e by (auto simp: reports_Cons fst_assign_key)
  have "\<exists>ds. discover_loop drives want None events ?devices = (ds, None) \<and> want \<le> length ds"
    using Cons.IH [of ?devices] Cons.prems k by (simp add: distinct_assign_key)
  then show ?case using e by (auto simp: Let_def split: if_splits)
qed

lemma discover_loop_waits:
  assumes "list_all quiet_event events" and "k \<le> length events" and "finite N" and "card N < want"
    and "\<forall>n d. reports drives events n d \<longrightarrow> n \<in> N" and "fst ` set devices \<subseteq> N" and "distinct (map fst devices)"
  shows "snd (discover_loop drives want (Some k) events devices) = Some discovery_deadline"
  using assms(1,2,5-)
proof (induction events arbitrary: k devices)
  case (Cons e events)
  obtain t node where e: "e = WatchItem t node" "t \<noteq> watch_Deleted" using Cons.prems(1) by (cases e) auto
  let ?devices = "if (t = watch_Modified \<or> t = watch_Added) \<and> \<not> nodeRefresh node
    then assign_key (objName node) (GetDevicesByNames drives node) devices else devices"
  have "fst ` set ?devices \<subseteq> N"
    using Cons.prems(3) [rule_format, of "objName node" "GetDevicesByNames drives node"] Cons.prems(4) e
    by (simp add: fst_assign_key reports_Cons)
  moreover have dist: "distinct (map fst ?devices)" using Cons.prems(5) by (simp add: distinct_assign_key)
  moreover have "length ?devices < want"
    using distinct_card [OF dist] card_mono [OF assms(3) \<open>fst ` set ?devices \<subseteq> N\<close>] assms(4) by simp
  moreover have "k - 1 \<le> length events" "\<forall>n d. reports drives events n d \<longrightarrow> n \<in> N"
    using Cons.prems(2,3) by (auto simp: reports_Cons)
  ultimately have "snd (discover_loop drives want (Some (k - 1)) events ?devices) = Some discovery_deadline"
    using Cons.IH Cons.prems(1) by simp
  then show ?case using e \<open>length ?devices < want\<close> by (auto simp: Let_def split: if_splits)
qed simp

section \<open>From devices to requests\<close>

lemma strings_Index_char: "c \<notin> set s \<Longrightarrow> strings_Index (s @ c # r) [c] = Some (length s)"
  by (induction s) (auto simp: HasPrefix_def)

lemma SplitN2_char: "c \<notin> set s \<Longrightarrow> strings_SplitN2 (s @ c # r) [c] = [s, r]"
  by (simp add: strings_SplitN2_def strings_Index_char)

lemma Device_ID_split:
  "CHR ''$'' \<notin> set (dvMajorMinor d) \<Longrightarrow> hd (strings_SplitN2 (Device_ID h node d) ''$'') = dvMajorMinor d"
  using SplitN2_char [of "CHR ''$''" "dvMajorMinor d"] by (simp add: Device_ID_def Let_def)

lemma lower_selected: "lower_ascii DriveSelectedValue = DriveSelectedValue"
  by (simp add: lower_ascii_def DriveSelectedValue_def byte_def)

lemma node_requests_sound:
  "req \<in> set (node_requests uuid rid i nodes) \<Longrightarrow>
     \<exists>j node. node \<in> set nodes \<and> req = NewDirectPVInitRequest (uuid j) rid (niName node) (node_devices node)"
  by (induction nodes arbitrary: i) (simp, fastforce split: if_splits)

lemma node_requests_complete:
  "node \<in> set nodes \<Longrightarrow> node_devices node \<noteq> [] \<Longrightarrow>
     \<exists>j. NewDirectPVInitRequest (uuid j) rid (niName node) (node_devices node) \<in> set (node_requests uuid rid i nodes)"
  by (induction nodes arbitrary: i) (auto split: if_splits)

lemma node_devices_of:
  "node_devices \<lparr> niName = n, niDrives = map drive_info (filter P nds) \<rparr> = map (init_device \<circ> drive_info) (filter P nds)"
proof -
  have "\<forall>d \<in> set (map drive_info (filter P nds)). lower_ascii (diSelect d) = DriveSelectedValue"
    by (auto simp: drive_info_def lower_selected)
  then show ?thesis by (simp add: node_devices_def)
qed

lemma config_node:
  "(n, nds) \<in> set m \<Longrightarrow>
     \<lparr> niName = n, niDrives = map drive_info (filter (\<lambda>d. devDeniedReason d = []) nds) \<rparr> \<in> set (icNodes (ToInitConfig m))"
  by (force simp: ToInitConfig_def)

lemma request_fields:
  "map_get (objLabels (NewDirectPVInitRequest u i n ds)) NodeLabelKey = n"
  "reqDevices (NewDirectPVInitRequest u i n ds) = ds" "reqStatus (NewDirectPVInitRequest u i n ds) = InitStatusPending"
  by (simp_all add: NewDirectPVInitRequest_def map_get_def label_key_defs)

lemma requests_permitted:
  assumes "req \<in> set (fst (ToInitRequestObjects uuid (ToInitConfig m)))" and "dev \<in> set (reqDevices req)"
  shows "\<exists>n nds nd. (n, nds) \<in> set m \<and> nd \<in> set nds \<and> devDeniedReason nd = [] \<and> map_get (objLabels req) NodeLabelKey = n \<and>
    initID dev = devID nd \<and> initName dev = devName nd"
proof -
  obtain j node where node: "node \<in> set (icNodes (ToInitConfig m))"
      "req = NewDirectPVInitRequest (uuid j) (uuid 0) (niName node) (node_devices node)"
    using node_requests_sound assms(1) unfolding ToInitRequestObjects_def by fastforce
  then obtain n nds where n: "(n, nds) \<in> set m"
      "node = \<lparr> niName = n, niDrives = map drive_info (filter (\<lambda>d. devDeniedReason d = []) nds) \<rparr>"
    by (auto simp: ToInitConfig_def)
  then have "dev \<in> set (map (init_device \<circ> drive_info) (filter (\<lambda>d. devDeniedReason d = []) nds))"
    using assms(2) node(2) by (simp add: node_devices_of request_fields)
  then obtain nd where "nd \<in> set nds" "devDeniedReason nd = []" "dev = init_device (drive_info nd)" by auto
  then show ?thesis
    using n node(2) by (intro exI [of _ n] exI [of _ nds] exI [of _ nd]) (simp add: request_fields init_device_def drive_info_def)
qed

lemma request_for_device:
  assumes "(n, nds) \<in> set m" and "nd \<in> set nds" and "devDeniedReason nd = []"
  shows "\<exists>req \<in> set (fst (ToInitRequestObjects uuid (ToInitConfig m))). map_get (objLabels req) NodeLabelKey = n \<and>
    reqStatus req = InitStatusPending \<and> init_device (drive_info nd) \<in> set (reqDevices req)"
proof -
  let ?node = "\<lparr> niName = n, niDrives = map drive_info (filter (\<lambda>d. devDeniedReason d = []) nds) \<rparr>"
  have mem: "init_device (drive_info nd) \<in> set (node_devices ?node)" using assms by (auto simp: node_devices_of)
  then have "node_devices ?node \<noteq> []" by auto
  then obtain j where "NewDirectPVInitRequest (uuid j) (uuid 0) n (node_devices ?node) \<in>
      set (fst (ToInitRequestObjects uuid (ToInitConfig m)))"
    using node_requests_complete [OF config_node [OF assms(1)], of uuid "uuid 0" 1] by (auto simp: ToInitRequestObjects_def)
  then show ?thesis using mem request_fields by metis
qed

lemma unchanged_device_checked:
  assumes "CHR ''$'' \<notin> set (dvMajorMinor d)" and "map_of probed (dvMajorMinor d) = Some d" and "fst (DeniedReason E d w2) = []"
  shows "fst (init_check E probed i (init_device (drive_info (fst (ToNodeDevice E (nodeID E) d w)))) w2) =
    ([], [(i, d, Device_FSType d \<noteq> [] \<or> PartTableType d \<noteq> [])])"
proof -
  have "devID (fst (ToNodeDevice E (nodeID E) d w)) = Device_ID (hash64 E) (nodeID E) d"
      "devFSType (fst (ToNodeDevice E (nodeID E) d w)) = Device_FSType d"
    by (simp_all add: ToNodeDevice_def split: prod.splits)
  then show ?thesis
    using assms Device_ID_split [of d "hash64 E" "nodeID E"]
    by (auto simp: init_check_def init_device_def drive_info_def split: prod.splits)
qed

text \<open>The requests of a watch that are handled, in the order in which that is seen.\<close>

fun settled_requests :: "InitRequest WatchEvent list \<Rightarrow> InitRequest list" where
  "settled_requests [] = []"
| "settled_requests (WatchFailed t err # events) = settled_requests events"
| "settled_requests (WatchItem t req # events) =
     (if (t = watch_Modified \<or> t = watch_Added) \<and> reqStatus req \<noteq> InitStatusPending then req # settled_requests events
      else settled_requests events)"

lemma await_results_settled:
  assumes "list_all quiet_event events" and "length rs < want" and "want \<le> length rs + length (settled_requests events)"
  shows "await_results L want None events rs = (rs @ map (init_result L) (take (want - length rs) (settled_requests events)), None)"
  using assms
proof (induction events arbitrary: rs)
  case (Cons e events)
  obtain t req where e: "e = WatchItem t req" "t \<noteq> watch_Deleted" using Cons.prems(1) by (cases e) auto
  have one: "want - length rs = Suc (want - length (rs @ [init_result L req]))" using Cons.prems(2) by simp
  show ?case
    using Cons.prems e Cons.IH [of rs] Cons.IH [of "rs @ [init_result L req]"] one
    by (cases "length rs + 1 < want") (auto simp: Let_def)
qed simp

section \<open>Properties\<close>

text \<open>\<^verbatim>\<open>SyncNodes\<close>, however far it gets, keeps the objects of the nodes that run the driver,
  creates objects only for such nodes, without devices and marked for a refresh, and removes objects
  only of other nodes. If it returns without error, the node objects are those of the nodes that run
  the driver.\<close>

theorem SyncNodes_correct:
  assumes "discovery C nstore S" and "GetCSINodes S w = (Inr csi, w1)" and "SyncNodes C S w = (r, w')"
    and "\<forall>n x. nstore w n = Some x \<longrightarrow> Finalizers x = []"
  shows "(\<forall>n. if n \<in> set csi
      then nstore w' n = nstore w n \<or> nstore w n = None \<and> (\<exists>x. nstore w' n = Some x \<and> nodeRefresh x \<and> nodeDevices x = [])
      else nstore w' n = nstore w n \<or> nstore w' n = None) \<and>
    (r = Inr () \<and> lists_nodes C nstore w1 \<longrightarrow> dom (nstore w') = set csi)"
proof -
  note eff = discovery.SyncNodes_effect [OF assms(1), OF assms(2-4)]
  have fresh: "fresh_node n x \<Longrightarrow> nodeRefresh x \<and> nodeDevices x = []" for n x
    by (auto simp: fresh_node_def NewDirectPVNode_def)
  show ?thesis
  proof (intro conjI allI impI)
    fix n
    show "if n \<in> set csi
      then nstore w' n = nstore w n \<or> nstore w n = None \<and> (\<exists>x. nstore w' n = Some x \<and> nodeRefresh x \<and> nodeDevices x = [])
      else nstore w' n = nstore w n \<or> nstore w' n = None"
      using eff [of n] fresh by (auto simp: follows_def split: if_splits)
  next
    assume "r = Inr () \<and> lists_nodes C nstore w1"
    then show "dom (nstore w') = set csi" using eff by (simp add: dom_def)
  qed
qed

text \<open>A refresh of all nodes that ends without error leaves exactly the nodes that run the driver, each
  marked for a refresh and with the devices it had.\<close>

theorem RefreshNodes_correct:
  assumes "discovery C nstore S" and "\<And>m. keeps nstore (send m)" and "\<And>w. lists_nodes C nstore w"
    and "GetCSINodes S w = (Inr csi, w1)" and "RefreshNodes C S send [] w = (Inr None, w')"
    and "\<forall>n x. nstore w n = Some x \<longrightarrow> Finalizers x = [] \<and> DeletionTimestamp x = None"
  shows "dom (nstore w') = set csi \<and>
    (\<forall>n x. nstore w' n = Some x \<longrightarrow> nodeRefresh x \<and>
       nodeDevices x = (case nstore w n of None \<Rightarrow> [] | Some y \<Rightarrow> nodeDevices y))"
proof -
  note eff = discovery.RefreshNodes_effect [OF assms(1), of send, OF assms(2-6)]
  show ?thesis using eff by (auto simp: dom_def)
qed

text \<open>C21. A node that is asked to refresh and handles the request without error stores the devices it
  probed, clears the request and changes no other node.\<close>

theorem node_Handle_refreshes:
  assumes "node_host E nstore" and "node_Handle E UpdateEvent obj w = (Inr (), w')" and "nodeRefresh obj"
    and "nstore w (objName obj) = Some x" and "\<not> gone x"
  shows "\<exists>devices w1 y. node_probeDevices E (objName obj) w = (Inr devices, w1) \<and>
    nstore w' = (nstore w)(objName obj \<mapsto> y) \<and> nodeDevices y = devices \<and> \<not> nodeRefresh y"
  using node_host.node_Sync_effect [OF assms(1), OF _ assms(4,5)] assms(2,3) by (simp add: node_Handle_def)

text \<open>C22. A discovery reports devices only of nodes that answered the refresh. If every node, named once,
  answers before the deadline and no other node is watched, the discovery ends without error with all
  of them.\<close>

theorem discoverDevices_correct:
  assumes "NodeLister_Watch watch convert (NodeLister_NodeSelector (ToLabelValues C nodes) NewNodeLister) w = (Inr events, w1)"
    and "discoverDevices C watch convert deadline nodes drives w = ((devices, err), w')"
  shows "(\<forall>n ds. (n, ds) \<in> set devices \<longrightarrow> reports drives events n ds) \<and> distinct (map fst devices) \<and>
    (deadline = None \<and> distinct nodes \<and> list_all quiet_event events \<and> {n. \<exists>ds. reports drives events n ds} = set nodes \<longrightarrow>
       err = None \<and> fst ` set devices = set nodes)"
proof -
  have d: "discover_loop drives (length nodes) deadline events [] = (devices, err)"
    using assms by (simp add: discoverDevices_def)
  note sound = discover_loop_sound [OF d]
  have "err = None \<and> fst ` set devices = set nodes"
    if a: "deadline = None" "distinct nodes" "list_all quiet_event events" "{n. \<exists>ds. reports drives events n ds} = set nodes"
  proof -
    have c: "card (set nodes) = length nodes" using distinct_card [OF a(2)] .
    obtain ds where "discover_loop drives (length nodes) None events [] = (ds, None)" "length nodes \<le> length ds"
      using discover_loop_complete [of events "[]" "length nodes" drives] a(3,4) c by auto
    then have e: "err = None" "length nodes \<le> length devices" using d a(1) by auto
    have sub: "fst ` set devices \<subseteq> set nodes" using sound(2) a(4) by force
    have "card (fst ` set devices) = length devices" using distinct_card [OF sound(1)] by simp
    then have "fst ` set devices = set nodes"
      using card_subset_eq [OF _ sub] card_mono [OF _ sub] c e(2) by simp
    then show ?thesis using e(1) by simp
  qed
  then show ?thesis using sound by blast
qed

text \<open>A node name that is given twice, as happens when marking the node ran into a conflict and was
  tried again, makes the discovery wait until its deadline, although every node has answered.\<close>

theorem discoverDevices_name_twice:
  assumes "NodeLister_Watch watch convert (NodeLister_NodeSelector (ToLabelValues C nodes) NewNodeLister) w = (Inr events, w1)"
    and "\<not> distinct nodes" and "list_all quiet_event events" and "k \<le> length events"
    and "{n. \<exists>ds. reports drives events n ds} \<subseteq> set nodes"
  shows "snd (fst (discoverDevices C watch convert (Some k) nodes drives w)) = Some discovery_deadline"
proof -
  have "card (set nodes) < length nodes"
    using assms(2) card_distinct [of nodes] card_length [of nodes] by linarith
  then show ?thesis
    using discover_loop_waits [OF assms(3,4), of "set nodes" "length nodes" drives "[]"] assms(1,5)
    by (auto simp: discoverDevices_def)
qed

text \<open>C24. The requests made from a discovery hold only devices that were not denied. A permitted device that
  is found unchanged and still permitted when its node handles the request is initialised.\<close>

theorem discovered_devices_initialised:
  assumes "fst (ToInitRequestObjects uuid (ToInitConfig m)) = reqs"
  shows "(\<forall>req dev. req \<in> set reqs \<and> dev \<in> set (reqDevices req) \<longrightarrow>
      (\<exists>n nds nd. (n, nds) \<in> set m \<and> nd \<in> set nds \<and> devDeniedReason nd = [] \<and> map_get (objLabels req) NodeLabelKey = n \<and>
         initID dev = devID nd \<and> initName dev = devName nd)) \<and>
    (\<forall>nds d w i w2. (nodeID E, nds) \<in> set m \<and> fst (ToNodeDevice E (nodeID E) d w) \<in> set nds \<and>
       devDeniedReason (fst (ToNodeDevice E (nodeID E) d w)) = [] \<and> CHR ''$'' \<notin> set (dvMajorMinor d) \<and>
       map_of probed (dvMajorMinor d) = Some d \<and> fst (DeniedReason E d w2) = [] \<longrightarrow>
       (\<exists>req dev. req \<in> set reqs \<and> map_get (objLabels req) NodeLabelKey = nodeID E \<and> reqStatus req = InitStatusPending \<and>
          dev \<in> set (reqDevices req) \<and>
          fst (init_check E probed i dev w2) = ([], [(i, d, Device_FSType d \<noteq> [] \<or> PartTableType d \<noteq> [])])))"
  unfolding assms [symmetric]
  by (intro conjI allI impI; elim conjE)
    (rule requests_permitted, assumption+, metis request_for_device unchanged_device_checked)

text \<open>Once the requests are created, the command for initialisation waits until as many of them as it
  created are seen to be handled, and returns their results in that order.\<close>

theorem cmd_initDevices_results:
  assumes "create_requests C reqs w = (Inr (), w1)"
    and "InitRequestLister_Watch watch convert (InitRequestLister_RequestIDSelector (ToLabelValues C [requestID]) NewInitRequestLister) w1 =
      (Inr events, w2)"
    and "list_all quiet_event events" and "reqs \<noteq> []" and "length reqs \<le> length (settled_requests events)"
  shows "cmd_initDevices C watch convert None reqs requestID w =
    ((map (init_result C) (take (length reqs) (settled_requests events)), None), w2)"
  using await_results_settled [OF assms(3), of "[]" "length reqs" C] assms by (simp add: cmd_initDevices_def)

section \<open>Examples\<close>

definition world_nodes :: "'b world_scheme \<Rightarrow> string \<Rightarrow> NodeObj option" where
  "world_nodes w = lookup_obj (wNodes w)"

definition sample_csi :: "'w csi_server" where
  "sample_csi =
     \<lparr> csiVersion = (\<lambda>w. (Inr ''v1'', w)),
       csiNodeList = (\<lambda>v w. (Inr [(''node-2'', [Identity]), (''node-3'', [''other'', Identity]), (''node-4'', [])], w)) \<rparr>"

interpretation store_nodes: object_api "NodeClient store_client" world_nodes
  using object_api_store [of wNodes "\<lambda>xs w. w\<lparr>wNodes := xs\<rparr>"]
  by (simp add: store_client_def world_nodes_def [abs_def])

interpretation store_discovery: discovery store_client world_nodes sample_csi
  by unfold_locales (simp_all add: sample_csi_def keeps_def store_client_def retried.once)

interpretation store_node_host: node_host store_probe world_nodes
proof (intro node_host.intro probe_frame.intro node_host_axioms.intro, goal_cases)
  case 1
  show ?case
    using store_nodes.object_api_axioms
    by (simp add: store_probe_def probe_fields_def store_env_def store_client_def env.defs probe_env.defs)
qed (auto simp: probe_step_def host_step_def keeps_def store_probe_def probe_fields_def store_env_def store_client_def
    store_api_def world_nodes_def retried.once env.defs probe_env.defs)

lemma first_objs_member: "lookup_obj xs n = Some x \<Longrightarrow> x \<in> set (first_objs xs)"
  by (induction xs) (auto simp: lookup_obj_def remove_obj_def split: if_splits dest: lookup_obj_name [unfolded lookup_obj_def])

lemma store_lists_nodes: "lists_nodes store_client world_nodes w"
proof -
  have "paged (NodeClient store_client) 1 node_options w (first_objs (wNodes w)) w"
    by (rule paged.last) (simp add: store_client_def store_api_def)
  moreover have "1 \<le> pageFuel store_client" "\<forall>n x. world_nodes w n = Some x \<longrightarrow> x \<in> set (first_objs (wNodes w))"
    by (simp_all add: store_client_def world_nodes_def first_objs_member)
  ultimately show ?thesis unfolding lists_nodes_def by blast
qed

definition sample_node_device :: NodeDevice where
  "sample_node_device =
     \<lparr> devName = ''sda'', devID = ''8:0$hash'', devMajorMinor = ''8:0'', devSize = 1073741824, devMake = [], devFSType = [],
       devFSUUID = [], devDeniedReason = [] \<rparr>"

definition node_world :: world where
  "node_world = sample_world\<lparr>wNodes := [NewDirectPVNode ''node-1'' [], NewDirectPVNode ''node-2'' [sample_node_device]]\<rparr>"

lemma node_world_nodes:
  "\<forall>n x. world_nodes node_world n = Some x \<longrightarrow> Finalizers x = [] \<and> DeletionTimestamp x = None"
  by (auto simp: world_nodes_def node_world_def lookup_obj_def NewDirectPVNode_def split: if_splits)

lemma sample_csi_nodes: "GetCSINodes sample_csi w = (Inr [''node-2'', ''node-3''], w)"
  by (simp add: GetCSINodes_def sample_csi_def)

theorem SyncNodes_correct_witness:
  "\<exists>w'. SyncNodes store_client sample_csi node_world = (Inr (), w') \<and> dom (world_nodes w') = {''node-2'', ''node-3''} \<and>
     world_nodes w' ''node-2'' = world_nodes node_world ''node-2''"
proof -
  have "\<exists>u w'. SyncNodes store_client sample_csi node_world = (Inr u, w')" by (rule not_isl_ok) code_simp
  then obtain w' where s: "SyncNodes store_client sample_csi node_world = (Inr (), w')" by auto
  have "\<forall>n x. world_nodes node_world n = Some x \<longrightarrow> Finalizers x = []" using node_world_nodes by blast
  from SyncNodes_correct [OF store_discovery.discovery_axioms, OF sample_csi_nodes s this] store_lists_nodes
  have "dom (world_nodes w') = {''node-2'', ''node-3''}"
      "world_nodes w' ''node-2'' = world_nodes node_world ''node-2'' \<or> world_nodes node_world ''node-2'' = None"
    by (auto dest: spec [of _ "''node-2''"])
  moreover have "world_nodes node_world ''node-2'' \<noteq> None" by (simp add: world_nodes_def node_world_def lookup_obj_def NewDirectPVNode_def)
  ultimately show ?thesis using s by auto
qed

definition receive_name :: "string \<Rightarrow> ('w, unit) io" where
  "receive_name m w = (Inr (), w)"

theorem RefreshNodes_correct_witness:
  "\<exists>w'. RefreshNodes store_client sample_csi receive_name [] node_world = (Inr None, w') \<and>
     dom (world_nodes w') = {''node-2'', ''node-3''} \<and>
     (\<exists>x. world_nodes w' ''node-2'' = Some x \<and> nodeRefresh x \<and> nodeDevices x = [sample_node_device])"
proof -
  have "case RefreshNodes store_client sample_csi receive_name [] node_world of (Inr None, w) \<Rightarrow> True | _ \<Rightarrow> False" by code_simp
  then obtain w' where r: "RefreshNodes store_client sample_csi receive_name [] node_world = (Inr None, w')"
    by (auto split: prod.splits sum.splits option.splits)
  have k: "keeps world_nodes (receive_name m)" for m by (simp add: keeps_def receive_name_def)
  note refreshed = RefreshNodes_correct [OF store_discovery.discovery_axioms, of receive_name, OF k store_lists_nodes sample_csi_nodes r node_world_nodes]
  from refreshed have d: "dom (world_nodes w') = {''node-2'', ''node-3''}" by simp
  then obtain x where x: "world_nodes w' ''node-2'' = Some x" by blast
  have "world_nodes node_world ''node-2'' = Some (NewDirectPVNode ''node-2'' [sample_node_device])"
    by (simp add: world_nodes_def node_world_def lookup_obj_def NewDirectPVNode_def)
  then show ?thesis using refreshed r d x by (auto simp: NewDirectPVNode_def)
qed

definition refresh_world :: hworld where
  "refresh_world = probe_world\<lparr>wNodes := [(NewDirectPVNode ''node-1'' [])\<lparr>nodeRefresh := True\<rparr>]\<rparr>"

theorem node_Handle_refreshes_witness:
  "\<exists>devices w1 w' y. node_Handle store_probe UpdateEvent ((NewDirectPVNode ''node-1'' [])\<lparr>nodeRefresh := True\<rparr>) refresh_world = (Inr (), w') \<and>
     node_probeDevices store_probe ''node-1'' refresh_world = (Inr devices, w1) \<and> world_nodes w' ''node-1'' = Some y \<and>
     nodeDevices y = devices \<and> \<not> nodeRefresh y"
proof -
  let ?obj = "(NewDirectPVNode ''node-1'' [])\<lparr>nodeRefresh := True\<rparr>"
  have "\<exists>u w'. node_Handle store_probe UpdateEvent ?obj refresh_world = (Inr u, w')" by (rule not_isl_ok) code_simp
  then obtain w' where h: "node_Handle store_probe UpdateEvent ?obj refresh_world = (Inr (), w')" by auto
  have o: "objName ?obj = ''node-1''" "nodeRefresh ?obj" by (simp_all add: NewDirectPVNode_def)
  have x: "world_nodes refresh_world (objName ?obj) = Some ?obj" "\<not> gone ?obj"
    by (simp_all add: world_nodes_def refresh_world_def lookup_obj_def NewDirectPVNode_def gone_def)
  from node_Handle_refreshes [OF store_node_host.node_host_axioms, OF h o(2) x] show ?thesis using h o(1) by auto
qed

text \<open>Two nodes, of which the second answers after its refresh was seen.\<close>

definition answer :: "string \<Rightarrow> bool \<Rightarrow> watch_type \<times> NodeObj" where
  "answer n b = (watch_Modified, (NewDirectPVNode n [sample_node_device])\<lparr>nodeRefresh := b\<rparr>)"

definition sample_watch :: "ListOptions \<Rightarrow> ('w, (watch_type \<times> NodeObj) list) io" where
  "sample_watch opts w = (Inr [answer ''node-1'' False, answer ''node-2'' True, answer ''node-2'' False], w)"

definition sample_events :: "NodeObj WatchEvent list" where
  "sample_events = map (watch_event Inr) [answer ''node-1'' False, answer ''node-2'' True, answer ''node-2'' False]"

lemma sample_watch_events:
  "NodeLister_Watch sample_watch Inr (NodeLister_NodeSelector (ToLabelValues store_client nodes) NewNodeLister) node_world =
     (Inr sample_events, node_world)"
  by (simp add: NodeLister_Watch_def NodeLister_NodeSelector_def NewNodeLister_def sample_watch_def sample_events_def)

lemma sample_events_reports: "{n. \<exists>ds. reports drives sample_events n ds} = {''node-1'', ''node-2''}"
proof -
  have n: "\<not> reports drives [] n ds" for n ds by (simp add: reports_def)
  have a: "watch_event Inr (answer m b) = WatchItem watch_Modified ((NewDirectPVNode m [sample_node_device])\<lparr>nodeRefresh := b\<rparr>)" for m b
    by (simp add: answer_def watch_event_def)
  have o: "objName ((NewDirectPVNode m ds)\<lparr>nodeRefresh := b\<rparr>) = m" for m ds b by (simp add: NewDirectPVNode_def)
  show ?thesis by (auto simp: sample_events_def reports_Cons n a o)
qed

lemma sample_events_quiet: "list_all quiet_event sample_events" "length sample_events = 3"
  by (simp_all add: sample_events_def answer_def watch_event_def)

theorem discoverDevices_correct_witness:
  "\<exists>devices. discoverDevices store_client sample_watch Inr None [''node-1'', ''node-2''] [] node_world = ((devices, None), node_world) \<and>
     fst ` set devices = {''node-1'', ''node-2''}"
proof -
  obtain devices err where "discover_loop [] (length [''node-1'', ''node-2'']) None sample_events [] = (devices, err)" by fastforce
  then have d: "discoverDevices store_client sample_watch Inr None [''node-1'', ''node-2''] [] node_world = ((devices, err), node_world)"
    unfolding discoverDevices_def sample_watch_events by simp
  have "err = None \<and> fst ` set devices = {''node-1'', ''node-2''}"
    using discoverDevices_correct [OF sample_watch_events d] sample_events_reports sample_events_quiet by simp
  then show ?thesis using d by simp
qed

theorem discoverDevices_name_twice_witness:
  "snd (fst (discoverDevices store_client sample_watch Inr (Some 3) [''node-1'', ''node-2'', ''node-2''] [] node_world)) = Some discovery_deadline"
  by (rule discoverDevices_name_twice [OF sample_watch_events])
    (simp_all add: sample_events_reports sample_events_quiet)

theorem discovered_devices_initialised_witness:
  "\<exists>req dev. req \<in> set (fst (ToInitRequestObjects (\<lambda>i. ''uuid'') (ToInitConfig [(''node-1'', [fst (ToNodeDevice store_init ''node-1'' free_device init_world)])]))) \<and>
     dev \<in> set (reqDevices req) \<and>
     fst (init_check store_init [(''8:16'', free_device)] 0 dev init_world) = ([], [(0, free_device, True)])"
proof -
  have n: "nodeID store_init = ''node-1''" by (simp add: store_init_defs)
  have "fst (DeniedReason store_init free_device init_world) = []" by code_simp
  moreover have "devDeniedReason (fst (ToNodeDevice store_init ''node-1'' free_device init_world)) = []" by code_simp
  moreover have "CHR ''$'' \<notin> set (dvMajorMinor free_device)" "dvMajorMinor free_device = ''8:16''" by (simp_all add: free_device_def)
  moreover have "Device_FSType free_device \<noteq> []" by (simp add: free_device_def Device_FSType_def udev_get_def)
  ultimately show ?thesis
    using discovered_devices_initialised [OF refl, of "\<lambda>i. ''uuid''" "[(''node-1'', [fst (ToNodeDevice store_init ''node-1'' free_device init_world)])]"
        store_init "[(''8:16'', free_device)]"] n by fastforce
qed

definition settled_request :: InitRequest where
  "settled_request = (NewDirectPVInitRequest ''request-2'' ''1'' ''node-1'' [])\<lparr>reqStatus := InitStatusProcessed\<rparr>"

definition request_watch :: "ListOptions \<Rightarrow> ('w, (watch_type \<times> InitRequest) list) io" where
  "request_watch opts w = (Inr [(watch_Added, init_request), (watch_Modified, settled_request)], w)"

theorem cmd_initDevices_results_witness:
  "\<exists>r w'. cmd_initDevices store_client request_watch Inr None [init_request] ''1'' node_world = (([r], None), w') \<and>
     irRequestID r = ''request-2'' \<and> \<not> irFailed r"
proof -
  have "\<exists>u w'. create_requests store_client [init_request] node_world = (Inr u, w')" by (rule not_isl_ok) code_simp
  then obtain w1 where c: "create_requests store_client [init_request] node_world = (Inr (), w1)" by auto
  have e: "InitRequestLister_Watch request_watch Inr
      (InitRequestLister_RequestIDSelector (ToLabelValues store_client [''1'']) NewInitRequestLister) w1 =
      (Inr [WatchItem watch_Added init_request, WatchItem watch_Modified settled_request], w1)"
    by (simp add: InitRequestLister_Watch_def request_watch_def watch_event_def named_event_def
        InitRequestLister_RequestIDSelector_def NewInitRequestLister_def)
  have s: "settled_requests [WatchItem watch_Added init_request, WatchItem watch_Modified settled_request] = [settled_request]"
    by (simp add: settled_request_def init_request_def NewDirectPVInitRequest_def)
  have "irRequestID (init_result L settled_request) = ''request-2''" "\<not> irFailed (init_result L settled_request)" for L :: "'x lib_scheme"
    by (simp_all add: init_result_def settled_request_def NewDirectPVInitRequest_def)
  then show ?thesis using cmd_initDevices_results [OF c e] s by auto
qed

end
