(* ===== verification/Migration.thy ===== *)
theory Migration
  imports Ledger Admin_Loops
begin

text \<open>
  The migration of the objects of the previous generation of the driver
  (\<^verbatim>\<open>direct.csi.min.io\<close>): \<^verbatim>\<open>migrateDrives\<close>,
  \<^verbatim>\<open>migrateVolumes\<close> and \<^verbatim>\<open>migrate\<close> of
  \<^verbatim>\<open>pkg/admin/installer/migrate.go\<close>, the listers and removers of
  \<^verbatim>\<open>pkg/legacy/client\<close>, and the command of \<^verbatim>\<open>pkg/admin/migrate.go\<close>.

  The legacy objects have the fields that the migration reads; the others are carried along by the API
  server and reach no new object. The order in which Go walks a map is the argument \<open>walk\<close>. The
  legacy clients, the discovery of versions, YAML, the backup files and the progress channel are fields
  of \<open>migrate_env\<close>.
\<close>

section \<open>Legacy objects\<close>

definition LegacyGroupName :: string where "LegacyGroupName = ''direct.csi.min.io''"
definition LegacyIdentity :: string where "LegacyIdentity = ''direct-csi-min-io''"

record DirectCSIDriveStatus =
  ldPath :: string
  ldAllocatedCapacity :: int
  ldFreeCapacity :: int
  ldNodeName :: string
  ldDriveStatus :: string
  ldTotalCapacity :: int
  ldTopology :: "string \<rightharpoonup> string"
  ldAccessTier :: string
  ldFilesystemUUID :: string

record DirectCSIDrive = ObjectMeta +
  legacyDriveStatus :: DirectCSIDriveStatus

record DirectCSIVolumeStatus =
  lvDrive :: string
  lvNodeName :: string
  lvHostPath :: string
  lvStagingPath :: string
  lvContainerPath :: string
  lvTotalCapacity :: int
  lvAvailableCapacity :: int
  lvUsedCapacity :: int

record DirectCSIVolume = ObjectMeta +
  legacyVolumeStatus :: DirectCSIVolumeStatus

abbreviation LegacyDriveStatusReady :: string where "LegacyDriveStatusReady \<equiv> ''Ready''"
abbreviation LegacyDriveStatusInUse :: string where "LegacyDriveStatusInUse \<equiv> ''InUse''"

text \<open>Labels that are written anew, and the finalizers of a volume that are.\<close>

definition dropped_drive_labels :: "string list" where
  "dropped_drive_labels =
     [LegacyGroupName @ ''/access-tier'', LegacyGroupName @ ''/created-by'', LegacyGroupName @ ''/node'',
      LegacyGroupName @ ''/path'', LegacyGroupName @ ''/version'']"

definition dropped_volume_labels :: "string list" where
  "dropped_volume_labels =
     [LegacyGroupName @ ''/created-by'', LegacyGroupName @ ''/drive'', LegacyGroupName @ ''/drive-path'',
      LegacyGroupName @ ''/node'', LegacyGroupName @ ''/version'']"

definition legacyDrivePathLabelKey :: string where "legacyDrivePathLabelKey = LegacyGroupName @ ''/drive-path''"
definition legacyPVProtection :: string where "legacyPVProtection = LegacyGroupName @ ''/pv-protection''"
definition legacyPurgeProtection :: string where "legacyPurgeProtection = LegacyGroupName @ ''/purge-protection''"

record 'w migrate_env = "'w client" +
  legacyDrives :: "('w, DirectCSIDrive) api"
  legacyVolumes :: "('w, DirectCSIVolume) api"
  newLegacyClient :: "('w, unit) io"
  groupVersionKind :: "string \<Rightarrow> ('w, string) io"
  IsNoMatchError :: "error \<Rightarrow> bool"
  walk :: "(string \<rightharpoonup> string) \<Rightarrow> (string \<times> string) list"
  sendMessage :: "'w \<Rightarrow> bool \<times> 'w"
  writeObject :: "('w, unit) io"
  drivesYAML :: "DirectCSIDrive list \<Rightarrow> string result"
  volumesYAML :: "DirectCSIVolume list \<Rightarrow> string result"
  backupFile :: "string \<Rightarrow> string \<Rightarrow> ('w, unit) io"

section \<open>New objects from legacy ones\<close>

definition rename_group :: "string \<Rightarrow> string" where
  "rename_group s = (if HasPrefix s LegacyGroupName then strings_Replace1 s LegacyGroupName GroupName else s)"

definition migrated_tier :: "string \<Rightarrow> AccessTier" where
  "migrated_tier t = (if t \<in> {AccessTierCold, AccessTierWarm, AccessTierHot} then t else AccessTierDefault)"

definition migrated_topology :: "(string \<times> string) list \<Rightarrow> string \<rightharpoonup> string" where
  "migrated_topology kvs =
     foldl (\<lambda>topology (key, v).
       let key = rename_group key;
           v = (if key = TopologyDriverIdentity \<and> HasPrefix v LegacyIdentity
                then strings_Replace1 v LegacyIdentity Identity else v)
       in topology(key \<mapsto> v)) Map.empty kvs"

definition migrated_labels :: "string list \<Rightarrow> (string \<times> string) list \<Rightarrow> (string \<rightharpoonup> string) \<Rightarrow> string \<rightharpoonup> string" where
  "migrated_labels dropped kvs labels =
     foldl (\<lambda>labels (key, v). if key \<in> set dropped then labels else labels(rename_group key \<mapsto> v)) labels kvs"

definition add_finalizer :: "string \<Rightarrow> string list \<Rightarrow> string list" where
  "add_finalizer finalizer fs = (let f = rename_group finalizer in if \<not> utils_Contains fs f then fs @ [f] else fs)"

definition migrated_drive :: "('w, 'b) migrate_env_scheme \<Rightarrow> DirectCSIDrive \<Rightarrow> Drive" where
  "migrated_drive E legacy =
     (let st = legacyDriveStatus legacy;
          status = \<lparr> dTotalCapacity = ldTotalCapacity st, dAllocatedCapacity = ldAllocatedCapacity st,
                     dFreeCapacity = ldFreeCapacity st, dFSUUID = ldFilesystemUUID st, dStatus = DriveStatusReady,
                     dTopology = migrated_topology (walk E (ldTopology st)), dMake = [], dConditions = [] \<rparr>;
          drive = Drive_SetMigratedLabel
            (NewDirectPVDrive (ldFilesystemUUID st) status (ldNodeName st) (TrimDevPrefix (ldPath st)) (migrated_tier (ldAccessTier st)))
      in drive\<lparr> driveSpec := (driveSpec drive)\<lparr>Relabel := True\<rparr>,
                objLabels := migrated_labels dropped_drive_labels (walk E (objLabels legacy)) (objLabels drive),
                Finalizers := fold add_finalizer (Finalizers legacy) (Finalizers drive) \<rparr>)"

definition migrated_volume :: "('w, 'b) migrate_env_scheme \<Rightarrow> string \<Rightarrow> DirectCSIVolume \<Rightarrow> Volume" where
  "migrated_volume E fsuuid legacy =
     (let st = legacyVolumeStatus legacy;
          volume = Volume_SetMigratedLabel
            (NewDirectPVVolume (objName legacy) fsuuid (lvNodeName st) fsuuid (map_get (objLabels legacy) legacyDrivePathLabelKey)
               (lvTotalCapacity st))
      in volume\<lparr> volumeStatus := (volumeStatus volume)\<lparr> vDataPath := lvHostPath st, vStagingTargetPath := lvStagingPath st,
                   vTargetPath := lvContainerPath st, vAvailableCapacity := lvAvailableCapacity st,
                   vUsedCapacity := lvUsedCapacity st,
                   vStatus := (if lvStagingPath st \<noteq> [] then VolumeStatusReady else vStatus (volumeStatus volume)) \<rparr>,
                 objLabels := migrated_labels dropped_volume_labels (walk E (objLabels legacy)) (objLabels volume),
                 Finalizers := fold add_finalizer
                   (filter (\<lambda>f. f \<noteq> legacyPVProtection \<and> f \<noteq> legacyPurgeProtection) (Finalizers legacy)) (Finalizers volume) \<rparr>)"

section \<open>The loops\<close>

text \<open>\<^verbatim>\<open>ListDrives\<close> and \<^verbatim>\<open>ListVolumes\<close>; the receiver runs at the point of the
  send.\<close>

definition list_legacy ::
  "nat \<Rightarrow> ('w, 'a ObjectMeta_scheme) api \<Rightarrow> ('a ObjectMeta_scheme, 's, 'w) consumer \<Rightarrow> 's \<Rightarrow> 'w \<Rightarrow> 's \<times> 'w" where
  "list_legacy fuel A k s w =
     (case list_pages fuel A True (\<lambda>_ _ _. True) k \<lparr> Limit = 1000, LabelSelector = [], Continue = [] \<rparr> [] s w of
        (_, _, s', w') \<Rightarrow> (s', w'))"

record Args =
  argQuiet :: bool
  argDryRun :: bool
  argDeclarative :: bool
  argLegacy :: bool
  argProgressCh :: bool
  argObjectWriter :: bool

definition send_progress :: "('w, 'b) migrate_env_scheme \<Rightarrow> Args \<Rightarrow> 'w \<Rightarrow> bool \<times> 'w" where
  "send_progress E args w = (if argProgressCh args then sendMessage E w else (True, w))"

record migrate_state =
  msDriveMap :: "(string \<times> string) list"
  msFSUUIDs :: StringSet
  msLegacyErrors :: "(string \<times> error) list"
  msErrors :: "(string \<times> error) list"
  msErr :: "error option"

definition legacy_error :: "string \<Rightarrow> error \<Rightarrow> migrate_state \<Rightarrow> migrate_state" where
  "legacy_error name err s = s\<lparr>msLegacyErrors := assign_key name err (msLegacyErrors s)\<rparr>"

definition new_error :: "string \<Rightarrow> error \<Rightarrow> migrate_state \<Rightarrow> migrate_state" where
  "new_error name err s = s\<lparr>msErrors := assign_key name err (msErrors s)\<rparr>"

text \<open>The end of both loop bodies: nothing is written over an object that exists.\<close>

definition create_new ::
  "('w, 'b) migrate_env_scheme \<Rightarrow> Args \<Rightarrow> ('w, 'o) api \<Rightarrow> string \<Rightarrow> string \<Rightarrow> 'o \<Rightarrow> ('o \<Rightarrow> bool) \<Rightarrow> (migrate_state \<Rightarrow> migrate_state) \<Rightarrow>
   migrate_state \<Rightarrow> 'w \<Rightarrow> bool \<times> migrate_state \<times> 'w" where
  "create_new E args A legacyName newName x migrated undo s w =
     call (api_Get A newName w)
       (\<lambda>err w.
          if IsNotFound err then
            if argDryRun args then (True, s, w)
            else case send_progress E args w of (_, w) \<Rightarrow>
              call (api_Create A x w)
                (\<lambda>err w. (True, legacy_error legacyName (Wrap ''unable to create by migrating'' err) s, w))
                (\<lambda>_ w. (True, s, w))
          else (True, undo (new_error newName (Wrap ''unable to get'' err) s), w))
       (\<lambda>existing w.
          (True, legacy_error legacyName
             (ErrorString (if migrated existing then ''already migrated'' else ''unable to migrate; already exists'')) s, w))"

definition migrate_drive ::
  "('w, 'b) migrate_env_scheme \<Rightarrow> Args \<Rightarrow> (DirectCSIDrive, migrate_state, 'w) consumer" where
  "migrate_drive E args r s w =
     (case r of
        Inl err \<Rightarrow> (False, s\<lparr>msErr := Some (Wrap ''unable to get legacy drives'' err)\<rparr>, w)
      | Inr legacy \<Rightarrow>
          let st = legacyDriveStatus legacy; name = objName legacy; fsuuid = ldFilesystemUUID st
          in if ldDriveStatus st \<noteq> LegacyDriveStatusReady \<and> ldDriveStatus st \<noteq> LegacyDriveStatusInUse then (True, s, w)
             else if \<not> IsUUID fsuuid then (True, legacy_error name (ErrorString ''invalid filesystem UUID'') s, w)
             else if StringSet_Exist (msFSUUIDs s) fsuuid
             then (True, legacy_error name (ErrorString ''duplicate filesystem UUID'') s, w)
             else create_new E args (DriveClient E) name fsuuid (migrated_drive E legacy) (Drive_IsMigrated E)
                    (\<lambda>s. s\<lparr>msDriveMap := filter (\<lambda>(n, _). n \<noteq> name) (msDriveMap s)\<rparr>)
                    (s\<lparr>msFSUUIDs := StringSet_Set fsuuid (msFSUUIDs s), msDriveMap := assign_key name fsuuid (msDriveMap s)\<rparr>) w)"

definition no_errors :: migrate_state where
  "no_errors = \<lparr> msDriveMap = [], msFSUUIDs = [], msLegacyErrors = [], msErrors = [], msErr = None \<rparr>"

definition migrateDrives :: "('w, 'b) migrate_env_scheme \<Rightarrow> Args \<Rightarrow> 'w \<Rightarrow> migrate_state \<times> 'w" where
  "migrateDrives E args = list_legacy (pageFuel E) (legacyDrives E) (migrate_drive E args) no_errors"

definition migrate_volume ::
  "('w, 'b) migrate_env_scheme \<Rightarrow> Args \<Rightarrow> (string \<times> string) list \<Rightarrow> (DirectCSIVolume, migrate_state, 'w) consumer" where
  "migrate_volume E args driveMap r s w =
     (case r of
        Inl err \<Rightarrow> (False, s\<lparr>msErr := Some (Wrap ''unable to get legacy volumes'' err)\<rparr>, w)
      | Inr legacy \<Rightarrow>
          case map_of driveMap (lvDrive (legacyVolumeStatus legacy)) of
            None \<Rightarrow> (True, legacy_error (objName legacy) (ErrorString ''referring drive not found'') s, w)
          | Some fsuuid \<Rightarrow>
              create_new E args (VolumeClient E) (objName legacy) (objName legacy) (migrated_volume E fsuuid legacy)
                (Volume_IsMigrated E) (\<lambda>s. s) s w)"

definition migrateVolumes ::
  "('w, 'b) migrate_env_scheme \<Rightarrow> Args \<Rightarrow> (string \<times> string) list \<Rightarrow> 'w \<Rightarrow> migrate_state \<times> 'w" where
  "migrateVolumes E args driveMap =
     list_legacy (pageFuel E) (legacyVolumes E) (migrate_volume E args driveMap) no_errors"

section \<open>The commands\<close>

definition GetGroupVersion :: "('w, 'b) migrate_env_scheme \<Rightarrow> string \<Rightarrow> ('w, string) io" where
  "GetGroupVersion E kind w =
     call (groupVersionKind E kind w)
       (\<lambda>err w. if \<not> IsNoMatchError E err then (Inl err, w) else (Inr ''v1beta5'', w))
       (\<lambda>version w. (Inr version, w))"

definition supported_version :: "string \<Rightarrow> bool" where
  "supported_version v = (v \<in> {''v1beta5'', ''v1beta4'', ''v1beta3''})"

definition errSendProgress :: error where "errSendProgress = ErrorString ''unable to send message''"

text \<open>\<^verbatim>\<open>migrateLog\<close>, called when there are errors to report.\<close>

definition migrateLog :: "('w, 'b) migrate_env_scheme \<Rightarrow> Args \<Rightarrow> bool \<Rightarrow> ('w, unit) io" where
  "migrateLog E args showInProgress w =
     call (if argProgressCh args \<and> showInProgress
           then case sendMessage E w of (ok, w) \<Rightarrow> (if ok then Inr () else Inl errSendProgress, w)
           else (Inr (), w))
       (\<lambda>err w. (Inl err, w))
       (\<lambda>_ w. if argObjectWriter args then writeObject E w else (Inr (), w))"

definition report_errors ::
  "('w, 'b) migrate_env_scheme \<Rightarrow> Args \<Rightarrow> (string \<times> error) list \<Rightarrow> bool \<Rightarrow> ('w, unit) io" where
  "report_errors E args errs showInProgress w = (if errs \<noteq> [] then migrateLog E args showInProgress w else (Inr (), w))"

definition progress_step :: "('w, 'b) migrate_env_scheme \<Rightarrow> Args \<Rightarrow> ('w, unit) io" where
  "progress_step E args w = (case send_progress E args w of (ok, w) \<Rightarrow> (if ok then Inr () else Inl errSendProgress, w))"

definition installer_migrate :: "('w, 'b) migrate_env_scheme \<Rightarrow> Args \<Rightarrow> bool \<Rightarrow> ('w, unit) io" where
  "installer_migrate E args installer w =
     (if installer \<and> argDryRun args \<or> argDeclarative args \<or> \<not> argLegacy args then (Inr (), w)
      else call (GetGroupVersion E ''DirectCSIDrive'' w) (\<lambda>err w. (Inl (Wrap ''unable to probe DirectCSIDrive version'' err), w))
        (\<lambda>version w. if \<not> supported_version version then (Inl (ErrorString ''migration does not support DirectCSIDrive version''), w)
         else call (GetGroupVersion E ''DirectCSIVolume'' w) (\<lambda>err w. (Inl (Wrap ''unable to probe DirectCSIVolume version'' err), w))
           (\<lambda>version w. if \<not> supported_version version then (Inl (ErrorString ''migration does not support DirectCSIVolume version''), w)
            else case migrateDrives E args w of (ds, w) \<Rightarrow>
              case msErr ds of Some err \<Rightarrow> (Inl err, w) | None \<Rightarrow>
              call (progress_step E args w) (\<lambda>err w. (Inl err, w))
                (\<lambda>_ w. case migrateVolumes E args (msDriveMap ds) w of (vs, w) \<Rightarrow>
                   case msErr vs of Some err \<Rightarrow> (Inl err, w) | None \<Rightarrow>
                   call (progress_step E args w) (\<lambda>err w. (Inl err, w))
                     (\<lambda>_ w. call (report_errors E args (msLegacyErrors ds) False w) (\<lambda>err w. (Inl err, w))
                        (\<lambda>_ w. call (report_errors E args (msLegacyErrors vs) False w) (\<lambda>err w. (Inl err, w))
                           (\<lambda>_ w. call (report_errors E args (msErrors ds) True w) (\<lambda>err w. (Inl err, w))
                              (\<lambda>_ w. report_errors E args (msErrors vs) True w))))))))"

fun remove_legacy :: "('w, 'a ObjectMeta_scheme) api \<Rightarrow> 'a ObjectMeta_scheme list \<Rightarrow> ('w, unit) io" where
  "remove_legacy A [] w = (Inr (), w)"
| "remove_legacy A (x # xs) w =
     call (api_Update A (x\<lparr>Finalizers := []\<rparr>) w) (\<lambda>err w. (Inl (Wrap ''unable to update'' err), w))
       (\<lambda>_ w. call (api_Delete A (objName x) w) (\<lambda>err w. (Inl (Wrap ''unable to remove'' err), w))
          (\<lambda>_ w. remove_legacy A xs w))"

text \<open>\<^verbatim>\<open>RemoveAllDrives\<close> and \<^verbatim>\<open>RemoveAllVolumes\<close>, which differ in the kind of
  object.\<close>

definition remove_all ::
  "nat \<Rightarrow> ('w, 'a ObjectMeta_scheme) api \<Rightarrow> ('a ObjectMeta_scheme list \<Rightarrow> string result) \<Rightarrow>
   (string \<Rightarrow> string \<Rightarrow> ('w, unit) io) \<Rightarrow> string \<Rightarrow> ('w, bool) io" where
  "remove_all fuel A yaml write file w =
     (case list_legacy fuel A collect ([], None) w of
        ((xs, Some err), w) \<Rightarrow> (Inl (Wrap ''unable to get legacy objects'' err), w)
      | ((xs, None), w) \<Rightarrow>
          if xs = [] then (Inr False, w)
          else case yaml xs of
            Inl err \<Rightarrow> (Inl (Wrap ''unable to generate YAML'' err), w)
          | Inr text \<Rightarrow>
              call (write file text w) (\<lambda>err w. (Inl (Wrap ''unable to write YAML'' err), w))
                (\<lambda>_ w. call (remove_legacy A xs w) (\<lambda>err w. (Inl err, w)) (\<lambda>_ w. (Inr True, w))))"

definition RemoveAllDrives :: "('w, 'b) migrate_env_scheme \<Rightarrow> string \<Rightarrow> ('w, bool) io" where
  "RemoveAllDrives E = remove_all (pageFuel E) (legacyDrives E) (drivesYAML E) (backupFile E)"

definition RemoveAllVolumes :: "('w, 'b) migrate_env_scheme \<Rightarrow> string \<Rightarrow> ('w, bool) io" where
  "RemoveAllVolumes E = remove_all (pageFuel E) (legacyVolumes E) (volumesYAML E) (backupFile E)"

record MigrateArgs =
  maQuiet :: bool
  maRetain :: bool
  maDrivesBackupFile :: string
  maVolumesBackupFile :: string

definition Migrate :: "('w, 'b) migrate_env_scheme \<Rightarrow> MigrateArgs \<Rightarrow> ('w, unit) io" where
  "Migrate E args w =
     (if \<not> maRetain args \<and> (maDrivesBackupFile args = [] \<or> maVolumesBackupFile args = [])
      then (Inl (ErrorString ''backup file should not be empty''), w)
      else if \<not> maRetain args \<and> maDrivesBackupFile args = maVolumesBackupFile args
      then (Inl (ErrorString ''backup filenames are same''), w)
      else call (newLegacyClient E w) (\<lambda>err w. (Inl (Wrap ''unable to create legacy client'' err), w))
        (\<lambda>_ w. call (installer_migrate E
               \<lparr> argQuiet = maQuiet args, argDryRun = False, argDeclarative = False, argLegacy = True, argProgressCh = False, argObjectWriter = False \<rparr> False w)
             (\<lambda>err w. (Inl (Wrap ''migration failed'' err), w))
             (\<lambda>_ w. if maRetain args then (Inr (), w)
                else call (RemoveAllDrives E (maDrivesBackupFile args) w)
                       (\<lambda>err w. (Inl (Wrap ''unable to remove legacy drive CRDs'' err), w))
                       (\<lambda>_ w. call (RemoveAllVolumes E (maVolumesBackupFile args) w)
                          (\<lambda>err w. (Inl (Wrap ''unable to remove legacy volume CRDs'' err), w)) (\<lambda>_ w. (Inr (), w))))))"

section \<open>Loops over the legacy objects\<close>

text \<open>What a server answers to a list request without a selector, page by page.\<close>

inductive page_chain :: "(string \<Rightarrow> 'o list \<times> string) \<Rightarrow> string \<Rightarrow> nat \<Rightarrow> 'o list \<Rightarrow> bool" for pages where
  last: "pages c = (items, []) \<Longrightarrow> page_chain pages c 1 items"
| more: "pages c = (items, c') \<Longrightarrow> c' \<noteq> [] \<Longrightarrow> page_chain pages c' n rest \<Longrightarrow> page_chain pages c (Suc n) (items @ rest)"

context object_api
begin

lemma send_items_stored:
  assumes k: "\<And>r s w b s' w'. k r s w = (b, s', w') \<Longrightarrow> I s w \<Longrightarrow> (\<And>x. r = Inr x \<Longrightarrow> \<sigma> (objName x) = Some x) \<Longrightarrow> I s' w'"
    and "send_items sel k items names s w = (b, ns, s', w')" and "I s w" and "\<forall>x \<in> set items. \<sigma> (objName x) = Some x"
  shows "I s' w'"
  using assms(2-4)
proof (induction items arbitrary: names s w)
  case (Cons x items)
  obtain found names' where t: "take_name names (objName x) = (found, names')" by fastforce
  obtain b1 s1 w1 where k1: "k (Inr x) s w = (b1, s1, w1)" by (metis prod_cases3)
  have i: "I s1 w1" using k [OF k1 Cons.prems(2)] Cons.prems(3) by simp
  show ?case
    using Cons.prems t k1 i Cons.IH [of names' s1 w1] Cons.IH [of names' s w]
    by (cases "sel found names' x"; cases b1) simp_all
qed simp

lemma list_legacy_inv:
  assumes k: "\<And>r s w b s' w'. k r s w = (b, s', w') \<Longrightarrow> I s w \<Longrightarrow> (\<And>x. r = Inr x \<Longrightarrow> \<sigma> (objName x) = Some x) \<Longrightarrow> I s' w'"
    and reads: "\<And>s w opts. I s w \<Longrightarrow> I s (snd (api_List A opts w))" and st: "\<And>s w. I s w \<Longrightarrow> store w = \<sigma>"
    and run: "list_legacy fuel A k s w = (s', w')" and "I s w"
  shows "I s' w'"
proof -
  have "list_pages fuel A ign sel k opts names s w = (b, ns, s', w') \<Longrightarrow> I s w \<Longrightarrow> I s' w'" for ign sel opts names s w b ns
  proof (induction fuel arbitrary: opts names s w)
    case 0
    then show ?case using k [of "Inl OutOfFuel" s w] by (cases "k (Inl OutOfFuel) s w") auto
  next
    case (Suc fuel)
    obtain r w1 where l: "api_List A opts w = (r, w1)" by fastforce
    have i: "I s w1" using reads [OF Suc.prems(2), of opts] l by simp
    show ?case
    proof (cases r)
      case (Inl e)
      then show ?thesis
        using Suc.prems(1) l i k [of "Inl e" s w1] by (cases "k (Inl e) s w1") (auto split: if_splits)
    next
      case (Inr ic)
      obtain items cont where ic: "ic = (items, cont)" by fastforce
      have am: "\<forall>x \<in> set items. \<sigma> (objName x) = Some x"
        using list_sound [of opts w items cont w1] st [OF Suc.prems(2)] l Inr ic by auto
      obtain b1 ns1 s1 w2 where si: "send_items sel k items names s w1 = (b1, ns1, s1, w2)" by (metis prod_cases4)
      have "I s1 w2" by (rule send_items_stored [of k I, OF k si i am])
      then show ?thesis using Suc.IH [of "opts\<lparr>Continue := cont\<rparr>" ns1 s1 w2] Suc.prems(1) l Inr ic si
        by (cases b1) (auto split: if_splits)
    qed
  qed
  then show ?thesis using run assms(5) by (auto simp: list_legacy_def split: prod.splits)
qed

text \<open>Every object that is listed is handled, if the receiver goes on.\<close>

lemma send_items_all:
  assumes k: "\<And>xs x s w b s' w'. k (Inr x) s w = (b, s', w') \<Longrightarrow> I xs s w \<Longrightarrow> \<sigma> (objName x) = Some x \<Longrightarrow> b \<and> I (xs @ [x]) s' w'"
    and "I xs s w" and "\<forall>x \<in> set items. \<sigma> (objName x) = Some x"
  shows "\<exists>ns s' w'. send_items (\<lambda>_ _ _. True) k items names s w = (True, ns, s', w') \<and> I (xs @ items) s' w'"
  using assms(2-3)
proof (induction items arbitrary: xs names s w)
  case (Cons x items)
  obtain found names' where t: "take_name names (objName x) = (found, names')" by fastforce
  obtain b1 s1 w1 where k1: "k (Inr x) s w = (b1, s1, w1)" by (metis prod_cases3)
  have i: "b1" "I (xs @ [x]) s1 w1" using k [OF k1 Cons.prems(1)] Cons.prems(2) by simp_all
  then show ?case using Cons.IH [of "xs @ [x]" s1 w1 names'] Cons.prems(2) t k1 by simp
qed simp

lemma list_legacy_all:
  assumes k: "\<And>xs x s w b s' w'. k (Inr x) s w = (b, s', w') \<Longrightarrow> I xs s w \<Longrightarrow> \<sigma> (objName x) = Some x \<Longrightarrow> b \<and> I (xs @ [x]) s' w'"
    and reads: "\<And>xs s w opts. I xs s w \<Longrightarrow> I xs s (snd (api_List A opts w))" and st: "\<And>xs s w. I xs s w \<Longrightarrow> store w = \<sigma>"
    and ans: "\<And>xs s w c. I xs s w \<Longrightarrow> fst (api_List A \<lparr> Limit = 1000, LabelSelector = [], Continue = c \<rparr> w) = Inr (pages c)"
    and "page_chain pages [] n items" and "n \<le> fuel" and "I [] s w" and run: "list_legacy fuel A k s w = (s', w')"
  shows "I items s' w'"
proof -
  have "I (xs @ items) s' w'"
    if "page_chain pages c n items" "n \<le> fuel" "I xs s w"
      "list_pages fuel A True (\<lambda>_ _ _. True) k \<lparr> Limit = 1000, LabelSelector = [], Continue = c \<rparr> names s w = (b, ns, s', w')"
    for c n items fuel xs s w names b ns
    using that
  proof (induction arbitrary: fuel xs s w names rule: page_chain.induct)
    case (last c items)
    then obtain f where f: "fuel = Suc f" by (cases fuel) auto
    obtain w1 where l: "api_List A \<lparr> Limit = 1000, LabelSelector = [], Continue = c \<rparr> w = (Inr (items, []), w1)"
      using ans [OF last(3), of c] last(1) by (metis prod.collapse)
    have i: "I xs s w1" using reads [OF last(3), of "\<lparr> Limit = 1000, LabelSelector = [], Continue = c \<rparr>"] l by simp
    have am: "\<forall>x \<in> set items. \<sigma> (objName x) = Some x" using list_sound [OF l] st [OF last(3)] by simp
    have "\<exists>ns s' w'. send_items (\<lambda>_ _ _. True) k items names s w1 = (True, ns, s', w') \<and> I (xs @ items) s' w'"
      by (rule send_items_all [where I = I and \<sigma> = \<sigma>]) (erule (2) k, rule i, rule am)
    then show ?case using last(4) f l by auto
  next
    case (more c items c' n rest)
    then obtain f where f: "fuel = Suc f" "n \<le> f" by (cases fuel) auto
    obtain w1 where l: "api_List A \<lparr> Limit = 1000, LabelSelector = [], Continue = c \<rparr> w = (Inr (items, c'), w1)"
      using ans [OF more.prems(2), of c] more.hyps(1) by (metis prod.collapse)
    have i: "I xs s w1" using reads [OF more.prems(2), of "\<lparr> Limit = 1000, LabelSelector = [], Continue = c \<rparr>"] l by simp
    have am: "\<forall>x \<in> set items. \<sigma> (objName x) = Some x" using list_sound [OF l] st [OF more.prems(2)] by simp
    have "\<exists>ns s' w'. send_items (\<lambda>_ _ _. True) k items names s w1 = (True, ns, s', w') \<and> I (xs @ items) s' w'"
      by (rule send_items_all [where I = I and \<sigma> = \<sigma>]) (erule (2) k, rule i, rule am)
    then obtain ns1 s1 w2 where si: "send_items (\<lambda>_ _ _. True) k items names s w1 = (True, ns1, s1, w2)" "I (xs @ items) s1 w2"
      by blast
    from more.IH [OF f(2) si(2)] show ?case using more.prems(3) more.hyps(2) f(1) l si(1) by simp
  qed
  from this [OF assms(5-7)] run show ?thesis by (auto simp: list_legacy_def split: prod.splits)
qed

end

section \<open>What a step of the migration does\<close>

definition error_free :: "migrate_state \<Rightarrow> bool" where
  "error_free s \<longleftrightarrow> msLegacyErrors s = [] \<and> msErrors s = []"

lemma errors_kept [simp]: "\<not> error_free (legacy_error n e s)" "\<not> error_free (new_error n e s)"
  by (auto simp: error_free_def legacy_error_def new_error_def)

context object_api
begin

lemma create_new_effect:
  assumes F: "\<And>w w'. api_step A w w' \<Longrightarrow> F w' = F w" and send: "keeps (\<lambda>w. (store w, F w)) (sendMessage E)"
    and x: "objName x = newName"
    and run: "create_new E args A legacyName newName x migrated undo s w = (b, s', w')"
  shows "b \<and> F w' = F w \<and>
    (s' = s \<and> \<not> argDryRun args \<and> store w newName = None \<and> (\<exists>rv. store w' = (store w)(newName \<mapsto> x\<lparr>ResourceVersion := rv\<rparr>)) \<or>
     store w' = store w \<and> (s' = s \<and> argDryRun args \<or> (\<exists>e. s' = legacy_error legacyName e s \<or> s' = undo (new_error newName e s))))"
proof -
  obtain r1 w1 where g: "api_Get A newName w = (r1, w1)" by fastforce
  have s1: "store w1 = store w" "F w1 = F w" using get_frame [OF g] F [OF api_stepI(1) [OF g]] by simp_all
  show ?thesis
  proof (cases r1)
    case (Inr y)
    then show ?thesis using run g s1 by (auto simp: create_new_def)
  next
    case (Inl e)
    show ?thesis
    proof (cases "IsNotFound e \<and> \<not> argDryRun args")
      case False
      then show ?thesis using run g Inl s1 by (auto simp: create_new_def split: if_splits)
    next
      case True
      then have none: "store w newName = None" using get_not_found g Inl by blast
      obtain ok w2 where p: "send_progress E args w1 = (ok, w2)" by fastforce
      have s2: "store w2 = store w" "F w2 = F w"
        using keepsD [OF send, of w1 ok w2] p s1 by (auto simp: send_progress_def split: if_splits)
      obtain r3 w3 where c: "api_Create A x w2 = (r3, w3)" by fastforce
      have f3: "F w3 = F w" using F [OF api_stepI(2) [OF c]] s2 by simp
      show ?thesis
      proof (cases r3)
        case e3: (Inl e)
        then show ?thesis using run g Inl True p c s2 f3 create_err [of x w2 e w3] by (auto simp: create_new_def)
      next
        case (Inr y)
        then obtain rv where "y = x\<lparr>ResourceVersion := rv\<rparr>" "store w3 = (store w)(newName \<mapsto> y)"
          using create_ok [of x w2 y w3] c s2 x by auto
        then show ?thesis using run g Inl True p c Inr f3 none by (auto simp: create_new_def)
      qed
    qed
  qed
qed

end

definition active :: "DirectCSIDrive \<Rightarrow> bool" where
  "active ld \<longleftrightarrow> ldDriveStatus (legacyDriveStatus ld) \<in> {LegacyDriveStatusReady, LegacyDriveStatusInUse}"

abbreviation fsuuid_of :: "DirectCSIDrive \<Rightarrow> string" where
  "fsuuid_of ld \<equiv> ldFilesystemUUID (legacyDriveStatus ld)"

lemma migrated_names [simp]:
  "objName (migrated_drive E ld) = fsuuid_of ld" "objName (migrated_volume E f lv) = objName lv"
  by (simp_all add: migrated_drive_def migrated_volume_def Let_def NewDirectPVDrive_def NewDirectPVVolume_def
      Drive_SetMigratedLabel_def Volume_SetMigratedLabel_def Drive_SetLabel_def Volume_SetLabel_def)

text \<open>The images of the legacy objects: new objects, and nothing else.\<close>

definition grows :: "('k \<Rightarrow> 'o \<Rightarrow> bool) \<Rightarrow> ('k \<Rightarrow> 'o option) \<Rightarrow> ('k \<Rightarrow> 'o option) \<Rightarrow> bool" where
  "grows P st st' \<longleftrightarrow> (\<forall>n. st' n = st n \<or> st n = None \<and> (\<exists>y. st' n = Some y \<and> P n y))"

lemma grows_refl [simp]: "grows P st st"
  by (simp add: grows_def)

lemma grows_at: "grows P st st' \<Longrightarrow> st' n = st n \<or> st n = None \<and> (\<exists>y. st' n = Some y \<and> P n y)"
  by (simp add: grows_def)

lemma grows_add:
  assumes "grows P st st'" and "st' n = None" and "P n y"
  shows "grows P st (st'(n \<mapsto> y))"
  unfolding grows_def
proof
  fix m
  show "(st'(n \<mapsto> y)) m = st m \<or> st m = None \<and> (\<exists>z. (st'(n \<mapsto> y)) m = Some z \<and> P m z)"
    using grows_at [OF assms(1), of m] assms(2,3) by (cases "m = n") auto
qed

lemma growsD: "grows P st st' \<Longrightarrow> st' n = Some y \<Longrightarrow> st n = Some y \<or> st n = None \<and> P n y"
  using grows_at [of P st st' n] by auto

lemma grows_old: "grows P st st' \<Longrightarrow> st n = Some y \<Longrightarrow> st' n = Some y"
  using grows_at [of P st st' n] by auto

definition drive_image ::
  "('w, 'b) migrate_env_scheme \<Rightarrow> Args \<Rightarrow> (string \<Rightarrow> DirectCSIDrive option) \<Rightarrow> string \<Rightarrow> Drive \<Rightarrow> bool" where
  "drive_image E args l n y \<longleftrightarrow> \<not> argDryRun args \<and>
     (\<exists>x rv. l (objName x) = Some x \<and> active x \<and> fsuuid_of x = n \<and> IsUUID n \<and> y = (migrated_drive E x)\<lparr>ResourceVersion := rv\<rparr>)"

definition volume_image ::
  "('w, 'b) migrate_env_scheme \<Rightarrow> Args \<Rightarrow> (string \<times> string) list \<Rightarrow> (string \<Rightarrow> DirectCSIVolume option) \<Rightarrow> string \<Rightarrow> Volume \<Rightarrow> bool" where
  "volume_image E args dm l n y \<longleftrightarrow> \<not> argDryRun args \<and>
     (\<exists>x f rv. l n = Some x \<and> objName x = n \<and> map_of dm (lvDrive (legacyVolumeStatus x)) = Some f \<and>
        y = (migrated_volume E f x)\<lparr>ResourceVersion := rv\<rparr>)"

text \<open>The server delivers every object within the page bound, while the legacy objects stay the same.\<close>

definition serves ::
  "nat \<Rightarrow> ('w \<Rightarrow> 'v) \<Rightarrow> ('w, 'a ObjectMeta_scheme) api \<Rightarrow> ('w \<Rightarrow> string \<Rightarrow> 'a ObjectMeta_scheme option) \<Rightarrow> 'w \<Rightarrow> bool" where
  "serves fuel view A st w \<longleftrightarrow> (\<exists>pages n items.
     (\<forall>v c. view v = view w \<longrightarrow> fst (api_List A \<lparr> Limit = 1000, LabelSelector = [], Continue = c \<rparr> v) = Inr (pages c)) \<and>
     page_chain pages [] n items \<and> n \<le> fuel \<and> (\<forall>m x. st w m = Some x \<longrightarrow> x \<in> set items))"

definition drive_done ::
  "('w, 'b) migrate_env_scheme \<Rightarrow> (string \<times> string) list \<Rightarrow> (string \<Rightarrow> Drive option) \<Rightarrow> DirectCSIDrive \<Rightarrow> bool" where
  "drive_done E dm ds x \<longleftrightarrow> IsUUID (fsuuid_of x) \<and> map_of dm (objName x) = Some (fsuuid_of x) \<and>
     (\<exists>rv. ds (fsuuid_of x) = Some ((migrated_drive E x)\<lparr>ResourceVersion := rv\<rparr>))"

definition volume_done ::
  "('w, 'b) migrate_env_scheme \<Rightarrow> (string \<times> string) list \<Rightarrow> (string \<Rightarrow> Volume option) \<Rightarrow> DirectCSIVolume \<Rightarrow> bool" where
  "volume_done E dm vs x \<longleftrightarrow> (\<exists>f rv. map_of dm (lvDrive (legacyVolumeStatus x)) = Some f \<and>
     vs (objName x) = Some ((migrated_volume E f x)\<lparr>ResourceVersion := rv\<rparr>))"

locale migration = cluster E dstore vstore + ld: object_api "legacyDrives E" ldstore + lv: object_api "legacyVolumes E" lvstore
  for E :: "('w, 'b) migrate_env_scheme" and dstore :: "'w \<Rightarrow> string \<Rightarrow> Drive option"
    and vstore :: "'w \<Rightarrow> string \<Rightarrow> Volume option" and ldstore :: "'w \<Rightarrow> string \<Rightarrow> DirectCSIDrive option"
    and lvstore :: "'w \<Rightarrow> string \<Rightarrow> DirectCSIVolume option" +
  fixes lview :: "'w \<Rightarrow> 'v"
  assumes new_step_legacy: "api_step (DriveClient E) w w' \<or> api_step (VolumeClient E) w w' \<Longrightarrow> lview w' = lview w"
    and legacy_list_view: "keeps lview (api_List (legacyDrives E) opts)" "keeps lview (api_List (legacyVolumes E) opts)"
    and legacy_view: "lview w' = lview w \<Longrightarrow> ldstore w' = ldstore w \<and> lvstore w' = lvstore w"
    and legacy_step_new: "api_step (legacyDrives E) w w' \<or> api_step (legacyVolumes E) w w' \<Longrightarrow> dstore w' = dstore w \<and> vstore w' = vstore w"
    and legacy_step_drives: "api_step (legacyVolumes E) w w' \<Longrightarrow> ldstore w' = ldstore w"
    and others_keep: "keeps (\<lambda>w. (dstore w, vstore w, lview w)) (groupVersionKind E kind)"
      "keeps (\<lambda>w. (dstore w, vstore w, lview w)) (sendMessage E)"
      "keeps (\<lambda>w. (dstore w, vstore w, lview w)) (writeObject E)"
      "keeps (\<lambda>w. (dstore w, vstore w, lview w)) (backupFile E file text)"
      "keeps (\<lambda>w. (dstore w, vstore w, lview w)) (newLegacyClient E)"
    and walk_sound: "(key, val) \<in> set (walk E m) \<Longrightarrow> m key = Some val"
begin

lemma drive_client_keeps: "api_step (DriveClient E) w w' \<Longrightarrow> (vstore w', lview w') = (vstore w, lview w)"
  using drive_step_volumes new_step_legacy by simp

lemma volume_client_keeps: "api_step (VolumeClient E) w w' \<Longrightarrow> (dstore w', lview w') = (dstore w, lview w)"
  using volume_step_drives new_step_legacy by simp

lemma send_keeps_volumes: "keeps (\<lambda>w. (vstore w, dstore w, lview w)) (sendMessage E)"
  using others_keep(2) by (simp add: keeps_def)

lemma migrate_drive_create:
  assumes "migrate_drive E args (Inr x) s w = (b, s', w')" and "active x \<and> IsUUID (fsuuid_of x) \<and> fsuuid_of x \<notin> set (msFSUUIDs s)"
  shows "create_new E args (DriveClient E) (objName x) (fsuuid_of x) (migrated_drive E x) (Drive_IsMigrated E)
    (\<lambda>s. s\<lparr>msDriveMap := filter (\<lambda>(n, _). n \<noteq> objName x) (msDriveMap s)\<rparr>)
    (s\<lparr>msFSUUIDs := StringSet_Set (fsuuid_of x) (msFSUUIDs s), msDriveMap := assign_key (objName x) (fsuuid_of x) (msDriveMap s)\<rparr>) w =
    (b, s', w')"
  using assms by (auto simp: migrate_drive_def active_def Let_def StringSet_Exist_def split: if_splits)

lemma migrate_drive_step:
  assumes "migrate_drive E args (Inr x) s w = (b, s', w')"
  shows "b \<and> vstore w' = vstore w \<and> lview w' = lview w \<and> (error_free s' \<longrightarrow> error_free s) \<and>
    (dstore w' = dstore w \<and> (error_free s' \<and> \<not> argDryRun args \<longrightarrow> \<not> active x \<and> s' = s) \<or>
     active x \<and> IsUUID (fsuuid_of x) \<and> \<not> argDryRun args \<and> fsuuid_of x \<notin> set (msFSUUIDs s) \<and> dstore w (fsuuid_of x) = None \<and>
     (\<exists>rv. dstore w' = (dstore w)(fsuuid_of x \<mapsto> (migrated_drive E x)\<lparr>ResourceVersion := rv\<rparr>)) \<and>
     s' = s\<lparr>msFSUUIDs := StringSet_Set (fsuuid_of x) (msFSUUIDs s), msDriveMap := assign_key (objName x) (fsuuid_of x) (msDriveMap s)\<rparr>)"
proof (cases "active x \<and> IsUUID (fsuuid_of x) \<and> fsuuid_of x \<notin> set (msFSUUIDs s)")
  case False
  then show ?thesis
    using assms by (auto simp: migrate_drive_def active_def Let_def StringSet_Exist_def split: if_splits)
next
  case True
  let ?s = "s\<lparr>msFSUUIDs := StringSet_Set (fsuuid_of x) (msFSUUIDs s), msDriveMap := assign_key (objName x) (fsuuid_of x) (msDriveMap s)\<rparr>"
  let ?undo = "\<lambda>s. s\<lparr>msDriveMap := filter (\<lambda>(n, _). n \<noteq> objName x) (msDriveMap s)\<rparr>"
  have e: "error_free ?s = error_free s" by (simp add: error_free_def)
  have u: "\<not> error_free (?undo (new_error n err s))" for n err s using errors_kept(2) [of n err s] by (simp add: error_free_def)
  show ?thesis
    using d.create_new_effect [OF drive_client_keeps others_keep(2) migrated_names(1) migrate_drive_create [OF assms True]] True e u by auto
qed

lemma migrate_drive_cases:
  assumes "migrate_drive E args (Inr x) s w = (b, s', w')"
  obtains (same) "dstore w' = dstore w" "error_free s' \<and> \<not> argDryRun args \<longrightarrow> \<not> active x \<and> s' = s"
  | (new) rv where "active x" "IsUUID (fsuuid_of x)" "\<not> argDryRun args" "dstore w (fsuuid_of x) = None"
      "dstore w' = (dstore w)(fsuuid_of x \<mapsto> (migrated_drive E x)\<lparr>ResourceVersion := rv\<rparr>)"
      "msDriveMap s' = assign_key (objName x) (fsuuid_of x) (msDriveMap s)"
  using migrate_drive_step [OF assms] that by (elim conjE disjE exE) simp_all

lemma migrate_volume_step:
  assumes "migrate_volume E args dm (Inr x) s w = (b, s', w')"
  shows "b \<and> dstore w' = dstore w \<and> lview w' = lview w \<and> (error_free s' \<longrightarrow> error_free s) \<and>
    (vstore w' = vstore w \<and> (error_free s' \<longrightarrow> argDryRun args) \<or>
     \<not> argDryRun args \<and> vstore w (objName x) = None \<and> s' = s \<and>
     (\<exists>f rv. map_of dm (lvDrive (legacyVolumeStatus x)) = Some f \<and>
        vstore w' = (vstore w)(objName x \<mapsto> (migrated_volume E f x)\<lparr>ResourceVersion := rv\<rparr>)))"
proof (cases "map_of dm (lvDrive (legacyVolumeStatus x))")
  case None
  then show ?thesis using assms by (auto simp: migrate_volume_def)
next
  case (Some f)
  have run: "create_new E args (VolumeClient E) (objName x) (objName x) (migrated_volume E f x) (Volume_IsMigrated E) (\<lambda>s. s) s w = (b, s', w')"
    using assms Some by (simp add: migrate_volume_def)
  show ?thesis
    using v.create_new_effect [OF volume_client_keeps send_keeps_volumes migrated_names(2) run] Some by auto
qed

lemma migrate_volume_cases:
  assumes "migrate_volume E args dm (Inr x) s w = (b, s', w')"
  obtains (same) "vstore w' = vstore w" "error_free s' \<longrightarrow> argDryRun args"
  | (new) f rv where "\<not> argDryRun args" "vstore w (objName x) = None" "map_of dm (lvDrive (legacyVolumeStatus x)) = Some f"
      "vstore w' = (vstore w)(objName x \<mapsto> (migrated_volume E f x)\<lparr>ResourceVersion := rv\<rparr>)"
  using migrate_volume_step [OF assms] that by (elim conjE disjE exE) simp_all

lemma legacy_listing:
  "(dstore (snd (api_List (legacyDrives E) opts w)), vstore (snd (api_List (legacyDrives E) opts w)), lview (snd (api_List (legacyDrives E) opts w))) =
     (dstore w, vstore w, lview w)"
  "(dstore (snd (api_List (legacyVolumes E) opts w)), vstore (snd (api_List (legacyVolumes E) opts w)), lview (snd (api_List (legacyVolumes E) opts w))) =
     (dstore w, vstore w, lview w)"
proof -
  have "api_step (legacyDrives E) w (snd (api_List (legacyDrives E) opts w))"
      "api_step (legacyVolumes E) w (snd (api_List (legacyVolumes E) opts w))" unfolding api_step_def by blast+
  then show "(dstore (snd (api_List (legacyDrives E) opts w)), vstore (snd (api_List (legacyDrives E) opts w)), lview (snd (api_List (legacyDrives E) opts w))) =
       (dstore w, vstore w, lview w)"
    "(dstore (snd (api_List (legacyVolumes E) opts w)), vstore (snd (api_List (legacyVolumes E) opts w)), lview (snd (api_List (legacyVolumes E) opts w))) =
       (dstore w, vstore w, lview w)"
    using legacy_step_new legacy_list_view by (simp_all add: keeps_def)
qed

lemma migrateDrives_safe:
  assumes run: "migrateDrives E args w = (s', w')"
  shows "vstore w' = vstore w \<and> lview w' = lview w \<and> grows (drive_image E args (ldstore w)) (dstore w) (dstore w')"
proof -
  let ?I = "\<lambda>s v. vstore v = vstore w \<and> lview v = lview w \<and> grows (drive_image E args (ldstore w)) (dstore w) (dstore v)"
  show ?thesis
  proof (rule ld.list_legacy_inv [where I = ?I and \<sigma> = "ldstore w", OF _ _ _ run [unfolded migrateDrives_def]], goal_cases)
    case (1 r s v b s' v')
    show ?case
    proof (cases r)
      case (Inl e)
      then show ?thesis using 1 by (simp add: migrate_drive_def)
    next
      case (Inr x)
      note run1 = 1(1) [unfolded Inr]
      have x: "ldstore w (objName x) = Some x" using 1(3) Inr by simp
      from run1 have "grows (drive_image E args (ldstore w)) (dstore w) (dstore v')"
      proof (cases rule: migrate_drive_cases)
        case same
        then show ?thesis using 1(2) by simp
      next
        case (new rv)
        then have "drive_image E args (ldstore w) (fsuuid_of x) ((migrated_drive E x)\<lparr>ResourceVersion := rv\<rparr>)"
          using x unfolding drive_image_def by blast
        then show ?thesis unfolding new(5) using 1(2) new(4) by (intro grows_add) simp_all
      qed
      then show ?thesis using migrate_drive_step [OF run1] 1(2) by simp
    qed
  next
    case (2 s v opts)
    then show ?case using legacy_listing(1) [of opts v] by simp
  next
    case (3 s v)
    then show ?case using legacy_view by blast
  qed simp
qed

lemma migrateVolumes_safe:
  assumes run: "migrateVolumes E args dm w = (s', w')"
  shows "dstore w' = dstore w \<and> lview w' = lview w \<and> grows (volume_image E args dm (lvstore w)) (vstore w) (vstore w')"
proof -
  let ?I = "\<lambda>s v. dstore v = dstore w \<and> lview v = lview w \<and> grows (volume_image E args dm (lvstore w)) (vstore w) (vstore v)"
  show ?thesis
  proof (rule lv.list_legacy_inv [where I = ?I and \<sigma> = "lvstore w", OF _ _ _ run [unfolded migrateVolumes_def]], goal_cases)
    case (1 r s v b s' v')
    show ?case
    proof (cases r)
      case (Inl e)
      then show ?thesis using 1 by (simp add: migrate_volume_def)
    next
      case (Inr x)
      note run1 = 1(1) [unfolded Inr]
      have x: "lvstore w (objName x) = Some x" using 1(3) Inr by simp
      from run1 have "grows (volume_image E args dm (lvstore w)) (vstore w) (vstore v')"
      proof (cases rule: migrate_volume_cases)
        case same
        then show ?thesis using 1(2) by simp
      next
        case (new f rv)
        then have "volume_image E args dm (lvstore w) (objName x) ((migrated_volume E f x)\<lparr>ResourceVersion := rv\<rparr>)"
          using x unfolding volume_image_def by blast
        then show ?thesis unfolding new(4) using 1(2) new(2) by (intro grows_add) simp_all
      qed
      then show ?thesis using migrate_volume_step [OF run1] 1(2) by simp
    qed
  next
    case (2 s v opts)
    then show ?case using legacy_listing(2) [of opts v] by simp
  next
    case (3 s v)
    then show ?case using legacy_view by blast
  qed simp
qed

lemma drive_done_step:
  assumes "migrate_drive E args (Inr x) s w = (b, s', w')" and "error_free s'" and "\<not> argDryRun args" and "active y"
    and "y = x \<or> (error_free s \<longrightarrow> drive_done E (msDriveMap s) (dstore w) y) \<and> (objName y = objName x \<longrightarrow> y = x)"
  shows "drive_done E (msDriveMap s') (dstore w') y"
  using assms(1)
proof (cases rule: migrate_drive_cases)
  case same
  then have "s' = s" "y \<noteq> x" using assms(2-4) by auto
  then show ?thesis using same(1) assms(2,5) by simp
next
  case (new rv)
  show ?thesis
  proof (cases "y = x")
    case True
    then show ?thesis unfolding drive_done_def using new by (intro conjI exI [of _ rv]) simp_all
  next
    case False
    then have y: "drive_done E (msDriveMap s) (dstore w) y" "objName y \<noteq> objName x"
      using assms(2,5) migrate_drive_step [OF assms(1)] by blast+
    then have "fsuuid_of y \<noteq> fsuuid_of x" using new(4) unfolding drive_done_def by (metis option.distinct(1))
    then show ?thesis using y new(5,6) unfolding drive_done_def by simp
  qed
qed

lemma migrateDrives_complete:
  assumes run: "migrateDrives E args w = (s', w')" and ok: "error_free s'" and dry: "\<not> argDryRun args"
    and "serves (pageFuel E) lview (legacyDrives E) ldstore w" and "ldstore w m = Some x" and "active x"
  shows "drive_done E (msDriveMap s') (dstore w') x"
proof -
  obtain pages n items where sv:
      "\<And>v c. lview v = lview w \<Longrightarrow> fst (api_List (legacyDrives E) \<lparr> Limit = 1000, LabelSelector = [], Continue = c \<rparr> v) = Inr (pages c)"
      "page_chain pages [] n items" "n \<le> pageFuel E" "x \<in> set items"
    using assms(4,5) unfolding serves_def by blast
  let ?I = "\<lambda>xs s v. lview v = lview w \<and> (\<forall>x \<in> set xs. ldstore w (objName x) = Some x) \<and>
    (error_free s \<longrightarrow> (\<forall>x \<in> set xs. active x \<longrightarrow> drive_done E (msDriveMap s) (dstore v) x))"
  have "?I items s' w'"
  proof (rule ld.list_legacy_all [where I = ?I and k = "migrate_drive E args" and \<sigma> = "ldstore w" and s = no_errors and w = w,
        OF _ _ _ _ sv(2,3)], goal_cases)
    case (1 xs x s v b s' v')
    have "drive_done E (msDriveMap s') (dstore v') y" if "y \<in> set (xs @ [x])" "active y" "error_free s'" for y
    proof (rule drive_done_step [OF 1(1) that(3) dry that(2)])
      show "y = x \<or> (error_free s \<longrightarrow> drive_done E (msDriveMap s) (dstore v) y) \<and> (objName y = objName x \<longrightarrow> y = x)"
        using 1(2,3) that(1,2) by (cases "y = x") auto
    qed
    moreover have "\<forall>y \<in> set (xs @ [x]). ldstore w (objName y) = Some y" using 1(2,3) by simp
    ultimately show ?case using migrate_drive_step [OF 1(1)] 1(2) by simp
  next
    case (2 xs s v opts)
    then show ?case using legacy_listing(1) [of opts v] by simp
  next
    case (3 xs s v)
    then show ?case using legacy_view by blast
  next
    case (4 xs s v c)
    then show ?case using sv(1) by blast
  next
    case 6
    show ?case using run by (simp add: migrateDrives_def)
  qed simp
  then show ?thesis using ok assms(6) sv(4) by blast
qed

lemma migrateVolumes_complete:
  assumes run: "migrateVolumes E args dm w = (s', w')" and ok: "error_free s'" and dry: "\<not> argDryRun args"
    and "serves (pageFuel E) lview (legacyVolumes E) lvstore w" and "lvstore w m = Some x"
  shows "volume_done E dm (vstore w') x"
proof -
  obtain pages n items where sv:
      "\<And>v c. lview v = lview w \<Longrightarrow> fst (api_List (legacyVolumes E) \<lparr> Limit = 1000, LabelSelector = [], Continue = c \<rparr> v) = Inr (pages c)"
      "page_chain pages [] n items" "n \<le> pageFuel E" "x \<in> set items"
    using assms(4,5) unfolding serves_def by blast
  let ?I = "\<lambda>xs s v. lview v = lview w \<and> (error_free s \<longrightarrow> (\<forall>x \<in> set xs. volume_done E dm (vstore v) x))"
  have "?I items s' w'"
  proof (rule lv.list_legacy_all [where I = ?I and k = "migrate_volume E args dm" and \<sigma> = "lvstore w" and s = no_errors and w = w,
        OF _ _ _ _ sv(2,3)], goal_cases)
    case (1 xs x s v b s' v')
    note st = migrate_volume_step [OF 1(1)]
    have "volume_done E dm (vstore v') y" if y: "y \<in> set (xs @ [x])" and e: "error_free s'" for y
      using 1(1)
    proof (cases rule: migrate_volume_cases)
      case same
      then show ?thesis using e dry by simp
    next
      case (new f rv)
      show ?thesis
      proof (cases "y \<in> set xs")
        case True
        then have d: "volume_done E dm (vstore v) y" using 1(2) st e by simp
        then have "objName y \<noteq> objName x" using new(2) unfolding volume_done_def by (metis option.distinct(1))
        then show ?thesis using d new(4) unfolding volume_done_def by simp
      next
        case False
        then have "y = x" using y by simp
        then show ?thesis unfolding volume_done_def using new by (intro exI [of _ f] exI [of _ rv]) simp
      qed
    qed
    then show ?case using st 1(2) by simp
  next
    case (2 xs s v opts)
    then show ?case using legacy_listing(2) [of opts v] by simp
  next
    case (3 xs s v)
    then show ?case using legacy_view by blast
  next
    case (4 xs s v c)
    then show ?case using sv(1) by blast
  next
    case 6
    show ?case using run by (simp add: migrateVolumes_def)
  qed simp
  then show ?thesis using ok sv(4) by blast
qed

text \<open>The drive map holds active drives only, and the composed command.\<close>

lemma migrate_drive_map:
  assumes "migrate_drive E args (Inr x) s w = (b, s', w')" and "(n, f) \<in> set (msDriveMap s')"
  shows "(n, f) \<in> set (msDriveMap s) \<or> active x \<and> n = objName x \<and> f = fsuuid_of x"
proof (cases "active x \<and> IsUUID (fsuuid_of x) \<and> fsuuid_of x \<notin> set (msFSUUIDs s)")
  case False
  then show ?thesis
    using assms by (auto simp: migrate_drive_def active_def Let_def StringSet_Exist_def legacy_error_def split: if_splits)
next
  case True
  note effect = d.create_new_effect [OF drive_client_keeps others_keep(2) migrated_names(1) migrate_drive_create [OF assms(1) True]]
  let ?s = "s\<lparr>msFSUUIDs := StringSet_Set (fsuuid_of x) (msFSUUIDs s), msDriveMap := assign_key (objName x) (fsuuid_of x) (msDriveMap s)\<rparr>"
  have "\<exists>e. s' = ?s \<or> s' = legacy_error (objName x) e ?s \<or>
      s' = (new_error (fsuuid_of x) e ?s)\<lparr>msDriveMap := filter (\<lambda>(n, _). n \<noteq> objName x) (msDriveMap (new_error (fsuuid_of x) e ?s))\<rparr>"
    using effect by blast
  then have "set (msDriveMap s') \<subseteq> set (assign_key (objName x) (fsuuid_of x) (msDriveMap s))"
    by (auto simp: legacy_error_def new_error_def)
  then show ?thesis using assms(2) True set_assign_key [of "objName x" "fsuuid_of x" "msDriveMap s"] by blast
qed

lemma migrateDrives_map:
  assumes run: "migrateDrives E args w = (s', w')" and "map_of (msDriveMap s') n = Some f"
  shows "\<exists>x. ldstore w n = Some x \<and> active x \<and> fsuuid_of x = f"
proof -
  let ?I = "\<lambda>s v. lview v = lview w \<and> (\<forall>(n, f) \<in> set (msDriveMap s). \<exists>x. ldstore w n = Some x \<and> active x \<and> fsuuid_of x = f)"
  have "?I s' w'"
  proof (rule ld.list_legacy_inv [where I = ?I and \<sigma> = "ldstore w", OF _ _ _ run [unfolded migrateDrives_def]], goal_cases)
    case (1 r s v b s' v')
    show ?case
    proof (cases r)
      case (Inl e)
      then show ?thesis using 1 by (auto simp: migrate_drive_def)
    next
      case (Inr x)
      note run1 = 1(1) [unfolded Inr]
      have x: "ldstore w (objName x) = Some x" using 1(3) Inr by simp
      have "\<exists>y. ldstore w n = Some y \<and> active y \<and> fsuuid_of y = f" if "(n, f) \<in> set (msDriveMap s')" for n f
        using migrate_drive_map [OF run1 that]
      proof
        assume "(n, f) \<in> set (msDriveMap s)"
        from 1(2) [THEN conjunct2, THEN bspec, OF this] show ?thesis by simp
      next
        assume "active x \<and> n = objName x \<and> f = fsuuid_of x"
        then show ?thesis using x by simp
      qed
      then have "\<forall>(n, f) \<in> set (msDriveMap s'). \<exists>x. ldstore w n = Some x \<and> active x \<and> fsuuid_of x = f" by blast
      then show ?thesis using migrate_drive_step [OF run1, THEN conjunct2, THEN conjunct2, THEN conjunct1] 1(2) [THEN conjunct1] by simp
    qed
  next
    case (2 s v opts)
    then show ?case using legacy_listing(1) [of opts v] by simp
  next
    case (3 s v)
    then show ?case using legacy_view by blast
  qed (simp add: no_errors_def)
  from this [THEN conjunct2, THEN bspec, OF map_of_SomeD [OF assms(2)]] show ?thesis by simp
qed

abbreviation all_objects :: "'w \<Rightarrow> (string \<Rightarrow> Drive option) \<times> (string \<Rightarrow> Volume option) \<times> 'v" where
  "all_objects w \<equiv> (dstore w, vstore w, lview w)"

lemma probe_keeps: "keeps all_objects (GetGroupVersion E kind)"
  unfolding GetGroupVersion_def [abs_def] by (intro keeps_rules others_keep)

lemma progress_keeps: "keeps all_objects (progress_step E args)"
  unfolding progress_step_def [abs_def] send_progress_def [abs_def] by (intro keeps_rules others_keep)

lemma report_keeps: "keeps all_objects (report_errors E args errs b)"
  unfolding report_errors_def [abs_def] migrateLog_def [abs_def] by (intro keeps_rules others_keep)

lemmas migrate_keeps = keeps_rules probe_keeps progress_keeps report_keeps

lemma migrate_phases:
  assumes w1: "all_objects w1 = all_objects w" and d: "migrateDrives E args w1 = (ds, w2)"
    and w3: "all_objects w3 = all_objects w2" and v: "migrateVolumes E args (msDriveMap ds) w3 = (vs, w4)"
    and w': "all_objects w' = all_objects w4"
  shows "lview w' = lview w \<and> grows (drive_image E args (ldstore w)) (dstore w) (dstore w') \<and>
    grows (volume_image E args (msDriveMap ds) (lvstore w)) (vstore w) (vstore w')"
proof -
  have l: "ldstore w1 = ldstore w" "lvstore w3 = lvstore w"
    using legacy_view [of w1 w] legacy_view [of w3 w] migrateDrives_safe [OF d] w1 w3 by simp_all
  show ?thesis using migrateDrives_safe [OF d] migrateVolumes_safe [OF v] w1 w3 w' unfolding l by simp
qed

lemma installer_migrate_effect:
  assumes run: "installer_migrate E args inst w = (r, w')"
  shows "\<exists>dm. lview w' = lview w \<and> grows (drive_image E args (ldstore w)) (dstore w) (dstore w') \<and>
    grows (volume_image E args dm (lvstore w)) (vstore w) (vstore w') \<and>
    (\<forall>n f. map_of dm n = Some f \<longrightarrow> (\<exists>x. ldstore w n = Some x \<and> active x \<and> fsuuid_of x = f))"
    (is "\<exists>dm. ?P dm w'")
proof -
  have same: "?P [] v" if "all_objects v = all_objects w" for v using that by simp
  let ?tail = "\<lambda>ds vs w. call (progress_step E args w) (\<lambda>err w. (Inl err, w))
     (\<lambda>_ w. call (report_errors E args (msLegacyErrors ds) False w) (\<lambda>err w. (Inl err, w))
        (\<lambda>_ w. call (report_errors E args (msLegacyErrors vs) False w) (\<lambda>err w. (Inl err, w))
           (\<lambda>_ w. call (report_errors E args (msErrors ds) True w) (\<lambda>err w. (Inl err, w))
              (\<lambda>_ w. report_errors E args (msErrors vs) True w))))"
  have tail: "keeps all_objects (?tail ds vs)" for ds vs by (intro migrate_keeps)
  obtain r1 w1 where g1: "GetGroupVersion E ''DirectCSIDrive'' w = (r1, w1)" by fastforce
  obtain r2 w2 where g2: "GetGroupVersion E ''DirectCSIVolume'' w1 = (r2, w2)" by fastforce
  obtain ds w3 where d: "migrateDrives E args w2 = (ds, w3)" by fastforce
  obtain r4 w4 where p: "progress_step E args w3 = (r4, w4)" by fastforce
  obtain vs w5 where v: "migrateVolumes E args (msDriveMap ds) w4 = (vs, w5)" by fastforce
  have k: "all_objects w1 = all_objects w" "all_objects w2 = all_objects w" "all_objects w4 = all_objects w3"
    using keepsD [OF probe_keeps g1] keepsD [OF probe_keeps g2] keepsD [OF progress_keeps p] by simp_all
  have l: "ldstore w2 = ldstore w" using legacy_view [of w2 w] k(2) by simp
  have early: "?P [] x" if "all_objects x = all_objects w3" for x
    using migrateDrives_safe [OF d] that k(2) l by simp
  have late: "?P (msDriveMap ds) x" if "all_objects x = all_objects w5" for x
    using migrate_phases [OF k(2) d k(3) v that] migrateDrives_map [OF d] unfolding l by blast
  have t: "\<And>r x. ?tail ds vs w5 = (r, x) \<Longrightarrow> ?P (msDriveMap ds) x" using keepsD [OF tail] late by blast
  show ?thesis
  proof (cases "inst \<and> argDryRun args \<or> argDeclarative args \<or> \<not> argLegacy args \<or> isl r1 \<or> \<not> supported_version (projr r1) \<or>
      isl r2 \<or> \<not> supported_version (projr r2)")
    case True
    then have "w' \<in> {w, w1, w2}"
      using run g1 g2 by (cases r1; cases r2) (auto simp: installer_migrate_def split: if_splits)
    then show ?thesis using same k(1,2) by blast
  next
    case False
    then obtain v1 v2 where v12: "r1 = Inr v1" "r2 = Inr v2" "supported_version v1" "supported_version v2"
        "\<not> (inst \<and> argDryRun args)" "\<not> argDeclarative args" "argLegacy args"
      by (cases r1; cases r2) auto
    have run3: "(case msErr ds of Some err \<Rightarrow> (Inl err, w3) | None \<Rightarrow>
        call (progress_step E args w3) (\<lambda>err w. (Inl err, w)) (\<lambda>_ w. case migrateVolumes E args (msDriveMap ds) w of (vs, w) \<Rightarrow>
          case msErr vs of Some err \<Rightarrow> (Inl err, w) | None \<Rightarrow> ?tail ds vs w)) = (r, w')"
      using run v12 g1 g2 d by (simp add: installer_migrate_def)
    show ?thesis
    proof (cases "msErr ds \<noteq> None \<or> isl r4")
      case True
      then have "all_objects w' = all_objects w3" using run3 p k(3) by (cases "msErr ds"; cases r4) auto
      then show ?thesis using early by blast
    next
      case ok: False
      show ?thesis
      proof (cases "msErr vs")
        case None
        then have "?tail ds vs w5 = (r, w')" using run3 p ok v by (cases r4) simp_all
        then show ?thesis using t by blast
      next
        case (Some e)
        then have "w' = w5" using run3 p ok v by (cases r4) auto
        then show ?thesis using late by blast
      qed
    qed
  qed
qed

end

section \<open>The books of the migrated objects\<close>

definition legacyDataProtection :: string where "legacyDataProtection = LegacyGroupName @ ''/data-protection''"
definition legacyVolumePrefix :: string where "legacyVolumePrefix = LegacyGroupName @ ''.volume/''"

definition legacy_cap :: "(string \<Rightarrow> DirectCSIVolume option) \<Rightarrow> string \<Rightarrow> int" where
  "legacy_cap lvs u = (case lvs u of None \<Rightarrow> 0 | Some v \<Rightarrow> lvTotalCapacity (legacyVolumeStatus v))"

definition legacy_account :: "'a lib_scheme \<Rightarrow> (string \<Rightarrow> DirectCSIVolume option) \<Rightarrow> DirectCSIDrive \<Rightarrow> string list \<Rightarrow> bool" where
  "legacy_account L lvs x us \<longleftrightarrow>
     (let st = legacyDriveStatus x in
      ToLabelValue L (fsuuid_of x) = fsuuid_of x \<and> 0 \<le> ldFreeCapacity st \<and> 0 \<le> ldAllocatedCapacity st \<and>
      ldFreeCapacity st + ldAllocatedCapacity st \<le> ldTotalCapacity st \<and> ldTotalCapacity st < 2 ^ 63 \<and>
      distinct us \<and> Finalizers x = legacyDataProtection # map ((@) legacyVolumePrefix) us \<and>
      ldFreeCapacity st + (\<Sum>u \<leftarrow> us. legacy_cap lvs u) \<le> ldTotalCapacity st \<and>
      (\<forall>u \<in> set us. \<exists>v. lvs u = Some v \<and> lvDrive (legacyVolumeStatus v) = objName x))"

text \<open>The books of the previous driver: each active drive names its volumes in its finalizers, and
  they and the free space fit. No volume carries the drive label of the new driver.\<close>

definition legacy_ledger ::
  "'a lib_scheme \<Rightarrow> (string \<Rightarrow> DirectCSIDrive option) \<Rightarrow> (string \<Rightarrow> DirectCSIVolume option) \<Rightarrow> bool" where
  "legacy_ledger L lds lvs \<longleftrightarrow>
     (\<forall>n x. lds n = Some x \<and> active x \<longrightarrow> (\<exists>us. legacy_account L lvs x us)) \<and>
     (\<forall>u v. lvs u = Some v \<longrightarrow> 0 \<le> lvTotalCapacity (legacyVolumeStatus v) \<and> objLabels v DriveLabelKey = None)"

lemma rename_group_legacy [simp]: "rename_group (LegacyGroupName @ s) = GroupName @ s"
  by (simp add: rename_group_def)

lemma rename_group_cases: "rename_group k = GroupName @ s \<Longrightarrow> k = LegacyGroupName @ s \<or> k = GroupName @ s"
  by (auto simp: rename_group_def HasPrefix_iff split: if_splits)

lemma add_finalizers_mono: "set fs \<subseteq> set (fold add_finalizer xs fs)"
proof (induction xs arbitrary: fs)
  case (Cons x xs)
  have "set fs \<subseteq> set (add_finalizer x fs)" by (auto simp: add_finalizer_def Let_def)
  also have "\<dots> \<subseteq> set (fold add_finalizer xs (add_finalizer x fs))" by (rule Cons)
  finally show ?case by simp
qed simp

lemma add_finalizers_volumes:
  assumes "distinct us" and "\<forall>u \<in> set us. driveFinalizerVolumePrefix @ u \<notin> set fs"
  shows "fold add_finalizer (map ((@) legacyVolumePrefix) us) fs = fs @ map ((@) driveFinalizerVolumePrefix) us"
  using assms
proof (induction us arbitrary: fs)
  case (Cons u us)
  have "add_finalizer (legacyVolumePrefix @ u) fs = fs @ [driveFinalizerVolumePrefix @ u]"
    using Cons.prems(2) by (simp add: add_finalizer_def legacyVolumePrefix_def driveFinalizerVolumePrefix_def)
  then show ?case using Cons.prems Cons.IH [of "fs @ [driveFinalizerVolumePrefix @ u]"] by auto
qed simp

lemma migrated_labels_other:
  assumes "\<forall>k \<in> fst ` set kvs. k \<in> set dropped \<or> rename_group k \<noteq> key"
  shows "migrated_labels dropped kvs labels key = labels key"
  using assms
proof (induction kvs arbitrary: labels)
  case (Cons kv kvs)
  then show ?case by (cases kv) (auto simp: migrated_labels_def)
qed (simp add: migrated_labels_def)

lemma volumes_of_map: "volumes_of_finalizers (map ((@) driveFinalizerVolumePrefix) us) = us"
  by (induction us) simp_all

lemma migrated_drive_account:
  assumes "legacy_account L lvs x us" and "d = (migrated_drive E x)\<lparr>ResourceVersion := rv\<rparr>"
    and vs: "\<And>u. u \<in> set us \<Longrightarrow> \<exists>v. vs u = Some v \<and> protected_on (fsuuid_of x) v \<and> vTotalCapacity (volumeStatus v) = legacy_cap lvs u"
  shows "drive_account vs (fsuuid_of x) d"
proof -
  have f: "Finalizers d = driveFinalizerDataProtection # map ((@) driveFinalizerVolumePrefix) us"
    using assms(1,2) add_finalizers_volumes [of us "[driveFinalizerDataProtection]"]
    by (simp add: legacy_account_def Let_def migrated_drive_def NewDirectPVDrive_def Drive_SetMigratedLabel_def
        add_finalizer_def legacyDataProtection_def driveFinalizerDataProtection_def driveFinalizerVolumePrefix_def)
  then have us: "GetVolumes d = us" by (simp add: GetVolumes_def volumes_of_map)
  have st: "dFreeCapacity (driveStatus d) = ldFreeCapacity (legacyDriveStatus x)"
      "dAllocatedCapacity (driveStatus d) = ldAllocatedCapacity (legacyDriveStatus x)"
      "dTotalCapacity (driveStatus d) = ldTotalCapacity (legacyDriveStatus x)"
    using assms(2) by (simp_all add: migrated_drive_def Let_def NewDirectPVDrive_def Drive_SetMigratedLabel_def)
  have "(\<Sum>u \<leftarrow> us. cap_of vs u) = (\<Sum>u \<leftarrow> us. legacy_cap lvs u)"
    by (rule arg_cong [where f = sum_list], rule map_cong) (use vs in \<open>fastforce simp: cap_of_def\<close>)+
  then show ?thesis
    using assms(1) f us st vs by (auto simp: drive_account_def drive_finalizers_wf_iff capacity_ok_def booked_def legacy_account_def Let_def)
qed

lemma migrated_volume_fields:
  assumes "\<And>k v. (k, v) \<in> set (walk E (objLabels x)) \<Longrightarrow> objLabels x k = Some v" and "objLabels x DriveLabelKey = None"
  shows "protected_on f ((migrated_volume E f x)\<lparr>ResourceVersion := rv\<rparr>)"
    and "vTotalCapacity (volumeStatus ((migrated_volume E f x)\<lparr>ResourceVersion := rv\<rparr>)) = lvTotalCapacity (legacyVolumeStatus x)"
proof -
  let ?v = "Volume_SetMigratedLabel (NewDirectPVVolume (objName x) f (lvNodeName (legacyVolumeStatus x)) f
    (map_get (objLabels x) legacyDrivePathLabelKey) (lvTotalCapacity (legacyVolumeStatus x)))"
  have v: "objLabels ?v DriveLabelKey = Some f" "volumeFinalizerPurgeProtection \<in> set (Finalizers ?v)"
    by (auto simp: Volume_SetMigratedLabel_def Volume_SetLabel_def NewDirectPVVolume_def label_keys_distinct
        MigratedLabelKey_def DriveLabelKey_def NodeLabelKey_def DriveNameLabelKey_def VersionLabelKey_def CreatedByLabelKey_def)
  have "k \<in> set dropped_volume_labels \<or> rename_group k \<noteq> DriveLabelKey" if "k \<in> fst ` set (walk E (objLabels x))" for k
    using assms(1) [of k] that assms(2) rename_group_cases [of k "''/drive''"] by (auto simp: DriveLabelKey_def dropped_volume_labels_def)
  then show "protected_on f ((migrated_volume E f x)\<lparr>ResourceVersion := rv\<rparr>)"
    using v add_finalizers_mono [of "Finalizers ?v"] by (auto simp: protected_on_def migrated_volume_def Let_def migrated_labels_other)
  show "vTotalCapacity (volumeStatus ((migrated_volume E f x)\<lparr>ResourceVersion := rv\<rparr>)) = lvTotalCapacity (legacyVolumeStatus x)"
    by (simp add: migrated_volume_def Let_def Volume_SetMigratedLabel_def NewDirectPVVolume_def)
qed

lemma ledger_grows:
  assumes l: "ledger L (ds, vs)" and v: "grows P vs vs'" and d: "grows Q ds ds'"
    and new: "\<And>n d. ds' n = Some d \<Longrightarrow> Q n d \<Longrightarrow> objName d = n \<and> ToLabelValue L n = n \<and> drive_account vs' n d"
    and newv: "\<And>u v. P u v \<Longrightarrow> objName v = u \<and> 0 \<le> vTotalCapacity (volumeStatus v)"
  shows "ledger L (ds', vs')"
proof -
  have l': "ledger L (ds, vs')"
  proof (rule ledger_volumes [OF l])
    fix u assume "recorded ds u"
    then obtain v0 where v0: "vs u = Some v0" using ledger_recorded [OF l] by blast
    then show "\<exists>v v'. vs u = Some v \<and> vs' u = Some v' \<and> volume_kept v v'" using grows_old [OF v v0] by simp
  next
    fix u v1 assume "vs' u = Some v1"
    then show "objName v1 = u \<and> 0 \<le> vTotalCapacity (volumeStatus v1)"
      using growsD [OF v] ledger_volume [OF l] newv by blast
  qed
  have "objName y = n \<and> ToLabelValue L n = n \<and> drive_account vs' n y" if y: "ds' n = Some y" for n y
  proof (cases "ds n")
    case None
    then show ?thesis using growsD [OF d y] new [OF y] by simp
  next
    case (Some z)
    then have "z = y" using grows_old [OF d Some] y by simp
    then show ?thesis using l' Some by (simp add: ledger_def)
  qed
  then show ?thesis using l' by (simp add: ledger_def)
qed

context migration
begin

lemma migrate_ledger:
  assumes l: "ledger E (dstore w, vstore w)" and ll: "legacy_ledger E (ldstore w) (lvstore w)"
    and d: "migrateDrives E args w = (ds, w1)" and w2: "all_objects w2 = all_objects w1"
    and v: "migrateVolumes E args (msDriveMap ds) w2 = (vs, w')" and ok: "error_free vs"
    and sv: "serves (pageFuel E) lview (legacyVolumes E) lvstore w"
  shows "ledger E (dstore w', vstore w')"
proof (cases "argDryRun args")
  case True
  have "grows (\<lambda>_ _. False) (dstore w) (dstore w')" "grows (\<lambda>_ _. False) (vstore w) (vstore w')"
    using migrate_phases [OF refl d w2 v refl] True by (simp_all add: grows_def drive_image_def volume_image_def)
  then have "dstore w' = dstore w" "vstore w' = vstore w" by (auto simp: grows_def fun_eq_iff)
  then show ?thesis using l by simp
next
  case dry: False
  note g = migrate_phases [OF refl d w2 v refl]
  have lw2: "lview w2 = lview w" using w2 migrateDrives_safe [OF d] by simp
  then have st2: "ldstore w2 = ldstore w" "lvstore w2 = lvstore w" using legacy_view [of w2 w] by simp_all
  have sv2: "serves (pageFuel E) lview (legacyVolumes E) lvstore w2" using sv unfolding serves_def lw2 st2 .
  show ?thesis
  proof (rule ledger_grows [OF l g [THEN conjunct2, THEN conjunct2] g [THEN conjunct2, THEN conjunct1]])
    fix u y assume "volume_image E args (msDriveMap ds) (lvstore w) u y"
    then obtain x f rv where x: "lvstore w u = Some x" "objName x = u" "y = (migrated_volume E f x)\<lparr>ResourceVersion := rv\<rparr>"
      unfolding volume_image_def by blast
    have "objLabels x DriveLabelKey = None" "0 \<le> lvTotalCapacity (legacyVolumeStatus x)" using ll x(1) unfolding legacy_ledger_def by blast+
    then show "objName y = u \<and> 0 \<le> vTotalCapacity (volumeStatus y)"
      using migrated_volume_fields(2) [where E = E and x = x, OF walk_sound [of _ _ "objLabels x"]] x(2,3) by simp
  next
    fix n y assume "drive_image E args (ldstore w) n y"
    then obtain x rv where x: "ldstore w (objName x) = Some x" "active x" "fsuuid_of x = n" "y = (migrated_drive E x)\<lparr>ResourceVersion := rv\<rparr>"
      unfolding drive_image_def by blast
    obtain us where us: "legacy_account E (lvstore w) x us" using ll x(1,2) unfolding legacy_ledger_def by blast
    have "drive_account (vstore w') (fsuuid_of x) y"
    proof (rule migrated_drive_account [OF us x(4)])
      fix u assume "u \<in> set us"
      then obtain z where z: "lvstore w u = Some z" "lvDrive (legacyVolumeStatus z) = objName x"
        using us unfolding legacy_account_def Let_def by blast
      have "volume_done E (msDriveMap ds) (vstore w') z"
        using migrateVolumes_complete [OF v ok dry sv2, of u z] z(1) st2 by simp
      then obtain f rv' where f: "map_of (msDriveMap ds) (objName x) = Some f"
          "vstore w' (objName z) = Some ((migrated_volume E f z)\<lparr>ResourceVersion := rv'\<rparr>)"
        using z(2) unfolding volume_done_def by auto
      have fx: "f = fsuuid_of x" using migrateDrives_map [OF d f(1)] x(1) by auto
      have zl: "objLabels z DriveLabelKey = None" using ll z(1) unfolding legacy_ledger_def by blast
      have zn: "objName z = u" using lv.store_name z(1) .
      show "\<exists>v. vstore w' u = Some v \<and> protected_on (fsuuid_of x) v \<and> vTotalCapacity (volumeStatus v) = legacy_cap (lvstore w) u"
        using f(2) migrated_volume_fields [where E = E and x = z and f = f and rv = rv', OF walk_sound [of _ _ "objLabels z"] zl] z(1) unfolding zn fx by (simp add: legacy_cap_def)
    qed
    then show "objName y = n \<and> ToLabelValue E n = n \<and> drive_account (vstore w') n y"
      using us x(3,4) by (simp add: legacy_account_def Let_def)
  qed
qed

end

section \<open>Removal of the legacy objects\<close>

context object_api
begin

lemma remove_legacy_gone:
  "remove_legacy A xs w = (Inr (), w') \<Longrightarrow> store w' n = (if n \<in> objName ` set xs then None else store w n)"
proof (induction xs arbitrary: w)
  case (Cons x xs)
  obtain r1 w1 where u: "api_Update A (x\<lparr>Finalizers := []\<rparr>) w = (r1, w1)" by fastforce
  obtain r2 w2 where d: "api_Delete A (objName x) w1 = (r2, w2)" by fastforce
  obtain y where r1: "r1 = Inr y" using Cons.prems u by (cases r1) auto
  have r2: "r2 = Inr ()" and rest: "remove_legacy A xs w2 = (Inr (), w')" using Cons.prems u d r1 by (cases r2; auto)+
  obtain rv where s1: "store w1 = (store w)(objName x := (if DeletionTimestamp x \<noteq> None then None else Some (x\<lparr>Finalizers := [], ResourceVersion := rv\<rparr>)))"
    using update_ok u r1 by fastforce
  have "store w2 = (store w)(objName x := None)" using delete_ok [of "objName x" w1 "()" w2] d r2 s1 by (auto split: if_splits)
  then show ?case using Cons.IH [OF rest] by auto
qed simp

lemma remove_legacy_keeps:
  assumes "\<And>w w'. api_step A w w' \<Longrightarrow> F w' = F w"
  shows "keeps F (remove_legacy A xs)"
proof (induction xs)
  case Nil
  then show ?case by (simp add: keeps_def)
next
  case (Cons x xs)
  have "keeps F (api_Update A z)" "keeps F (api_Delete A n)" for z n
    using api_stepI [of A] by (auto intro!: keepsI assms)
  then show ?case unfolding remove_legacy.simps(2) [abs_def] using Cons by (intro keeps_rules)
qed

lemma remove_all_keeps:
  assumes step: "\<And>w w'. api_step A w w' \<Longrightarrow> F w' = F w" and "\<And>text. keeps F (write file text)"
    and run: "remove_all fuel A yaml write file w = (r, w')"
  shows "F w' = F w"
proof -
  obtain xs e w1 where l: "list_legacy fuel A collect ([], None) w = ((xs, e), w1)" by (metis surj_pair)
  have "F (snd (snd (snd (list_pages fuel A True (\<lambda>_ _ _. True) collect opts [] ([], None) w)))) = F w" for opts
    by (rule list_pages_frame [OF step])
  from this [of "\<lparr> Limit = 1000, LabelSelector = [], Continue = [] \<rparr>"] have f1: "F w1 = F w"
    using l by (auto simp: list_legacy_def split: prod.splits)
  show ?thesis
  proof (cases "e = None \<and> xs \<noteq> []")
    case False
    then show ?thesis using run l f1 by (cases e) (auto simp: remove_all_def split: if_splits)
  next
    case True
    show ?thesis
    proof (cases "yaml xs")
      case (Inl err)
      then show ?thesis using run l f1 True by (auto simp: remove_all_def)
    next
      case (Inr yml)
      have "keeps F (\<lambda>w. call (write file yml w) (\<lambda>err w. (Inl (Wrap ''unable to write YAML'' err), w))
          (\<lambda>_ w. call (remove_legacy A xs w) (\<lambda>err w. (Inl err, w)) (\<lambda>_ w. (Inr True, w))))"
        using assms(2) remove_legacy_keeps [of F, OF step] by (intro keeps_rules)
      from keepsD [OF this] show ?thesis using run l f1 True Inr by (auto simp: remove_all_def)
    qed
  qed
qed

lemma remove_all_gone:
  assumes run: "remove_all fuel A yaml write file w = (Inr b, w')" and sv: "serves fuel view A store w"
    and reads: "\<And>opts. keeps view (api_List A opts)" and view: "\<And>v. view v = view w \<Longrightarrow> store v = store w"
    and wr: "\<And>text. keeps store (write file text)"
  shows "store w' n = None"
proof -
  obtain pages m items where pg:
      "\<And>v c. view v = view w \<Longrightarrow> fst (api_List A \<lparr> Limit = 1000, LabelSelector = [], Continue = c \<rparr> v) = Inr (pages c)"
      "page_chain pages [] m items" "m \<le> fuel" "\<And>k x. store w k = Some x \<Longrightarrow> x \<in> set items"
    using sv unfolding serves_def by blast
  obtain s1 w1 where l: "list_legacy fuel A collect ([], None) w = (s1, w1)" by fastforce
  let ?I = "\<lambda>xs s v. view v = view w \<and> s = (xs, None)"
  have "?I items s1 w1"
  proof (rule list_legacy_all [where I = ?I and k = collect and \<sigma> = "store w" and s = "([], None)" and w = w, OF _ _ _ _ pg(2,3)], goal_cases)
    case (1 xs x s v b s' v')
    then show ?case by (auto simp: receive_def collect_step_def)
  next
    case (2 xs s v opts)
    then show ?case using reads [of opts] by (simp add: keeps_def)
  next
    case (4 xs s v c)
    then show ?case using pg(1) by blast
  next
    case (3 xs s v)
    then show ?case using view by blast
  next
    case 6
    show ?case by (rule l)
  qed simp
  then have s1: "s1 = (items, None)" and w1: "store w1 = store w" using view [of w1] by simp_all
  show ?thesis
  proof (cases "items = []")
    case True
    then show ?thesis using run l s1 w1 pg(4) by (cases "store w n") (auto simp: remove_all_def)
  next
    case False
    then obtain yml w2 where y: "write file yml w1 = (Inr (), w2)" and rm: "remove_legacy A items w2 = (Inr (), w')"
      using run l s1 by (auto simp: remove_all_def split: sum.splits elim!: callE)
    have "store w2 = store w" using keepsD [OF wr y] w1 by simp
    then show ?thesis using remove_legacy_gone [OF rm, of n] pg(4) [of n] store_name [of w n]
      by (cases "store w n") auto
  qed
qed

end

context migration
begin

lemma serves_cong: "lview v = lview w \<Longrightarrow> serves (pageFuel E) lview (legacyDrives E) ldstore v = serves (pageFuel E) lview (legacyDrives E) ldstore w"
  using legacy_view [of v w] by (simp add: serves_def)

lemma Migrate_gone:
  assumes run: "Migrate E args w = (Inr (), w')" and retain: "\<not> maRetain args"
    and sv: "serves (pageFuel E) lview (legacyDrives E) ldstore w"
  shows "ldstore w' n = None \<and> (dstore w m = Some d \<longrightarrow> dstore w' m = Some d)"
proof -
  let ?a = "\<lparr> argQuiet = maQuiet args, argDryRun = False, argDeclarative = False, argLegacy = True, argProgressCh = False, argObjectWriter = False \<rparr>"
  obtain r0 w0 where c: "newLegacyClient E w = (r0, w0)" by fastforce
  obtain r1 w1 where m: "installer_migrate E ?a False w0 = (r1, w1)" by fastforce
  obtain r2 w2 where rd: "RemoveAllDrives E (maDrivesBackupFile args) w1 = (r2, w2)" by fastforce
  obtain r3 w3 where rv: "RemoveAllVolumes E (maVolumesBackupFile args) w2 = (r3, w3)" by fastforce
  have "(\<exists>b. r2 = Inr b) \<and> w' = w3"
    using run retain c m rd rv by (cases r0; cases r1; cases r2; cases r3) (auto simp: Migrate_def split: if_splits)
  then obtain b where r2: "r2 = Inr b" and w3: "w' = w3" by blast
  have k0: "all_objects w0 = all_objects w" using keepsD [OF others_keep(5) c] .
  obtain dm where "lview w1 = lview w0" and g1: "grows (drive_image E ?a (ldstore w0)) (dstore w0) (dstore w1)"
    using installer_migrate_effect [OF m] by (elim exE conjE)
  then have l1: "lview w1 = lview w" using k0 by simp
  have d1: "dstore w m = Some d \<longrightarrow> dstore w1 m = Some d" using grows_old [OF g1] k0 by simp
  have bk: "keeps ldstore (backupFile E fn yml)" "keeps dstore (backupFile E fn yml)" for fn yml
  proof -
    have "keeps lview (backupFile E fn yml)" using others_keep(4) [of fn yml] by (simp add: keeps_def)
    then show "keeps ldstore (backupFile E fn yml)" using legacy_view by (meson keeps_def)
    show "keeps dstore (backupFile E fn yml)" using others_keep(4) [of fn yml] by (simp add: keeps_def)
  qed
  have "ldstore w2 n = None"
  proof (rule ld.remove_all_gone [OF rd [unfolded RemoveAllDrives_def r2]])
    show "serves (pageFuel E) lview (legacyDrives E) ldstore w1" using sv serves_cong [OF l1] by simp
    show "\<And>v. lview v = lview w1 \<Longrightarrow> ldstore v = ldstore w1" using legacy_view by blast
  qed (rule legacy_list_view(1), rule bk(1))
  moreover have "ldstore w3 = ldstore w2"
    by (rule lv.remove_all_keeps [OF legacy_step_drives bk(1) rv [unfolded RemoveAllVolumes_def]])
  moreover have "dstore w2 = dstore w1"
    by (rule ld.remove_all_keeps [where F = dstore, OF _ bk(2) rd [unfolded RemoveAllDrives_def]]) (use legacy_step_new in blast)
  moreover have "dstore w3 = dstore w2"
    by (rule lv.remove_all_keeps [where F = dstore, OF _ bk(2) rv [unfolded RemoveAllVolumes_def]]) (use legacy_step_new in blast)
  ultimately show ?thesis using w3 d1 by simp
qed

end

section \<open>Properties\<close>

text \<open>C26. Migration never writes over an object. Whatever the server answers, and
  however the command ends, every drive and volume that existed is what it was, the legacy objects are
  untouched, and every new object is the image of a legacy one: a drive, of an active legacy drive with that
  filesystem UUID; a volume, of the legacy volume of its name, on the drive its legacy drive became. A dry
  run changes nothing.\<close>

theorem installer_migrate_safe:
  assumes "migration E dstore vstore ldstore lvstore lview" and "installer_migrate E args inst w = (r, w')"
  shows "lview w' = lview w \<and>
    (\<forall>n d. dstore w n = Some d \<longrightarrow> dstore w' n = Some d) \<and> (\<forall>n v. vstore w n = Some v \<longrightarrow> vstore w' n = Some v) \<and>
    (\<forall>n d. dstore w n = None \<and> dstore w' n = Some d \<longrightarrow>
       (\<exists>x rv. ldstore w (objName x) = Some x \<and> active x \<and> fsuuid_of x = n \<and> IsUUID n \<and>
          d = (migrated_drive E x)\<lparr>ResourceVersion := rv\<rparr>)) \<and>
    (\<forall>n v. vstore w n = None \<and> vstore w' n = Some v \<longrightarrow>
       (\<exists>x y rv. lvstore w n = Some x \<and> ldstore w (lvDrive (legacyVolumeStatus x)) = Some y \<and> active y \<and>
          v = (migrated_volume E (fsuuid_of y) x)\<lparr>ResourceVersion := rv\<rparr>)) \<and>
    (argDryRun args \<longrightarrow> dstore w' = dstore w \<and> vstore w' = vstore w)"
proof -
  obtain dm where e: "lview w' = lview w" "grows (drive_image E args (ldstore w)) (dstore w) (dstore w')"
      "grows (volume_image E args dm (lvstore w)) (vstore w) (vstore w')"
      "\<And>n f. map_of dm n = Some f \<Longrightarrow> \<exists>x. ldstore w n = Some x \<and> active x \<and> fsuuid_of x = f"
    using migration.installer_migrate_effect [OF assms] by blast
  have "\<exists>x rv. ldstore w (objName x) = Some x \<and> active x \<and> fsuuid_of x = n \<and> IsUUID n \<and> d = (migrated_drive E x)\<lparr>ResourceVersion := rv\<rparr>"
    if "dstore w n = None" "dstore w' n = Some d" for n d
    using growsD [OF e(2) that(2)] that(1) unfolding drive_image_def by auto
  moreover have "\<exists>x y rv. lvstore w n = Some x \<and> ldstore w (lvDrive (legacyVolumeStatus x)) = Some y \<and> active y \<and>
      v = (migrated_volume E (fsuuid_of y) x)\<lparr>ResourceVersion := rv\<rparr>"
    if n: "vstore w n = None" "vstore w' n = Some v" for n v
  proof -
    obtain x f rv where "lvstore w n = Some x" "map_of dm (lvDrive (legacyVolumeStatus x)) = Some f"
        "v = (migrated_volume E f x)\<lparr>ResourceVersion := rv\<rparr>"
      using growsD [OF e(3) n(2)] n(1) unfolding volume_image_def by auto
    then show ?thesis using e(4) by blast
  qed
  moreover have "dstore w' = dstore w \<and> vstore w' = vstore w" if "argDryRun args"
    using e(2,3) that by (auto simp: grows_def drive_image_def volume_image_def fun_eq_iff)
  ultimately show ?thesis using e(1) grows_old [OF e(2)] grows_old [OF e(3)] by blast
qed

text \<open>C25. A migration keeps the books. From a balanced cluster, when the
  accounts of the previous driver balance and no volume was refused, the books of the migrated cluster
  balance: every drive that was migrated names its volumes, they exist, are protected and fit it. When
  no drive was refused either, every active legacy drive and every legacy volume has its image.\<close>

theorem migration_ledger:
  assumes m: "migration E dstore vstore ldstore lvstore lview"
    and d: "migrateDrives E args w = (ds, w1)"
    and v: "migrateVolumes E args (msDriveMap ds) (snd (progress_step E args w1)) = (vs, w')"
    and "error_free vs" and "\<not> argDryRun args"
    and "serves (pageFuel E) lview (legacyDrives E) ldstore w" and "serves (pageFuel E) lview (legacyVolumes E) lvstore w"
    and "ledger E (dstore w, vstore w)" and "legacy_ledger E (ldstore w) (lvstore w)"
  shows "ledger E (dstore w', vstore w') \<and>
    (error_free ds \<longrightarrow> (\<forall>n x. ldstore w n = Some x \<and> active x \<longrightarrow>
       (\<exists>rv. dstore w' (fsuuid_of x) = Some ((migrated_drive E x)\<lparr>ResourceVersion := rv\<rparr>)))) \<and>
    (\<forall>n x. lvstore w n = Some x \<longrightarrow> (\<exists>f rv. vstore w' n = Some ((migrated_volume E f x)\<lparr>ResourceVersion := rv\<rparr>)))"
proof -
  let ?w2 = "snd (progress_step E args w1)"
  have w2: "(dstore ?w2, vstore ?w2, lview ?w2) = (dstore w1, vstore w1, lview w1)"
    using migration.progress_keeps [OF m, of args] by (simp add: keeps_def)
  note safe = migration.migrateDrives_safe [OF m d]
  have lv: "lview ?w2 = lview w" using w2 safe by simp
  then have st: "lvstore ?w2 = lvstore w" using migration.legacy_view [OF m, of ?w2 w] by simp
  have sv: "serves (pageFuel E) lview (legacyVolumes E) lvstore ?w2" using assms(7) unfolding serves_def lv st .
  have "dstore w' = dstore w1" using migration.migrateVolumes_safe [OF m v] w2 by simp
  then have "\<exists>rv. dstore w' (fsuuid_of x) = Some ((migrated_drive E x)\<lparr>ResourceVersion := rv\<rparr>)"
    if "error_free ds" "ldstore w n = Some x" "active x" for n x
    using migration.migrateDrives_complete [OF m d that(1) assms(5,6) that(2,3)] by (simp add: drive_done_def)
  moreover have "\<exists>f rv. vstore w' n = Some ((migrated_volume E f x)\<lparr>ResourceVersion := rv\<rparr>)" if x: "lvstore w n = Some x" for n x
  proof -
    have "objName x = n" using object_api.store_name [OF migration.axioms(3) [OF m]] x .
    then show ?thesis using migration.migrateVolumes_complete [OF m v assms(4,5) sv, of n x] x st by (auto simp: volume_done_def)
  qed
  ultimately show ?thesis using migration.migrate_ledger [OF m assms(8,9) d w2 v assms(4,7)] by blast
qed


section \<open>The reference store with legacy objects\<close>

record mworld = world +
  wLegacyDrives :: "DirectCSIDrive list"
  wLegacyVolumes :: "DirectCSIVolume list"

definition walk_keys :: "string list" where
  "walk_keys = [LegacyGroupName @ ''/node'', LegacyGroupName @ ''/drive-path'', LegacyGroupName @ ''/tenant'', ''app'']"

definition store_migrate :: "mworld migrate_env" where
  "store_migrate =
     \<lparr> IsValidLabelValue = IsValidLabelValue sample_lib,
       IsQualifiedName = IsQualifiedName sample_lib,
       TitleCase = TitleCase sample_lib,
       DriveClient = DriveClient store_client,
       VolumeClient = VolumeClient store_client,
       NodeClient = NodeClient store_client,
       InitRequestClient = InitRequestClient store_client,
       RetryOnConflict = RetryOnConflict store_client,
       Now = Now store_client, pageFuel = 1,
       legacyDrives = store_api wLegacyDrives (\<lambda>xs w. w\<lparr>wLegacyDrives := xs\<rparr>),
       legacyVolumes = store_api wLegacyVolumes (\<lambda>xs w. w\<lparr>wLegacyVolumes := xs\<rparr>),
       newLegacyClient = (\<lambda>w. (Inr (), w)),
       groupVersionKind = (\<lambda>kind w. (Inr ''v1beta5'', w)),
       IsNoMatchError = (\<lambda>_. False),
       walk = (\<lambda>m. List.map_filter (\<lambda>k. map_option (Pair k) (m k)) walk_keys),
       sendMessage = (\<lambda>w. (True, w)),
       writeObject = (\<lambda>w. (Inr (), w)),
       drivesYAML = (\<lambda>_. Inr []),
       volumesYAML = (\<lambda>_. Inr []),
       backupFile = (\<lambda>_ _ w. (Inr (), w)) \<rparr>"

definition world_legacy_drives :: "mworld \<Rightarrow> string \<Rightarrow> DirectCSIDrive option" where
  "world_legacy_drives w = lookup_obj (wLegacyDrives w)"

definition world_legacy_volumes :: "mworld \<Rightarrow> string \<Rightarrow> DirectCSIVolume option" where
  "world_legacy_volumes w = lookup_obj (wLegacyVolumes w)"

definition world_legacy :: "mworld \<Rightarrow> DirectCSIDrive list \<times> DirectCSIVolume list" where
  "world_legacy w = (wLegacyDrives w, wLegacyVolumes w)"

lemma store_migrate_api: 
  "object_api (legacyDrives store_migrate) world_legacy_drives" "object_api (legacyVolumes store_migrate) world_legacy_volumes"
  using object_api_store [of wLegacyDrives "\<lambda>xs w. w\<lparr>wLegacyDrives := xs\<rparr>"]
    object_api_store [of wLegacyVolumes "\<lambda>xs w. w\<lparr>wLegacyVolumes := xs\<rparr>"]
  by (simp_all add: store_migrate_def world_legacy_drives_def [abs_def] world_legacy_volumes_def [abs_def])

lemma store_migrate_frames:
  "api_step (DriveClient store_migrate) w w' \<or> api_step (VolumeClient store_migrate) w w' \<Longrightarrow> world_legacy w' = world_legacy w"
  "api_step (legacyDrives store_migrate) w w' \<or> api_step (legacyVolumes store_migrate) w w' \<Longrightarrow>
     world_drives w' = world_drives w \<and> world_volumes w' = world_volumes w"
  "api_step (legacyVolumes store_migrate) w w' \<Longrightarrow> world_legacy_drives w' = world_legacy_drives w"
  by (auto simp: store_migrate_def store_client_def world_legacy_def world_drives_def world_volumes_def world_legacy_drives_def
      elim!: store_api_step_put [where f = wLegacyDrives] store_api_step_put [where f = wLegacyVolumes]
        store_api_step_put [where f = "\<lambda>w. lookup_obj (wDrives w)"] store_api_step_put [where f = "\<lambda>w. lookup_obj (wVolumes w)"]
        store_api_step_put [where f = "\<lambda>w. lookup_obj (wLegacyDrives w)"])

interpretation store_migration: migration store_migrate world_drives world_volumes world_legacy_drives world_legacy_volumes world_legacy
proof (intro migration.intro migration_axioms.intro store_migrate_api, goal_cases)
  case 1
  show ?case by (rule cluster_of_store) (simp_all add: store_migrate_def store_client_def)
next
  case (2 w w')
  then show ?case by (rule store_migrate_frames(1))
next
  case (6 w w')
  then show ?case by (rule store_migrate_frames(2))
next
  case (7 w w')
  then show ?case by (rule store_migrate_frames(3))
next
  case (13 key val m)
  then show ?case by (auto simp: store_migrate_def List.map_filter_def)
qed (auto simp: store_migrate_def store_api_def keeps_def world_legacy_def world_legacy_drives_def world_legacy_volumes_def)

lemma store_serves:
  assumes view: "\<And>v. view v = view w \<Longrightarrow> objs v = objs w" and "distinct (map objName (objs w))"
  shows "serves (Suc n) view (store_api objs put) (\<lambda>w. lookup_obj (objs w)) w"
  unfolding serves_def
proof (intro exI conjI allI impI)
  show "page_chain (\<lambda>c. (objs w, [])) [] 1 (objs w)" by (rule page_chain.last) simp
  show "x \<in> set (objs w)" if "lookup_obj (objs w) m = Some x" for m x
    using that by (auto simp: lookup_obj_def find_Some_iff)
  show "fst (api_List (store_api objs put) \<lparr> Limit = 1000, LabelSelector = [], Continue = c \<rparr> v) = Inr (objs w, [])"
    if "view v = view w" for v c
    using view [OF that] assms(2) by (simp add: store_api_def first_objs_distinct)
qed simp

section \<open>Witnesses\<close>

definition legacy_uuid :: string where "legacy_uuid = ''3f2c1b0a-9d8e-4f70-8a61-5b4c3d2e1f00''"

definition legacy_drive :: DirectCSIDrive where
  "legacy_drive =
     \<lparr> objName = ''legacy-1'', ResourceVersion = 1,
       Finalizers = [legacyDataProtection, legacyVolumePrefix @ ''pvc-1''],
       objLabels = [LegacyGroupName @ ''/node'' \<mapsto> ''node-1'', LegacyGroupName @ ''/tenant'' \<mapsto> ''t1''], DeletionTimestamp = None,
       legacyDriveStatus =
         \<lparr> ldPath = ''/dev/sda'', ldAllocatedCapacity = 100, ldFreeCapacity = 900, ldNodeName = ''node-1'',
           ldDriveStatus = LegacyDriveStatusInUse, ldTotalCapacity = 1000, ldTopology = Map.empty, ldAccessTier = ''Unknown'',
           ldFilesystemUUID = legacy_uuid \<rparr> \<rparr>"

definition legacy_volume :: DirectCSIVolume where
  "legacy_volume =
     \<lparr> objName = ''pvc-1'', ResourceVersion = 1, Finalizers = [legacyPVProtection, legacyPurgeProtection],
       objLabels = [LegacyGroupName @ ''/drive-path'' \<mapsto> ''sda''], DeletionTimestamp = None,
       legacyVolumeStatus =
         \<lparr> lvDrive = ''legacy-1'', lvNodeName = ''node-1'', lvHostPath = ''/data'', lvStagingPath = [], lvContainerPath = [],
           lvTotalCapacity = 100, lvAvailableCapacity = 100, lvUsedCapacity = 0 \<rparr> \<rparr>"

definition legacy_world :: "Drive list \<Rightarrow> mworld" where
  "legacy_world ds =
     \<lparr> wDrives = ds, wVolumes = [], wNodes = [], wInitRequests = [],
       wLegacyDrives = [legacy_drive], wLegacyVolumes = [legacy_volume] \<rparr>"

definition migrate_args :: Args where
  "migrate_args = \<lparr> argQuiet = False, argDryRun = False, argDeclarative = False, argLegacy = True, argProgressCh = True,
     argObjectWriter = False \<rparr>"

lemma legacy_world_simps:
  "world_drives (legacy_world []) n = None" "world_volumes (legacy_world ds) u = None"
  "world_legacy_drives (legacy_world ds) n = (if n = ''legacy-1'' then Some legacy_drive else None)"
  "world_legacy_volumes (legacy_world ds) u = (if u = ''pvc-1'' then Some legacy_volume else None)"
  by (simp_all add: world_drives_def world_volumes_def world_legacy_drives_def world_legacy_volumes_def legacy_world_def lookup_obj_def
      legacy_drive_def legacy_volume_def)

lemma legacy_world_served:
  "serves (pageFuel store_migrate) world_legacy (legacyDrives store_migrate) world_legacy_drives (legacy_world ds)"
  "serves (pageFuel store_migrate) world_legacy (legacyVolumes store_migrate) world_legacy_volumes (legacy_world ds)"
  using store_serves [of world_legacy "legacy_world ds" wLegacyDrives 0] store_serves [of world_legacy "legacy_world ds" wLegacyVolumes 0]
  by (simp_all add: world_legacy_def legacy_world_def store_migrate_def world_legacy_drives_def [abs_def] world_legacy_volumes_def [abs_def])

lemma legacy_world_balanced: "legacy_ledger store_migrate (world_legacy_drives (legacy_world ds)) (world_legacy_volumes (legacy_world ds))"
proof -
  have "ToLabelValue store_migrate legacy_uuid = legacy_uuid" by code_simp
  then have "legacy_account store_migrate (world_legacy_volumes (legacy_world ds)) legacy_drive [''pvc-1'']"
    by (simp add: legacy_account_def legacy_world_simps legacy_cap_def) (simp add: legacy_drive_def legacy_volume_def)
  moreover have "0 \<le> lvTotalCapacity (legacyVolumeStatus legacy_volume)" "objLabels legacy_volume DriveLabelKey = None" by code_simp+
  ultimately show ?thesis by (auto simp: legacy_ledger_def legacy_world_simps)
qed

theorem installer_migrate_safe_witness:
  "\<exists>w' d rv. installer_migrate store_migrate migrate_args True (legacy_world []) = (Inr (), w') \<and>
     world_legacy w' = world_legacy (legacy_world []) \<and> world_drives w' legacy_uuid = Some d \<and>
     d = (migrated_drive store_migrate legacy_drive)\<lparr>ResourceVersion := rv\<rparr>"
proof -
  let ?run = "installer_migrate store_migrate migrate_args True (legacy_world [])"
  have ev: "\<not> isl (fst ?run) \<and> world_drives (snd ?run) legacy_uuid \<noteq> None" by code_simp
  then obtain w' where run: "?run = (Inr (), w')" using not_isl_ok [of ?run] by auto
  then obtain d where d: "world_drives w' legacy_uuid = Some d" using ev by auto
  show ?thesis
    using installer_migrate_safe [OF store_migration.migration_axioms, OF run] run d by (fastforce simp: legacy_world_simps split: if_splits)
qed

theorem migration_ledger_witness:
  "\<exists>ds w1 vs w' rv. migrateDrives store_migrate migrate_args (legacy_world []) = (ds, w1) \<and> error_free ds \<and>
     migrateVolumes store_migrate migrate_args (msDriveMap ds) (snd (progress_step store_migrate migrate_args w1)) = (vs, w') \<and>
     ledger store_migrate (world_drives w', world_volumes w') \<and>
     world_drives w' legacy_uuid = Some ((migrated_drive store_migrate legacy_drive)\<lparr>ResourceVersion := rv\<rparr>)"
proof -
  obtain ds w1 where d: "migrateDrives store_migrate migrate_args (legacy_world []) = (ds, w1)" by fastforce
  obtain vs w' where v: "migrateVolumes store_migrate migrate_args (msDriveMap ds) (snd (progress_step store_migrate migrate_args w1)) = (vs, w')"
    by fastforce
  have "case migrateDrives store_migrate migrate_args (legacy_world []) of (ds, w1) \<Rightarrow>
      error_free ds \<and> error_free (fst (migrateVolumes store_migrate migrate_args (msDriveMap ds) (snd (progress_step store_migrate migrate_args w1))))"
    by code_simp
  then have e: "error_free ds" "error_free vs" using d v by auto
  have l: "ledger store_migrate (world_drives (legacy_world []), world_volumes (legacy_world []))"
    by (simp add: ledger_def legacy_world_simps)
  have dry: "\<not> argDryRun migrate_args" by (simp add: migrate_args_def)
  have x: "world_legacy_drives (legacy_world []) ''legacy-1'' = Some legacy_drive" by (simp add: legacy_world_simps)
  have a: "active legacy_drive" "fsuuid_of legacy_drive = legacy_uuid" by code_simp+
  note m = migration_ledger [OF store_migration.migration_axioms, OF d v e(2) dry legacy_world_served l legacy_world_balanced]
  have "\<exists>rv. world_drives w' legacy_uuid = Some ((migrated_drive store_migrate legacy_drive)\<lparr>ResourceVersion := rv\<rparr>)"
    using m [THEN conjunct2, THEN conjunct1, THEN mp, OF e(1), rule_format, OF conjI, OF x a(1)] unfolding a(2) .
  then show ?thesis using m [THEN conjunct1] d v e(1) by blast
qed

definition present_drive :: Drive where
  "present_drive = sample_drive\<lparr>objName := legacy_uuid\<rparr>"

definition remove_args :: MigrateArgs where
  "remove_args = \<lparr> maQuiet = False, maRetain = False, maDrivesBackupFile = ''d.yaml'', maVolumesBackupFile = ''v.yaml'' \<rparr>"


end
