(* ===== verification/Dynamic.thy ===== *)
theory Dynamic
  imports Discovery
begin

text \<open>
  The client of the program: \<^verbatim>\<open>pkg/client/dynamic.go\<close>, which talks to the API server in
  unstructured objects, and \<^verbatim>\<open>pkg/converter\<close>, which brings them to the latest API version.

  An unstructured object is its API version, its kind, its metadata and the other fields, of which the
  code reads nothing before they are converted. The dynamic client of client-go is the record
  \<open>ResourceInterface\<close>; the conversions of apimachinery between structs and unstructured objects are
  the record \<open>codec\<close>. The locale \<open>resource_server\<close> states what they promise, and the theory
  shows that the typed clients then meet the contract \<open>object_api\<close> on which all other
  components rely.
\<close>

section \<open>Objects and versions\<close>

record 'd Unstructured = ObjectMeta +
  uAPIVersion :: string
  uKind :: string
  uContent :: 'd

record TypeMeta =
  tmAPIVersion :: string
  tmKind :: string

definition DriveKind :: string where "DriveKind = AppPrettyName @ ''Drive''"
definition VolumeKind :: string where "VolumeKind = AppPrettyName @ ''Volume''"
definition NodeKind :: string where "NodeKind = AppPrettyName @ ''Node''"
definition InitRequestKind :: string where "InitRequestKind = AppPrettyName @ ''InitRequest''"

definition NewDriveTypeMeta :: TypeMeta where
  "NewDriveTypeMeta = \<lparr> tmAPIVersion = LatestVersionLabelKey, tmKind = DriveKind \<rparr>"
definition NewVolumeTypeMeta :: TypeMeta where
  "NewVolumeTypeMeta = \<lparr> tmAPIVersion = LatestVersionLabelKey, tmKind = VolumeKind \<rparr>"
definition NewNodeTypeMeta :: TypeMeta where
  "NewNodeTypeMeta = \<lparr> tmAPIVersion = LatestVersionLabelKey, tmKind = NodeKind \<rparr>"
definition NewInitRequestTypeMeta :: TypeMeta where
  "NewInitRequestTypeMeta = \<lparr> tmAPIVersion = LatestVersionLabelKey, tmKind = InitRequestKind \<rparr>"

section \<open>The converter\<close>

definition versionV1Beta1 :: string where "versionV1Beta1 = GroupName @ ''/v1beta1''"

definition supportedVersions :: "string list" where "supportedVersions = [versionV1Beta1]"

definition errUnsupportedCRDKind :: error where "errUnsupportedCRDKind = ErrorString ''unsupported CRD Kind''"

text \<open>The eight functions for the kinds (\<^verbatim>\<open>upgradeDriveObject\<close>,
  \<^verbatim>\<open>downgradeDriveObject\<close> and so on) have the same body: there is nothing to convert yet, and
  an unknown version ends the process.\<close>

definition convert_kind :: "'d Unstructured \<Rightarrow> string \<Rightarrow> 'd Unstructured result" where
  "convert_kind object toVersion =
     (if uAPIVersion object = versionV1Beta1 then Inr object else Inl (Panic ''unknown object API version''))"

definition getCRDKind :: "'d Unstructured \<Rightarrow> string" where
  "getCRDKind object = filter (\<lambda>c. c \<noteq> CHR '' '') (uKind object)"

definition upgradeDriveObject :: "'d Unstructured \<Rightarrow> string \<Rightarrow> 'd Unstructured result" where "upgradeDriveObject = convert_kind"
definition upgradeVolumeObject :: "'d Unstructured \<Rightarrow> string \<Rightarrow> 'd Unstructured result" where "upgradeVolumeObject = convert_kind"
definition upgradeNodeObject :: "'d Unstructured \<Rightarrow> string \<Rightarrow> 'd Unstructured result" where "upgradeNodeObject = convert_kind"
definition upgradeInitRequestObject :: "'d Unstructured \<Rightarrow> string \<Rightarrow> 'd Unstructured result" where "upgradeInitRequestObject = convert_kind"

definition downgradeDriveObject :: "'d Unstructured \<Rightarrow> string \<Rightarrow> 'd Unstructured result" where "downgradeDriveObject = convert_kind"
definition downgradeVolumeObject :: "'d Unstructured \<Rightarrow> string \<Rightarrow> 'd Unstructured result" where "downgradeVolumeObject = convert_kind"
definition downgradeNodeObject :: "'d Unstructured \<Rightarrow> string \<Rightarrow> 'd Unstructured result" where "downgradeNodeObject = convert_kind"
definition downgradeInitRequestObject :: "'d Unstructured \<Rightarrow> string \<Rightarrow> 'd Unstructured result" where "downgradeInitRequestObject = convert_kind"

definition upgradeObject :: "'d Unstructured \<Rightarrow> string \<Rightarrow> 'd Unstructured result" where
  "upgradeObject object toVersion =
     (let kind = getCRDKind object
      in if kind = DriveKind then upgradeDriveObject object toVersion
         else if kind = VolumeKind then upgradeVolumeObject object toVersion
         else if kind = NodeKind then upgradeNodeObject object toVersion
         else if kind = InitRequestKind then upgradeInitRequestObject object toVersion
         else Inl errUnsupportedCRDKind)"

definition downgradeObject :: "'d Unstructured \<Rightarrow> string \<Rightarrow> 'd Unstructured result" where
  "downgradeObject object toVersion =
     (let kind = getCRDKind object
      in if kind = DriveKind then downgradeDriveObject object toVersion
         else if kind = VolumeKind then downgradeVolumeObject object toVersion
         else if kind = NodeKind then downgradeNodeObject object toVersion
         else if kind = InitRequestKind then downgradeInitRequestObject object toVersion
         else Inl errUnsupportedCRDKind)"

fun index_of :: "string \<Rightarrow> string list \<Rightarrow> nat option" where
  "index_of v [] = None"
| "index_of v (x # xs) = (if x = v then Some 0 else map_option Suc (index_of v xs))"

definition getMigrateFunc ::
  "string \<Rightarrow> string \<Rightarrow> ('d Unstructured \<Rightarrow> string \<Rightarrow> 'd Unstructured result) result" where
  "getMigrateFunc fromVersion toVersion =
     (case index_of fromVersion supportedVersions of
        None \<Rightarrow> Inl (ErrorString ''invalid fromVersion'')
      | Some fromIndex \<Rightarrow>
          case index_of toVersion supportedVersions of
            None \<Rightarrow> Inl (ErrorString ''invalid toVersion'')
          | Some toIndex \<Rightarrow>
              if fromIndex = toIndex then Inl (ErrorString ''conversion from a version to itself should not call the webhook'')
              else if fromIndex > toIndex then Inr downgradeObject else Inr upgradeObject)"

definition path_Base :: "string \<Rightarrow> string" where
  "path_Base s = last (strings_Split s ''/'')"

definition migrate_object :: "'d Unstructured \<Rightarrow> string \<Rightarrow> 'd Unstructured result" where
  "migrate_object object toVersion =
     (let fromVersion = uAPIVersion object in
      case getMigrateFunc fromVersion toVersion of
        Inl err \<Rightarrow> Inl err
      | Inr migrateFn \<Rightarrow>
          case migrateFn object toVersion of
            Inl err \<Rightarrow> Inl err
          | Inr object \<Rightarrow>
              let labels = objLabels object
              in Inr (object\<lparr> uAPIVersion := toVersion,
                   objLabels := (if labels VersionLabelKey = None then labels(VersionLabelKey \<mapsto> path_Base fromVersion) else labels) \<rparr>))"

text \<open>\<open>reparse\<close> is the conversion of a map into an unstructured object.\<close>

definition converter_Migrate ::
  "('d Unstructured \<Rightarrow> 'd Unstructured result) \<Rightarrow> 'd Unstructured \<Rightarrow> string \<Rightarrow> 'd Unstructured result" where
  "converter_Migrate reparse from toVersion =
     (if uAPIVersion from = toVersion then Inr from
      else case migrate_object from toVersion of Inl err \<Rightarrow> Inl err | Inr obj \<Rightarrow> reparse obj)"

record list_header =
  lhAPIVersion :: string
  lhContinue :: string

fun migrate_items ::
  "('d Unstructured \<Rightarrow> 'd Unstructured result) \<Rightarrow> string \<Rightarrow> 'd Unstructured list \<Rightarrow> 'd Unstructured list result" where
  "migrate_items reparse toVersion [] = Inr []"
| "migrate_items reparse toVersion (u # us) =
     (case converter_Migrate reparse u toVersion of
        Inl err \<Rightarrow> Inl err
      | Inr u \<Rightarrow> case migrate_items reparse toVersion us of Inl err \<Rightarrow> Inl err | Inr us \<Rightarrow> Inr (u # us))"

definition MigrateList ::
  "('d Unstructured \<Rightarrow> 'd Unstructured result) \<Rightarrow> list_header \<times> 'd Unstructured list \<Rightarrow> string \<Rightarrow>
   (list_header \<times> 'd Unstructured list) result" where
  "MigrateList reparse fromList toVersion =
     (case migrate_items reparse toVersion (snd fromList) of
        Inl err \<Rightarrow> Inl err | Inr items \<Rightarrow> Inr ((fst fromList)\<lparr>lhAPIVersion := toVersion\<rparr>, items))"

section \<open>The dynamic interface\<close>

record ('w, 'd) ResourceInterface =
  ri_Get :: "string \<Rightarrow> ('w, 'd Unstructured) io"
  ri_Create :: "'d Unstructured \<Rightarrow> ('w, 'd Unstructured) io"
  ri_Update :: "'d Unstructured \<Rightarrow> ('w, 'd Unstructured) io"
  ri_UpdateStatus :: "'d Unstructured \<Rightarrow> ('w, 'd Unstructured) io"
  ri_Patch :: "string \<Rightarrow> string \<Rightarrow> ('w, 'd Unstructured) io"
  ri_Delete :: "string \<Rightarrow> ('w, unit) io"
  ri_DeleteCollection :: "ListOptions \<Rightarrow> ('w, unit) io"
  ri_List :: "ListOptions \<Rightarrow> ('w, list_header \<times> 'd Unstructured list) io"
  ri_Watch :: "ListOptions \<Rightarrow> ('w, (watch_type \<times> 'd Unstructured) list) io"

text \<open>\<open>internalError\<close> is the test for code 500, \<open>watched\<close> the conversion of an object that the
  watch delivers.\<close>

record ('o, 'd) codec =
  ToUnstructured :: "TypeMeta \<Rightarrow> 'o \<Rightarrow> 'd Unstructured result"
  FromUnstructured :: "'d Unstructured \<Rightarrow> 'o result"
  FromListMeta :: "list_header \<Rightarrow> string result"
  reparse :: "'d Unstructured \<Rightarrow> 'd Unstructured result"
  watched :: "'d Unstructured \<Rightarrow> 'd Unstructured result"
  internalError :: "'d Unstructured \<Rightarrow> bool"

definition latestVersion :: string where "latestVersion = GroupName @ ''/'' @ LatestAPIVersion"

definition dynamic_Get ::
  "('o, 'd) codec \<Rightarrow> ('w, 'd) ResourceInterface \<Rightarrow> string \<Rightarrow> ('w, 'd Unstructured) io" where
  "dynamic_Get K R name w =
     call (ri_Get R name w) (\<lambda>err w. (Inl err, w)) (\<lambda>u w. (converter_Migrate (reparse K) u latestVersion, w))"

definition dynamic_List ::
  "('o, 'd) codec \<Rightarrow> ('w, 'd) ResourceInterface \<Rightarrow> ListOptions \<Rightarrow> ('w, list_header \<times> 'd Unstructured list) io" where
  "dynamic_List K R opts w =
     call (ri_List R opts w) (\<lambda>err w. (Inl err, w)) (\<lambda>us w. (MigrateList (reparse K) us latestVersion, w))"

fun ResultChan ::
  "('o, 'd) codec \<Rightarrow> (watch_type \<times> 'd Unstructured) list \<Rightarrow> (watch_type \<times> 'd Unstructured) list" where
  "ResultChan K [] = []"
| "ResultChan K ((t, u) # events) =
     (case watched K u of
        Inl err \<Rightarrow> []
      | Inr u \<Rightarrow>
          if internalError K u then []
          else case converter_Migrate (reparse K) u latestVersion of
            Inl err \<Rightarrow> [] | Inr u \<Rightarrow> (t, u) # ResultChan K events)"

definition dynamic_Watch ::
  "('o, 'd) codec \<Rightarrow> ('w, 'd) ResourceInterface \<Rightarrow> ListOptions \<Rightarrow> ('w, (watch_type \<times> 'd Unstructured) list) io" where
  "dynamic_Watch K R opts w =
     call (ri_Watch R opts w) (\<lambda>err w. (Inl err, w)) (\<lambda>events w. (Inr (ResultChan K events), w))"

section \<open>The typed clients\<close>

text \<open>The clients of the four kinds differ in the type meta and the struct only.\<close>

definition client_write ::
  "('o, 'd) codec \<Rightarrow> TypeMeta \<Rightarrow> ('d Unstructured \<Rightarrow> ('w, 'd Unstructured) io) \<Rightarrow> 'o \<Rightarrow> ('w, 'o) io" where
  "client_write K tm request x w =
     (case ToUnstructured K tm x of
        Inl err \<Rightarrow> (Inl err, w)
      | Inr u \<Rightarrow> call (request u w) (\<lambda>err w. (Inl err, w)) (\<lambda>u w. (FromUnstructured K u, w)))"

definition client_Get :: "('o, 'd) codec \<Rightarrow> ('w, 'd) ResourceInterface \<Rightarrow> string \<Rightarrow> ('w, 'o) io" where
  "client_Get K R name w =
     call (dynamic_Get K R name w) (\<lambda>err w. (Inl err, w)) (\<lambda>u w. (FromUnstructured K u, w))"

fun decode_items :: "('o, 'd) codec \<Rightarrow> 'd Unstructured list \<Rightarrow> 'o list result" where
  "decode_items K [] = Inr []"
| "decode_items K (u # us) =
     (case FromUnstructured K u of
        Inl err \<Rightarrow> Inl err
      | Inr x \<Rightarrow> case decode_items K us of Inl err \<Rightarrow> Inl err | Inr xs \<Rightarrow> Inr (x # xs))"

definition client_List ::
  "('o, 'd) codec \<Rightarrow> ('w, 'd) ResourceInterface \<Rightarrow> ListOptions \<Rightarrow> ('w, 'o list \<times> string) io" where
  "client_List K R opts w =
     call (dynamic_List K R opts w) (\<lambda>err w. (Inl err, w))
       (\<lambda>(h, us) w.
          case FromListMeta K h of
            Inl err \<Rightarrow> (Inl err, w)
          | Inr cont \<Rightarrow> case decode_items K us of Inl err \<Rightarrow> (Inl err, w) | Inr xs \<Rightarrow> (Inr (xs, cont), w))"

definition client_Patch :: "('o, 'd) codec \<Rightarrow> ('w, 'd) ResourceInterface \<Rightarrow> string \<Rightarrow> string \<Rightarrow> ('w, 'o) io" where
  "client_Patch K R name data w =
     call (ri_Patch R name data w) (\<lambda>err w. (Inl err, w)) (\<lambda>u w. (FromUnstructured K u, w))"

record ('w, 'o, 'd) latest_client =
  lcAPI :: "('w, 'o) api"
  lcUpdateStatus :: "'o \<Rightarrow> ('w, 'o) io"
  lcPatch :: "string \<Rightarrow> string \<Rightarrow> ('w, 'o) io"
  lcDeleteCollection :: "ListOptions \<Rightarrow> ('w, unit) io"
  lcWatch :: "ListOptions \<Rightarrow> ('w, (watch_type \<times> 'd Unstructured) list) io"

definition typed_client :: "('o, 'd) codec \<Rightarrow> TypeMeta \<Rightarrow> ('w, 'd) ResourceInterface \<Rightarrow> ('w, 'o, 'd) latest_client" where
  "typed_client K tm R =
     \<lparr> lcAPI =
         \<lparr> api_Get = client_Get K R,
           api_Create = client_write K tm (ri_Create R),
           api_Update = client_write K tm (ri_Update R),
           api_Delete = ri_Delete R,
           api_List = client_List K R \<rparr>,
       lcUpdateStatus = client_write K tm (ri_UpdateStatus R),
       lcPatch = client_Patch K R,
       lcDeleteCollection = ri_DeleteCollection R,
       lcWatch = dynamic_Watch K R \<rparr>"

definition latestDriveClient :: "(Drive, 'd) codec \<Rightarrow> ('w, 'd) ResourceInterface \<Rightarrow> ('w, Drive, 'd) latest_client" where
  "latestDriveClient K R = typed_client K NewDriveTypeMeta R"

definition latestVolumeClient :: "(Volume, 'd) codec \<Rightarrow> ('w, 'd) ResourceInterface \<Rightarrow> ('w, Volume, 'd) latest_client" where
  "latestVolumeClient K R = typed_client K NewVolumeTypeMeta R"

definition latestNodeClient :: "(NodeObj, 'd) codec \<Rightarrow> ('w, 'd) ResourceInterface \<Rightarrow> ('w, NodeObj, 'd) latest_client" where
  "latestNodeClient K R = typed_client K NewNodeTypeMeta R"

definition latestInitRequestClient ::
  "(InitRequest, 'd) codec \<Rightarrow> ('w, 'd) ResourceInterface \<Rightarrow> ('w, InitRequest, 'd) latest_client" where
  "latestInitRequestClient K R = typed_client K NewInitRequestTypeMeta R"

section \<open>The converter keeps or refuses\<close>

lemma latestVersion_supported: "latestVersion = versionV1Beta1" "LatestVersionLabelKey = latestVersion"
  by (simp_all add: latestVersion_def versionV1Beta1_def LatestAPIVersion_def LatestVersionLabelKey_def)

lemma migrate_items_latest: "list_all (\<lambda>u. uAPIVersion u = toVersion) us \<Longrightarrow> migrate_items rp toVersion us = Inr us"
  by (induction us) (auto simp: converter_Migrate_def)

lemma migrate_items_keeps: "migrate_items rp latestVersion us = Inr us' \<Longrightarrow> us' = us \<and> list_all (\<lambda>u. uAPIVersion u = latestVersion) us"
  by (induction us arbitrary: us')
    (auto simp: converter_Migrate_def migrate_object_def getMigrateFunc_def supportedVersions_def latestVersion_supported Let_def
      split: sum.splits if_splits)

section \<open>What the server and the conversions promise\<close>

definition ri_api :: "('w, 'd) ResourceInterface \<Rightarrow> ('w, 'd Unstructured) api" where
  "ri_api R =
     \<lparr> api_Get = ri_Get R, api_Create = ri_Create R, api_Update = ri_Update R, api_Delete = ri_Delete R,
       api_List = (\<lambda>opts w. call (ri_List R opts w) (\<lambda>err w. (Inl err, w)) (\<lambda>(h, us) w. (Inr (us, lhContinue h), w))) \<rparr>"

locale resource_server = u: object_api "ri_api R" ustore
  for R :: "('w, 'd) ResourceInterface" and ustore :: "'w \<Rightarrow> string \<Rightarrow> 'd Unstructured option" +
  fixes K :: "('a ObjectMeta_scheme, 'd) codec"
  assumes stored_latest: "ustore w n = Some u \<Longrightarrow> uAPIVersion u = latestVersion"
    and stored_decodes: "ustore w n = Some u \<Longrightarrow> \<exists>x. FromUnstructured K u = Inr x"
    and encodes: "\<exists>u. ToUnstructured K tm x = Inr u"
    and decode_encode: "ToUnstructured K tm x = Inr u \<Longrightarrow> FromUnstructured K u = Inr x"
    and decode_meta: "FromUnstructured K u = Inr x \<Longrightarrow>
      objName x = objName u \<and> ResourceVersion x = ResourceVersion u \<and> Finalizers x = Finalizers u \<and> DeletionTimestamp x = DeletionTimestamp u"
    and decode_version: "FromUnstructured K u = Inr x \<Longrightarrow> FromUnstructured K (u\<lparr>ResourceVersion := rv\<rparr>) = Inr (x\<lparr>ResourceVersion := rv\<rparr>)"
    and decode_deleted: "FromUnstructured K u = Inr x \<Longrightarrow>
      FromUnstructured K (u\<lparr>DeletionTimestamp := ts\<rparr>) = Inr (x\<lparr>DeletionTimestamp := ts\<rparr>)"
    and decode_header: "FromListMeta K h = Inr (lhContinue h)"

text \<open>The typed view of a store of unstructured objects.\<close>

definition typed_store ::
  "('o, 'd) codec \<Rightarrow> ('w \<Rightarrow> string \<Rightarrow> 'd Unstructured option) \<Rightarrow> 'w \<Rightarrow> string \<Rightarrow> 'o option" where
  "typed_store K ustore w n = map_option (\<lambda>u. projr (FromUnstructured K u)) (ustore w n)"

lemma typed_store_upd:
  "ustore w' = (ustore w)(n := v) \<Longrightarrow>
   typed_store K ustore w' = (typed_store K ustore w)(n := map_option (\<lambda>u. projr (FromUnstructured K u)) v)"
  by (auto simp: typed_store_def fun_eq_iff)

lemma typed_store_same: "ustore w' = ustore w \<Longrightarrow> typed_store K ustore w' = typed_store K ustore w"
  by (simp add: typed_store_def fun_eq_iff)

lemma decode_items_member:
  "decode_items K us = Inr xs \<Longrightarrow> x \<in> set xs \<Longrightarrow> \<exists>u \<in> set us. FromUnstructured K u = Inr x"
  by (induction us arbitrary: xs) (auto split: sum.splits)

lemma api_ops_typed [simp]:
  "api_Get (lcAPI (typed_client K tm R)) = client_Get K R"
  "api_Create (lcAPI (typed_client K tm R)) = client_write K tm (ri_Create R)"
  "api_Update (lcAPI (typed_client K tm R)) = client_write K tm (ri_Update R)"
  "api_Delete (lcAPI (typed_client K tm R)) = ri_Delete R"
  "api_List (lcAPI (typed_client K tm R)) = client_List K R"
  by (simp_all add: typed_client_def)

lemma ri_api_ops:
  "ri_Get R = api_Get (ri_api R)" "ri_Create R = api_Create (ri_api R)" "ri_Update R = api_Update (ri_api R)" "ri_Delete R = api_Delete (ri_api R)"
  by (simp_all add: ri_api_def)

context resource_server
begin

lemma stored_typed:
  assumes "ustore w n = Some u"
  obtains x where "FromUnstructured K u = Inr x" and "typed_store K ustore w n = Some x" and "objName x = n"
proof -
  obtain x where x: "FromUnstructured K u = Inr x" using stored_decodes [OF assms] by blast
  show thesis using that [OF x] assms x decode_meta [OF x] u.store_name [OF assms] by (simp add: typed_store_def)
qed

lemma client_Get_cases:
  assumes "client_Get K R n w = (r, w')"
  shows "ustore w' = ustore w" and "r = Inr x \<Longrightarrow> typed_store K ustore w n = Some x"
    and "r = Inl e \<Longrightarrow> api_Get (ri_api R) n w = (Inl e, w')"
proof -
  obtain r1 w1 where g: "api_Get (ri_api R) n w = (r1, w1)" by fastforce
  have ok: "\<exists>x. client_Get K R n w = (Inr x, w1) \<and> typed_store K ustore w n = Some x" if "r1 = Inr u" for u
  proof -
    have st: "ustore w n = Some u" using u.get_found g that by blast
    then obtain x where "FromUnstructured K u = Inr x" "typed_store K ustore w n = Some x" by (rule stored_typed)
    then show ?thesis
      using g that stored_latest [OF st] by (simp add: client_Get_def dynamic_Get_def ri_api_ops(1) converter_Migrate_def)
  qed
  have err: "client_Get K R n w = (Inl e, w1)" if "r1 = Inl e" for e
    using g that by (simp add: client_Get_def dynamic_Get_def ri_api_ops(1))
  have w: "w' = w1" using assms ok err by (cases r1) fastforce+
  show "ustore w' = ustore w" using u.get_frame [OF g] w by simp
  show "r = Inr x \<Longrightarrow> typed_store K ustore w n = Some x" using assms ok err by (cases r1) fastforce+
  show "r = Inl e \<Longrightarrow> api_Get (ri_api R) n w = (Inl e, w')" using assms ok err g w by (cases r1) fastforce+
qed

lemma client_write_encoded:
  obtains u where "ToUnstructured K tm x = Inr u" and "FromUnstructured K u = Inr x" and "objName u = objName x"
    and "ResourceVersion u = ResourceVersion x" and "Finalizers u = Finalizers x" and "DeletionTimestamp u = DeletionTimestamp x"
proof -
  obtain u where t: "ToUnstructured K tm x = Inr u" using encodes by blast
  show thesis using that [OF t decode_encode [OF t]] decode_meta [OF decode_encode [OF t]] by simp
qed

lemma client_Create_cases:
  assumes "client_write K tm (ri_Create R) x w = (r, w')"
  shows "case r of
      Inr y \<Rightarrow> typed_store K ustore w (objName x) = None \<and> typed_store K ustore w' = (typed_store K ustore w)(objName x \<mapsto> y) \<and>
        (\<exists>rv. y = x\<lparr>ResourceVersion := rv\<rparr>)
    | Inl e \<Rightarrow> ustore w' = ustore w \<and> (IsAlreadyExists e \<longrightarrow> typed_store K ustore w (objName x) \<noteq> None)"
proof -
  obtain u where u: "ToUnstructured K tm x = Inr u" "FromUnstructured K u = Inr x" "objName u = objName x"
    by (rule client_write_encoded)
  obtain r1 w1 where c: "api_Create (ri_api R) u w = (r1, w1)" by fastforce
  show ?thesis
  proof (cases r1)
    case (Inl e)
    then have "r = Inl e" "w' = w1" using assms u c by (simp_all add: client_write_def ri_api_ops(2))
    then show ?thesis using c Inl u.create_err [of u w e w1] u.create_exists [of u w e w1] u(3) by (simp add: typed_store_def)
  next
    case (Inr v)
    then obtain rv where v: "v = u\<lparr>ResourceVersion := rv\<rparr>" "ustore w (objName u) = None" "ustore w1 = (ustore w)(objName u \<mapsto> v)"
      using u.create_ok c by blast
    then have "r = Inr (x\<lparr>ResourceVersion := rv\<rparr>)" "w' = w1"
      using assms u c Inr decode_version [OF u(2)] by (simp_all add: client_write_def ri_api_ops(2))
    then show ?thesis
      using v typed_store_upd [of ustore w1 w "objName u" "Some v" K] decode_version [OF u(2), of rv] u(3) by (auto simp: typed_store_def)
  qed
qed

lemma client_Update_cases:
  assumes "client_write K tm (ri_Update R) x w = (r, w')"
  shows "case r of
      Inr y \<Rightarrow> \<exists>cur rv. typed_store K ustore w (objName x) = Some cur \<and> ResourceVersion x = ResourceVersion cur \<and>
        ResourceVersion cur < rv \<and> y = x\<lparr>ResourceVersion := rv\<rparr> \<and>
        typed_store K ustore w' = (typed_store K ustore w)(objName x :=
          (if Finalizers x = [] \<and> DeletionTimestamp x \<noteq> None then None else Some y))
    | Inl e \<Rightarrow> ustore w' = ustore w"
proof -
  obtain u where u: "ToUnstructured K tm x = Inr u" "FromUnstructured K u = Inr x" "objName u = objName x"
      "ResourceVersion u = ResourceVersion x" "Finalizers u = Finalizers x" "DeletionTimestamp u = DeletionTimestamp x"
    by (rule client_write_encoded)
  obtain r1 w1 where c: "api_Update (ri_api R) u w = (r1, w1)" by fastforce
  show ?thesis
  proof (cases r1)
    case (Inl e)
    then have "r = Inl e" "w' = w1" using assms u c by (simp_all add: client_write_def ri_api_ops(3))
    then show ?thesis using c Inl u.update_err [of u w e w1] by simp
  next
    case (Inr v)
    then obtain ucur rv where v: "ustore w (objName u) = Some ucur" "ResourceVersion u = ResourceVersion ucur" "ResourceVersion ucur < rv"
        "v = u\<lparr>ResourceVersion := rv\<rparr>"
        "ustore w1 = (ustore w)(objName u := (if Finalizers u = [] \<and> DeletionTimestamp u \<noteq> None then None else Some v))"
      using u.update_ok c by blast
    obtain cur where cur: "FromUnstructured K ucur = Inr cur" "typed_store K ustore w (objName u) = Some cur" by (rule stored_typed [OF v(1)])
    have r: "r = Inr (x\<lparr>ResourceVersion := rv\<rparr>)" "w' = w1"
      using assms u c Inr v(4) decode_version [OF u(2)] by (simp_all add: client_write_def ri_api_ops(3))
    have st: "typed_store K ustore w1 = (typed_store K ustore w)(objName x :=
        (if Finalizers x = [] \<and> DeletionTimestamp x \<noteq> None then None else Some (x\<lparr>ResourceVersion := rv\<rparr>)))"
      using typed_store_upd [OF v(5), of K] decode_version [OF u(2), of rv] u v(4) by auto
    show ?thesis
      unfolding r using st cur v(2,3) u decode_meta [OF cur(1)] by (auto intro!: exI [of _ cur] exI [of _ rv])
  qed
qed

lemma client_Delete_cases:
  assumes "ri_Delete R n w = (Inr d, w')"
  shows "\<exists>cur. typed_store K ustore w n = Some cur \<and>
    (if Finalizers cur = [] then typed_store K ustore w' = (typed_store K ustore w)(n := None)
     else \<exists>ts rv. ResourceVersion cur < rv \<and>
       typed_store K ustore w' = (typed_store K ustore w)(n \<mapsto> cur\<lparr>DeletionTimestamp := Some ts, ResourceVersion := rv\<rparr>))"
proof -
  obtain ucur where c: "ustore w n = Some ucur"
      "if Finalizers ucur = [] then ustore w' = (ustore w)(n := None)
       else \<exists>ts rv. ResourceVersion ucur < rv \<and> ustore w' = (ustore w)(n \<mapsto> ucur\<lparr>DeletionTimestamp := Some ts, ResourceVersion := rv\<rparr>)"
    using u.delete_ok [of n w d w'] assms by (auto simp: ri_api_ops(4))
  obtain cur where cur: "FromUnstructured K ucur = Inr cur" "typed_store K ustore w n = Some cur" by (rule stored_typed [OF c(1)])
  have dec: "FromUnstructured K (ucur\<lparr>DeletionTimestamp := Some ts, ResourceVersion := rv\<rparr>) =
      Inr (cur\<lparr>DeletionTimestamp := Some ts, ResourceVersion := rv\<rparr>)" for ts rv
    by (rule decode_version [OF decode_deleted [OF cur(1)]])
  show ?thesis
  proof (cases "Finalizers ucur = []")
    case True
    then show ?thesis using c(2) cur(2) decode_meta [OF cur(1)] typed_store_upd [of ustore w' w n None K] by simp
  next
    case False
    then obtain ts rv where t: "ResourceVersion ucur < rv" "ustore w' = (ustore w)(n \<mapsto> ucur\<lparr>DeletionTimestamp := Some ts, ResourceVersion := rv\<rparr>)"
      using c(2) by auto
    have "typed_store K ustore w' = (typed_store K ustore w)(n \<mapsto> cur\<lparr>DeletionTimestamp := Some ts, ResourceVersion := rv\<rparr>)"
      using typed_store_upd [OF t(2), of K] by (simp add: dec)
    then show ?thesis using cur(2) False t(1) decode_meta [OF cur(1)] by auto
  qed
qed

lemma client_List_cases:
  assumes "client_List K R opts w = (r, w')"
  shows "ustore w' = ustore w" and "r = Inr (xs, cont) \<Longrightarrow> x \<in> set xs \<Longrightarrow> typed_store K ustore w (objName x) = Some x"
proof -
  obtain r1 w1 where l: "ri_List R opts w = (r1, w1)" by fastforce
  have w1: "ustore w1 = ustore w"
    using u.list_frame [of opts w _ w1] l by (cases r1) (auto simp: ri_api_def)
  have "w' = w1" using assms l by (cases r1) (auto simp: client_List_def dynamic_List_def split: sum.splits prod.splits elim!: callE)
  then show "ustore w' = ustore w" using w1 by simp
  assume r: "r = Inr (xs, cont)" and x: "x \<in> set xs"
  obtain h us where r1: "r1 = Inr (h, us)" using assms l r by (cases r1) (auto simp: client_List_def dynamic_List_def)
  have lst: "api_List (ri_api R) opts w = (Inr (us, lhContinue h), w1)" using l r1 by (simp add: ri_api_def)
  obtain us' where m: "migrate_items (reparse K) latestVersion us = Inr us'" "decode_items K us' = Inr xs"
    using assms l r1 r by (auto simp: client_List_def dynamic_List_def MigrateList_def split: sum.splits)
  have "us' = us" using migrate_items_keeps [OF m(1)] by simp
  then obtain u where u: "u \<in> set us" "FromUnstructured K u = Inr x" using decode_items_member [OF m(2) x] by auto
  have "ustore w (objName u) = Some u" using u.list_sound [OF lst u(1)] .
  then show "typed_store K ustore w (objName x) = Some x" using u(2) decode_meta [OF u(2)] by (simp add: typed_store_def)
qed

lemma typed_object_api: "object_api (lcAPI (typed_client K tm R)) (typed_store K ustore)"
proof (unfold_locales, goal_cases)
  case (1 w n x)
  then obtain u where u: "ustore w n = Some u" by (auto simp: typed_store_def)
  obtain y where "typed_store K ustore w n = Some y" "objName y = n" by (rule stored_typed [OF u])
  then show ?case using 1 by simp
next
  case (2 n w r w')
  then show ?case using client_Get_cases(1) [of n w r w'] by (intro typed_store_same) simp
next
  case (3 n w x w')
  then show ?case using client_Get_cases(2) [of n w "Inr x" w' x] by simp
next
  case (4 n w e w')
  then have "api_Get (ri_api R) n w = (Inl e, w')" using client_Get_cases(3) [of n w "Inl e" w' e] by simp
  then show ?case using u.get_not_found 4(2) by (simp add: typed_store_def)
next
  case (5 x w y w')
  then show ?case using client_Create_cases [of tm x w "Inr y" w'] by simp
next
  case (6 x w e w')
  then show ?case using client_Create_cases [of tm x w "Inl e" w'] by (intro typed_store_same) simp
next
  case (7 x w e w')
  then show ?case using client_Create_cases [of tm x w "Inl e" w'] by simp
next
  case (8 x w y w')
  then show ?case using client_Update_cases [of tm x w "Inr y" w'] by simp
next
  case (9 x w e w')
  then show ?case using client_Update_cases [of tm x w "Inl e" w'] by (intro typed_store_same) simp
next
  case (10 n w d w')
  then show ?case using client_Delete_cases [of n w d w'] by simp
next
  case (11 n w e w')
  then show ?case using u.delete_err [of n w e w'] by (intro typed_store_same) (simp add: ri_api_ops(4))
next
  case (12 opts w r w')
  then show ?case using client_List_cases(1) [of opts w r w'] by (intro typed_store_same) simp
next
  case (13 opts w items cont w' x)
  then show ?case using client_List_cases(2) [of opts w "Inr (items, cont)" w' items cont x] by simp
qed

end

section \<open>Frames\<close>

lemma typed_step:
  assumes "api_step (lcAPI (typed_client K tm R)) w w'"
  shows "w' = w \<or> api_step (ri_api R) w w'"
proof -
  have w: "snd (client_write K tm f x w) = w \<or> (\<exists>u. snd (client_write K tm f x w) = snd (f u w))" for f x
  proof (cases "ToUnstructured K tm x")
    case (Inr u)
    then have "snd (client_write K tm f x w) = snd (f u w)" by (cases "f u w"; cases "fst (f u w)") (auto simp: client_write_def)
    then show ?thesis by blast
  qed (simp add: client_write_def)
  have g: "snd (client_Get K R n w) = snd (ri_Get R n w)" for n
    by (cases "ri_Get R n w"; cases "fst (ri_Get R n w)")
      (auto simp: client_Get_def dynamic_Get_def split: call_split)
  have l: "snd (client_List K R opts w) = snd (api_List (ri_api R) opts w)" for opts
    by (cases "ri_List R opts w"; cases "fst (ri_List R opts w)")
      (auto simp: client_List_def dynamic_List_def ri_api_def split: sum.splits prod.splits call_split)
  show ?thesis
    using assms w [of "ri_Create R"] w [of "ri_Update R"] unfolding api_step_def api_ops_typed g l ri_api_ops by metis
qed

section \<open>The contract of the program's client\<close>

text \<open>C3. The client of the program keeps the contract on which its components rely. If the server keeps
  it for unstructured objects of the latest version and the conversions between structs and unstructured
  objects invert each other, the typed clients of drives and volumes, with their conversions and the
  migration of versions in between, form a \<open>cluster\<close>: reads return what is stored, writes store
  exactly what was written under optimistic concurrency, failed calls change nothing, and drives and volumes
  do not disturb each other.\<close>

theorem latest_clients_cluster:
  fixes C :: "('w, 'b) client_scheme"
  assumes d: "resource_server RD dus KD" and v: "resource_server RV vus KV"
    and "\<And>w w'. api_step (ri_api RD) w w' \<Longrightarrow> vus w' = vus w" and "\<And>w w'. api_step (ri_api RV) w w' \<Longrightarrow> dus w' = dus w"
    and "label_validator (IsValidLabelValue C)" and "\<And>f w. retried f w (RetryOnConflict C f w)"
    and dc: "DriveClient C = lcAPI (latestDriveClient KD RD)" and vc: "VolumeClient C = lcAPI (latestVolumeClient KV RV)"
  shows "cluster C (typed_store KD dus) (typed_store KV vus)"
proof (intro cluster.intro cluster_axioms.intro, goal_cases)
  case 1
  show ?case unfolding dc latestDriveClient_def by (rule resource_server.typed_object_api [OF d])
next
  case 2
  show ?case unfolding vc latestVolumeClient_def by (rule resource_server.typed_object_api [OF v])
next
  case (3 w w')
  then have "w' = w \<or> api_step (ri_api RD) w w'" unfolding dc latestDriveClient_def by (rule typed_step)
  then show ?case using assms(3) by (intro typed_store_same) blast
next
  case (4 w w')
  then have "w' = w \<or> api_step (ri_api RV) w w'" unfolding vc latestVolumeClient_def by (rule typed_step)
  then show ?case using assms(4) by (intro typed_store_same) blast
qed (rule assms(5), rule assms(6))

text \<open>With one supported version, the converter returns an object of the latest version as it is and
  refuses every other.\<close>

theorem converter_Migrate_latest:
  "converter_Migrate rp u latestVersion = Inr x \<longleftrightarrow> uAPIVersion u = latestVersion \<and> x = u"
  by (auto simp: converter_Migrate_def migrate_object_def getMigrateFunc_def supportedVersions_def latestVersion_supported Let_def
      split: sum.splits if_splits)

section \<open>Watches that end early\<close>

lemma ResultChan_prefix:
  assumes "\<forall>(t, u) \<in> set pre. watched K u = Inr u \<and> \<not> internalError K u \<and> uAPIVersion u = latestVersion"
    and "case rest of [] \<Rightarrow> True | (t, u) # _ \<Rightarrow> \<exists>x. watched K u = Inr x \<and> internalError K x"
  shows "ResultChan K (pre @ rest) = pre"
  using assms(1)
proof (induction pre)
  case Nil
  then show ?case using assms(2) by (auto split: list.splits)
next
  case (Cons e pre)
  then show ?case by (cases e) (auto simp: converter_Migrate_def)
qed

lemma discover_loop_quiet: "list_all quiet_event events \<Longrightarrow> snd (discover_loop drives want None events devices) = None"
proof (induction events arbitrary: devices)
  case (Cons e events)
  then show ?case by (cases e) (auto simp: Let_def)
qed simp


section \<open>A server of unstructured objects\<close>

text \<open>The reference server keeps typed objects and serves them in the latest version; \<open>dec\<close> refuses
  what is not of its kind.\<close>

definition serve :: "('o \<Rightarrow> 'd Unstructured) \<Rightarrow> ('d Unstructured \<Rightarrow> 'o option) \<Rightarrow> ('w, 'o) api \<Rightarrow> ('w, 'd) ResourceInterface" where
  "serve enc dec A =
     (let answer = (\<lambda>rw. call rw (\<lambda>err w. (Inl err, w)) (\<lambda>x w. (Inr (enc x), w)));
          write = (\<lambda>f u w. case dec u of None \<Rightarrow> (Inl (ErrorString ''invalid object''), w) | Some x \<Rightarrow> answer (f x w))
      in \<lparr> ri_Get = (\<lambda>n w. answer (api_Get A n w)),
           ri_Create = write (api_Create A),
           ri_Update = write (api_Update A),
           ri_UpdateStatus = write (api_Update A),
           ri_Patch = (\<lambda>n data w. (Inl (ErrorString ''unsupported''), w)),
           ri_Delete = api_Delete A,
           ri_DeleteCollection = (\<lambda>opts w. (Inl (ErrorString ''unsupported''), w)),
           ri_List = (\<lambda>opts w. call (api_List A opts w) (\<lambda>err w. (Inl err, w))
             (\<lambda>(xs, c) w. (Inr (\<lparr> lhAPIVersion = latestVersion, lhContinue = c \<rparr>, map enc xs), w))),
           ri_Watch = (\<lambda>opts w. (Inr [], w)) \<rparr>)"

locale encoding = o: object_api A store
  for A :: "('w, 'a ObjectMeta_scheme) api" and store :: "'w \<Rightarrow> string \<Rightarrow> 'a ObjectMeta_scheme option" +
  fixes enc :: "'a ObjectMeta_scheme \<Rightarrow> 'd Unstructured" and dec :: "'d Unstructured \<Rightarrow> 'a ObjectMeta_scheme option"
  assumes enc_meta: "objName (enc x) = objName x" "ResourceVersion (enc x) = ResourceVersion x" "Finalizers (enc x) = Finalizers x"
      "DeletionTimestamp (enc x) = DeletionTimestamp x"
    and enc_version: "enc (x\<lparr>ResourceVersion := rv\<rparr>) = (enc x)\<lparr>ResourceVersion := rv\<rparr>"
    and enc_deleted: "enc (x\<lparr>DeletionTimestamp := ts\<rparr>) = (enc x)\<lparr>DeletionTimestamp := ts\<rparr>"
    and dec_enc: "dec u = Some x \<Longrightarrow> u = enc x"
begin

abbreviation served :: "'w \<Rightarrow> string \<Rightarrow> 'd Unstructured option" where
  "served w n \<equiv> map_option enc (store w n)"

lemma served_upd: "store w' = (store w)(n := v) \<Longrightarrow> served w' = (served w)(n := map_option enc v)"
  by (auto simp: fun_eq_iff)

lemma serve_ops:
  "api_Get (ri_api (serve enc dec A)) n w = call (api_Get A n w) (\<lambda>err w. (Inl err, w)) (\<lambda>x w. (Inr (enc x), w))"
  "api_Create (ri_api (serve enc dec A)) u w = (case dec u of None \<Rightarrow> (Inl (ErrorString ''invalid object''), w)
     | Some x \<Rightarrow> call (api_Create A x w) (\<lambda>err w. (Inl err, w)) (\<lambda>x w. (Inr (enc x), w)))"
  "api_Update (ri_api (serve enc dec A)) u w = (case dec u of None \<Rightarrow> (Inl (ErrorString ''invalid object''), w)
     | Some x \<Rightarrow> call (api_Update A x w) (\<lambda>err w. (Inl err, w)) (\<lambda>x w. (Inr (enc x), w)))"
  "api_Delete (ri_api (serve enc dec A)) = api_Delete A"
  "api_List (ri_api (serve enc dec A)) opts w = call (api_List A opts w) (\<lambda>err w. (Inl err, w)) (\<lambda>(xs, c) w. (Inr (map enc xs, c), w))"
  by (simp_all add: ri_api_def serve_def Let_def)
    (cases "api_List A opts w"; cases "fst (api_List A opts w)"; simp split: prod.splits)

lemma served_object_api: "object_api (ri_api (serve enc dec A)) served"
proof (unfold_locales, goal_cases)
  case (1 w n u)
  then show ?case using o.store_name enc_meta(1) by auto
next
  case (2 n w r w')
  then show ?case using o.get_frame by (auto simp: serve_ops fun_eq_iff elim!: callE)
next
  case (3 n w u w')
  then show ?case using o.get_found by (auto simp: serve_ops elim!: callE)
next
  case (4 n w e w')
  then show ?case using o.get_not_found by (auto simp: serve_ops elim!: callE)
next
  case (5 u w v w')
  then obtain x y where x: "dec u = Some x" "api_Create A x w = (Inr y, w')" "v = enc y"
    by (auto simp: serve_ops split: option.splits elim!: callE)
  have u: "u = enc x" using dec_enc x(1) .
  obtain rv where y: "store w (objName x) = None" "store w' = (store w)(objName x \<mapsto> y)" "y = x\<lparr>ResourceVersion := rv\<rparr>"
    using o.create_ok [OF x(2)] by blast
  show ?case using served_upd [OF y(2)] y(1,3) u x(3) enc_meta(1) by (auto simp: enc_version)
next
  case (6 u w e w')
  then show ?case using o.create_err by (auto simp: serve_ops fun_eq_iff split: option.splits elim!: callE)
next
  case (7 u w e w')
  then obtain x where x: "dec u = Some x" "api_Create A x w = (Inl e, w')"
    by (auto simp: serve_ops IsAlreadyExists_def split: option.splits elim!: callE)
  then show ?case using o.create_exists [OF x(2) 7(2)] dec_enc [OF x(1)] enc_meta(1) by auto
next
  case (8 u w v w')
  then obtain x y where x: "dec u = Some x" "api_Update A x w = (Inr y, w')" "v = enc y"
    by (auto simp: serve_ops split: option.splits elim!: callE)
  have u: "u = enc x" using dec_enc x(1) .
  obtain cur rv where y: "store w (objName x) = Some cur" "ResourceVersion x = ResourceVersion cur" "ResourceVersion cur < rv"
      "y = x\<lparr>ResourceVersion := rv\<rparr>"
      "store w' = (store w)(objName x := (if Finalizers x = [] \<and> DeletionTimestamp x \<noteq> None then None else Some y))"
    using o.update_ok [OF x(2)] by blast
  show ?case
    using served_upd [OF y(5)] y(1-4) u x(3) enc_meta by (intro exI [of _ "enc cur"] exI [of _ rv]) (auto simp: enc_version)
next
  case (9 u w e w')
  then show ?case using o.update_err by (auto simp: serve_ops fun_eq_iff split: option.splits elim!: callE)
next
  case (10 n w d w')
  then obtain cur where c: "store w n = Some cur"
      "if Finalizers cur = [] then store w' = (store w)(n := None)
       else \<exists>ts rv. ResourceVersion cur < rv \<and> store w' = (store w)(n \<mapsto> cur\<lparr>DeletionTimestamp := Some ts, ResourceVersion := rv\<rparr>)"
    using o.delete_ok [of n w d w'] by (auto simp: serve_ops)
  show ?case
  proof (cases "Finalizers cur = []")
    case True
    then show ?thesis using c served_upd [of w' w n None] enc_meta(3) by auto
  next
    case False
    then obtain ts rv where t: "ResourceVersion cur < rv" "store w' = (store w)(n \<mapsto> cur\<lparr>DeletionTimestamp := Some ts, ResourceVersion := rv\<rparr>)"
      using c(2) by auto
    show ?thesis using served_upd [OF t(2)] t(1) c(1) False enc_meta by (auto simp: enc_version enc_deleted)
  qed
next
  case (11 n w e w')
  then show ?case using o.delete_err by (auto simp: serve_ops fun_eq_iff)
next
  case (12 opts w r w')
  then show ?case using o.list_frame by (auto simp: serve_ops fun_eq_iff split: prod.splits elim!: callE)
next
  case (13 opts w items cont w' u)
  then show ?case using o.list_sound enc_meta(1) by (auto simp: serve_ops split: prod.splits elim!: callE)
qed

lemma served_step:
  assumes "api_step (ri_api (serve enc dec A)) w w'"
  shows "w' = w \<or> api_step A w w'"
proof -
  have c: "snd (call rw (\<lambda>err w. (Inl err, w)) (\<lambda>x w. (Inr (f x), w))) = snd rw" for rw :: "'e result \<times> 'w" and f :: "'e \<Rightarrow> 'f"
    by (cases rw; cases "fst rw") auto
  have l: "snd (call rw (\<lambda>err w. (Inl err, w)) (\<lambda>(xs, c) w. (Inr (map enc xs, c), w))) = snd rw"
    for rw :: "('a ObjectMeta_scheme list \<times> string) result \<times> 'w"
    by (cases rw; cases "fst rw") (auto split: prod.splits)
  show ?thesis
    using assms unfolding api_step_def serve_ops c l by (elim disjE exE) (auto simp: c split: option.splits)
qed

end

text \<open>Drives and volumes in their unstructured form.\<close>

definition encode_drive :: "Drive \<Rightarrow> (DriveSpec \<times> DriveStatus) Unstructured" where
  "encode_drive d =
     \<lparr> objName = objName d, ResourceVersion = ResourceVersion d, Finalizers = Finalizers d, objLabels = objLabels d,
       DeletionTimestamp = DeletionTimestamp d, uAPIVersion = latestVersion, uKind = DriveKind,
       uContent = (driveSpec d, driveStatus d) \<rparr>"

definition drive_of :: "(DriveSpec \<times> DriveStatus) Unstructured \<Rightarrow> Drive" where
  "drive_of u =
     \<lparr> objName = objName u, ResourceVersion = ResourceVersion u, Finalizers = Finalizers u, objLabels = objLabels u,
       DeletionTimestamp = DeletionTimestamp u, driveSpec = fst (uContent u), driveStatus = snd (uContent u) \<rparr>"

definition encode_volume :: "Volume \<Rightarrow> VolumeStatus Unstructured" where
  "encode_volume v =
     \<lparr> objName = objName v, ResourceVersion = ResourceVersion v, Finalizers = Finalizers v, objLabels = objLabels v,
       DeletionTimestamp = DeletionTimestamp v, uAPIVersion = latestVersion, uKind = VolumeKind, uContent = volumeStatus v \<rparr>"

definition volume_of :: "VolumeStatus Unstructured \<Rightarrow> Volume" where
  "volume_of u =
     \<lparr> objName = objName u, ResourceVersion = ResourceVersion u, Finalizers = Finalizers u, objLabels = objLabels u,
       DeletionTimestamp = DeletionTimestamp u, volumeStatus = uContent u \<rparr>"

definition of_kind :: "string \<Rightarrow> ('d Unstructured \<Rightarrow> 'o) \<Rightarrow> 'd Unstructured \<Rightarrow> 'o option" where
  "of_kind kind f u = (if uAPIVersion u = latestVersion \<and> uKind u = kind then Some (f u) else None)"

definition sample_codec :: "('o \<Rightarrow> 'd Unstructured) \<Rightarrow> ('d Unstructured \<Rightarrow> 'o) \<Rightarrow> ('o, 'd) codec" where
  "sample_codec enc f =
     \<lparr> ToUnstructured = (\<lambda>tm x. Inr ((enc x)\<lparr>uAPIVersion := tmAPIVersion tm, uKind := tmKind tm\<rparr>)),
       FromUnstructured = (\<lambda>u. Inr (f u)), FromListMeta = (\<lambda>h. Inr (lhContinue h)), reparse = Inr, watched = Inr,
       internalError = (\<lambda>u. uKind u = ''Status'') \<rparr>"

definition drive_codec :: "(Drive, DriveSpec \<times> DriveStatus) codec" where "drive_codec = sample_codec encode_drive drive_of"
definition volume_codec :: "(Volume, VolumeStatus) codec" where "volume_codec = sample_codec encode_volume volume_of"

definition drive_server :: "('b world_scheme, DriveSpec \<times> DriveStatus) ResourceInterface" where
  "drive_server = serve encode_drive (of_kind DriveKind drive_of) (DriveClient store_client)"

definition volume_server :: "('b world_scheme, VolumeStatus) ResourceInterface" where
  "volume_server = serve encode_volume (of_kind VolumeKind volume_of) (VolumeClient store_client)"

definition served_drives :: "'b world_scheme \<Rightarrow> string \<Rightarrow> (DriveSpec \<times> DriveStatus) Unstructured option" where
  "served_drives w n = map_option encode_drive (world_drives w n)"

definition served_volumes :: "'b world_scheme \<Rightarrow> string \<Rightarrow> VolumeStatus Unstructured option" where
  "served_volumes w n = map_option encode_volume (world_volumes w n)"

interpretation store_drive_encoding: encoding "DriveClient store_client" world_drives encode_drive "of_kind DriveKind drive_of"
  by unfold_locales (auto simp: encode_drive_def of_kind_def drive_of_def split: if_splits)

interpretation store_volume_encoding: encoding "VolumeClient store_client" world_volumes encode_volume "of_kind VolumeKind volume_of"
  by unfold_locales (auto simp: encode_volume_def of_kind_def volume_of_def split: if_splits)

interpretation store_drive_server: resource_server drive_server served_drives drive_codec
proof (intro resource_server.intro resource_server_axioms.intro, goal_cases)
  case 1
  show ?case using store_drive_encoding.served_object_api by (simp add: drive_server_def served_drives_def [abs_def])
qed (auto simp: drive_codec_def sample_codec_def served_drives_def encode_drive_def drive_of_def)

interpretation store_volume_server: resource_server volume_server served_volumes volume_codec
proof (intro resource_server.intro resource_server_axioms.intro, goal_cases)
  case 1
  show ?case using store_volume_encoding.served_object_api by (simp add: volume_server_def served_volumes_def [abs_def])
qed (auto simp: volume_codec_def sample_codec_def served_volumes_def encode_volume_def volume_of_def)

section \<open>Witnesses\<close>

definition dynamic_client :: "world client" where
  "dynamic_client = store_client\<lparr> DriveClient := lcAPI (latestDriveClient drive_codec drive_server),
     VolumeClient := lcAPI (latestVolumeClient volume_codec volume_server) \<rparr>"

theorem latest_clients_cluster_witness:
  "cluster dynamic_client (typed_store drive_codec served_drives) (typed_store volume_codec served_volumes) \<and>
   (\<exists>d w'. api_Get (DriveClient dynamic_client) ''drive-1'' sample_world = (Inr d, w') \<and>
      typed_store drive_codec served_drives sample_world ''drive-1'' = Some d)"
proof -
  have f: "api_step (ri_api drive_server) w w' \<Longrightarrow> served_volumes w' = served_volumes w"
    "api_step (ri_api volume_server) w w' \<Longrightarrow> served_drives w' = served_drives w" for w w' :: world
    using store_drive_encoding.served_step [of w w'] store_volume_encoding.served_step [of w w']
      store_cluster.drive_step_volumes [of w w'] store_cluster.volume_step_drives [of w w']
    by (auto simp: drive_server_def volume_server_def served_drives_def served_volumes_def fun_eq_iff)
  have r: "retried g w (RetryOnConflict dynamic_client g w)" for g w by (simp add: dynamic_client_def store_client_def retried.once)
  have l: "label_validator (IsValidLabelValue dynamic_client)"
    using store_cluster.validator by (simp add: dynamic_client_def store_client_def)
  have c: "cluster dynamic_client (typed_store drive_codec served_drives) (typed_store volume_codec served_volumes)"
    by (rule latest_clients_cluster [OF store_drive_server.resource_server_axioms store_volume_server.resource_server_axioms f l r])
      (simp_all add: dynamic_client_def)
  have "\<not> isl (fst (api_Get (DriveClient dynamic_client) ''drive-1'' sample_world))" by code_simp
  then obtain d w' where g: "api_Get (DriveClient dynamic_client) ''drive-1'' sample_world = (Inr d, w')" using not_isl_ok by blast
  show ?thesis using c g object_api.get_found [OF cluster.axioms(1) [OF c]] by blast
qed

definition encode_node :: "NodeObj \<Rightarrow> (bool \<times> NodeDevice list \<times> Condition list) Unstructured" where
  "encode_node n =
     \<lparr> objName = objName n, ResourceVersion = ResourceVersion n, Finalizers = Finalizers n, objLabels = objLabels n,
       DeletionTimestamp = DeletionTimestamp n, uAPIVersion = latestVersion, uKind = NodeKind,
       uContent = (nodeRefresh n, nodeDevices n, nodeConditions n) \<rparr>"

definition node_of :: "(bool \<times> NodeDevice list \<times> Condition list) Unstructured \<Rightarrow> NodeObj" where
  "node_of u =
     \<lparr> objName = objName u, ResourceVersion = ResourceVersion u, Finalizers = Finalizers u, objLabels = objLabels u,
       DeletionTimestamp = DeletionTimestamp u, nodeRefresh = fst (uContent u), nodeDevices = fst (snd (uContent u)),
       nodeConditions = snd (snd (uContent u)) \<rparr>"

definition node_codec :: "(NodeObj, bool \<times> NodeDevice list \<times> Condition list) codec" where
  "node_codec = sample_codec encode_node node_of"

definition node_answer :: "string \<Rightarrow> watch_type \<times> (bool \<times> NodeDevice list \<times> Condition list) Unstructured" where
  "node_answer n = (watch_Modified, encode_node (NewDirectPVNode n [sample_node_device]))"

definition failing_server :: "('b world_scheme, bool \<times> NodeDevice list \<times> Condition list) ResourceInterface" where
  "failing_server = (serve encode_node (of_kind NodeKind node_of) (NodeClient store_client))
     \<lparr> ri_Watch := (\<lambda>opts w. (Inr [node_answer ''node-1'',
          (watch_Error, (encode_node (NewDirectPVNode [] []))\<lparr>uKind := ''Status''\<rparr>), node_answer ''node-2''], w)) \<rparr>"


end
