(* ===== verification/Cli.thy ===== *)
theory Cli
  imports Admin_Correct Ellipsis Devices
begin

text \<open>
  The commands of \<^verbatim>\<open>kubectl directpv\<close> (\<^verbatim>\<open>cmd/kubectl-directpv\<close>) that change drives
  and volumes: the checks of their flags, with the expansion of ellipsis patterns, and the calls of the
  administration client.

  The flags and selectors are global variables there and the record \<open>flags\<close> here. A check returns
  an error and the flags it has changed; \<open>None\<close> means that it does not return, as an expansion may
  not. An error that a command prints before it exits is its result.
\<close>

section \<open>Flags\<close>

record flags =
  nodesArgs :: "string list"
  drivesArgs :: "string list"
  driveStatusArgs :: "string list"
  driveIDArgs :: "string list"
  podNameArgs :: "string list"
  podNSArgs :: "string list"
  volumeStatusArgs :: "string list"
  volumeNameArgs :: "string list"
  idArgs :: "string list"
  labelArgs :: "string list"
  allFlag :: bool
  dryRunFlag :: bool
  dangerousFlag :: bool
  driveStatusSelectors :: "DriveStatusValue list"
  driveIDSelectors :: "DriveID list"
  volumeStatusSelectors :: "VolumeStatusValue list"
  labelSelectors :: "(LabelKey \<times> LabelValue) list"
  cmdLabels :: "Label list"

type_synonym check = "flags \<Rightarrow> (error option \<times> flags) option"

text \<open>The loop that all checks share: each argument is trimmed in place and gives some values.\<close>

fun check_args ::
  "(string \<Rightarrow> string) \<Rightarrow> (string \<Rightarrow> 'v list result option) \<Rightarrow> string list \<Rightarrow> (error option \<times> string list \<times> 'v list) option" where
  "check_args trim f [] = Some (None, [], [])"
| "check_args trim f (a # as) =
     (let a = trim a in
      case f a of
        None \<Rightarrow> None
      | Some (Inl err) \<Rightarrow> Some (Some err, a # as, [])
      | Some (Inr vs) \<Rightarrow> map_option (\<lambda>(err, as', vs'). (err, a # as', vs @ vs')) (check_args trim f as))"

definition expand_names :: "string \<Rightarrow> (string \<Rightarrow> string) \<Rightarrow> string list \<Rightarrow> (error option \<times> string list) option" where
  "expand_names msg trim args =
     map_option (\<lambda>(err, args, vals). (err, if err = None then vals else args))
       (check_args trim (\<lambda>a. if a = [] then Some (Inl (ErrorString msg)) else Expand a) args)"

definition validateNodeArgs :: check where
  "validateNodeArgs f =
     map_option (\<lambda>(err, vs). (err, f\<lparr>nodesArgs := vs\<rparr>)) (expand_names ''empty node name'' strings_TrimSpace (nodesArgs f))"

definition validateDriveNameArgs :: check where
  "validateDriveNameArgs f =
     map_option (\<lambda>(err, vs). (err, f\<lparr>drivesArgs := vs\<rparr>))
       (expand_names ''empty drive name'' (\<lambda>a. strings_TrimSpace (TrimDevPrefix a)) (drivesArgs f))"

definition validateDriveStatusArgs :: "'a lib_scheme \<Rightarrow> check" where
  "validateDriveStatusArgs L f =
     map_option (\<lambda>(err, args, vs). (err, f\<lparr>driveStatusArgs := args, driveStatusSelectors := driveStatusSelectors f @ vs\<rparr>))
       (check_args strings_TrimSpace (\<lambda>a. Some (map_sum id (\<lambda>s. [s]) (ToDriveStatus L a))) (driveStatusArgs f))"

definition validateDriveIDArgs :: check where
  "validateDriveIDArgs f =
     map_option (\<lambda>(err, args, vs). (err, f\<lparr>driveIDArgs := args, driveIDSelectors := driveIDSelectors f @ vs\<rparr>))
       (check_args strings_TrimSpace
          (\<lambda>a. Some (if a = [] then Inl (ErrorString ''empty drive ID'')
                     else if \<not> IsUUID a then Inl (ErrorString ''invalid drive ID'') else Inr [a])) (driveIDArgs f))"

definition validatePodNameArgs :: check where
  "validatePodNameArgs f =
     map_option (\<lambda>(err, vs). (err, f\<lparr>podNameArgs := vs\<rparr>)) (expand_names ''empty pod name'' strings_TrimSpace (podNameArgs f))"

definition validatePodNSArgs :: check where
  "validatePodNSArgs f =
     map_option (\<lambda>(err, vs). (err, f\<lparr>podNSArgs := vs\<rparr>)) (expand_names ''empty pod namespace'' strings_TrimSpace (podNSArgs f))"

definition validateVolumeNameArgs :: check where
  "validateVolumeNameArgs f =
     map_option (\<lambda>(err, args, _ :: unit list). (err, f\<lparr>volumeNameArgs := args\<rparr>))
       (check_args strings_TrimSpace (\<lambda>a. Some (if a = [] then Inl (ErrorString ''empty volume name'') else Inr [])) (volumeNameArgs f))"

definition validateVolumeStatusArgs :: "'a lib_scheme \<Rightarrow> check" where
  "validateVolumeStatusArgs L f =
     map_option (\<lambda>(err, args, vs). (err, f\<lparr>volumeStatusArgs := args, volumeStatusSelectors := volumeStatusSelectors f @ vs\<rparr>))
       (check_args strings_TrimSpace (\<lambda>a. Some (map_sum id (\<lambda>s. [s]) (ToVolumeStatus L a))) (volumeStatusArgs f))"

definition errInvalidLabel :: error where "errInvalidLabel = ErrorString ''invalid label''"

definition label_arg :: "'a lib_scheme \<Rightarrow> string \<Rightarrow> (LabelKey \<times> LabelValue) list result" where
  "label_arg L arg =
     (case strings_Split arg ''='' of
        [k, v] \<Rightarrow>
          (case NewLabelKey L k of
             Inl err \<Rightarrow> Inl err
           | Inr key \<Rightarrow> case NewLabelValue L v of Inl err \<Rightarrow> Inl err | Inr val \<Rightarrow> Inr [(key, val)])
      | _ \<Rightarrow> Inl errInvalidLabel)"

definition validateLabelArgs :: "'a lib_scheme \<Rightarrow> check" where
  "validateLabelArgs L f =
     map_option (\<lambda>(err, _, kvs). (err, f\<lparr>labelSelectors := fold (\<lambda>(k, v). assign_key k v) kvs (labelSelectors f)\<rparr>))
       (check_args (\<lambda>a. a) (\<lambda>a. Some (label_arg L a)) (labelArgs f))"

fun run_checks :: "check list \<Rightarrow> check" where
  "run_checks [] f = Some (None, f)"
| "run_checks (c # cs) f =
     (case c f of None \<Rightarrow> None | Some (Some err, f) \<Rightarrow> Some (Some err, f) | Some (None, f) \<Rightarrow> run_checks cs f)"

text \<open>The end of a check: something has to be selected.\<close>

definition require :: "bool \<Rightarrow> string \<Rightarrow> check" where
  "require b msg f = Some (if b then None else Some (ErrorString msg), f)"

section \<open>The commands\<close>

definition run_cmd :: "(error option \<times> flags) option \<Rightarrow> (flags \<Rightarrow> 'w \<Rightarrow> ('r \<times> error option) \<times> 'w) \<Rightarrow> 'w \<Rightarrow> (error option \<times> 'w) option" where
  "run_cmd checked main w =
     (case checked of
        None \<Rightarrow> None
      | Some (Some err, f) \<Rightarrow> Some (Some err, w)
      | Some (None, f) \<Rightarrow> case main f w of ((_, err), w) \<Rightarrow> Some (err, w))"

text \<open>The check of \<^verbatim>\<open>cordon\<close>, \<^verbatim>\<open>uncordon\<close> and \<^verbatim>\<open>remove\<close>.\<close>

definition validate_drives :: "'a lib_scheme \<Rightarrow> string \<Rightarrow> check" where
  "validate_drives L msg =
     run_checks
       [validateNodeArgs, validateDriveNameArgs, validateDriveStatusArgs L, validateDriveIDArgs,
        \<lambda>f. require (allFlag f \<or> nodesArgs f \<noteq> [] \<or> drivesArgs f \<noteq> [] \<or> driveStatusArgs f \<noteq> [] \<or> driveIDArgs f \<noteq> []) msg f,
        \<lambda>f. Some (None, if allFlag f
              then f\<lparr>nodesArgs := [], drivesArgs := [], driveStatusSelectors := [], driveIDSelectors := []\<rparr> else f)]"

definition validateCordonCmd :: "'a lib_scheme \<Rightarrow> check" where "validateCordonCmd L = validate_drives L ''no drive selected to cordon''"
definition validateUncordonCmd :: "'a lib_scheme \<Rightarrow> check" where "validateUncordonCmd L = validate_drives L ''no drive selected to uncordon''"
definition validateRemoveCmd :: "'a lib_scheme \<Rightarrow> check" where "validateRemoveCmd L = validate_drives L ''no drive selected to remove''"

definition cordon_args :: "flags \<Rightarrow> CordonArgs" where
  "cordon_args f =
     \<lparr> caNodes = nodesArgs f, caDrives = drivesArgs f, caStatus = driveStatusSelectors f, caDriveIDs = driveIDSelectors f,
       caDryRun = dryRunFlag f \<rparr>"

definition cordonMain :: "('w, 'b) client_scheme \<Rightarrow> flags \<Rightarrow> 'w \<Rightarrow> (drive_result list \<times> error option) \<times> 'w" where
  "cordonMain C f = Cordon C (cordon_args f)"
definition uncordonMain :: "('w, 'b) client_scheme \<Rightarrow> flags \<Rightarrow> 'w \<Rightarrow> (drive_result list \<times> error option) \<times> 'w" where
  "uncordonMain C f = Uncordon C (cordon_args f)"
definition removeMain :: "('w, 'b) client_scheme \<Rightarrow> flags \<Rightarrow> 'w \<Rightarrow> (drive_result list \<times> error option) \<times> 'w" where
  "removeMain C f = Remove C (cordon_args f)"

definition cordonCmd :: "('w, 'b) client_scheme \<Rightarrow> flags \<Rightarrow> string list \<Rightarrow> 'w \<Rightarrow> (error option \<times> 'w) option" where
  "cordonCmd C f args = run_cmd (validateCordonCmd C (f\<lparr>driveIDArgs := args\<rparr>)) (cordonMain C)"
definition uncordonCmd :: "('w, 'b) client_scheme \<Rightarrow> flags \<Rightarrow> string list \<Rightarrow> 'w \<Rightarrow> (error option \<times> 'w) option" where
  "uncordonCmd C f args = run_cmd (validateUncordonCmd C (f\<lparr>driveIDArgs := args\<rparr>)) (uncordonMain C)"
definition removeCmd :: "('w, 'b) client_scheme \<Rightarrow> flags \<Rightarrow> string list \<Rightarrow> 'w \<Rightarrow> (error option \<times> 'w) option" where
  "removeCmd C f args = run_cmd (validateRemoveCmd C (f\<lparr>driveIDArgs := args\<rparr>)) (removeMain C)"

text \<open>Suspending needs the flag \<^verbatim>\<open>--dangerous\<close>.\<close>

definition validate_drive_names :: "string \<Rightarrow> check" where
  "validate_drive_names msg =
     run_checks [validateNodeArgs, validateDriveNameArgs, validateDriveIDArgs,
       \<lambda>f. require (nodesArgs f \<noteq> [] \<or> drivesArgs f \<noteq> [] \<or> driveIDArgs f \<noteq> []) msg f]"

definition validateSuspendDrivesCmd :: check where "validateSuspendDrivesCmd = validate_drive_names ''no drive selected to suspend''"
definition validateResumeDrivesCmd :: check where "validateResumeDrivesCmd = validate_drive_names ''no drive selected to resume''"

definition dangerous :: check where "dangerous f = require (dangerousFlag f) ''retry this command with --dangerous flag'' f"

definition suspend_drive_args :: "flags \<Rightarrow> SuspendDriveArgs" where
  "suspend_drive_args f =
     \<lparr> sdNodes = nodesArgs f, sdDrives = drivesArgs f, sdDriveIDSelectors = driveIDSelectors f, sdDryRun = dryRunFlag f \<rparr>"

definition suspendDrivesMain :: "('w, 'b) client_scheme \<Rightarrow> flags \<Rightarrow> 'w \<Rightarrow> ((drive_result \<times> string list) list \<times> error option) \<times> 'w" where
  "suspendDrivesMain C f = SuspendDrives C (suspend_drive_args f)"
definition resumeDrivesMain :: "('w, 'b) client_scheme \<Rightarrow> flags \<Rightarrow> 'w \<Rightarrow> ((drive_result \<times> string list) list \<times> error option) \<times> 'w" where
  "resumeDrivesMain C f = ResumeDrives C (suspend_drive_args f)"

definition suspendDrivesCmd :: "('w, 'b) client_scheme \<Rightarrow> flags \<Rightarrow> string list \<Rightarrow> 'w \<Rightarrow> (error option \<times> 'w) option" where
  "suspendDrivesCmd C f args =
     run_cmd (run_checks [validateSuspendDrivesCmd, dangerous] (f\<lparr>driveIDArgs := args\<rparr>)) (suspendDrivesMain C)"
definition resumeDrivesCmd :: "('w, 'b) client_scheme \<Rightarrow> flags \<Rightarrow> string list \<Rightarrow> 'w \<Rightarrow> (error option \<times> 'w) option" where
  "resumeDrivesCmd C f args =
     run_cmd (validateResumeDrivesCmd (f\<lparr>driveIDArgs := args\<rparr>)) (resumeDrivesMain C)"

definition validate_volume_names :: "string \<Rightarrow> check" where
  "validate_volume_names msg =
     run_checks [validateVolumeNameArgs, validateNodeArgs, validateDriveNameArgs, validatePodNameArgs, validatePodNSArgs,
       \<lambda>f. require (volumeNameArgs f \<noteq> [] \<or> nodesArgs f \<noteq> [] \<or> drivesArgs f \<noteq> [] \<or> podNameArgs f \<noteq> [] \<or> podNSArgs f \<noteq> []) msg f]"

definition validateSuspendVolumesCmd :: check where "validateSuspendVolumesCmd = validate_volume_names ''no volume selected to suspend''"
definition validateResumeVolumesCmd :: check where "validateResumeVolumesCmd = validate_volume_names ''no volume selected to resume''"

definition suspend_volume_args :: "flags \<Rightarrow> SuspendVolumeArgs" where
  "suspend_volume_args f =
     \<lparr> svNodes = nodesArgs f, svDrives = drivesArgs f, svPodNames = podNameArgs f, svPodNamespaces = podNSArgs f,
       svVolumeNames = volumeNameArgs f, svDryRun = dryRunFlag f \<rparr>"

definition suspendVolumesMain :: "('w, 'b) client_scheme \<Rightarrow> flags \<Rightarrow> 'w \<Rightarrow> (volume_result list \<times> error option) \<times> 'w" where
  "suspendVolumesMain C f = SuspendVolumes C (suspend_volume_args f)"
definition resumeVolumesMain :: "('w, 'b) client_scheme \<Rightarrow> flags \<Rightarrow> 'w \<Rightarrow> (volume_result list \<times> error option) \<times> 'w" where
  "resumeVolumesMain C f = ResumeVolumes C (suspend_volume_args f)"

definition suspendVolumesCmd :: "('w, 'b) client_scheme \<Rightarrow> flags \<Rightarrow> string list \<Rightarrow> 'w \<Rightarrow> (error option \<times> 'w) option" where
  "suspendVolumesCmd C f args =
     run_cmd (run_checks [validateSuspendVolumesCmd, dangerous] (f\<lparr>volumeNameArgs := args\<rparr>)) (suspendVolumesMain C)"
definition resumeVolumesCmd :: "('w, 'b) client_scheme \<Rightarrow> flags \<Rightarrow> string list \<Rightarrow> 'w \<Rightarrow> (error option \<times> 'w) option" where
  "resumeVolumesCmd C f args =
     run_cmd (validateResumeVolumesCmd (f\<lparr>volumeNameArgs := args\<rparr>)) (resumeVolumesMain C)"

definition validateCleanCmd :: check where
  "validateCleanCmd =
     run_checks
       [validateNodeArgs, validateDriveNameArgs, validateDriveIDArgs, validatePodNameArgs, validatePodNSArgs, validateVolumeNameArgs,
        \<lambda>f. require (allFlag f \<or> nodesArgs f \<noteq> [] \<or> drivesArgs f \<noteq> [] \<or> driveIDArgs f \<noteq> [] \<or> podNameArgs f \<noteq> [] \<or> podNSArgs f \<noteq> [] \<or>
              volumeNameArgs f \<noteq> []) ''no volume selected to clean'' f,
        \<lambda>f. Some (None, if allFlag f
              then f\<lparr>nodesArgs := [], drivesArgs := [], driveIDArgs := [], podNameArgs := [], podNSArgs := [], volumeNameArgs := []\<rparr> else f)]"

definition cleanMain ::
  "('w, 'b) client_scheme \<Rightarrow> (string \<Rightarrow> ('w, string) io) \<Rightarrow> flags \<Rightarrow> 'w \<Rightarrow> (string list \<times> error option) \<times> 'w" where
  "cleanMain C getPhase f =
     Clean C getPhase
       \<lparr> clNodes = nodesArgs f, clDrives = drivesArgs f, clDriveIDs = driveIDArgs f, clPodNames = podNameArgs f,
         clPodNamespaces = podNSArgs f, clVolumeStatus = volumeStatusSelectors f, clVolumeNames = volumeNameArgs f, clDryRun = False \<rparr>"

definition cleanCmd ::
  "('w, 'b) client_scheme \<Rightarrow> (string \<Rightarrow> ('w, string) io) \<Rightarrow> flags \<Rightarrow> string list \<Rightarrow> 'w \<Rightarrow> (error option \<times> 'w) option" where
  "cleanCmd C getPhase f args = run_cmd (validateCleanCmd (f\<lparr>volumeNameArgs := args\<rparr>)) (cleanMain C getPhase)"

text \<open>The label commands. The check of their parent runs twice, since the hook of the parent calls that of
  its parent, which for a subcommand is the parent itself; the error of the first run is dropped.\<close>

definition validateLabelCmd :: check where
  "validateLabelCmd = run_checks [validateNodeArgs, validateDriveNameArgs]"

definition label_PreRun :: check where
  "label_PreRun f = (case validateLabelCmd f of None \<Rightarrow> None | Some (_, f) \<Rightarrow> validateLabelCmd f)"

fun validateLabelCmdArgs_loop :: "'a lib_scheme \<Rightarrow> string list \<Rightarrow> Label list result" where
  "validateLabelCmdArgs_loop L [] = Inr []"
| "validateLabelCmdArgs_loop L (arg # args) =
     (case (case strings_Split arg ''='' of
              [_] \<Rightarrow>
                if arg = [] \<or> last arg \<noteq> CHR ''-'' then Inl (ErrorString ''argument must end with - to remove label'')
                else map_sum id (\<lambda>k. \<lparr> labelKey = k, labelValue = [], labelRemove = True \<rparr>) (NewLabelKey L (butlast arg))
            | [k, v] \<Rightarrow>
                (case NewLabelKey L k of
                   Inl err \<Rightarrow> Inl err
                 | Inr k \<Rightarrow> map_sum id (\<lambda>v. \<lparr> labelKey = k, labelValue = v, labelRemove = False \<rparr>) (NewLabelValue L v))
            | _ \<Rightarrow> Inl (ErrorString ''argument must be formatted k=v or k-'')) of
        Inl err \<Rightarrow> Inl err
      | Inr label \<Rightarrow> map_sum id ((#) label) (validateLabelCmdArgs_loop L args))"

definition validateLabelCmdArgs :: "'a lib_scheme \<Rightarrow> string list \<Rightarrow> Label list result" where
  "validateLabelCmdArgs L args =
     (if args = [] then Inl (ErrorString ''at least one label must be provided'') else validateLabelCmdArgs_loop L args)"

text \<open>\<^verbatim>\<open>labels, err = validateLabelCmdArgs(args)\<close>\<close>

definition label_values :: "'a lib_scheme \<Rightarrow> string list \<Rightarrow> check" where
  "label_values L args f =
     Some (case validateLabelCmdArgs L args of
             Inl err \<Rightarrow> (Some err, f\<lparr>cmdLabels := []\<rparr>)
           | Inr ls \<Rightarrow> (None, f\<lparr>cmdLabels := ls\<rparr>))"

definition validateListDrivesArgs :: "'a lib_scheme \<Rightarrow> check" where
  "validateListDrivesArgs L =
     run_checks
       [validateDriveStatusArgs L, validateDriveIDArgs,
        \<lambda>f. Some (None, if allFlag f \<or> nodesArgs f \<noteq> [] \<or> drivesArgs f \<noteq> [] \<or> driveStatusArgs f \<noteq> [] \<or> driveIDArgs f \<noteq> [] \<or> labelArgs f \<noteq> []
              then f else f\<lparr>driveStatusSelectors := driveStatusSelectors f @ [DriveStatusReady]\<rparr>),
        \<lambda>f. Some (None, if allFlag f
              then f\<lparr>nodesArgs := [], drivesArgs := [], driveStatusSelectors := [], driveIDSelectors := [], labelSelectors := []\<rparr> else f)]"

definition validateListVolumesArgs :: "'a lib_scheme \<Rightarrow> check" where
  "validateListVolumesArgs L =
     run_checks
       [validateDriveIDArgs, validatePodNameArgs, validatePodNSArgs, validateVolumeNameArgs, validateVolumeStatusArgs L,
        \<lambda>f. Some (None, if allFlag f \<or> nodesArgs f \<noteq> [] \<or> drivesArgs f \<noteq> [] \<or> driveIDArgs f \<noteq> [] \<or> podNameArgs f \<noteq> [] \<or> podNSArgs f \<noteq> [] \<or>
                volumeNameArgs f \<noteq> [] \<or> volumeStatusArgs f \<noteq> [] \<or> labelArgs f \<noteq> []
              then f else f\<lparr>volumeStatusSelectors := volumeStatusSelectors f @ [VolumeStatusReady]\<rparr>),
        \<lambda>f. Some (None, if allFlag f
              then f\<lparr>nodesArgs := [], drivesArgs := [], driveIDSelectors := [], podNameArgs := [], podNSArgs := [], volumeNameArgs := [],
                     volumeStatusSelectors := [], labelSelectors := []\<rparr> else f)]"

definition validateLabelDrivesCmd :: "'a lib_scheme \<Rightarrow> string list \<Rightarrow> check" where
  "validateLabelDrivesCmd L args =
     run_checks
       [validateLabelArgs L, validateListDrivesArgs L,
        \<lambda>f. require (allFlag f \<or> nodesArgs f \<noteq> [] \<or> drivesArgs f \<noteq> [] \<or> driveStatusArgs f \<noteq> [] \<or> driveIDArgs f \<noteq> [] \<or> labelArgs f \<noteq> [])
              ''no drives selected to label'' f,
        \<lambda>f. Some (None, if allFlag f
              then f\<lparr>nodesArgs := [], drivesArgs := [], driveStatusArgs := [], driveIDArgs := [], labelArgs := []\<rparr> else f), label_values L args]"

definition validateLabelVolumesCmd :: "'a lib_scheme \<Rightarrow> string list \<Rightarrow> check" where
  "validateLabelVolumesCmd L args =
     run_checks
       [validateLabelArgs L, validateListVolumesArgs L,
        \<lambda>f. require (allFlag f \<or> nodesArgs f \<noteq> [] \<or> drivesArgs f \<noteq> [] \<or> driveIDArgs f \<noteq> [] \<or> podNameArgs f \<noteq> [] \<or> podNSArgs f \<noteq> [] \<or>
              volumeNameArgs f \<noteq> [] \<or> volumeStatusArgs f \<noteq> [] \<or> labelArgs f \<noteq> []) ''no volumes selected to label'' f,
        \<lambda>f. Some (None, if allFlag f
              then f\<lparr>nodesArgs := [], drivesArgs := [], driveIDArgs := [], podNameArgs := [], podNSArgs := [], volumeNameArgs := [],
                     volumeStatusArgs := [], labelArgs := []\<rparr> else f), label_values L args]"

definition label_drive_args :: "flags \<Rightarrow> LabelDriveArgs" where
  "label_drive_args f =
     \<lparr> ldNodes = nodesArgs f, ldDrives = drivesArgs f, ldDriveStatus = driveStatusSelectors f, ldDriveIDs = driveIDSelectors f,
       ldLabelSelectors = labelSelectors f, ldDryRun = dryRunFlag f \<rparr>"

definition labelDrivesMain :: "('w, 'b) client_scheme \<Rightarrow> flags \<Rightarrow> 'w \<Rightarrow> (drive_result list \<times> error option) \<times> 'w" where
  "labelDrivesMain C f = LabelDrives C (label_drive_args f) (cmdLabels f)"

definition labelVolumesMain ::
  "('w, 'b) client_scheme \<Rightarrow> flags \<Rightarrow> 'w \<Rightarrow> ((NodeID \<times> string) list \<times> error option) \<times> 'w" where
  "labelVolumesMain C f =
     LabelVolumes C \<lparr> lvNodes = nodesArgs f, lvDrives = drivesArgs f, lvDriveIDs = driveIDArgs f, lvPodNames = podNameArgs f,
       lvPodNamespaces = podNSArgs f, lvVolumeStatus = volumeStatusSelectors f, lvVolumeNames = volumeNameArgs f,
       lvLabelSelectors = labelSelectors f, lvDryRun = False \<rparr> (cmdLabels f)"

definition labelDrivesCmd :: "('w, 'b) client_scheme \<Rightarrow> flags \<Rightarrow> string list \<Rightarrow> 'w \<Rightarrow> (error option \<times> 'w) option" where
  "labelDrivesCmd C f args =
     run_cmd (run_checks [label_PreRun, \<lambda>f. validateLabelDrivesCmd C args (f\<lparr>driveIDArgs := idArgs f\<rparr>)] f)
       (labelDrivesMain C)"

definition labelVolumesCmd :: "('w, 'b) client_scheme \<Rightarrow> flags \<Rightarrow> string list \<Rightarrow> 'w \<Rightarrow> (error option \<times> 'w) option" where
  "labelVolumesCmd C f args =
     run_cmd (run_checks [label_PreRun, \<lambda>f. validateLabelVolumesCmd C args (f\<lparr>volumeNameArgs := idArgs f\<rparr>)] f)
       (labelVolumesMain C)"

definition moveCmd :: "('w, 'b) client_scheme \<Rightarrow> string list \<Rightarrow> ('w, unit) io" where
  "moveCmd C args w =
     (case args of
        [a, b] \<Rightarrow>
          (let src = strings_TrimSpace a; dest = strings_TrimSpace b
           in if src = [] then (Inl (ErrorString ''empty source drive''), w)
              else if dest = [] then (Inl (ErrorString ''empty destination drive''), w)
              else Move C \<lparr> mvSource = src, mvDestination = dest \<rparr> w)
      | _ \<Rightarrow> (Inl (ErrorString ''only one source and one destination drive must be provided''), w))"

section \<open>The dry-run flag\<close>

text \<open>A check that neither reads nor changes \<^verbatim>\<open>--dry-run\<close>. All of them are such checks, so
  the flag reaches the main function of a command as it was given.\<close>

abbreviation set_dry :: "bool \<Rightarrow> flags \<Rightarrow> flags" where
  "set_dry b f \<equiv> f\<lparr>dryRunFlag := b\<rparr>"

definition dry_blind :: "check \<Rightarrow> bool" where
  "dry_blind c \<longleftrightarrow> (\<forall>f b. c (set_dry b f) = map_option (apsnd (set_dry b)) (c f))"

named_theorems dry_blind_intros

lemma dry_blind_keeps: "dry_blind c \<Longrightarrow> c f = Some (e, f') \<Longrightarrow> dryRunFlag f' = dryRunFlag f"
proof -
  assume "dry_blind c" and c: "c f = Some (e, f')"
  have "c (set_dry (dryRunFlag f) f) = map_option (apsnd (set_dry (dryRunFlag f))) (c f)"
    using \<open>dry_blind c\<close> unfolding dry_blind_def by blast
  then have "f' = set_dry (dryRunFlag f) f'" using c by simp
  then show ?thesis by (metis flags.select_convs(12) flags.surjective flags.update_convs(12))
qed

lemma dry_blind_run_checks [dry_blind_intros]:
  "dry_blind (run_checks [])"
  "dry_blind c \<Longrightarrow> dry_blind (run_checks cs) \<Longrightarrow> dry_blind (run_checks (c # cs))"
  by (auto simp: dry_blind_def split: option.splits)

lemma dry_blind_names [dry_blind_intros]:
  "dry_blind validateNodeArgs" "dry_blind validateDriveNameArgs" "dry_blind (validateDriveStatusArgs L)"
  "dry_blind validateDriveIDArgs" "dry_blind validatePodNameArgs" "dry_blind validatePodNSArgs"
  "dry_blind validateVolumeNameArgs" "dry_blind (validateVolumeStatusArgs L)" "dry_blind (validateLabelArgs L)"
  "dry_blind (label_values L args)"
  unfolding dry_blind_def flags.splits
  by (simp_all add: validateNodeArgs_def validateDriveNameArgs_def validateDriveStatusArgs_def
      validateDriveIDArgs_def validatePodNameArgs_def validatePodNSArgs_def validateVolumeNameArgs_def
      validateVolumeStatusArgs_def validateLabelArgs_def label_values_def option.map_comp comp_def case_prod_unfold
      split: sum.splits)

lemma dry_blind_require [dry_blind_intros]:
  "(\<And>f b. P (set_dry b f) = P f) \<Longrightarrow> dry_blind (\<lambda>f. require (P f) msg f)"
  by (simp add: dry_blind_def require_def)

lemma dry_blind_update [dry_blind_intros]:
  "(\<And>f b. u (set_dry b f) = set_dry b (u f)) \<Longrightarrow> dry_blind (\<lambda>f. Some (None, u f))"
  by (simp add: dry_blind_def)

lemma dry_blind_validate [dry_blind_intros]:
  "dry_blind (validate_drives L msg)" "dry_blind (validate_drive_names msg)" "dry_blind (validate_volume_names msg)"
  "dry_blind validateCleanCmd" "dry_blind validateLabelCmd" "dry_blind (validateListDrivesArgs L)"
  "dry_blind (validateListVolumesArgs L)"
  unfolding validate_drives_def validate_drive_names_def validate_volume_names_def validateCleanCmd_def validateLabelCmd_def
    validateListDrivesArgs_def validateListVolumesArgs_def
  by (intro dry_blind_intros; (simp | rule flags.equality; simp))+

lemma dry_blind_label [dry_blind_intros]:
  "dry_blind (validateLabelDrivesCmd L args)" "dry_blind (validateLabelVolumesCmd L args)"
  unfolding validateLabelDrivesCmd_def validateLabelVolumesCmd_def
  by (intro dry_blind_intros; (simp | rule flags.equality; simp))+

lemma dry_blind_label_PreRun [dry_blind_intros]: "dry_blind label_PreRun"
  using dry_blind_validate(5) by (auto simp: dry_blind_def label_PreRun_def split: option.splits)

lemma dry_blind_after:
  "dry_blind c \<Longrightarrow> (\<And>f b. u (set_dry b f) = set_dry b (u f)) \<Longrightarrow> dry_blind (\<lambda>f. c (u f))"
  by (simp add: dry_blind_def)

lemma run_cmd_dry:
  assumes "run_cmd (c f) main w = Some (e, w')" and "dry_blind c" and "dryRunFlag f"
    and "\<And>f. dryRunFlag f \<Longrightarrow> P (snd (main f w))" and "P w"
  shows "P w'"
proof (cases "c f")
  case (Some r)
  obtain err f' where r: "r = (err, f')" by fastforce
  then have "dryRunFlag f'" using dry_blind_keeps [OF assms(2)] Some assms(3) by blast
  from assms(4) [OF this] show ?thesis
    using assms(1,5) Some r by (cases err) (auto simp: run_cmd_def split: prod.splits)
qed (use assms(1) in \<open>simp add: run_cmd_def\<close>)

lemma run_cmd_blind:
  assumes "dry_blind c" and "\<And>f b. main (set_dry b f) = main f"
  shows "run_cmd (c (set_dry b f)) main = run_cmd (c f) main"
proof -
  have "c (set_dry b f) = map_option (apsnd (set_dry b)) (c f)" using assms(1) unfolding dry_blind_def by blast
  then show ?thesis unfolding run_cmd_def by (auto simp: assms(2) fun_eq_iff split: option.splits)
qed

lemma dry_blind_set [dry_blind_intros]:
  "dry_blind c \<Longrightarrow> dry_blind (\<lambda>f. c (f\<lparr>driveIDArgs := args\<rparr>))"
  "dry_blind c \<Longrightarrow> dry_blind (\<lambda>f. c (f\<lparr>volumeNameArgs := args\<rparr>))"
  "dry_blind c \<Longrightarrow> dry_blind (\<lambda>f. c (f\<lparr>driveIDArgs := idArgs f\<rparr>))"
  "dry_blind c \<Longrightarrow> dry_blind (\<lambda>f. c (f\<lparr>volumeNameArgs := idArgs f\<rparr>))"
  by (rule dry_blind_after, assumption, rule flags.equality; simp)+

lemma changed_never: "changed R st st' \<Longrightarrow> (\<And>x x'. \<not> R x x') \<Longrightarrow> st' = st"
  by (auto simp: changed_def became_def fun_eq_iff)

text \<open>No administrative call with the dry-run flag changes a drive or a volume.\<close>

context cluster
begin

lemma main_dry:
  assumes "dryRunFlag f"
  shows "dstore (snd (cordonMain C f w)) = dstore w \<and> vstore (snd (cordonMain C f w)) = vstore w"
    and "dstore (snd (uncordonMain C f w)) = dstore w \<and> vstore (snd (uncordonMain C f w)) = vstore w"
    and "dstore (snd (removeMain C f w)) = dstore w \<and> vstore (snd (removeMain C f w)) = vstore w"
    and "dstore (snd (labelDrivesMain C f w)) = dstore w \<and> vstore (snd (labelDrivesMain C f w)) = vstore w"
proof -
  have dry: "caDryRun (cordon_args f)" using assms by (simp add: cordon_args_def)
  show "dstore (snd (cordonMain C f w)) = dstore w \<and> vstore (snd (cordonMain C f w)) = vstore w"
    using Cordon_spec [of "cordon_args f" w] dry unfolding cordonMain_def
    by (cases "Cordon C (cordon_args f) w") (auto dest: changed_never)
  show "dstore (snd (uncordonMain C f w)) = dstore w \<and> vstore (snd (uncordonMain C f w)) = vstore w"
    using Uncordon_spec [of "cordon_args f" w] dry unfolding uncordonMain_def
    by (cases "Uncordon C (cordon_args f) w") (auto dest: changed_never)
  show "dstore (snd (removeMain C f w)) = dstore w \<and> vstore (snd (removeMain C f w)) = vstore w"
    using Remove_spec [of "cordon_args f" w] dry unfolding removeMain_def
    by (cases "Remove C (cordon_args f) w") (auto dest: changed_never)
  show "dstore (snd (labelDrivesMain C f w)) = dstore w \<and> vstore (snd (labelDrivesMain C f w)) = vstore w"
  proof (cases "reserved_label (cmdLabels f)")
    case None
    show ?thesis
      using LabelDrives_spec [OF None, where args = "label_drive_args f" and w = w] assms unfolding labelDrivesMain_def
      by (auto simp: label_drive_args_def dest: changed_never)
  qed (simp add: labelDrivesMain_def LabelDrives_def)
qed

end

lemma dry_blind_commands:
  "dry_blind (\<lambda>f. validateCordonCmd L (f\<lparr>driveIDArgs := args\<rparr>))"
  "dry_blind (\<lambda>f. validateUncordonCmd L (f\<lparr>driveIDArgs := args\<rparr>))"
  "dry_blind (\<lambda>f. validateRemoveCmd L (f\<lparr>driveIDArgs := args\<rparr>))"
  "dry_blind (\<lambda>f. validateCleanCmd (f\<lparr>volumeNameArgs := args\<rparr>))"
  "dry_blind (run_checks [label_PreRun, \<lambda>f. validateLabelDrivesCmd L args (f\<lparr>driveIDArgs := idArgs f\<rparr>)])"
  "dry_blind (run_checks [label_PreRun, \<lambda>f. validateLabelVolumesCmd L args (f\<lparr>volumeNameArgs := idArgs f\<rparr>)])"
  unfolding validateCordonCmd_def validateUncordonCmd_def validateRemoveCmd_def
  by (intro dry_blind_intros)+

section \<open>The properties\<close>

definition no_flags :: flags where
  "no_flags = \<lparr> nodesArgs = [], drivesArgs = [], driveStatusArgs = [], driveIDArgs = [], podNameArgs = [], podNSArgs = [],
     volumeStatusArgs = [], volumeNameArgs = [], idArgs = [], labelArgs = [], allFlag = False, dryRunFlag = False,
     dangerousFlag = False, driveStatusSelectors = [], driveIDSelectors = [], volumeStatusSelectors = [], labelSelectors = [],
     cmdLabels = [] \<rparr>"

text \<open>
  C19. Dry runs. With \<^verbatim>\<open>--dry-run\<close> the commands \<^verbatim>\<open>cordon\<close>, \<^verbatim>\<open>uncordon\<close>,
  \<^verbatim>\<open>remove\<close> and \<^verbatim>\<open>label drives\<close> leave every drive and every volume as it was, whatever
  the other flags and arguments are, whether the command succeeds or fails.
\<close>

theorem dry_run_changes_nothing:
  assumes "cluster C dstore vstore" and "dryRunFlag f"
    and "cmd \<in> {cordonCmd C, uncordonCmd C, removeCmd C, labelDrivesCmd C}" and "cmd f args w = Some (e, w')"
  shows "dstore w' = dstore w \<and> vstore w' = vstore w"
proof -
  note run = run_cmd_dry [where P = "\<lambda>w'. dstore w' = dstore w \<and> vstore w' = vstore w", OF _ _ assms(2)]
  note dry = cluster.main_dry [OF assms(1)]
  consider "cordonCmd C f args w = Some (e, w')" | "uncordonCmd C f args w = Some (e, w')"
    | "removeCmd C f args w = Some (e, w')" | "labelDrivesCmd C f args w = Some (e, w')"
    using assms(3,4) by blast
  then show ?thesis
  proof cases
    case 1
    from run [OF this [unfolded cordonCmd_def] dry_blind_commands(1)] show ?thesis using dry(1) by blast
  next
    case 2
    from run [OF this [unfolded uncordonCmd_def] dry_blind_commands(2)] show ?thesis using dry(2) by blast
  next
    case 3
    from run [OF this [unfolded removeCmd_def] dry_blind_commands(3)] show ?thesis using dry(3) by blast
  next
    case 4
    from run [OF this [unfolded labelDrivesCmd_def] dry_blind_commands(5)] show ?thesis using dry(4) by blast
  qed
qed

definition dry_all :: flags where
  "dry_all = no_flags\<lparr>allFlag := True, dryRunFlag := True\<rparr>"

theorem dry_run_changes_nothing_witness:
  "\<exists>e w'. cordonCmd store_client dry_all [] sample_world = Some (e, w') \<and>
     world_drives w' = world_drives sample_world \<and> world_volumes w' = world_volumes sample_world"
proof -
  have "cordonCmd store_client dry_all [] sample_world \<noteq> None" by code_simp
  then obtain e w' where run: "cordonCmd store_client dry_all [] sample_world = Some (e, w')" by fastforce
  have "dryRunFlag dry_all" by (simp add: dry_all_def)
  then show ?thesis 
    using dry_run_changes_nothing [where cmd = "cordonCmd store_client", OF store_cluster.cluster_axioms] run by blast
qed

definition unselected :: "flags \<Rightarrow> bool" where
  "unselected f \<longleftrightarrow> \<not> allFlag f \<and> nodesArgs f = [] \<and> drivesArgs f = [] \<and> driveStatusArgs f = [] \<and> driveIDArgs f = [] \<and> podNameArgs f = [] \<and>
     podNSArgs f = [] \<and> volumeStatusArgs f = [] \<and> volumeNameArgs f = [] \<and> idArgs f = [] \<and> labelArgs f = []"

lemmas check_defs = validateNodeArgs_def validateDriveNameArgs_def validateDriveStatusArgs_def
  validateDriveIDArgs_def validatePodNameArgs_def validatePodNSArgs_def validateVolumeNameArgs_def
  validateVolumeStatusArgs_def validateLabelArgs_def expand_names_def require_def

lemmas command_defs = cordonCmd_def uncordonCmd_def removeCmd_def validateCordonCmd_def validateUncordonCmd_def
  validateRemoveCmd_def validate_drives_def suspendDrivesCmd_def resumeDrivesCmd_def validateSuspendDrivesCmd_def
  validateResumeDrivesCmd_def validate_drive_names_def suspendVolumesCmd_def resumeVolumesCmd_def
  validateSuspendVolumesCmd_def validateResumeVolumesCmd_def validate_volume_names_def cleanCmd_def validateCleanCmd_def
  labelDrivesCmd_def labelVolumesCmd_def validateLabelDrivesCmd_def validateLabelVolumesCmd_def label_PreRun_def
  validateLabelCmd_def validateListDrivesArgs_def validateListVolumesArgs_def

definition keeps_dangerous :: "check \<Rightarrow> bool" where
  "keeps_dangerous c \<longleftrightarrow> (\<forall>f e f'. c f = Some (e, f') \<longrightarrow> dangerousFlag f' = dangerousFlag f)"

lemma keeps_dangerous_checks:
  "keeps_dangerous validateNodeArgs" "keeps_dangerous validateDriveNameArgs" "keeps_dangerous validateDriveIDArgs"
  "keeps_dangerous validatePodNameArgs" "keeps_dangerous validatePodNSArgs" "keeps_dangerous validateVolumeNameArgs"
  "keeps_dangerous (\<lambda>f. require (P f) msg f)" "keeps_dangerous (run_checks [])"
  by (auto simp: keeps_dangerous_def check_defs)

lemma keeps_dangerous_run_checks: "keeps_dangerous c \<Longrightarrow> keeps_dangerous (run_checks cs) \<Longrightarrow> keeps_dangerous (run_checks (c # cs))"
  unfolding keeps_dangerous_def by (fastforce split: option.splits prod.splits)

lemma not_dangerous:
  assumes "run_cmd (run_checks [c, dangerous] f) main w = Some (r, w')" and "keeps_dangerous c" and "\<not> dangerousFlag f"
  shows "r \<noteq> None \<and> w' = w"
proof (cases "c f")
  case (Some p)
  obtain e f' where p: "p = (e, f')" by fastforce
  then have "\<not> dangerousFlag f'" using assms(2,3) Some unfolding keeps_dangerous_def by blast
  then show ?thesis using assms(1) Some p by (cases e) (auto simp: run_cmd_def dangerous_def require_def)
qed (use assms(1) in \<open>simp add: run_cmd_def\<close>)

lemma suspend_not_dangerous:
  assumes "\<not> dangerousFlag f"
  shows "suspendDrivesCmd C f args w = Some (r, w') \<Longrightarrow> r \<noteq> None \<and> w' = w"
    and "suspendVolumesCmd C f args w = Some (r, w') \<Longrightarrow> r \<noteq> None \<and> w' = w"
proof -
  have k: "keeps_dangerous validateSuspendDrivesCmd" "keeps_dangerous validateSuspendVolumesCmd"
    unfolding validateSuspendDrivesCmd_def validateSuspendVolumesCmd_def validate_drive_names_def validate_volume_names_def
    by (intro keeps_dangerous_checks keeps_dangerous_run_checks)+
  show "suspendDrivesCmd C f args w = Some (r, w') \<Longrightarrow> r \<noteq> None \<and> w' = w"
    unfolding suspendDrivesCmd_def using assms by (elim not_dangerous) (simp_all add: k)
  show "suspendVolumesCmd C f args w = Some (r, w') \<Longrightarrow> r \<noteq> None \<and> w' = w"
    unfolding suspendVolumesCmd_def using assms by (elim not_dangerous) (simp_all add: k)
qed

text \<open>
  Guards. A command that is given neither \<^verbatim>\<open>--all\<close> nor a selector fails before it sends
  a request, and so do \<^verbatim>\<open>suspend drives\<close> and \<^verbatim>\<open>suspend volumes\<close> without
  \<^verbatim>\<open>--dangerous\<close>, whatever they are given.
\<close>

theorem unguarded_commands_refused:
  "(unselected f \<longrightarrow>
     (\<forall>cmd \<in> {cordonCmd C, uncordonCmd C, removeCmd C, suspendDrivesCmd C, resumeDrivesCmd C, suspendVolumesCmd C, resumeVolumesCmd C,
        cleanCmd C getPhase}. \<exists>e. cmd f [] w = Some (Some e, w)) \<and>
     (\<forall>cmd \<in> {labelDrivesCmd C, labelVolumesCmd C}. \<exists>e. cmd f args w = Some (Some e, w))) \<and>
   (\<not> dangerousFlag f \<longrightarrow>
     (\<forall>cmd \<in> {suspendDrivesCmd C, suspendVolumesCmd C}. \<forall>r w'. cmd f args w = Some (r, w') \<longrightarrow> r \<noteq> None \<and> w' = w))"
proof (intro conjI impI)
  assume "unselected f"
  then show "\<forall>cmd \<in> {cordonCmd C, uncordonCmd C, removeCmd C, suspendDrivesCmd C, resumeDrivesCmd C, suspendVolumesCmd C, resumeVolumesCmd C,
        cleanCmd C getPhase}. \<exists>e. cmd f [] w = Some (Some e, w)"
    by (simp add: unselected_def command_defs check_defs run_cmd_def)
next
  assume "unselected f"
  then show "\<forall>cmd \<in> {labelDrivesCmd C, labelVolumesCmd C}. \<exists>e. cmd f args w = Some (Some e, w)"
    by (simp add: unselected_def command_defs check_defs run_cmd_def)
next
  assume "\<not> dangerousFlag f"
  then show "\<forall>cmd \<in> {suspendDrivesCmd C, suspendVolumesCmd C}. \<forall>r w'. cmd f args w = Some (r, w') \<longrightarrow> r \<noteq> None \<and> w' = w"
    unfolding ball_simps by (intro conjI allI impI TrueI suspend_not_dangerous)
qed

theorem unguarded_commands_refused_witness:
  "(\<exists>e. removeCmd store_client no_flags [] sample_world = Some (Some e, sample_world)) \<and>
   (\<exists>e. suspendVolumesCmd store_client no_flags [''pvc-1''] volume_world = Some (Some e, volume_world))"
proof -
  have "unselected no_flags" and nd: "\<not> dangerousFlag no_flags" by (simp_all add: unselected_def no_flags_def)
  then have "\<exists>e. removeCmd store_client no_flags [] sample_world = Some (Some e, sample_world)"
    using unguarded_commands_refused [of no_flags store_client released_phase sample_world] by blast
  moreover have "suspendVolumesCmd store_client no_flags [''pvc-1''] volume_world \<noteq> None" by code_simp
  then obtain r w' where run: "suspendVolumesCmd store_client no_flags [''pvc-1''] volume_world = Some (r, w')" by fastforce
  have "r \<noteq> None \<and> w' = volume_world"
    by (rule unguarded_commands_refused [where C = store_client, THEN conjunct2, THEN mp, THEN bspec, where x = "suspendVolumesCmd store_client", rule_format, OF nd _ run]) simp
  ultimately show ?thesis using run by auto
qed

text \<open>
  C20. \<^verbatim>\<open>clean\<close> and \<^verbatim>\<open>label volumes\<close> accept \<^verbatim>\<open>--dry-run\<close> and
  ignore it: they do the same with and without the flag. So a dry run of \<^verbatim>\<open>clean --all\<close> deletes the
  released volumes.
\<close>

theorem clean_dry_run_deletes:
  "cleanCmd C getPhase (set_dry b f) args w = cleanCmd C getPhase f args w \<and>
   labelVolumesCmd C (set_dry b f) args w = labelVolumesCmd C f args w \<and>
   (\<exists>w' v. cleanCmd store_client released_phase dry_all [] volume_world = Some (None, w') \<and>
      world_volumes volume_world ''pvc-1'' \<noteq> None \<and> world_volumes w' ''pvc-1'' = Some v \<and> DeletionTimestamp v \<noteq> None)"
proof -
  have "case cleanCmd store_client released_phase dry_all [] volume_world of
      Some (None, w') \<Rightarrow> world_volumes volume_world ''pvc-1'' \<noteq> None \<and>
        (case world_volumes w' ''pvc-1'' of None \<Rightarrow> False | Some v \<Rightarrow> DeletionTimestamp v \<noteq> None) | _ \<Rightarrow> False"
    by code_simp
  then have "\<exists>w' v. cleanCmd store_client released_phase dry_all [] volume_world = Some (None, w') \<and>
      world_volumes volume_world ''pvc-1'' \<noteq> None \<and> world_volumes w' ''pvc-1'' = Some v \<and> DeletionTimestamp v \<noteq> None"
    by (auto split: option.splits prod.splits)
  moreover have "cleanCmd C getPhase (set_dry b f) args w = cleanCmd C getPhase f args w"
    unfolding cleanCmd_def
    by (rule run_cmd_blind [OF dry_blind_commands(4), THEN fun_cong]) (simp add: cleanMain_def fun_eq_iff)
  moreover have "labelVolumesCmd C (set_dry b f) args w = labelVolumesCmd C f args w"
    unfolding labelVolumesCmd_def
    by (rule run_cmd_blind [OF dry_blind_commands(6), THEN fun_cong]) (simp add: labelVolumesMain_def fun_eq_iff)
  ultimately show ?thesis by blast
qed

end
