(* ===== verification/Metrics.thy ===== *)
theory Metrics
  imports Admin_Loops Devices
begin

text \<open>
  The metrics of a node (\<^verbatim>\<open>metrics/collector.go\<close>): the space used by the published volumes of the
  node and the statistics of its drives, as they are sent to the registry of Prometheus. The channel to the registry is the
  list of metrics sent so far. A value is an integer over a divisor, since latencies are given in milliseconds and reported in
  seconds; the rounding of \<^verbatim>\<open>float64\<close> is left out. A drive whose statistics have ten numbers makes the
  collector panic, which is part of its result.
\<close>

section \<open>The collector\<close>

definition defaultSectorSize :: int where "defaultSectorSize = 512"

record driveStats =
  readBytes :: int
  readTicks :: int
  writeBytes :: int
  writeTicks :: int
  timeInQueue :: int

definition getDriveStats :: "('w, 'b) probe_env_scheme \<Rightarrow> string \<Rightarrow> ('w, driveStats) io" where
  "getDriveStats E driveName w =
     call (GetStat E driveName w) (\<lambda>err w. (Inl err, w))
       (\<lambda>stat w.
          if length stat = 0 then (Inl (ErrorString ''unable to read stat from drive''), w)
          else if length stat < 10 then (Inl (ErrorString ''invalid stat format from drive''), w)
          else if length stat \<le> 10 then (Inl (Panic ''index out of range''), w)
          else (Inr \<lparr> readBytes = u64 (int (stat ! 2) * defaultSectorSize), readTicks = int (stat ! 3),
                  writeBytes = u64 (int (stat ! 6) * defaultSectorSize), writeTicks = int (stat ! 7),
                  timeInQueue = int (stat ! 10) \<rparr>, w))"

record metric =
  metricName :: string
  metricValue :: int
  metricDivisor :: int
  metricLabels :: "string list"

definition volume_metrics :: "'a lib_scheme \<Rightarrow> Volume \<Rightarrow> Quota \<Rightarrow> metric list" where
  "volume_metrics L volume quota =
     (let labels = [GetTenantName L volume, objName volume, Volume_GetNodeID L volume]
      in [\<lparr> metricName = ''bytes_used'', metricValue = CurrentSpace quota, metricDivisor = 1, metricLabels = labels \<rparr>,
          \<lparr> metricName = ''bytes_total'', metricValue = vTotalCapacity (volumeStatus volume), metricDivisor = 1, metricLabels = labels \<rparr>])"

definition publishVolumeStats :: "('w, 'b) env_scheme \<Rightarrow> Volume \<Rightarrow> 'w \<Rightarrow> metric list \<times> 'w" where
  "publishVolumeStats E volume w =
     call (getDeviceByFSUUID E (vFSUUID (volumeStatus volume)) w) (\<lambda>err w. ([], w))
       (\<lambda>device w. call (getQuota E device (objName volume) w) (\<lambda>err w. ([], w))
          (\<lambda>quota w. (volume_metrics E volume quota, w)))"

definition ready_metric :: "Drive \<Rightarrow> bool \<Rightarrow> metric" where
  "ready_metric drive online =
     \<lparr> metricName = ''drive_ready'', metricValue = (if online then 1 else 0), metricDivisor = 1, metricLabels = [objName drive] \<rparr>"

definition drive_metrics :: "Drive \<Rightarrow> driveStats \<Rightarrow> metric list" where
  "drive_metrics drive st =
     map (\<lambda>(name, val, unit). \<lparr> metricName = name, metricValue = val, metricDivisor = unit, metricLabels = [objName drive] \<rparr>)
       [(''drive_total_read_bytes'', readBytes st, 1), (''drive_total_write_bytes'', writeBytes st, 1),
        (''drive_read_latency_seconds'', readTicks st, 1000), (''drive_write_latency_seconds'', writeTicks st, 1000),
        (''drive_wait_time_seconds'', timeInQueue st, 1000)]"

definition publishDriveStats :: "('w, 'b) probe_env_scheme \<Rightarrow> Drive \<Rightarrow> 'w \<Rightarrow> (metric list \<times> error option) \<times> 'w" where
  "publishDriveStats E drive w =
     call (getDeviceByFSUUID E (dFSUUID (driveStatus drive)) w) (\<lambda>err w. (([], None), w))
       (\<lambda>deviceID w.
          call (getDriveStats E (TrimDevPrefix deviceID) w)
            (\<lambda>err w. case err of Panic _ \<Rightarrow> (([], Some err), w) | _ \<Rightarrow> (([ready_metric drive False], None), w))
            (\<lambda>st w. ((ready_metric drive True # drive_metrics drive st, None), w)))"

definition collect_volume :: "('w, 'b) env_scheme \<Rightarrow> (Volume, metric list, 'w) consumer" where
  "collect_volume E r ms w =
     (case r of
        Inl err \<Rightarrow> (False, ms, w)
      | Inr v \<Rightarrow>
          if vTargetPath (volumeStatus v) \<noteq> [] then (case publishVolumeStats E v w of (new, w) \<Rightarrow> (True, ms @ new, w))
          else (True, ms, w))"

definition collect_drive :: "('w, 'b) probe_env_scheme \<Rightarrow> (Drive, metric list \<times> error option, 'w) consumer" where
  "collect_drive E r s w =
     (case r of
        Inl err \<Rightarrow> (False, s, w)
      | Inr d \<Rightarrow> case publishDriveStats E d w of ((new, panic), w) \<Rightarrow> (panic = None, (fst s @ new, panic), w))"

definition Collect_metrics :: "('w, 'b) probe_env_scheme \<Rightarrow> 'w \<Rightarrow> (metric list \<times> error option) \<times> 'w" where
  "Collect_metrics E w =
     (let node = [ToLabelValue E (nodeID E)]
      in case VolumeLister_List E (VolumeLister_NodeSelector node NewVolumeLister) (collect_volume E) [] w of
           (ms, w) \<Rightarrow> DriveLister_List E (DriveLister_NodeSelector node NewDriveLister) (collect_drive E) (ms, None) w)"

section \<open>What is reported\<close>

text \<open>The metrics of a published volume, all or none, and of a drive.\<close>

definition of_volume :: "'a lib_scheme \<Rightarrow> (string \<Rightarrow> Volume option) \<Rightarrow> metric list \<Rightarrow> bool" where
  "of_volume L vs ms \<longleftrightarrow>
     ms = [] \<or> (\<exists>v q. vs (objName v) = Some v \<and> IsPublished v \<and> ms = volume_metrics L v q)"

definition of_drive :: "(string \<Rightarrow> Drive option) \<Rightarrow> metric list \<Rightarrow> bool" where
  "of_drive ds ms \<longleftrightarrow>
     ms = [] \<or> (\<exists>d. ds (objName d) = Some d \<and> (ms = [ready_metric d False] \<or> (\<exists>st. ms = ready_metric d True # drive_metrics d st)))"

definition reported :: "(metric list \<Rightarrow> bool) \<Rightarrow> metric list \<Rightarrow> bool" where
  "reported P ms \<longleftrightarrow> (\<exists>mss. ms = concat mss \<and> list_all P mss)"

lemma reported_Nil [simp]: "reported P []"
  unfolding reported_def by (intro exI [of _ "[]"]) simp

lemma reported_append: "reported P ms \<Longrightarrow> P new \<Longrightarrow> reported P (ms @ new)"
  unfolding reported_def by (elim exE conjE, rule_tac x = "mss @ [new]" in exI) simp

context probe_cluster
begin

lemma quiet_metrics_host: "quiet (getDeviceByFSUUID E a)" "quiet (getQuota E a b)"
  by (intro quietI keepsI; erule host_ops_drives host_ops_volumes)+

lemma quiet_stat: "quiet (getDriveStats E n)"
  unfolding getDriveStats_def [abs_def] GetStat_def [abs_def]
  by (intro quiet_call quiet_if quiet_value quietI [OF drives_frame.keeps_readFirstLine volumes_frame.keeps_readFirstLine])

lemma publishVolumeStats_spec:
  assumes "publishVolumeStats E v w = (new, w')"
  shows "dstore w' = dstore w \<and> vstore w' = vstore w \<and> (new = [] \<or> (\<exists>q. new = volume_metrics E v q))"
proof -
  have "quiet (publishVolumeStats E v)"
    unfolding publishVolumeStats_def [abs_def] by (intro quiet_call quiet_value quiet_metrics_host)
  from quietD [OF this assms] show ?thesis
    using assms by (auto simp: publishVolumeStats_def elim!: callE)
qed

lemma publishDriveStats_spec:
  assumes "publishDriveStats E d w = ((new, panic), w')"
  shows "dstore w' = dstore w \<and> vstore w' = vstore w \<and>
    (new = [] \<or> new = [ready_metric d False] \<or> (\<exists>st. new = ready_metric d True # drive_metrics d st))"
proof -
  have "quiet (\<lambda>w. case e of Panic x \<Rightarrow> (([], Some e), w) | _ \<Rightarrow> (([ready_metric d False], None), w))" for e
    by (cases e) (simp_all add: quiet_value)
  then have "quiet (publishDriveStats E d)"
    unfolding publishDriveStats_def [abs_def] by (intro quiet_call quiet_value quiet_metrics_host quiet_stat)
  from quietD [OF this assms] show ?thesis
    using assms by (auto simp: publishDriveStats_def elim!: callE split: error.splits)
qed

lemma collect_volume_step:
  assumes "collect_volume E r ms w = (b, ms', w')" and "reported (of_volume E vs) ms" and "\<And>x. r = Inr x \<Longrightarrow> vs (objName x) = Some x"
  shows "reported (of_volume E vs) ms' \<and> dstore w' = dstore w \<and> vstore w' = vstore w"
proof (cases r)
  case (Inr x)
  show ?thesis
  proof (cases "vTargetPath (volumeStatus x) = []")
    case False
    obtain new w1 where p: "publishVolumeStats E x w = (new, w1)" by fastforce
    then have "of_volume E vs new"
      using publishVolumeStats_spec [OF p] assms(3) [OF Inr] False by (auto simp: of_volume_def IsPublished_def)
    then show ?thesis
      using publishVolumeStats_spec [OF p] assms(1,2) p Inr False reported_append by (auto simp: collect_volume_def)
  qed (use assms(1,2) Inr in \<open>simp add: collect_volume_def\<close>)
qed (use assms(1,2) in \<open>simp add: collect_volume_def\<close>)

lemma collect_drive_step:
  assumes "collect_drive E r s w = (b, s', w')" and "\<exists>dms. fst s = ms @ dms \<and> reported (of_drive ds) dms"
    and "\<And>x. r = Inr x \<Longrightarrow> ds (objName x) = Some x"
  shows "(\<exists>dms. fst s' = ms @ dms \<and> reported (of_drive ds) dms) \<and> dstore w' = dstore w \<and> vstore w' = vstore w"
proof (cases r)
  case (Inr x)
  obtain new panic w1 where p: "publishDriveStats E x w = ((new, panic), w1)" by (metis prod.exhaust)
  then have "of_drive ds new"
    using publishDriveStats_spec [OF p] assms(3) [OF Inr] by (auto simp: of_drive_def)
  then have "\<exists>dms. fst s @ new = ms @ dms \<and> reported (of_drive ds) dms"
    using assms(2) reported_append by (metis append_assoc)
  then show ?thesis using publishDriveStats_spec [OF p] assms(1) p Inr by (auto simp: collect_drive_def)
qed (use assms(1,2) in \<open>auto simp: collect_drive_def\<close>)

lemma Collect_metrics_spec:
  assumes "Collect_metrics E w = ((ms, panic), w')"
  shows "dstore w' = dstore w \<and> vstore w' = vstore w \<and>
    (\<exists>vms dms. ms = vms @ dms \<and> reported (of_volume E (vstore w)) vms \<and> reported (of_drive (dstore w)) dms)"
proof -
  define node where "node = [ToLabelValue E (nodeID E)]"
  obtain vms w1 where run: "VolumeLister_List E (VolumeLister_NodeSelector node NewVolumeLister) (collect_volume E) [] w = (vms, w1)" by fastforce
  have step: "reported (of_volume E (vstore w)) s' \<and> dstore v' = dstore w \<and> vstore v' = vstore w"
    if "collect_volume E r s v = (b, s', v')" "reported (of_volume E (vstore w)) s" "dstore v = dstore w" "vstore v = vstore w"
      "\<And>x. r = Inr x \<Longrightarrow> vstore w (objName x) = Some x" for r s v b s' v'
    using collect_volume_step [OF that(1,2,5)] that(3,4) by simp
  have v: "reported (of_volume E (vstore w)) vms \<and> dstore w1 = dstore w \<and> vstore w1 = vstore w"
    by (rule volume_visits [where Q = "reported (of_volume E (vstore w))", OF step run reported_Nil refl refl])
  have run2: "DriveLister_List E (DriveLister_NodeSelector node NewDriveLister) (collect_drive E) (vms, None) w1 = ((ms, panic), w')"
    using assms run by (simp add: Collect_metrics_def node_def Let_def)
  let ?Q = "\<lambda>s. \<exists>dms. fst s = vms @ dms \<and> reported (of_drive (dstore w)) dms"
  have step2: "?Q s' \<and> dstore v' = dstore w \<and> vstore v' = vstore w"
    if "collect_drive E r s v = (b, s', v')" "?Q s" "dstore v = dstore w" "vstore v = vstore w"
      "\<And>x. r = Inr x \<Longrightarrow> dstore w (objName x) = Some x" for r s v b s' v'
    using collect_drive_step [OF that(1,2,5)] that(3,4) by simp
  have q: "?Q (vms, None)" by (auto intro: exI [of _ "[]"])
  have "?Q (ms, panic) \<and> dstore w' = dstore w \<and> vstore w' = vstore w"
  proof (rule drive_visits [where Q = ?Q, OF _ run2 q], goal_cases)
    case (1 r s v b s' v')
    then show ?case by (intro step2 [of r s v b s' v'])
  qed (use v in simp_all)
  then show ?thesis using v by auto
qed

end

section \<open>The properties\<close>


text \<open>
  Drive statistics. A statistics line of at least eleven numbers gives the statistics, with the byte counters in
  multiples of the sector size; one of fewer than ten is refused with an error; one of exactly ten passes the check of its length
  and makes the collector panic.
\<close>

theorem getDriveStats_correct:
  assumes "GetStat E name w = (Inr stat, w')"
  shows "(11 \<le> length stat \<longrightarrow> (\<exists>st. getDriveStats E name w = (Inr st, w') \<and> readTicks st = int (stat ! 3) \<and>
            timeInQueue st = int (stat ! 10) \<and> (512 * int (stat ! 2) < 2 ^ 64 \<longrightarrow> readBytes st = 512 * int (stat ! 2)))) \<and>
         (length stat < 10 \<longrightarrow> (\<exists>msg. getDriveStats E name w = (Inl (ErrorString msg), w'))) \<and>
         (length stat = 10 \<longrightarrow> (\<exists>msg. getDriveStats E name w = (Inl (Panic msg), w')))"
  using assms by (simp add: getDriveStats_def defaultSectorSize_def u64_def mult.commute)

definition metrics_world :: hworld where
  "metrics_world =
     world.extend (volume_world\<lparr>wVolumes := [sample_volume\<lparr>volumeStatus := (volumeStatus sample_volume)\<lparr>vTargetPath := ''/target''\<rparr>\<rparr>]\<rparr>)
       (hworld.fields [])"


definition stat_env :: "hworld probe_env" where
  "stat_env = store_probe\<lparr>os_Open := \<lambda>p w. (Inr (''1 2 3 4 5 6 7 8 9 10'', None), w)\<rparr>"

theorem getDriveStats_correct_witness:
  "\<exists>stat w' msg. GetStat stat_env ''sda'' metrics_world = (Inr stat, w') \<and> getDriveStats stat_env ''sda'' metrics_world = (Inl (Panic msg), w')"
proof -
  have line: "readFirstLine stat_env (''/sys/class/block/'' @ ''sda'' @ ''/stat'') metrics_world = (Inr ''1 2 3 4 5 6 7 8 9 10'', metrics_world)"
  proof -
    have "strings_TrimSpace ''1 2 3 4 5 6 7 8 9 10'' = ''1 2 3 4 5 6 7 8 9 10''" by code_simp
    then show ?thesis by (simp add: readFirstLine_def stat_env_def)
  qed
  have "strings_Fields ''1 2 3 4 5 6 7 8 9 10'' = [''1'', ''2'', ''3'', ''4'', ''5'', ''6'', ''7'', ''8'', ''9'', ''10'']" by code_simp
  moreover have "ParseUint [c] = Some (byte c - 48)" if "c \<in> set ''123456789''" for c
    using that by (auto simp: ParseUint_def digits_value_def is_digit_def byte_def)
  moreover have "ParseUint ''10'' = Some 10" by (simp add: ParseUint_def digits_value_def is_digit_def byte_def)
  ultimately have "parse_stats (strings_Fields ''1 2 3 4 5 6 7 8 9 10'') [] = Inr [1, 2, 3, 4, 5, 6, 7, 8, 9, 10]"
    by (simp add: byte_def)
  then obtain stat w' where s: "GetStat stat_env ''sda'' metrics_world = (Inr stat, w')" "length stat = 10"
    using line by (simp add: GetStat_def)
  then show ?thesis using getDriveStats_correct [OF s(1)] by auto
qed

end
