(* ===== verification/Operations.thy ===== *)
theory Operations
  imports Discovery Metrics
begin

text \<open>
  Smaller operations around the core: the helpers of \<^verbatim>\<open>k8s/k8s.go\<close>, the totals of
  \<^verbatim>\<open>admin/info.go\<close>, the repair jobs of \<^verbatim>\<open>admin/repair.go\<close>, the identity service
  (\<^verbatim>\<open>csi/identity\<close>) and the test of reflink support (\<^verbatim>\<open>initrequest/reflink_linux.go\<close>).

  The Kubernetes clients for custom resource definitions, daemon sets and jobs, temporary files and loop devices are arguments.
  \<open>job_server\<close> is the contract of the jobs: a created job is stored under its name, and only if there was none.
\<close>

section \<open>Helpers\<close>

definition IsCondition :: "Condition list \<Rightarrow> string \<Rightarrow> string \<Rightarrow> string \<Rightarrow> string \<Rightarrow> bool" where
  "IsCondition conditions ctype status reason message =
     list_ex (\<lambda>c. condType c = ctype \<and> condStatus c = status \<and> condReason c = reason \<and> condMessage c = message) conditions"

fun UpdateCondition :: "nat \<Rightarrow> string \<Rightarrow> string \<Rightarrow> string \<Rightarrow> string \<Rightarrow> Condition list \<Rightarrow> Condition list" where
  "UpdateCondition now ctype status reason message [] = []"
| "UpdateCondition now ctype status reason message (c # cs) =
     (if condType c = ctype
      then c\<lparr>condStatus := status, condReason := reason, condMessage := message, LastTransitionTime := now\<rparr> # cs
      else c # UpdateCondition now ctype status reason message cs)"

definition BoolToConditionStatus :: "bool \<Rightarrow> string" where
  "BoolToConditionStatus val = (if val then ''True'' else ''False'')"

text \<open>\<^verbatim>\<open>strings.ToLower\<close> as far as the loop below can see it: the letters, and the two other runes whose
  lower case is a letter.\<close>

definition lower_rune :: "rune \<Rightarrow> rune" where
  "lower_rune r = (if 65 \<le> r \<and> r \<le> 90 then r + 32 else if r = 0x212A then 107 else if r = 0x130 then 105 else r)"

definition name_rune :: "nat \<Rightarrow> rune \<Rightarrow> rune" where
  "name_rune i r = (if (97 \<le> r \<and> r \<le> 122) \<or> (48 \<le> r \<and> r \<le> 57) then r else if i = 0 then 48 else 45)"

definition SanitizeResourceName :: "string \<Rightarrow> string" where
  "SanitizeResourceName name =
     (let name = (if length name > 253 then take 253 name else name)
      in string_of_ascii_runes (map_index_from 0 name_rune (map lower_rune (runes name))))"

fun ParseNodeSelector :: "string list \<Rightarrow> (string \<rightharpoonup> string) \<Rightarrow> (string \<rightharpoonup> string) result" where
  "ParseNodeSelector [] nodeSelector = Inr nodeSelector"
| "ParseNodeSelector (v # vs) nodeSelector =
     (case strings_Split v ''='' of
        [k, x] \<Rightarrow>
          if k = [] then Inl (ErrorString ''invalid key in node selector value'')
          else ParseNodeSelector vs (nodeSelector(k \<mapsto> x))
      | _ \<Rightarrow> Inl (ErrorString ''invalid node selector value''))"

record Toleration =
  tolKey :: string
  tolOperator :: string
  tolValue :: string
  tolEffect :: string

text \<open>The two switches of \<^verbatim>\<open>ParseTolerations\<close>: key, value with its effect, and effect of a value without an
  equals sign; then the effect of a value with one.\<close>

definition toleration_parts :: "string \<Rightarrow> (string \<times> string \<times> string) result" where
  "toleration_parts v =
     (case strings_SplitN2 v ''='' of
        [k] \<Rightarrow>
          (case strings_Split k '':'' of
             [_] \<Rightarrow> Inr (k, [], [])
           | [k, e] \<Rightarrow> Inr (k, [], e)
           | _ \<Rightarrow> Inl (ErrorString ''invalid toleration''))
      | [k, x] \<Rightarrow> Inr (k, x, [])
      | _ \<Rightarrow> Inl (ErrorString ''invalid toleration''))"

definition toleration_value :: "string \<times> string \<times> string \<Rightarrow> (string \<times> string \<times> string) result" where
  "toleration_value = (\<lambda>(k, v, e).
     if k = [] then Inl (ErrorString ''invalid key in toleration'')
     else if v \<noteq> []
     then (case strings_Split v '':'' of
             [v, e] \<Rightarrow> Inr (k, v, e)
           | _ \<Rightarrow> Inl (ErrorString ''invalid value in toleration''))
     else Inr (k, v, e))"

definition toleration :: "string \<Rightarrow> Toleration result" where
  "toleration value =
     (case toleration_parts value of
        Inl err \<Rightarrow> Inl err
      | Inr p \<Rightarrow>
          (case toleration_value p of
             Inl err \<Rightarrow> Inl err
           | Inr (k, v, e) \<Rightarrow>
               if e \<in> set [''NoSchedule'', ''PreferNoSchedule'', ''NoExecute'']
               then Inr \<lparr> tolKey = k, tolOperator = (if v \<noteq> [] then ''Equal'' else ''Exists''), tolValue = v, tolEffect = e \<rparr>
               else Inl (ErrorString ''invalid toleration effect in toleration'')))"

fun ParseTolerations :: "string list \<Rightarrow> Toleration list result" where
  "ParseTolerations [] = Inr []"
| "ParseTolerations (v # vs) =
     (case toleration v of
        Inl err \<Rightarrow> Inl err
      | Inr t \<Rightarrow> (case ParseTolerations vs of Inl err \<Rightarrow> Inl err | Inr ts \<Rightarrow> Inr (t # ts)))"

section \<open>Totals\<close>

record NodeLevelInfo =
  DriveSize :: int
  VolumeSize :: int
  DriveCount :: int
  VolumeCount :: int

definition DriveResource :: string where "DriveResource = AppName @ ''drives''"
definition VolumeResource :: string where "VolumeResource = AppName @ ''volumes''"

definition count_drive :: "'a lib_scheme \<Rightarrow> string \<Rightarrow> Drive \<Rightarrow> int \<times> int \<Rightarrow> int \<times> int" where
  "count_drive L n d = (\<lambda>(count, size).
     if Drive_GetNodeID L d = n then (count + 1, u64 (size + u64 (dTotalCapacity (driveStatus d)))) else (count, size))"

definition count_volume :: "'a lib_scheme \<Rightarrow> string \<Rightarrow> Volume \<Rightarrow> int \<times> int \<Rightarrow> int \<times> int" where
  "count_volume L n v = (\<lambda>(count, size).
     if Volume_GetNodeID L v = n \<and> IsPublished v then (count + 1, u64 (size + u64 (vTotalCapacity (volumeStatus v)))) else (count, size))"

definition node_info :: "'a lib_scheme \<Rightarrow> Drive list \<Rightarrow> Volume list \<Rightarrow> string \<Rightarrow> NodeLevelInfo" where
  "node_info L drives volumes n =
     (case fold (count_drive L n) drives (0, 0) of
        (driveCount, driveSize) \<Rightarrow>
          case fold (count_volume L n) volumes (0, 0) of
            (volumeCount, volumeSize) \<Rightarrow>
              \<lparr> DriveSize = driveSize, VolumeSize = volumeSize, DriveCount = driveCount, VolumeCount = volumeCount \<rparr>)"

definition Info :: "('w, 'b) client_scheme \<Rightarrow> ('w, 'a) csi_server_scheme \<Rightarrow> ('w, string list) io \<Rightarrow> ('w, string \<rightharpoonup> NodeLevelInfo) io" where
  "Info C S crdNames w =
     call (crdNames w) (\<lambda>err w. (Inl (Wrap ''unable to list CRDs'' err), w))
       (\<lambda>crds w.
          if \<not> list_ex (\<lambda>name. strings_Contains name (DriveResource @ ''.'' @ GroupName)) crds \<or>
             \<not> list_ex (\<lambda>name. strings_Contains name (VolumeResource @ ''.'' @ GroupName)) crds
          then (Inl (ErrorString (AppPrettyName @ '' installation not found'')), w)
          else call (GetCSINodes S w) (\<lambda>err w. (Inl (Wrap ''unable to get CSI nodes'' err), w))
            (\<lambda>nodeList w.
               if nodeList = [] then (Inl (ErrorString (AppPrettyName @ '' not installed'')), w)
               else case DriveLister_Get C NewDriveLister w of
                      ((_, Some err), w) \<Rightarrow> (Inl (Wrap ''unable to get drive list'' err), w)
                    | ((drives, None), w) \<Rightarrow>
                        (case VolumeLister_Get C NewVolumeLister w of
                           ((_, Some err), w) \<Rightarrow> (Inl (Wrap ''unable to get volume list'' err), w)
                         | ((volumes, None), w) \<Rightarrow>
                             (Inr (fold (\<lambda>n m. m(n \<mapsto> node_info C drives volumes n)) nodeList Map.empty), w))))"

section \<open>Properties of the helpers\<close>

lemma Index_char_None: "c \<notin> set s \<Longrightarrow> strings_Index s [c] = None"
  by (induction s) (auto simp: HasPrefix_def)

lemma Index_char_Some: "strings_Index s [c] = Some i \<Longrightarrow> \<exists>a b. s = a @ c # b \<and> c \<notin> set a \<and> i = length a"
proof (induction s arbitrary: i)
  case (Cons x s)
  show ?case
  proof (cases "x = c")
    case True
    then show ?thesis using Cons.prems by (intro exI [of _ "[]"] exI [of _ s]) (simp add: HasPrefix_def)
  next
    case False
    then obtain j where "strings_Index s [c] = Some j" "i = Suc j" using Cons.prems by (auto simp: HasPrefix_def)
    moreover then obtain a b where "s = a @ c # b" "c \<notin> set a" "j = length a" using Cons.IH by blast
    ultimately show ?thesis using False by (intro exI [of _ "x # a"] exI [of _ b]) simp
  qed
qed simp

lemma Split_char_None: "c \<notin> set s \<Longrightarrow> strings_Split s [c] = [s]"
  by (subst strings_Split.simps) (simp add: Index_char_None)

lemma Split_char: "c \<notin> set a \<Longrightarrow> strings_Split (a @ c # b) [c] = a # strings_Split b [c]"
  by (subst strings_Split.simps) (simp add: strings_Index_char)

lemma Split_char_cases:
  obtains "c \<notin> set s" "strings_Split s [c] = [s]"
  | a b where "s = a @ c # b" "c \<notin> set a" "strings_Split s [c] = a # strings_Split b [c]"
proof (cases "strings_Index s [c]")
  case None
  then have "c \<notin> set s" by (metis option.simps(3) split_list_first strings_Index_char)
  then show thesis using that(1) Split_char_None by blast
next
  case (Some i)
  then show thesis using that(2) Index_char_Some Split_char by metis
qed

lemma Split_nonempty: "strings_Split s [c] \<noteq> []"
  by (rule Split_char_cases [of c s]) auto

lemma Split_one: "strings_Split s [c] = [x] \<Longrightarrow> c \<notin> set s \<and> x = s"
  by (rule Split_char_cases [of c s]) (auto simp: Split_nonempty Split_nonempty [symmetric])

lemma Split_two: "strings_Split s [c] = [x, y] \<Longrightarrow> s = x @ c # y \<and> c \<notin> set x \<and> c \<notin> set y"
  by (rule Split_char_cases [of c s]) (auto dest: Split_one [OF sym])

lemma SplitN2_cases:
  obtains "c \<notin> set s" "strings_SplitN2 s [c] = [s]"
  | a b where "s = a @ c # b" "c \<notin> set a" "strings_SplitN2 s [c] = [a, b]"
proof (cases "strings_Index s [c]")
  case None
  then have "c \<notin> set s" by (metis option.simps(3) split_list_first strings_Index_char)
  then show thesis using that(1) None by (simp add: strings_SplitN2_def)
next
  case (Some i)
  then obtain a b where "s = a @ c # b" "c \<notin> set a" using Index_char_Some by blast
  then show thesis using that(2) SplitN2_char by blast
qed

text \<open>What a toleration that was accepted looks like, and how it is written.\<close>

definition toleration_ok :: "Toleration \<Rightarrow> bool" where
  "toleration_ok t \<longleftrightarrow> tolKey t \<noteq> [] \<and> CHR ''='' \<notin> set (tolKey t) \<and> CHR '':'' \<notin> set (tolValue t) \<and>
     tolEffect t \<in> set [''NoSchedule'', ''PreferNoSchedule'', ''NoExecute''] \<and>
     tolOperator t = (if tolValue t \<noteq> [] then ''Equal'' else ''Exists'')"

definition print_toleration :: "Toleration \<Rightarrow> string" where
  "print_toleration t =
     tolKey t @ (if tolValue t = [] then [] else CHR ''='' # tolValue t) @ CHR '':'' # tolEffect t"

lemma toleration_accepts:
  assumes "toleration v = Inr t"
  shows "toleration_ok t"
proof -
  obtain p where p: "toleration_parts v = Inr p" using assms by (auto simp: toleration_def split: sum.splits)
  obtain k x e where pe: "p = (k, x, e)" by (cases p) auto
  have k: "CHR ''='' \<notin> set k"
    using p pe by (cases rule: SplitN2_cases [of "CHR ''=''" v]) (auto simp: toleration_parts_def split: list.splits dest!: Split_one Split_two)
  obtain k' x' e' where t: "toleration_value p = Inr (k', x', e')" "e' \<in> set [''NoSchedule'', ''PreferNoSchedule'', ''NoExecute'']"
      "t = \<lparr> tolKey = k', tolOperator = (if x' \<noteq> [] then ''Equal'' else ''Exists''), tolValue = x', tolEffect = e' \<rparr>"
    using assms p by (auto simp: toleration_def split: sum.splits if_splits)
  have "k' \<noteq> [] \<and> k' = k \<and> CHR '':'' \<notin> set x'"
    using t(1) pe by (auto simp: toleration_value_def split: if_splits list.splits dest!: Split_two)
  then show ?thesis using t k by (auto simp: toleration_ok_def)
qed

lemma toleration_print:
  assumes "toleration_ok t" and "tolValue t = [] \<Longrightarrow> CHR '':'' \<notin> set (tolKey t)"
  shows "toleration (print_toleration t) = Inr t"
proof -
  have e: "CHR '':'' \<notin> set (tolEffect t)" "CHR ''='' \<notin> set (tolEffect t)" using assms(1) by (auto simp: toleration_ok_def)
  obtain k x where kx: "tolKey t = k" "tolValue t = x" by blast
  show ?thesis
  proof (cases "x = []")
    case True
    then have "strings_SplitN2 (print_toleration t) ''='' = [k @ CHR '':'' # tolEffect t]"
      using assms(1) e kx by (auto simp: print_toleration_def toleration_ok_def strings_SplitN2_def Index_char_None)
    moreover have "strings_Split (k @ CHR '':'' # tolEffect t) '':'' = [k, tolEffect t]"
      using assms(2) True kx e by (simp add: Split_char Split_char_None)
    ultimately show ?thesis
      using assms(1) True kx by (simp add: toleration_def toleration_parts_def toleration_value_def toleration_ok_def)
  next
    case False
    then have "strings_SplitN2 (print_toleration t) ''='' = [k, x @ CHR '':'' # tolEffect t]"
      using assms(1) kx SplitN2_char [of "CHR ''=''" k] by (simp add: print_toleration_def toleration_ok_def)
    moreover have "strings_Split (x @ CHR '':'' # tolEffect t) '':'' = [x, tolEffect t]"
      using assms(1) kx e by (simp add: toleration_ok_def Split_char Split_char_None)
    ultimately show ?thesis
      using assms(1) False kx by (simp add: toleration_def toleration_parts_def toleration_value_def toleration_ok_def)
  qed
qed

lemma ParseTolerations_all: "ParseTolerations vs = Inr ts \<longleftrightarrow> map toleration vs = map Inr ts"
proof (induction vs arbitrary: ts)
  case (Cons v vs)
  show ?case using Cons.IH [of "tl ts"] by (cases ts) (auto split: sum.splits)
qed auto

lemma length_name_runes: "length (SanitizeResourceName n) \<le> 253"
proof -
  have "length (runes s) \<le> 253" if "length s \<le> 253" for s
    using length_runes [of s] that by linarith
  then show ?thesis by (simp add: SanitizeResourceName_def string_of_ascii_runes_def Let_def)
qed

lemma nth_SanitizeResourceName:
  assumes "i < length (SanitizeResourceName n)"
  shows "byte (SanitizeResourceName n ! i) \<in> {97..122} \<union> {48..57} \<or> (i \<noteq> 0 \<and> SanitizeResourceName n ! i = CHR ''-'')"
proof -
  let ?n = "if length n > 253 then take 253 n else n"
  let ?r = "name_rune i (map lower_rune (runes ?n) ! i)"
  have "SanitizeResourceName n ! i = char_of ?r"
    using assms nth_map_index_from [of i "map lower_rune (runes ?n)" 0 name_rune]
    by (simp add: SanitizeResourceName_def string_of_ascii_runes_def Let_def)
  moreover have "?r \<in> {97..122} \<union> {48..57} \<or> (i \<noteq> 0 \<and> ?r = 45)" by (auto simp: name_rune_def)
  moreover have "char_of (45 :: nat) = CHR ''-''" by code_simp
  ultimately show ?thesis by (auto simp: byte_def)
qed

lemma UpdateCondition_sets:
  "c \<in> set cs \<Longrightarrow> condType c = ctype \<Longrightarrow> IsCondition (UpdateCondition now ctype status reason message cs) ctype status reason message"
  by (induction cs) (auto simp: IsCondition_def)

lemma UpdateCondition_others:
  "filter (\<lambda>c. condType c \<noteq> ctype) (UpdateCondition now ctype status reason message cs) = filter (\<lambda>c. condType c \<noteq> ctype) cs"
  by (induction cs) auto

text \<open>
  Tolerations. Every accepted toleration has a key without equals sign, a known effect, and the operator that fits its value;
  and a well-formed toleration, written as \<^verbatim>\<open>key=value:effect\<close> or \<^verbatim>\<open>key:effect\<close>, is parsed
  back to itself.
\<close>

theorem ParseTolerations_roundtrip:
  "(ParseTolerations vs = Inr ts \<longrightarrow> list_all toleration_ok ts) \<and>
   (list_all (\<lambda>t. toleration_ok t \<and> (tolValue t = [] \<longrightarrow> CHR '':'' \<notin> set (tolKey t))) ts' \<longrightarrow>
      ParseTolerations (map print_toleration ts') = Inr ts')"
proof (intro conjI impI)
  assume "ParseTolerations vs = Inr ts"
  then have eq: "map toleration vs = map Inr ts" by (simp add: ParseTolerations_all)
  have "\<exists>v. toleration v = Inr t" if "t \<in> set ts" for t
  proof -
    have "Inr t \<in> set (map toleration vs)" unfolding eq using that by simp
    then show ?thesis by (auto dest: sym)
  qed
  then show "list_all toleration_ok ts" using toleration_accepts by (auto simp: list_all_iff)
next
  assume "list_all (\<lambda>t. toleration_ok t \<and> (tolValue t = [] \<longrightarrow> CHR '':'' \<notin> set (tolKey t))) ts'"
  then show "ParseTolerations (map print_toleration ts') = Inr ts'"
    unfolding ParseTolerations_all by (auto simp: list_all_iff intro: toleration_print)
qed

theorem ParseTolerations_roundtrip_witness:
  "ParseTolerations [''a=b:NoExecute'', ''c:NoSchedule''] =
     Inr [\<lparr> tolKey = ''a'', tolOperator = ''Equal'', tolValue = ''b'', tolEffect = ''NoExecute'' \<rparr>,
          \<lparr> tolKey = ''c'', tolOperator = ''Exists'', tolValue = [], tolEffect = ''NoSchedule'' \<rparr>]"
  using ParseTolerations_roundtrip [THEN conjunct2, of
      "[\<lparr> tolKey = ''a'', tolOperator = ''Equal'', tolValue = ''b'', tolEffect = ''NoExecute'' \<rparr>,
        \<lparr> tolKey = ''c'', tolOperator = ''Exists'', tolValue = [], tolEffect = ''NoSchedule'' \<rparr>]"]
  by (simp add: toleration_ok_def print_toleration_def)

text \<open>
  Names. \<^verbatim>\<open>SanitizeResourceName\<close> returns at most 253 lower case letters, digits and dashes, and the first is no
  dash; but it may end in a dash, which is not a name of the documented form.
\<close>

theorem SanitizeResourceName_correct:
  "length (SanitizeResourceName n) \<le> 253 \<and>
   (\<forall>i < length (SanitizeResourceName n).
      byte (SanitizeResourceName n ! i) \<in> {97..122} \<union> {48..57} \<or> (i \<noteq> 0 \<and> SanitizeResourceName n ! i = CHR ''-'')) \<and>
   SanitizeResourceName ''a.'' = ''a-''"
proof -
  have "SanitizeResourceName ''a.'' = ''a-''" by code_simp
  then show ?thesis using length_name_runes nth_SanitizeResourceName by blast
qed

section \<open>Properties of the totals\<close>

lemma fold_count_drive:
  "fold (count_drive L n) ds (c, sz) =
     (c + int (length (filter (\<lambda>d. Drive_GetNodeID L d = n) ds)),
      if filter (\<lambda>d. Drive_GetNodeID L d = n) ds = [] then sz
      else u64 (sz + (\<Sum>d \<leftarrow> filter (\<lambda>d. Drive_GetNodeID L d = n) ds. dTotalCapacity (driveStatus d))))"
  by (induction ds arbitrary: c sz) (auto simp: count_drive_def u64_def mod_simps algebra_simps)

lemma fold_count_volume:
  "fold (count_volume L n) vs (c, sz) =
     (c + int (length (filter (\<lambda>v. Volume_GetNodeID L v = n \<and> IsPublished v) vs)),
      if filter (\<lambda>v. Volume_GetNodeID L v = n \<and> IsPublished v) vs = [] then sz
      else u64 (sz + (\<Sum>v \<leftarrow> filter (\<lambda>v. Volume_GetNodeID L v = n \<and> IsPublished v) vs. vTotalCapacity (volumeStatus v))))"
  by (induction vs arbitrary: c sz) (auto simp: count_volume_def u64_def mod_simps algebra_simps)

lemma node_info_sums:
  "node_info L drives volumes n =
     (let ds = filter (\<lambda>d. Drive_GetNodeID L d = n) drives; vs = filter (\<lambda>v. Volume_GetNodeID L v = n \<and> IsPublished v) volumes
      in \<lparr> DriveSize = u64 (\<Sum>d \<leftarrow> ds. dTotalCapacity (driveStatus d)), VolumeSize = u64 (\<Sum>v \<leftarrow> vs. vTotalCapacity (volumeStatus v)),
           DriveCount = int (length ds), VolumeCount = int (length vs) \<rparr>)"
  by (simp add: node_info_def fold_count_drive fold_count_volume Let_def u64_def)

lemma fold_map_upd: "fold (\<lambda>n m. m(n \<mapsto> f n)) ns m = (\<lambda>n. if n \<in> set ns then Some (f n) else m n)"
  by (induction ns arbitrary: m) (auto simp: fun_eq_iff)

text \<open>
  Totals. A successful \<^verbatim>\<open>Info\<close> has an entry for exactly the CSI nodes; it counts the drives of the node and its
  published volumes among the listed ones, and its sizes are the sums of their capacities, modulo the range of
  \<^verbatim>\<open>uint64\<close>. Without both resource definitions or without a CSI node it fails.
\<close>

theorem Info_correct:
  assumes "Info C S crdNames w = (Inr m, w')"
  shows "\<exists>crds w1 nodes w2 drives w3 volumes. crdNames w = (Inr crds, w1) \<and> GetCSINodes S w1 = (Inr nodes, w2) \<and> nodes \<noteq> [] \<and>
    DriveLister_Get C NewDriveLister w2 = ((drives, None), w3) \<and> VolumeLister_Get C NewVolumeLister w3 = ((volumes, None), w') \<and>
    dom m = set nodes \<and>
    (\<forall>n \<in> set nodes. m n = Some
       (let ds = filter (\<lambda>d. Drive_GetNodeID C d = n) drives; vs = filter (\<lambda>v. Volume_GetNodeID C v = n \<and> IsPublished v) volumes
        in \<lparr> DriveSize = u64 (\<Sum>d \<leftarrow> ds. dTotalCapacity (driveStatus d)), VolumeSize = u64 (\<Sum>v \<leftarrow> vs. vTotalCapacity (volumeStatus v)),
             DriveCount = int (length ds), VolumeCount = int (length vs) \<rparr>))"
proof -
  obtain crds w1 where c: "crdNames w = (Inr crds, w1)" using assms by (auto simp: Info_def elim!: callE)
  obtain nodes w2 where g: "GetCSINodes S w1 = (Inr nodes, w2)" "nodes \<noteq> []"
    using assms c by (auto simp: Info_def elim!: callE split: if_splits)
  obtain drives e w3 where d: "DriveLister_Get C NewDriveLister w2 = ((drives, e), w3)" by (metis prod.exhaust)
  obtain volumes e' w4 where v: "VolumeLister_Get C NewVolumeLister w3 = ((volumes, e'), w4)" by (metis prod.exhaust)
  have "e = None \<and> e' = None \<and> w4 = w' \<and> m = fold (\<lambda>n m. m(n \<mapsto> node_info C drives volumes n)) nodes Map.empty"
    using assms c g d v by (auto simp: Info_def split: if_splits option.splits)
  then have "e = None" "e' = None" "w4 = w'" "dom m = set nodes" "\<forall>n \<in> set nodes. m n = Some (node_info C drives volumes n)"
    by (auto simp: fold_map_upd dom_def)
  then show ?thesis using c g d v unfolding node_info_sums by blast
qed

definition one_node_csi :: "'w csi_server" where
  "one_node_csi = sample_csi\<lparr>csiNodeList := \<lambda>v w. (Inr [(''node-1'', [Identity])], w)\<rparr>"

definition sample_crds :: "('w, string list) io" where
  "sample_crds w = (Inr [''directpvdrives.directpv.min.io'', ''directpvvolumes.directpv.min.io''], w)"

theorem Info_correct_witness:
  "\<exists>m w'. Info store_client one_node_csi sample_crds volume_world = (Inr m, w') \<and> dom m = {''node-1''} \<and>
     map_option DriveCount (m ''node-1'') = Some 1"
proof -
  have "case Info store_client one_node_csi sample_crds volume_world of
      (Inl e, w) \<Rightarrow> False | (Inr m, w) \<Rightarrow> map_option DriveCount (m ''node-1'') = Some 1"
    by code_simp
  then obtain m w' where i: "Info store_client one_node_csi sample_crds volume_world = (Inr m, w')" "map_option DriveCount (m ''node-1'') = Some 1"
    by (auto split: prod.splits sum.splits)
  have "GetCSINodes one_node_csi w = (Inr [''node-1''], w)" for w :: world
    by (simp add: GetCSINodes_def one_node_csi_def sample_csi_def)
  then have "dom m = {''node-1''}" using Info_correct [OF i(1)] by auto
  then show ?thesis using i by blast
qed

section \<open>Repair jobs\<close>

record RepairArgs =
  raDriveIDs :: "DriveID list"
  raDryRun :: bool
  raForceFlag :: bool
  raDisablePrefetchFlag :: bool

text \<open>What a daemon set gives to a job; pull secrets, tolerations, annotations and the security context are passed on unread.\<close>

record ('p, 's) DaemonSet =
  dsUID :: string
  dsContainers :: "(string \<times> string \<times> 's) list"
  dsTemplate :: 'p

record ('p, 's) repairContainerParams =
  containerImage :: string
  securityContext :: "'s option"
  templateParams :: 'p

record ('p, 's) Job =
  jobName :: string
  jobNodeSelector :: "string \<times> string"
  jobServiceAccount :: string
  jobCommand :: "string list"
  jobVolumes :: "(string \<times> string) list"
  jobMounts :: "(string \<times> string \<times> string \<times> bool) list"
  jobBackoffLimit :: int
  jobTTL :: int
  jobParams :: "('p, 's) repairContainerParams"

record ('w, 'p, 's) kube =
  getDaemonSet :: "string \<Rightarrow> ('w, ('p, 's) DaemonSet) io"
  getJob :: "string \<Rightarrow> ('w, ('p, 's) Job) io"
  createJob :: "('p, 's) Job \<Rightarrow> ('w, unit) io"

definition NodeServerName :: string where "NodeServerName = ''node-server''"

definition repairJobVolumes :: "(string \<times> string) list" where
  "repairJobVolumes =
     [(AppName @ ''-common-root'', AppRootDir @ ''/''), (''direct-csi-common-root'', LegacyAppRootDir @ ''/''), (''sysfs'', ''/sys''),
      (''devfs'', ''/dev''), (''run-udev-data-dir'', UdevDataDir)]"

definition repairJobVolumeMounts :: "(string \<times> string \<times> string \<times> bool) list" where
  "repairJobVolumeMounts =
     [(AppName @ ''-common-root'', AppRootDir @ ''/'', ''Bidirectional'', False),
      (''direct-csi-common-root'', LegacyAppRootDir @ ''/'', ''Bidirectional'', False), (''sysfs'', ''/sys'', ''Bidirectional'', False),
      (''devfs'', ''/dev'', ''HostToContainer'', True), (''run-udev-data-dir'', UdevDataDir, ''Bidirectional'', True)]"

text \<open>A daemon set that does not exist is answered with an empty one, which has no UID.\<close>

definition getContainerParams :: "('w, 'p, 's) kube \<Rightarrow> ('w, ('p, 's) repairContainerParams) io" where
  "getContainerParams K w =
     call (getDaemonSet K NodeServerName w)
       (\<lambda>err w. (Inl (if IsNotFound err then ErrorString ''invalid daemonset found'' else err), w))
       (\<lambda>daemonSet w.
          (if dsUID daemonSet = [] then Inl (ErrorString ''invalid daemonset found'')
           else let container = find (\<lambda>(name, _). name = NodeServerName) (dsContainers daemonSet)
                in Inr \<lparr> containerImage = (case container of None \<Rightarrow> [] | Some (_, img, _) \<Rightarrow> img),
                         securityContext = map_option (\<lambda>(_, _, s). s) container, templateParams = dsTemplate daemonSet \<rparr>, w))"

definition repair_job :: "'a lib_scheme \<Rightarrow> ('p, 's) repairContainerParams \<Rightarrow> RepairArgs \<Rightarrow> Drive \<Rightarrow> ('p, 's) Job" where
  "repair_job L params args d =
     (let node = Drive_GetNodeID L d
      in \<lparr> jobName = ''repair-'' @ objName d, jobNodeSelector = (NodeLabelKey, node), jobServiceAccount = Identity,
           jobCommand = [''/directpv'', ''repair'', objName d, ''--kube-node-name='' @ node] @
             (if raForceFlag args then [''--force''] else []) @ (if raDisablePrefetchFlag args then [''--disable-prefetch''] else []) @
             (if raDryRun args then [''--dry-run''] else []),
           jobVolumes = repairJobVolumes, jobMounts = repairJobVolumeMounts, jobBackoffLimit = 1, jobTTL = 300, jobParams = params \<rparr>)"

type_synonym repair_state = "(string \<times> DriveName \<times> DriveID) list \<times> error option"

definition repair_drive :: "('w, 'b) client_scheme \<Rightarrow> ('w, 'p, 's) kube \<Rightarrow> ('p, 's) repairContainerParams \<Rightarrow> RepairArgs \<Rightarrow> (Drive, repair_state, 'w) consumer" where
  "repair_drive C K params args r s w =
     (case r of
        Inl err \<Rightarrow> (False, (fst s, Some err), w)
      | Inr d \<Rightarrow>
          call (getJob K (''repair-'' @ objName d) w)
            (\<lambda>err w.
               if \<not> IsNotFound err then (True, s, w)
               else call (createJob K (repair_job C params args d) w) (\<lambda>err w. (True, s, w))
                      (\<lambda>_ w. (True, (fst s @ [(''repair-'' @ objName d, Drive_GetDriveName C d, Drive_GetDriveID d)], snd s), w)))
            (\<lambda>_ w. (True, s, w)))"

definition Repair :: "('w, 'b) client_scheme \<Rightarrow> ('w, 'p, 's) kube \<Rightarrow> RepairArgs \<Rightarrow> 'w \<Rightarrow> repair_state \<times> 'w" where
  "Repair C K args w =
     (if raDriveIDs args = [] then (([], None), w)
      else call (getContainerParams K w) (\<lambda>err w. (([], Some err), w))
        (\<lambda>params w.
           DriveLister_List C (DriveLister_IgnoreNotFound True (DriveLister_DriveIDSelector (raDriveIDs args) NewDriveLister))
             (repair_drive C K params args) ([], None) w))"

text \<open>Jobs are only added, each one the repair job of a stored drive; what is reported was created.\<close>

definition jobs_added ::
  "'a lib_scheme \<Rightarrow> RepairArgs \<Rightarrow> (string \<Rightarrow> Drive option) \<Rightarrow> (string \<Rightarrow> ('p, 's) Job option) \<Rightarrow> (string \<Rightarrow> ('p, 's) Job option) \<Rightarrow> repair_state \<Rightarrow> bool" where
  "jobs_added L args ds js js' s \<longleftrightarrow>
     (\<forall>n j. js n = Some j \<longrightarrow> js' n = Some j) \<and>
     (\<forall>n j. js n = None \<and> js' n = Some j \<longrightarrow> (\<exists>d params. ds (objName d) = Some d \<and> j = repair_job L params args d \<and> n = jobName j)) \<and>
     (\<forall>(n, _, _) \<in> set (fst s). js n = None \<and> js' n \<noteq> None)"

text \<open>The contract of the jobs, and what they share with drives and volumes: nothing.\<close>

locale job_server = cluster C dstore vstore
  for C :: "('w, 'b) client_scheme" and dstore vstore +
  fixes K :: "('w, 'p, 's) kube" and jobs :: "'w \<Rightarrow> string \<Rightarrow> ('p, 's) Job option"
  assumes daemonSet_keeps: "keeps (\<lambda>w. (dstore w, vstore w, jobs w)) (getDaemonSet K n)"
    and getJob_keeps: "keeps (\<lambda>w. (dstore w, vstore w, jobs w)) (getJob K n)"
    and createJob_keeps: "keeps (\<lambda>w. (dstore w, vstore w)) (createJob K j)"
    and createJob_ok: "createJob K j w = (Inr u, w') \<Longrightarrow> jobs w (jobName j) = None \<and> jobs w' = (jobs w)(jobName j \<mapsto> j)"
    and createJob_err: "createJob K j w = (Inl e, w') \<Longrightarrow> jobs w' = jobs w"
    and drive_step_jobs: "api_step (DriveClient C) w w' \<Longrightarrow> jobs w' = jobs w"
begin

lemma repair_drive_step:
  assumes "repair_drive C K params args r s w = (b, s', w')" and "jobs_added C args ds js (jobs w) s"
    and "\<And>x. r = Inr x \<Longrightarrow> ds (objName x) = Some x"
  shows "jobs_added C args ds js (jobs w') s' \<and> dstore w' = dstore w \<and> vstore w' = vstore w"
proof (cases r)
  case (Inr d)
  let ?j = "repair_job C params args d"
  obtain g w1 where g: "getJob K (''repair-'' @ objName d) w = (g, w1)" by fastforce
  then have k1: "dstore w1 = dstore w" "vstore w1 = vstore w" "jobs w1 = jobs w" using keepsD [OF getJob_keeps g] by simp_all
  obtain c w2 where c: "createJob K ?j w1 = (c, w2)" by fastforce
  then have k2: "dstore w2 = dstore w" "vstore w2 = vstore w" using keepsD [OF createJob_keeps c] k1 by simp_all
  have name: "jobName ?j = ''repair-'' @ objName d" by (simp add: repair_job_def Let_def)
  consider "s' = s" "w' = w1" | e where "c = Inl e" "s' = s" "w' = w2"
    | u where "c = Inr u" "fst s' = fst s @ [(jobName ?j, Drive_GetDriveName C d, Drive_GetDriveID d)]" "w' = w2"
    using assms(1) Inr g c name by (cases g; cases c) (auto simp: repair_drive_def split: if_splits)
  then show ?thesis
  proof cases
    case 1
    then show ?thesis using k1 assms(2) by simp
  next
    case 2
    then show ?thesis using k1 k2 assms(2) createJob_err c by simp
  next
    case 3
    have j: "jobs w (jobName ?j) = None" "jobs w' = (jobs w)(jobName ?j \<mapsto> ?j)" using createJob_ok [of ?j w1 _ w2] c 3 k1 by auto
    moreover have "js (jobName ?j) = None" using j(1) assms(2) unfolding jobs_added_def by (metis not_Some_eq)
    moreover have "ds (objName d) = Some d" using assms(3) Inr by blast
    ultimately show ?thesis
      using assms(2) 3 k2 unfolding jobs_added_def by (auto split: if_splits)
  qed
qed (use assms(1,2) in \<open>auto simp: repair_drive_def jobs_added_def\<close>)

lemma Repair_spec:
  assumes "Repair C K args w = (s, w')"
  shows "dstore w' = dstore w \<and> vstore w' = vstore w \<and> jobs_added C args (dstore w) (jobs w) (jobs w') s"
proof (cases "raDriveIDs args = []")
  case False
  obtain p w1 where p: "getContainerParams K w = (p, w1)" by fastforce
  have k1: "dstore w1 = dstore w" "vstore w1 = vstore w" "jobs w1 = jobs w"
    using p keepsD [OF daemonSet_keeps, of NodeServerName w] by (auto simp: getContainerParams_def elim!: callE)
  show ?thesis
  proof (cases p)
    case (Inl e)
    then show ?thesis using assms False p k1 by (auto simp: Repair_def jobs_added_def)
  next
    case (Inr params)
    let ?l = "DriveLister_IgnoreNotFound True (DriveLister_DriveIDSelector (raDriveIDs args) NewDriveLister)"
    let ?I = "\<lambda>s x. jobs_added C args (dstore w) (jobs w) (jobs x) s \<and> dstore x = dstore w \<and> vstore x = vstore w"
    have run: "DriveLister_List C ?l (repair_drive C K params args) ([], None) w1 = (s, w')"
      using assms False p Inr by (simp add: Repair_def)
    have i: "?I ([], None) w1" using k1 by (auto simp: jobs_added_def)
    have reads: "?I s v'" if "?I s v"
        "(\<exists>n. v' = snd (api_Get (DriveClient C) n v)) \<or> (\<exists>opts. v' = snd (api_List (DriveClient C) opts v))" for s v v'
    proof -
      have "api_step (DriveClient C) v v'" using that(2) api_stepI(1,5) by (metis prod.collapse)
      then have "jobs v' = jobs v" "vstore v' = vstore v" using drive_step_jobs drive_step_volumes by blast+
      moreover have "dstore v' = dstore v" using that(2) d.get_frame d.list_frame by (metis prod.collapse)
      ultimately show ?thesis using that(1) by simp
    qed
    have "?I s w'"
    proof (rule d.run_lister_visits [where I = ?I and \<sigma> = "dstore w", OF _ _ _ run [unfolded DriveLister_List_def Let_def] i], goal_cases)
      case (1 r s v b s' v')
      then show ?case using repair_drive_step [OF 1(1) conjunct1 [OF 1(2)] 1(3)] by simp
    next
      case (3 s v v')
      then show ?case by (rule reads)
    qed simp
    then show ?thesis by blast
  qed
qed (use assms in \<open>auto simp: Repair_def jobs_added_def\<close>)

end


text \<open>A cluster with a list of jobs.\<close>

record jworld = world +
  wJobs :: "(unit, unit) Job list"

definition world_jobs :: "jworld \<Rightarrow> string \<Rightarrow> (unit, unit) Job option" where
  "world_jobs w n = find (\<lambda>j. jobName j = n) (wJobs w)"

definition store_kube :: "(jworld, unit, unit) kube" where
  "store_kube =
     \<lparr> getDaemonSet = (\<lambda>n w. (Inr \<lparr> dsUID = ''uid'', dsContainers = [(NodeServerName, ''directpv:v4'', ())], dsTemplate = () \<rparr>, w)),
       getJob = (\<lambda>n w. (case world_jobs w n of None \<Rightarrow> Inl (Status NotFound) | Some j \<Rightarrow> Inr j, w)),
       createJob = (\<lambda>j w. if world_jobs w (jobName j) = None then (Inr (), w\<lparr>wJobs := j # wJobs w\<rparr>) else (Inl (Status AlreadyExists), w)) \<rparr>"

interpretation store_jobs: job_server store_client world_drives world_volumes store_kube world_jobs
proof (intro job_server.intro job_server_axioms.intro store_cluster.cluster_axioms, goal_cases)
  case (6 w w')
  then show ?case
    unfolding store_client_def client.simps by (rule store_api_step_put) (simp add: world_jobs_def fun_eq_iff)
qed (auto simp: store_kube_def keeps_def world_drives_def world_volumes_def world_jobs_def fun_eq_iff split: if_splits)

definition repair_args :: RepairArgs where
  "repair_args = \<lparr> raDriveIDs = [''drive-1''], raDryRun = True, raForceFlag = False, raDisablePrefetchFlag = False \<rparr>"

definition jobs_world :: jworld where
  "jobs_world = world.extend sample_world (jworld.fields [])"


section \<open>The identity service\<close>

record 'c identityServer =
  isIdentity :: string
  isVersion :: string
  isCapabilities :: "'c list"

datatype PluginCapability = CONTROLLER_SERVICE | VOLUME_ACCESSIBILITY_CONSTRAINTS

definition GetDefaultPluginCapabilities :: "PluginCapability list" where
  "GetDefaultPluginCapabilities = [CONTROLLER_SERVICE, VOLUME_ACCESSIBILITY_CONSTRAINTS]"

definition GetPluginInfo :: "'c identityServer \<Rightarrow> (string \<times> string) result" where
  "GetPluginInfo i =
     (if isIdentity i = [] then Inl (ErrorString ''Driver name not configured'')
      else if isVersion i = [] then Inl (ErrorString ''Driver is missing version'')
      else Inr (isIdentity i, isVersion i))"

definition GetPluginCapabilities :: "'c identityServer \<Rightarrow> 'c list" where
  "GetPluginCapabilities i = isCapabilities i"

section \<open>The test of reflink support\<close>

record 'w loop_sys =
  MkdirTemp :: "('w, string) io"
  CreateTemp :: "('w, string) io"
  os_Remove :: "string \<Rightarrow> ('w, unit) io"
  os_Truncate :: "string \<Rightarrow> ('w, unit) io"
  xfs_MakeFS :: "string \<Rightarrow> bool \<Rightarrow> ('w, unit) io"
  losetup_Attach :: "string \<Rightarrow> ('w, string) io"
  loop_Detach :: "string \<Rightarrow> ('w, unit) io"
  loop_Mount :: "string \<Rightarrow> string \<Rightarrow> ('w, unit) io"
  loop_Unmount :: "string \<Rightarrow> ('w, unit) io"

text \<open>A deferred call runs when its function returns, and its error is dropped.\<close>

definition deferred :: "('w, unit) io \<Rightarrow> ('w \<Rightarrow> 'r \<times> 'w) \<Rightarrow> 'w \<Rightarrow> 'r \<times> 'w" where
  "deferred f body w = (case body w of (r, w) \<Rightarrow> (r, snd (f w)))"

text \<open>The error of \<open>checkXFS\<close> comes with whether it is \<^verbatim>\<open>errMountFailed\<close>.\<close>

definition checkXFS :: "'w loop_sys \<Rightarrow> bool \<Rightarrow> 'w \<Rightarrow> (bool \<times> error + unit) \<times> 'w" where
  "checkXFS H rl w =
     call (MkdirTemp H w) (\<lambda>err w. (Inl (False, err), w))
       (\<lambda>mountPoint. deferred (os_Remove H mountPoint)
          (\<lambda>w. call (CreateTemp H w) (\<lambda>err w. (Inl (False, err), w))
             (\<lambda>file. deferred (os_Remove H file)
                (\<lambda>w. call (os_Truncate H file w) (\<lambda>err w. (Inl (False, err), w))
                   (\<lambda>_ w. call (xfs_MakeFS H file rl w) (\<lambda>err w. (Inl (False, err), w))
                      (\<lambda>_ w. call (losetup_Attach H file w) (\<lambda>err w. (Inl (False, err), w))
                         (\<lambda>loopDevice. deferred (loop_Detach H loopDevice)
                            (\<lambda>w. call (loop_Mount H loopDevice mountPoint w) (\<lambda>err w. (Inl (True, err), w))
                               (\<lambda>_ w. call (loop_Unmount H mountPoint w) (\<lambda>err w. (Inl (False, err), w)) (\<lambda>_ w. (Inr (), w)))))))))))"

definition reflinkSupported :: "'w loop_sys \<Rightarrow> 'w \<Rightarrow> (bool \<times> error option) \<times> 'w" where
  "reflinkSupported H w =
     call (checkXFS H True w)
       (\<lambda>(mountFailed, err) w.
          if \<not> mountFailed then ((False, Some err), w)
          else call (checkXFS H False w) (\<lambda>(_, err) w. ((False, Some err), w)) (\<lambda>_ w. ((False, None), w)))
       (\<lambda>_ w. ((True, None), w))"

text \<open>Temporary files, attached loop devices and mounts. Unmounting a mounted path, detaching an unmounted device and removing an
  unmounted path do not fail.\<close>

record loop_state =
  temps :: "string set"
  loops :: "string set"
  loop_mounts :: "(string \<times> string) set"

locale loop_host =
  fixes H :: "'w loop_sys" and st :: "'w \<Rightarrow> loop_state"
  assumes mkdirTemp: "MkdirTemp H w = (r, w') \<Longrightarrow> (case r of Inl e \<Rightarrow> st w' = st w | Inr p \<Rightarrow>
        p \<notin> temps (st w) \<and> p \<notin> snd ` loop_mounts (st w) \<and> st w' = (st w)\<lparr>temps := insert p (temps (st w))\<rparr>)"
    and createTemp: "CreateTemp H w = (r, w') \<Longrightarrow> (case r of Inl e \<Rightarrow> st w' = st w | Inr p \<Rightarrow>
        p \<notin> temps (st w) \<and> p \<notin> snd ` loop_mounts (st w) \<and> st w' = (st w)\<lparr>temps := insert p (temps (st w))\<rparr>)"
    and remove: "p \<notin> snd ` loop_mounts (st w) \<Longrightarrow> st (snd (os_Remove H p w)) = (st w)\<lparr>temps := temps (st w) - {p}\<rparr>"
    and truncate: "os_Truncate H p w = (ru, w') \<Longrightarrow> st w' = st w"
    and makeFS: "xfs_MakeFS H p b w = (ru, w') \<Longrightarrow> st w' = st w"
    and attach: "losetup_Attach H p w = (r, w') \<Longrightarrow> (case r of Inl e \<Rightarrow> st w' = st w | Inr d \<Rightarrow>
        d \<notin> loops (st w) \<and> d \<notin> fst ` loop_mounts (st w) \<and> st w' = (st w)\<lparr>loops := insert d (loops (st w))\<rparr>)"
    and detach: "d \<notin> fst ` loop_mounts (st w) \<Longrightarrow> st (snd (loop_Detach H d w)) = (st w)\<lparr>loops := loops (st w) - {d}\<rparr>"
    and mount: "loop_Mount H d p w = (ru, w') \<Longrightarrow> (case ru of Inl e \<Rightarrow> st w' = st w | Inr u \<Rightarrow>
        st w' = (st w)\<lparr>loop_mounts := insert (d, p) (loop_mounts (st w))\<rparr>)"
    and unmount: "p \<in> snd ` loop_mounts (st w) \<Longrightarrow> loop_Unmount H p w = (ru, w') \<Longrightarrow> ru = Inr () \<and>
        st w' = (st w)\<lparr>loop_mounts := {m \<in> loop_mounts (st w). snd m \<noteq> p}\<rparr>"
begin

lemma deferred_restores:
  assumes "deferred f body w = (r, w')" and "\<And>r v. body w = (r, v) \<Longrightarrow> st v = s" and "\<And>v. st v = s \<Longrightarrow> st (snd (f v)) = s'"
  shows "st w' = s'"
  using assms by (auto simp: deferred_def split: prod.splits)

lemma mount_restores:
  assumes "call (loop_Mount H d p w) (\<lambda>err w. (Inl (True, err), w))
      (\<lambda>_ w. call (loop_Unmount H p w) (\<lambda>err w. (Inl (False, err), w)) (\<lambda>_ w. (Inr (), w))) = (r :: bool \<times> error + unit, w')"
    and "p \<notin> snd ` loop_mounts (st w)"
  shows "st w' = st w"
proof -
  obtain m w1 where m: "loop_Mount H d p w = (m, w1)" by fastforce
  obtain u w2 where u: "loop_Unmount H p w1 = (u, w2)" by fastforce
  show ?thesis
  proof (cases m)
    case (Inr x)
    then have s1: "st w1 = (st w)\<lparr>loop_mounts := insert (d, p) (loop_mounts (st w))\<rparr>" using mount [OF m] by simp
    then have "p \<in> snd ` loop_mounts (st w1)" by simp
    from unmount [OF this u] have "u = Inr ()" "st w2 = (st w1)\<lparr>loop_mounts := {m \<in> loop_mounts (st w1). snd m \<noteq> p}\<rparr>" by simp_all
    moreover have "{m \<in> insert (d, p) (loop_mounts (st w)). snd m \<noteq> p} = loop_mounts (st w)" using assms(2) by auto
    ultimately show ?thesis using assms(1) m u Inr s1 by simp
  qed (use assms(1) m mount [OF m] in auto)
qed

lemma attach_restores:
  assumes "call (losetup_Attach H file w) (\<lambda>err w. (Inl (False, err), w))
      (\<lambda>d. deferred (loop_Detach H d) (\<lambda>w. call (loop_Mount H d p w) (\<lambda>err w. (Inl (True, err), w))
         (\<lambda>_ w. call (loop_Unmount H p w) (\<lambda>err w. (Inl (False, err), w)) (\<lambda>_ w. (Inr (), w))))) = (r :: bool \<times> error + unit, w')"
    and "p \<notin> snd ` loop_mounts (st w)"
  shows "st w' = st w"
  using assms(1)
proof (cases rule: callE)
  case (ok d w1)
  have s1: "d \<notin> loops (st w)" "d \<notin> fst ` loop_mounts (st w)" "st w1 = (st w)\<lparr>loops := insert d (loops (st w))\<rparr>"
    using attach [OF ok(1)] by simp_all
  show ?thesis
  proof (rule deferred_restores [OF ok(2), where s = "st w1"])
    fix r v
    assume "call (loop_Mount H d p w1) (\<lambda>err w. (Inl (True, err), w))
      (\<lambda>_ w. call (loop_Unmount H p w) (\<lambda>err w. (Inl (False, err), w)) (\<lambda>_ w. (Inr (), w))) = (r :: bool \<times> error + unit, v)"
    then show "st v = st w1" by (rule mount_restores) (simp add: s1 assms(2))
  next
    fix v
    assume "st v = st w1"
    then show "st (snd (loop_Detach H d v)) = st w" using detach [of d v] s1 by simp
  qed
next
  case (err e w1)
  then show ?thesis using attach [OF err(1)] by simp
qed

lemma temp_restores:
  assumes "deferred (os_Remove H p) body w1 = (r, w')" and "st w1 = (st w)\<lparr>temps := insert p (temps (st w))\<rparr>"
    and "p \<notin> temps (st w)" "p \<notin> snd ` loop_mounts (st w)" and "\<And>r v. body w1 = (r, v) \<Longrightarrow> st v = st w1"
  shows "st w' = st w"
proof (rule deferred_restores [OF assms(1)])
  show "body w1 = (r, v) \<Longrightarrow> st v = st w1" for r v by (rule assms(5))
  show "st v = st w1 \<Longrightarrow> st (snd (os_Remove H p v)) = st w" for v using remove [of p v] assms(2-4) by simp
qed

lemma file_restores:
  assumes "call (os_Truncate H f w) (\<lambda>err w. (Inl (False, err), w))
      (\<lambda>_ w. call (xfs_MakeFS H f rl w) (\<lambda>err w. (Inl (False, err), w)) (\<lambda>_ w. k w)) = (r :: bool \<times> error + unit, w')"
    and "\<And>v r v'. st v = st w \<Longrightarrow> k v = (r, v') \<Longrightarrow> st v' = st v"
  shows "st w' = st w"
proof -
  obtain t w1 where t: "os_Truncate H f w = (t, w1)" by fastforce
  obtain m w2 where m: "xfs_MakeFS H f rl w1 = (m, w2)" by fastforce
  have s: "st w1 = st w" "st w2 = st w" using truncate [OF t] makeFS [OF m] by simp_all
  have k: "st w' = st w" if "k w2 = (r, w')" using assms(2) [OF s(2) that] s(2) by simp
  show ?thesis
  proof (cases t)
    case (Inr u)
    then show ?thesis using assms(1) t m s(2) k by (cases m) auto
  qed (use assms(1) t s(1) in auto)
qed

lemma checkXFS_restores:
  assumes "checkXFS H rl w = (r, w')"
  shows "st w' = st w"
  using assms unfolding checkXFS_def
proof (cases rule: callE)
  case (ok p w1)
  have s1: "p \<notin> temps (st w)" "p \<notin> snd ` loop_mounts (st w)" "st w1 = (st w)\<lparr>temps := insert p (temps (st w))\<rparr>"
    using mkdirTemp [OF ok(1)] by simp_all
  show ?thesis
  proof (rule temp_restores [OF ok(2) s1(3,1,2)], erule callE)
    fix r v e w2
    assume "CreateTemp H w1 = (Inl e, w2)" "(Inl (False, e), w2) = (r :: bool \<times> error + unit, v)"
    then show "st v = st w1" using createTemp [of w1 "Inl e" w2] by simp
  next
    fix r v f w2
    assume c: "CreateTemp H w1 = (Inr f, w2)"
      and run: "deferred (os_Remove H f)
           (\<lambda>w. call (os_Truncate H f w) (\<lambda>err w. (Inl (False, err), w))
              (\<lambda>_ w. call (xfs_MakeFS H f rl w) (\<lambda>err w. (Inl (False, err), w))
                 (\<lambda>_ w. call (losetup_Attach H f w) (\<lambda>err w. (Inl (False, err), w))
                    (\<lambda>d. deferred (loop_Detach H d) (\<lambda>w. call (loop_Mount H d p w) (\<lambda>err w. (Inl (True, err), w))
                       (\<lambda>_ w. call (loop_Unmount H p w) (\<lambda>err w. (Inl (False, err), w)) (\<lambda>_ w. (Inr (), w)))))))) w2 = (r, v)"
    have s2: "f \<notin> temps (st w1)" "f \<notin> snd ` loop_mounts (st w1)" "st w2 = (st w1)\<lparr>temps := insert f (temps (st w1))\<rparr>"
      using createTemp [OF c] by simp_all
    show "st v = st w1"
    proof (rule temp_restores [OF run s2(3,1,2)], erule file_restores)
      fix u r v'
      assume "st u = st w2" "call (losetup_Attach H f u) (\<lambda>err w. (Inl (False, err), w))
          (\<lambda>d. deferred (loop_Detach H d) (\<lambda>w. call (loop_Mount H d p w) (\<lambda>err w. (Inl (True, err), w))
             (\<lambda>_ w. call (loop_Unmount H p w) (\<lambda>err w. (Inl (False, err), w)) (\<lambda>_ w. (Inr (), w))))) = (r :: bool \<times> error + unit, v')"
      then show "st v' = st u" using attach_restores [of f u p r v'] s1 s2 by simp
    qed
  qed
next
  case (err e w1)
  then show ?thesis using mkdirTemp [OF err(1)] by simp
qed

end

text \<open>
  The test of reflink support leaves nothing behind: however it ends, the temporary files, the attached loop devices and the
  mounts are the ones of before. It answers yes exactly when the check with reflink succeeds, and no without an error exactly when that
  check fails to mount and the check without reflink succeeds.
\<close>

theorem reflinkSupported_restores:
  assumes "loop_host H st" and "reflinkSupported H w = ((supported, err), w')"
  shows "st w' = st w \<and>
    (supported \<longleftrightarrow> (\<exists>u w1. checkXFS H True w = (Inr u, w1))) \<and> (supported \<longrightarrow> err = None) \<and>
    (\<not> supported \<and> err = None \<longleftrightarrow> (\<exists>e w1 u. checkXFS H True w = (Inl (True, e), w1) \<and> checkXFS H False w1 = (Inr u, w')))"
proof -
  obtain c w1 where c: "checkXFS H True w = (c, w1)" by fastforce
  obtain c' w2 where c': "checkXFS H False w1 = (c', w2)" by fastforce
  have "st w1 = st w" "st w2 = st w1" using loop_host.checkXFS_restores [OF assms(1)] c c' by blast+
  then show ?thesis
    using assms(2) c c' by (cases c; cases c') (auto simp: reflinkSupported_def split: if_splits)
qed

definition sample_loops :: "bool \<Rightarrow> loop_state loop_sys" where
  "sample_loops ok =
     \<lparr> MkdirTemp = (\<lambda>w. if ''/tmp/mnt'' \<in> temps w \<union> snd ` loop_mounts w then (Inl ErrExist, w) else (Inr ''/tmp/mnt'', w\<lparr>temps := insert ''/tmp/mnt'' (temps w)\<rparr>)),
       CreateTemp = (\<lambda>w. if ''/tmp/file'' \<in> temps w \<union> snd ` loop_mounts w then (Inl ErrExist, w) else (Inr ''/tmp/file'', w\<lparr>temps := insert ''/tmp/file'' (temps w)\<rparr>)),
       os_Remove = (\<lambda>p w. if p \<in> snd ` loop_mounts w then (Inl ErrExist, w) else (Inr (), w\<lparr>temps := temps w - {p}\<rparr>)),
       os_Truncate = (\<lambda>p w. (Inr (), w)),
       xfs_MakeFS = (\<lambda>p b w. (Inr (), w)),
       losetup_Attach = (\<lambda>p w. if ''/dev/loop0'' \<in> loops w \<union> fst ` loop_mounts w then (Inl ErrExist, w)
          else (Inr ''/dev/loop0'', w\<lparr>loops := insert ''/dev/loop0'' (loops w)\<rparr>)),
       loop_Detach = (\<lambda>d w. if d \<in> fst ` loop_mounts w then (Inl ErrExist, w) else (Inr (), w\<lparr>loops := loops w - {d}\<rparr>)),
       loop_Mount = (\<lambda>d p w. if ok then (Inr (), w\<lparr>loop_mounts := insert (d, p) (loop_mounts w)\<rparr>) else (Inl (Errno (EOther 22)), w)),
       loop_Unmount = (\<lambda>p w. (Inr (), w\<lparr>loop_mounts := Set.filter (\<lambda>m. snd m \<noteq> p) (loop_mounts w)\<rparr>)) \<rparr>"

interpretation sample_loop: loop_host "sample_loops ok" id for ok
  by unfold_locales (auto simp: sample_loops_def split: if_splits sum.splits)

theorem reflinkSupported_restores_witness:
  "\<exists>w'. reflinkSupported (sample_loops True) \<lparr> temps = {}, loops = {}, loop_mounts = {} \<rparr> = ((True, None), w') \<and>
     w' = \<lparr> temps = {}, loops = {}, loop_mounts = {} \<rparr>"
proof -
  have "fst (reflinkSupported (sample_loops True) \<lparr> temps = {}, loops = {}, loop_mounts = {} \<rparr>) = (True, None)" by code_simp
  then obtain w' where r: "reflinkSupported (sample_loops True) \<lparr> temps = {}, loops = {}, loop_mounts = {} \<rparr> = ((True, None), w')"
    by (metis prod.collapse)
  then show ?thesis using reflinkSupported_restores [OF sample_loop.loop_host_axioms, OF r] by simp
qed

end
