(* ===== verification/Spec2Isabelle.thy ===== *)
theory Spec2Isabelle
  imports Event_Controller Admin_Correct Drive_Repair Xfs Ellipsis Discovery Migration Dynamic Cli Operations
begin

text \<open>
  A verification library for DirectPV, the CSI driver that provisions persistent volumes on local
  drives of a Kubernetes cluster.

  \<^bold>\<open>The program.\<close> Its state is a set of custom resources in the Kubernetes API server
  (drives, volumes, nodes, initialisation requests) and, on each node, file systems and mounts. A drive
  records its total, free and allocated capacity and, as finalizers, the volumes on it; a volume records
  its capacity and, by label, its drive. The CSI controller service chooses a drive for a volume and
  reserves capacity; the CSI node service stages and publishes the volume on the node of the drive; the
  volume controller gives capacity back when a volume is deleted; the drive controller removes, moves
  and checks drives; the administration commands change many objects at once; device probing and
  initialisation turn block devices into drives; discovery asks the nodes for their devices, and the
  migration takes over the drives and volumes of the predecessor DirectCSI. The services share no memory: they meet in the API
  server, where every write carries the version it was based on.

  \<^bold>\<open>Conventions.\<close> A Go call that may fail and may change the outside world is a function from
  a world to an error or a value and a world (\<open>Prelude.io\<close>, \<open>call\<close>). Panics are
  errors. Structs are records, Go maps are HOL maps or association lists with distinct keys, strings are
  lists of bytes, \<^verbatim>\<open>int64\<close> is \<open>int\<close> with \<open>i64\<close> at every operation
  that may wrap, \<^verbatim>\<open>uint64\<close> is \<open>int\<close> with \<open>u64\<close> or, where the
  wrap-around decides termination (\<open>Ellipsis\<close>), a word of 64 bits. Log lines, Kubernetes
  events and traces are left out. The API server, the clock, the retry helper of client-go, the label
  syntax check, file and mount calls and external programs are not part of the repository and are
  arguments of the definitions, collected in the records \<open>lib\<close>, \<open>client\<close>,
  \<open>env\<close>, \<open>probe_env\<close> and \<open>init_env\<close>, each of which extends the one before.
  What the code relies on is stated as locales (\<open>object_api\<close>, \<open>cluster\<close>,
  \<open>host_cluster\<close>, \<open>node_mounts\<close>, \<open>probe_frame\<close>, \<open>probe_cluster\<close>,
  \<open>init_cluster\<close>, \<open>quota_host\<close>, \<open>discovery\<close>, \<open>node_host\<close>, \<open>migration\<close>,
  \<open>resource_server\<close>, \<open>encoding\<close>, \<open>job_server\<close>, \<open>loop_host\<close>); they are interpreted on a reference store and host
  (\<open>store_client\<close>, \<open>store_env\<close>, \<open>store_probe\<close>, \<open>store_init\<close>),
  on which the witnesses run.

  \<^bold>\<open>Theories, and the code they model\<close> (paths below \<^verbatim>\<open>src/pkg\<close>):

  \<^item> \<open>Prelude\<close>, \<open>GoStd\<close>, \<open>Utils\<close>: errors and their chains, calls on a
    world, 64-bit arithmetic, the parts of Go's \<^verbatim>\<open>strings\<close>, \<^verbatim>\<open>strconv\<close>
    and \<^verbatim>\<open>path\<close> the sources use, \<^verbatim>\<open>utils/utils.go\<close>.
  \<^item> \<open>Labels\<close>, \<open>Objects\<close>, \<open>NodeObjects\<close>:
    \<^verbatim>\<open>consts\<close>, \<^verbatim>\<open>apis/.../types\<close> and the methods of the custom
    resources in \<^verbatim>\<open>apis/.../v1beta1\<close>. Finalizers and labels behave as sets and maps of
    volumes and claims; the error condition set last is the one reported.
  \<^item> \<open>Api\<close>, \<open>Lister\<close>: the contract of the API server and the listers of
    \<^verbatim>\<open>client\<close>, which return exactly the objects asked for across pages and by name.
    \<open>pageFuel\<close> bounds the pages a list loop reads; the completeness theorem takes a server that
    delivers its items in that many pages, and running out is an explicit error.
  \<^item> \<open>Mounts\<close>, \<open>Host\<close>: the mount table of \<^verbatim>\<open>sys\<close> (parser, index,
    filters as a refinement of sets), mount and unmount, paths of \<^verbatim>\<open>types/types.go\<close>.
  \<^item> \<open>Csi_Controller\<close>: \<^verbatim>\<open>csi/controller\<close>: drive selection, CreateVolume,
    DeleteVolume, ControllerExpandVolume on every branch; their effect on the accounts of a drive.
  \<^item> \<open>Volume_Controller\<close>, \<open>Drive_Controller\<close>: \<^verbatim>\<open>volume/event.go\<close>,
    \<^verbatim>\<open>drive/event.go\<close>: release of a deleted volume, staging, unmounting, removal and move
    of drives; the drive states as a transition relation.
  \<^item> \<open>Csi_Node\<close>: \<^verbatim>\<open>csi/node\<close>: stage, publish, unpublish, unstage, expand, and the
    round trip through all of them.
  \<^item> \<open>Ledger\<close>: the abstract accounts of a cluster, a refinement of every request and volume
    event to them, and the invariant of all reachable states.
  \<^item> \<open>Event_Controller\<close>: \<^verbatim>\<open>controller/controller.go\<close>: the work queue and the
    workers as a step relation over any number of threads; exclusion per object, no lost event, and the
    ledger invariant under every interleaving of workers.
  \<^item> \<open>Admin\<close>, \<open>Admin_Loops\<close>, \<open>Admin_Correct\<close>: the commands of
    \<^verbatim>\<open>admin\<close> that change drives and volumes. A loop over a lister writes objects that may
    be stale; the theories show what can change whatever fails in between.
  \<^item> \<open>Devices\<close>, \<open>Device_Sync\<close>: \<^verbatim>\<open>device\<close> and \<^verbatim>\<open>node\<close>:
    probing from udev, sysfs and procfs, eligibility of devices, matching drives with devices.
  \<^item> \<open>Init_Request\<close>: \<^verbatim>\<open>initrequest/event.go\<close>: which devices are formatted, and the
    drives that are registered.
  \<^item> \<open>Drive_Repair\<close>: \<^verbatim>\<open>drive/repair.go\<close> and \<^verbatim>\<open>cmd/directpv/repair.go\<close>:
    the repair job and its log; what it may change, and that a failed repair leaves the drive under repair.
  \<^item> \<open>Xfs\<close>: \<^verbatim>\<open>xfs\<close>: the superblock reader as the inverse of the layout on disk,
    the arguments of mkfs.xfs and xfs_repair, project quotas in blocks of 512 bytes.
  \<^item> \<open>Ellipsis\<close>: \<^verbatim>\<open>ellipsis/ellipsis.go\<close>: the pattern parser and the expansion
    loop as a partial function, equal to the product of the ranges where it returns, with its termination
    and the input on which it does not return.
  \<^item> \<open>Discovery\<close>: \<^verbatim>\<open>k8s/client.go\<close> (GetCSINodes), \<^verbatim>\<open>client/discovery.go\<close>,
    \<^verbatim>\<open>node/event.go\<close>, \<^verbatim>\<open>admin/refresh.go\<close>, \<^verbatim>\<open>admin/init_config.go\<close>, the watches of the
    listers and the waiting loops of the commands \<^verbatim>\<open>discover\<close> and \<^verbatim>\<open>init\<close>: node objects follow
    the CSI nodes, a refresh is answered with the probed devices, and what is discovered can be initialised. The events of a watch are a
    list, which the deadline ends.
  \<^item> \<open>Migration\<close>: \<^verbatim>\<open>admin/installer/migrate.go\<close>, \<^verbatim>\<open>admin/migrate.go\<close>,
    \<^verbatim>\<open>legacy/client\<close>: drives and volumes of the predecessor become drives and volumes with balanced accounts; no
    existing object changes.
  \<^item> \<open>Dynamic\<close>: \<^verbatim>\<open>client/dynamic.go\<close>, \<^verbatim>\<open>converter\<close>: the typed clients over the
    dynamic interface. They keep the contract \<open>cluster\<close> the other theories assume of their client, given an API
    server that keeps it for encoded objects.
  \<^item> \<open>Cli\<close>: \<^verbatim>\<open>cmd/kubectl-directpv\<close>: flags, their checks, and the commands over
    \<open>Admin\<close>: what a dry run and a missing selection guarantee.
  \<^item> \<open>Metrics\<close>: \<^verbatim>\<open>metrics/collector.go\<close>: what is reported of volumes and drives, and that reporting
    changes nothing.
  \<^item> \<open>Operations\<close>: \<^verbatim>\<open>k8s/k8s.go\<close>, \<^verbatim>\<open>admin/info.go\<close>, \<^verbatim>\<open>admin/repair.go\<close>,
    \<^verbatim>\<open>csi/identity\<close>, \<^verbatim>\<open>initrequest/reflink_linux.go\<close>: parsers of the installation flags, totals, repair
    jobs, and the reflink test with the clean-up of its resources.

  \<^bold>\<open>Loops.\<close> Loops over lists are structural recursion. The list loops of the listers and of
  the legacy client take fuel as above. \<^verbatim>\<open>ellipsis.expand\<close> may run forever and is a partial function in the option type.
  \<^verbatim>\<open>retry.RetryOnConflict\<close> is any finite number of attempts, of which all but the last end
  in a conflict (\<open>retried\<close>).

  \<^bold>\<open>Not modelled.\<close> The list-watch configuration of the controllers hands on what client-go delivers.
  Interleavings finer than a handler call are covered for the work queue, where a handler step is one step; two handlers on different
  machines meet only in the versions of objects. The converters between legacy API versions and the servers that forward legacy
  requests, generated code, the tasks of the installer other than the migration (they apply and delete manifests), the
  metrics server, and tables and usage texts of the command-line tools are outside the model. External programs
  (mkfs.xfs, xfs_repair), quota system calls and SHA-256 are parameters.
\<close>

end
